(* ===== verification/Gateway_Prelude.thy ===== *)
theory Gateway_Prelude
  imports
    Main
    "HOL-Library.Word"
    "HOL-Library.Char_ord"
    "HOL-Library.List_Lexorder"
    "HOL-Library.Product_Lexorder"
begin

text \<open>
  Shared vocabulary of the development: the machine integers of the Rust sources, results
  (\<open>Result<T, E>\<close> is \<open>'e + 'a\<close> with \<open>Inl\<close> for \<open>Err\<close>), the ordered map that stands for
  \<open>std::collections::BTreeMap\<close>, the byte-string tests that the message validators share, and
  the two interface locales that several components implement: an invariant carried by a step
  function, and a ledger that dispatches every key at most once.
\<close>

section \<open>Machine integers and results\<close>

type_synonym u8 = "8 word"
type_synonym u16 = "16 word"
type_synonym u64 = "64 word"

named_theorems ordmap "equations of the ordered map and of its derived operations"
named_theorems checks "when a chain of fallible checks succeeds"

text \<open>Rust's \<open>u64::saturating_add\<close> and \<open>u64::checked_add\<close>.\<close>

definition saturating_add_u64 :: "u64 \<Rightarrow> u64 \<Rightarrow> u64" where
  "saturating_add_u64 a b = (if unat a + unat b < 2 ^ 64 then a + b else - 1)"

definition checked_add_u64 :: "u64 \<Rightarrow> u64 \<Rightarrow> u64 option" where
  "checked_add_u64 a b = (if unat a + unat b < 2 ^ 64 then Some (a + b) else None)"

lemma unat_add_u64: "unat a + unat b < 2 ^ 64 \<Longrightarrow> unat (a + b) = unat a + unat b" for a b :: u64
  by (simp add: unat_word_ariths)

lemma unat_saturating_add_u64:
  "unat (saturating_add_u64 a b) = min (unat a + unat b) (2 ^ 64 - 1)"
  by (auto simp: saturating_add_u64_def unat_add_u64 unsigned_minus_1_eq_mask mask_eq_exp_minus_1)

lemma saturating_add_u64_mono: "a \<le> c \<Longrightarrow> saturating_add_u64 a b \<le> saturating_add_u64 c b"
  by (auto simp: word_le_nat_alt unat_saturating_add_u64)

lemma saturating_add_u64_ge: "a \<le> saturating_add_u64 a b"
  using unsigned_less [of a, where 'a = nat]
  by (auto simp: word_le_nat_alt unat_saturating_add_u64 min_def)

lemma checked_add_u64_Some:
  "checked_add_u64 a b = Some c \<Longrightarrow> unat c = unat a + unat b"
  by (auto simp: checked_add_u64_def unat_add_u64 split: if_splits)

lemma checked_add_u64_less: "checked_add_u64 a 1 = Some c \<Longrightarrow> a < c"
  by (drule checked_add_u64_Some) (simp add: word_less_nat_alt)

lemma checked_add_u64_None_iff: "checked_add_u64 a 1 = None \<longleftrightarrow> a = - 1"
  using unsigned_less [of a, where 'a = nat]
  by (auto simp: checked_add_u64_def word_unat_eq_iff unsigned_minus_1_eq_mask
      mask_eq_exp_minus_1)

lemma checked_add_u64_code [code]: "checked_add_u64 a b = (if a \<le> a + b then Some (a + b) else None)"
  by (auto simp: checked_add_u64_def no_olen_add_nat)

text \<open>Error tests on results, and \<open>?\<close> on a result without payload.\<close>

definition is_err :: "'e + 'a \<Rightarrow> bool" where
  "is_err r = (case r of Inl _ \<Rightarrow> True | Inr _ \<Rightarrow> False)"

lemma is_err_simps [simp]: "is_err (Inl e)" "\<not> is_err (Inr a)"
  by (simp_all add: is_err_def)

lemma not_is_err_unit: "\<not> is_err r \<longleftrightarrow> r = Inr ()"
  by (cases r) auto

definition and_then :: "'e + 'a \<Rightarrow> ('a \<Rightarrow> 'e + 'b) \<Rightarrow> 'e + 'b" where
  "and_then r k = (case r of Inl e \<Rightarrow> Inl e | Inr a \<Rightarrow> k a)"

definition map_err :: "('e \<Rightarrow> 'f) \<Rightarrow> 'e + 'a \<Rightarrow> 'f + 'a" where
  "map_err f r = (case r of Inl e \<Rightarrow> Inl (f e) | Inr a \<Rightarrow> Inr a)"

lemma and_then_simps [simp]: "and_then (Inl e) k = Inl e" "and_then (Inr a) k = k a"
  by (simp_all add: and_then_def)

lemma and_then_eq_Inr [checks]: "and_then r k = Inr b \<longleftrightarrow> (\<exists>a. r = Inr a \<and> k a = Inr b)"
  by (cases r) auto

lemma map_err_simps [simp]: "map_err f (Inl e) = Inl (f e)" "map_err f (Inr a) = Inr a"
  by (simp_all add: map_err_def)

lemma map_err_eq_Inr [simp]: "map_err f r = Inr a \<longleftrightarrow> r = Inr a"
  by (cases r) auto

lemma is_err_map_err [simp]: "is_err (map_err f r) = is_err r"
  by (cases r) auto

text \<open>
  Checks without payload: \<open>if !b { return Err(e) }\<close>, a check of an optional field
  (\<open>if let Some(v) = &field { check(v)?; }\<close>), a loop of checks over an array, and \<open>ok_or\<close>.
\<close>

definition ensure :: "bool \<Rightarrow> 'e \<Rightarrow> 'e + unit" where
  "ensure b e = (if b then Inr () else Inl e)"

definition check_option :: "('a \<Rightarrow> 'e + unit) \<Rightarrow> 'a option \<Rightarrow> 'e + unit" where
  "check_option f v = (case v of None \<Rightarrow> Inr () | Some a \<Rightarrow> f a)"

primrec check_each :: "('a \<Rightarrow> 'e + unit) \<Rightarrow> 'a list \<Rightarrow> 'e + unit" where
  "check_each f [] = Inr ()"
| "check_each f (a # as) = and_then (f a) (\<lambda>_. check_each f as)"

definition ok_or :: "'a option \<Rightarrow> 'e \<Rightarrow> 'e + 'a" where
  "ok_or v e = (case v of None \<Rightarrow> Inl e | Some a \<Rightarrow> Inr a)"

lemma ensure_Inr [simp, checks]: "ensure b e = Inr u \<longleftrightarrow> b"
  by (simp add: ensure_def)

lemma is_err_ensure [simp]: "is_err (ensure b e) \<longleftrightarrow> \<not> b"
  by (simp add: ensure_def)

lemma check_option_Inr [checks]: "check_option f v = Inr u \<longleftrightarrow> (\<forall>a. v = Some a \<longrightarrow> f a = Inr ())"
  by (auto simp: check_option_def split: option.splits)

lemma check_option_simps [simp]: "check_option f None = Inr ()" "check_option f (Some a) = f a"
  by (simp_all add: check_option_def)

lemma check_each_Inr [checks]: "check_each f as = Inr u \<longleftrightarrow> (\<forall>a\<in>set as. f a = Inr ())"
  by (induction as) (auto simp: and_then_eq_Inr)

lemma ok_or_simps [simp]: "ok_or None e = Inl e" "ok_or (Some a) e = Inr a"
  by (simp_all add: ok_or_def)

lemma ok_or_Inr [simp, checks]: "ok_or v e = Inr a \<longleftrightarrow> v = Some a"
  by (cases v) auto

section \<open>Ordered maps\<close>

text \<open>
  The contract of an ordered map, as the components use it: point lookups, insertion and removal,
  and iteration in ascending key order.
\<close>

locale ordered_map =
  fixes emp :: 'm
    and ins :: "'k::linorder \<Rightarrow> 'v \<Rightarrow> 'm \<Rightarrow> 'm"
    and del :: "'k \<Rightarrow> 'm \<Rightarrow> 'm"
    and get :: "'m \<Rightarrow> 'k \<Rightarrow> 'v option"
    and entries :: "'m \<Rightarrow> ('k \<times> 'v) list"
  assumes get_emp: "get emp k = None"
    and get_ins: "get (ins k v m) k' = (if k' = k then Some v else get m k')"
    and get_del: "get (del k m) k' = (if k' = k then None else get m k')"
    and entries_sorted: "sorted_wrt (<) (map fst (entries m))"
    and entries_get: "(k, v) \<in> set (entries m) \<longleftrightarrow> get m k = Some v"
    and ext: "(\<And>k. get m k = get n k) \<Longrightarrow> m = n"
begin

lemma entries_distinct_keys: "distinct (map fst (entries m))"
  using entries_sorted [of m] by (simp add: strict_sorted_iff)

lemma set_keys: "set (map fst (entries m)) = dom (get m)"
  using entries_get [where m = m] by (force simp: dom_def)

lemma finite_dom: "finite (dom (get m))"
  by (simp flip: set_keys)

lemma length_entries: "length (entries m) = card (dom (get m))"
  using distinct_card [OF entries_distinct_keys [of m]] by (simp add: set_keys del: set_map)

lemma set_values: "v \<in> snd ` set (entries m) \<longleftrightarrow> (\<exists>k. get m k = Some v)"
  by (force simp flip: entries_get)

lemma entries_emp: "entries emp = []"
  using length_entries [of emp] by (simp add: get_emp dom_def)

lemma length_ins:
  "length (entries (ins k v m)) =
     (if get m k = None then Suc (length (entries m)) else length (entries m))"
proof -
  have dom_eq: "dom (get (ins k v m)) = insert k (dom (get m))"
    by (auto simp: get_ins dom_def split: if_splits)
  show ?thesis
    using finite_dom [of m] by (auto simp: length_entries dom_eq insert_absorb domIff domI)
qed

lemma length_del:
  "length (entries (del k m)) =
     (if get m k = None then length (entries m) else length (entries m) - 1)"
proof -
  have "dom (get (del k m)) = dom (get m) - {k}"
    by (auto simp: get_del dom_def split: if_splits)
  then show ?thesis
    using finite_dom [of m] by (auto simp: length_entries domIff)
qed

lemma del_ins_fresh: "get m k = None \<Longrightarrow> del k (ins k v m) = m"
  by (rule ext) (simp add: get_ins get_del)

lemma ins_ins: "ins k v (ins k w m) = ins k v m"
  by (rule ext) (simp add: get_ins)

lemma ins_same: "get m k = Some v \<Longrightarrow> ins k v m = m"
  by (rule ext) (simp add: get_ins)

end

text \<open>
  The model of \<open>BTreeMap\<close>: association lists with strictly ascending keys.
\<close>

typedef (overloaded) ('k::linorder, 'v) bmap = "{xs :: ('k \<times> 'v) list. sorted_wrt (<) (map fst xs)}"
  morphisms bm_entries Abs_bmap
  by (rule exI [of _ "[]"]) simp

setup_lifting type_definition_bmap

fun alist_ins :: "'k::linorder \<Rightarrow> 'v \<Rightarrow> ('k \<times> 'v) list \<Rightarrow> ('k \<times> 'v) list" where
  "alist_ins k v [] = [(k, v)]"
| "alist_ins k v ((k', v') # xs) =
     (if k < k' then (k, v) # (k', v') # xs
      else if k = k' then (k, v) # xs
      else (k', v') # alist_ins k v xs)"

lemma fst_alist_ins: "fst ` set (alist_ins k v xs) = insert k (fst ` set xs)"
proof (induction xs)
  case (Cons x xs)
  obtain a b where "x = (a, b)" by (cases x)
  with Cons show ?case by (simp add: insert_commute)
qed simp

lemma sorted_alist_ins:
  "sorted_wrt (<) (map fst xs) \<Longrightarrow> sorted_wrt (<) (map fst (alist_ins k v xs))"
proof (induction xs)
  case (Cons x xs)
  then show ?case
    by (cases x) (auto simp: fst_alist_ins ball_Un dest: order.strict_trans)
qed simp

lemma map_of_alist_ins: "map_of (alist_ins k v xs) = (map_of xs)(k \<mapsto> v)"
  by (induction xs) (auto simp: fun_eq_iff)

lemma map_of_filter_key:
  "map_of (filter (\<lambda>p. fst p \<noteq> k) xs) k' = (if k' = k then None else map_of xs k')"
  by (induction xs) auto

lemma sorted_alist_ext:
  fixes xs ys :: "('k::linorder \<times> 'v) list"
  assumes "sorted_wrt (<) (map fst xs)" and "sorted_wrt (<) (map fst ys)"
    and "map_of xs = map_of ys"
  shows "xs = ys"
proof -
  have "set (map fst xs) = set (map fst ys)"
    using assms(3) by (metis dom_map_of_conv_image_fst list.set_map)
  then have keys: "map fst xs = map fst ys"
    using assms(1,2) by (intro sorted_distinct_set_unique) (simp_all add: strict_sorted_iff)
  have "map snd zs = map (the \<circ> map_of zs) (map fst zs)" if "sorted_wrt (<) (map fst zs)"
    for zs :: "('k \<times> 'v) list"
    using that by (auto simp: strict_sorted_iff)
  then have "map snd xs = map snd ys"
    using assms keys by metis
  with keys show ?thesis
    by (metis zip_map_fst_snd)
qed

lift_definition bm_empty :: "('k::linorder, 'v) bmap" is "[]"
  by simp

lift_definition bm_insert :: "'k::linorder \<Rightarrow> 'v \<Rightarrow> ('k, 'v) bmap \<Rightarrow> ('k, 'v) bmap" is alist_ins
  by (rule sorted_alist_ins)

lift_definition bm_remove :: "'k::linorder \<Rightarrow> ('k, 'v) bmap \<Rightarrow> ('k, 'v) bmap"
  is "\<lambda>k. filter (\<lambda>p. fst p \<noteq> k)"
  by (simp add: sorted_wrt_filter flip: filter_map [unfolded comp_def, of "\<lambda>x. x \<noteq> _" fst])

lift_definition bm_retain :: "('k::linorder \<Rightarrow> 'v \<Rightarrow> bool) \<Rightarrow> ('k, 'v) bmap \<Rightarrow> ('k, 'v) bmap"
  is "\<lambda>f. filter (\<lambda>p. f (fst p) (snd p))"
  by (auto simp: sorted_wrt_map intro: sorted_wrt_filter)

lift_definition bm_get :: "('k::linorder, 'v) bmap \<Rightarrow> 'k \<Rightarrow> 'v option" is map_of .

lemma bm_get_map_of: "bm_get m = map_of (bm_entries m)"
  by transfer simp

interpretation bm: ordered_map bm_empty bm_insert bm_remove bm_get bm_entries
proof unfold_locales
  fix k k' :: "'k::linorder" and v :: 'v and m n :: "('k, 'v) bmap"
  show "bm_get (bm_empty :: ('k, 'v) bmap) k = None"
    by transfer simp
  show "bm_get (bm_insert k v m) k' = (if k' = k then Some v else bm_get m k')"
    by transfer (simp add: map_of_alist_ins)
  show "bm_get (bm_remove k m) k' = (if k' = k then None else bm_get m k')"
    by transfer (simp add: map_of_filter_key)
  show "sorted_wrt (<) (map fst (bm_entries m))"
    using bm_entries [of m] by simp
  show "(k, v) \<in> set (bm_entries m) \<longleftrightarrow> bm_get m k = Some v"
    by transfer (simp add: strict_sorted_iff)
  show "m = n" if "\<And>k. bm_get m k = bm_get n k"
    using that by transfer (auto intro: sorted_alist_ext)
qed

text \<open>
  \<open>len\<close>, \<open>keys\<close>, \<open>values\<close>, \<open>contains_key\<close>, and the in-place change through \<open>get_mut\<close>.
\<close>

definition bm_size :: "('k::linorder, 'v) bmap \<Rightarrow> nat" where
  "bm_size m = length (bm_entries m)"

definition bm_keys :: "('k::linorder, 'v) bmap \<Rightarrow> 'k list" where
  "bm_keys m = map fst (bm_entries m)"

definition bm_values :: "('k::linorder, 'v) bmap \<Rightarrow> 'v list" where
  "bm_values m = map snd (bm_entries m)"

definition bm_has :: "('k::linorder, 'v) bmap \<Rightarrow> 'k \<Rightarrow> bool" where
  "bm_has m k = (bm_get m k \<noteq> None)"

definition bm_update :: "'k::linorder \<Rightarrow> ('v \<Rightarrow> 'v) \<Rightarrow> ('k, 'v) bmap \<Rightarrow> ('k, 'v) bmap" where
  "bm_update k f m = (case bm_get m k of None \<Rightarrow> m | Some v \<Rightarrow> bm_insert k (f v) m)"

lemma bm_entries_empty [simp, ordmap]: "bm_entries bm_empty = []"
  by transfer simp

lemma bm_entries_insert [ordmap]: "bm_entries (bm_insert k v m) = alist_ins k v (bm_entries m)"
  by transfer simp

lemma bm_entries_remove [ordmap]:
  "bm_entries (bm_remove k m) = filter (\<lambda>p. fst p \<noteq> k) (bm_entries m)"
  by transfer simp

lemma bm_entries_retain [ordmap]:
  "bm_entries (bm_retain f m) = filter (\<lambda>p. f (fst p) (snd p)) (bm_entries m)"
  by transfer simp

lemma bm_get_retain [ordmap]: "bm_get (bm_retain f m) k = Some v \<longleftrightarrow> bm_get m k = Some v \<and> f k v"
  by (auto simp: bm_entries_retain simp flip: bm.entries_get)

lemmas bm_get_simps [simp, ordmap] = bm.get_emp bm.get_ins bm.get_del

lemma bm_get_update [simp, ordmap]:
  "bm_get (bm_update k f m) k' = (if k' = k then map_option f (bm_get m k) else bm_get m k')"
  by (auto simp: bm_update_def split: option.splits)

lemma bm_size_empty [simp, ordmap]: "bm_size bm_empty = 0"
  by (simp add: bm_size_def)

lemma bm_size_insert [ordmap]:
  "bm_size (bm_insert k v m) = (if bm_get m k = None then Suc (bm_size m) else bm_size m)"
  by (simp add: bm_size_def bm.length_ins)

lemma bm_size_remove [ordmap]:
  "bm_size (bm_remove k m) = (if bm_get m k = None then bm_size m else bm_size m - 1)"
  by (simp add: bm_size_def bm.length_del)

lemma bm_size_update [simp, ordmap]: "bm_size (bm_update k f m) = bm_size m"
  by (auto simp: bm_update_def bm_size_insert split: option.splits)

lemma bm_size_pos: "bm_get m k = Some v \<Longrightarrow> 0 < bm_size m"
  using bm.entries_get [of k v m] by (cases "bm_entries m") (auto simp: bm_size_def)

lemma bm_update_absent [simp]: "bm_get m k = None \<Longrightarrow> bm_update k f m = m"
  by (simp add: bm_update_def)

lemma bm_update_update [simp]: "bm_update k f (bm_update k g m) = bm_update k (f \<circ> g) m"
  by (rule bm.ext) (auto simp: option.map_comp)

lemma bm_update_insert [simp]: "bm_update k f (bm_insert k v m) = bm_insert k (f v) m"
  by (rule bm.ext) simp

lemma bm_remove_insert_fresh [simp]: "bm_get m k = None \<Longrightarrow> bm_remove k (bm_insert k v m) = m"
  by (rule bm.del_ins_fresh)

lemma set_bm_values: "v \<in> set (bm_values m) \<longleftrightarrow> (\<exists>k. bm_get m k = Some v)"
  by (simp add: bm_values_def bm.set_values)

lemma set_bm_keys: "k \<in> set (bm_keys m) \<longleftrightarrow> bm_get m k \<noteq> None"
  using bm.set_keys [of m] by (auto simp: bm_keys_def simp del: set_map)

lemma bm_keys_distinct [simp]: "distinct (bm_keys m)"
  by (simp add: bm_keys_def bm.entries_distinct_keys)

lemma bm_keys_sorted: "sorted_wrt (<) (bm_keys m)"
  by (simp add: bm_keys_def bm.entries_sorted)

lemma length_bm_values [simp]: "length (bm_values m) = bm_size m"
  by (simp add: bm_values_def bm_size_def)

lemma length_bm_keys [simp]: "length (bm_keys m) = bm_size m"
  by (simp add: bm_keys_def bm_size_def)

lemma bm_has_iff [simp]: "bm_has m k \<longleftrightarrow> (\<exists>v. bm_get m k = Some v)"
  by (simp add: bm_has_def)

section \<open>Byte strings\<close>

text \<open>
  A Rust string is modelled by its UTF-8 bytes: \<open>len\<close> counts them and the validators test
  them one by one. \<open>ident_byte\<close> is \<open>is_ascii_alphanumeric\<close> or one of \<open>._:/-\<close>.
\<close>

definition ascii_digit :: "char \<Rightarrow> bool" where
  "ascii_digit c \<longleftrightarrow> CHR ''0'' \<le> c \<and> c \<le> CHR ''9''"

definition ascii_alphanumeric :: "char \<Rightarrow> bool" where
  "ascii_alphanumeric c \<longleftrightarrow> ascii_digit c \<or> (CHR ''A'' \<le> c \<and> c \<le> CHR ''Z'')
     \<or> (CHR ''a'' \<le> c \<and> c \<le> CHR ''z'')"

definition ident_byte :: "char \<Rightarrow> bool" where
  "ident_byte c \<longleftrightarrow> ascii_alphanumeric c \<or> c \<in> set ''._:/-''"

definition ident_string :: "nat \<Rightarrow> string \<Rightarrow> bool" where
  "ident_string bound s \<longleftrightarrow> s \<noteq> [] \<and> length s \<le> bound \<and> list_all ident_byte s"

definition hex_byte :: "char \<Rightarrow> bool" where
  "hex_byte c \<longleftrightarrow> ascii_digit c \<or> (CHR ''a'' \<le> c \<and> c \<le> CHR ''f'')"

definition sha256_text :: "string \<Rightarrow> bool" where
  "sha256_text s \<longleftrightarrow> length s = 64 \<and> list_all hex_byte s"

lemmas byte_class_defs =
  ident_string_def sha256_text_def ident_byte_def hex_byte_def ascii_alphanumeric_def
  ascii_digit_def

lemma hex_byte_ident: "hex_byte c \<Longrightarrow> ident_byte c"
  by (auto simp: byte_class_defs dest: order_trans [of c "CHR ''f''" "CHR ''z''"])

lemma sha256_text_ident: "sha256_text s \<Longrightarrow> 64 \<le> n \<Longrightarrow> ident_string n s"
  by (auto simp: ident_string_def sha256_text_def list_all_iff hex_byte_ident)

lemma ident_string_example: "ident_string 128 ''session-1'' \<and> \<not> ident_string 128 ''bad id''"
  by (simp add: byte_class_defs)

section \<open>Contracts shared by several components\<close>

text \<open>An invariant that every step keeps holds after every run.\<close>

locale step_invariant =
  fixes step :: "'s \<Rightarrow> 's \<Rightarrow> bool" and inv :: "'s \<Rightarrow> bool"
  assumes step_keeps: "inv s \<Longrightarrow> step s t \<Longrightarrow> inv t"
begin

lemma run_keeps:
  assumes "step\<^sup>*\<^sup>* s t" and "inv s"
  shows "inv t"
  using assms by (induction rule: rtranclp_induct) (auto intro: step_keeps)

end

text \<open>
  A measure that no step decreases: the clocks, counters and generations of the components.
\<close>

locale step_monotone = step_invariant +
  fixes level :: "'s \<Rightarrow> 'l::preorder"
  assumes step_level: "inv s \<Longrightarrow> step s t \<Longrightarrow> level s \<le> level t"
begin

lemma run_level:
  assumes "step\<^sup>*\<^sup>* s t" and "inv s"
  shows "level s \<le> level t"
  using assms
proof (induction rule: rtranclp_induct)
  case (step t u)
  then have "inv t" by (auto intro: run_keeps)
  with step show ?case by (meson order_trans step_level)
qed simp

end

text \<open>
  At-most-once dispatch: \<open>log\<close> lists the keys handed to the downstream port so far and
  \<open>retained\<close> the keys the component still remembers. A step may only append a key it did not
  remember, must remember it from then on, and never forgets a key.
\<close>

locale at_most_once = step_invariant +
  fixes log :: "'s \<Rightarrow> 'k list" and retained :: "'s \<Rightarrow> 'k set"
  assumes retained_grows: "inv s \<Longrightarrow> step s t \<Longrightarrow> retained s \<subseteq> retained t"
    and log_grows: "inv s \<Longrightarrow> step s t \<Longrightarrow>
      log t = log s \<or> (\<exists>k. log t = log s @ [k] \<and> k \<notin> retained s \<and> k \<in> retained t)"
begin

lemma run_distinct:
  assumes "step\<^sup>*\<^sup>* s t" and "inv s" and "distinct (log s)" and "set (log s) \<subseteq> retained s"
  shows "distinct (log t) \<and> set (log t) \<subseteq> retained t"
  using assms
proof (induction rule: rtranclp_induct)
  case (step t u)
  then have t: "inv t" by (auto intro: run_keeps)
  from step have log_t: "distinct (log t)" "set (log t) \<subseteq> retained t" by auto
  show ?case
    using log_grows [OF t \<open>step t u\<close>] retained_grows [OF t \<open>step t u\<close>] log_t by auto
qed simp

end

end
