(* ===== verification/Gateway_Identity.thy ===== *)
theory Gateway_Identity
  imports Gateway_Prelude
begin

text \<open>
  Identities, leases and the lease fence (\<open>crates/gateway/src/identity.rs\<close>): the numeric
  newtypes are synonyms of \<open>u64\<close>, \<open>Lease\<close> and \<open>LeaseProof\<close> are records, and
  \<open>evaluate_fence\<close> is the ordered list of checks of the source. The locale \<open>lease_fence\<close>
  states what the gateway relies on when it asks a \<open>LeaseDecisionPort\<close>; the default policy
  implements it.
\<close>

section \<open>Identifiers and time\<close>

type_synonym caller_id = u64
type_synonym session_id = u64
type_synonym instance_id = u64
type_synonym lease_id = u64
type_synonym operation_id = u64
type_synonym tick = u64
type_synonym lease_epoch = u64
type_synonym authority_epoch = u64

definition saturating_add_millis :: "tick \<Rightarrow> u64 \<Rightarrow> tick" where
  "saturating_add_millis t duration = saturating_add_u64 t duration"

definition authority_epoch_next :: "authority_epoch \<Rightarrow> authority_epoch option" where
  "authority_epoch_next e = checked_add_u64 e 1"

section \<open>Leases and proofs\<close>

record lease =
  lease_instance_id :: instance_id
  lease_caller_id :: caller_id
  lease_session_id :: session_id
  lease_lease_id :: lease_id
  lease_epoch :: lease_epoch
  lease_expires_at :: tick

record lease_proof =
  proof_instance_id :: instance_id
  proof_caller_id :: caller_id
  proof_session_id :: session_id
  proof_lease_id :: lease_id
  proof_epoch :: lease_epoch

definition lease_renewed :: "lease \<Rightarrow> tick \<Rightarrow> lease" where
  "lease_renewed l expires_at = l\<lparr>lease_expires_at := expires_at\<rparr>"

definition lease_proof_of :: "lease \<Rightarrow> lease_proof" where
  "lease_proof_of l = \<lparr>
     proof_instance_id = lease_instance_id l,
     proof_caller_id = lease_caller_id l,
     proof_session_id = lease_session_id l,
     proof_lease_id = lease_lease_id l,
     proof_epoch = lease_epoch l\<rparr>"

lemma lease_renewed_simps [simp]:
  "lease_instance_id (lease_renewed l t) = lease_instance_id l"
  "lease_caller_id (lease_renewed l t) = lease_caller_id l"
  "lease_session_id (lease_renewed l t) = lease_session_id l"
  "lease_lease_id (lease_renewed l t) = lease_lease_id l"
  "lease_epoch (lease_renewed l t) = lease_epoch l"
  "lease_expires_at (lease_renewed l t) = t"
  "lease_proof_of (lease_renewed l t) = lease_proof_of l"
  by (simp_all add: lease_renewed_def lease_proof_of_def)

section \<open>The lease fence\<close>

datatype fence_failure =
    Missing
  | WrongInstance
  | WrongCaller
  | WrongSession
  | WrongLease
  | StaleEpoch
  | Expired

definition evaluate_fence ::
  "lease option \<Rightarrow> instance_id \<Rightarrow> lease_proof \<Rightarrow> tick \<Rightarrow> fence_failure + unit" where
  "evaluate_fence current target tok now =
     (if proof_instance_id tok \<noteq> target then Inl WrongInstance
      else case current of
        None \<Rightarrow> Inl Missing
      | Some l \<Rightarrow>
          if lease_expires_at l \<le> now then Inl Expired
          else if lease_caller_id l \<noteq> proof_caller_id tok then Inl WrongCaller
          else if lease_session_id l \<noteq> proof_session_id tok then Inl WrongSession
          else if lease_lease_id l \<noteq> proof_lease_id tok then Inl WrongLease
          else if lease_epoch l \<noteq> proof_epoch tok then Inl StaleEpoch
          else Inr ())"

text \<open>What it means that a lease authorises a proof for a target at a time.\<close>

definition lease_authorises :: "lease \<Rightarrow> instance_id \<Rightarrow> lease_proof \<Rightarrow> tick \<Rightarrow> bool" where
  "lease_authorises l target tok now \<longleftrightarrow>
     now < lease_expires_at l \<and> tok = (lease_proof_of l)\<lparr>proof_instance_id := target\<rparr>"

locale lease_fence =
  fixes check :: "lease option \<Rightarrow> instance_id \<Rightarrow> lease_proof \<Rightarrow> tick \<Rightarrow> fence_failure + unit"
  assumes accepts_iff: "check current target tok now = Inr () \<longleftrightarrow>
      (\<exists>l. current = Some l \<and> lease_authorises l target tok now)"
    and expired_only: "check current target tok now = Inl Expired \<Longrightarrow>
      (\<exists>l. current = Some l \<and> lease_expires_at l \<le> now)"
begin

lemma absent_refused: "check None target tok now \<noteq> Inr ()"
  by (simp add: accepts_iff)

lemma accepted_proof_unique:
  "check current target p now = Inr () \<Longrightarrow> check current target q later = Inr () \<Longrightarrow> p = q"
  by (auto simp: accepts_iff lease_authorises_def)

lemma epoch_change_refused:
  "check (Some l) target tok now = Inr () \<Longrightarrow> e \<noteq> lease_epoch l \<Longrightarrow>
     check (Some (l\<lparr>lease_epoch := e\<rparr>)) target tok later \<noteq> Inr ()"
  by (auto simp: accepts_iff lease_authorises_def lease_proof_of_def)

lemma renewal_keeps_proof:
  "check (Some l) target tok now = Inr () \<Longrightarrow> later < t \<Longrightarrow>
     check (Some (lease_renewed l t)) target tok later = Inr ()"
  by (auto simp: accepts_iff lease_authorises_def)

end

lemma evaluate_fence_Inr_iff:
  "evaluate_fence current target tok now = Inr () \<longleftrightarrow>
     (\<exists>l. current = Some l \<and> lease_authorises l target tok now)"
  by (cases tok)
    (auto simp: evaluate_fence_def lease_authorises_def lease_proof_of_def not_le
      split: option.splits if_splits)

interpretation default_fence: lease_fence evaluate_fence
proof unfold_locales
  show "evaluate_fence current target tok now = Inr () \<longleftrightarrow>
      (\<exists>l. current = Some l \<and> lease_authorises l target tok now)" for current target tok now
    by (rule evaluate_fence_Inr_iff)
  show "\<exists>l. current = Some l \<and> lease_expires_at l \<le> now"
    if "evaluate_fence current target tok now = Inl Expired" for current target tok now
    using that by (auto simp: evaluate_fence_def split: option.splits if_splits)
qed

end
