(* ===== verification/Control_Plane.thy ===== *)
theory Control_Plane
  imports Gateway_Identity
begin

text \<open>
  The in-memory control plane: \<open>ports.rs\<close> (the data the ports exchange), \<open>config.rs\<close>,
  \<open>error.rs\<close>, \<open>lifecycle.rs\<close>, the \<open>Gateway\<close> struct of \<open>lib.rs\<close>, and the operations of
  \<open>fencing.rs\<close>, \<open>control.rs\<close>, \<open>forwarding.rs\<close> and \<open>maintenance.rs\<close>.

  The injected ports (clock, process, readiness, transport and lease decision) are the record
  \<open>ports\<close>: one state-passing function per trait method. Their states are fields of the gateway,
  so an operation that leaves the transport state unchanged made no transport call. The clock is
  read through its port at every place the source calls \<open>now\<close>; successive readings may differ.
  An operation returns its result together with the gateway state after it, also when the result
  is an error.
\<close>

section \<open>Ports\<close>

datatype process_fault =
    Unavailable
  | StartRejected
  | InspectionFailed
  | StopFailed
  | StopTimedOut
  | ProfileRequired
  | ProfileNotApproved
  | IdentityMismatch
  | DescendantOutOfScope

type_synonym process_handle = u64
type_synonym launch_profile_id = u64

record launch_spec =
  spec_instance_id :: instance_id
  spec_profile_id :: "launch_profile_id option"

definition launch_spec_new :: "instance_id \<Rightarrow> launch_spec" where
  "launch_spec_new i = \<lparr>spec_instance_id = i, spec_profile_id = None\<rparr>"

datatype process_state = Running | Exited "int option"

datatype stop_mode = Graceful | Force

datatype readiness = Starting | Ready | Degraded

datatype health_fault = Unavailable | Malformed

datatype fixed_route = ReadOnly | Command | Receipt

record transport_request =
  request_instance_id :: instance_id
  request_process :: process_handle
  request_lease :: lease_proof
  request_operation_id :: operation_id
  request_route :: fixed_route
  request_body :: "u8 list"

record transport_response =
  response_status :: u16
  response_body :: "u8 list"

definition body_len :: "transport_response \<Rightarrow> nat" where
  "body_len r = length (response_body r)"

datatype transport_fault = Unavailable | Disconnected | Rejected

record ('c, 'p, 'r, 't, 'f) ports =
  now :: "'c \<Rightarrow> tick \<times> 'c"
  check_fence :: "'f \<Rightarrow> lease option \<Rightarrow> instance_id \<Rightarrow> lease_proof \<Rightarrow> tick
    \<Rightarrow> (fence_failure + unit) \<times> 'f"
  process_start :: "'p \<Rightarrow> launch_spec \<Rightarrow> (process_fault + process_handle) \<times> 'p"
  process_inspect :: "'p \<Rightarrow> process_handle \<Rightarrow> (process_fault + process_state) \<times> 'p"
  process_stop :: "'p \<Rightarrow> process_handle \<Rightarrow> stop_mode \<Rightarrow> (process_fault + unit) \<times> 'p"
  readiness_probe :: "'r \<Rightarrow> instance_id \<Rightarrow> process_handle \<Rightarrow> (health_fault + readiness) \<times> 'r"
  transport_forward :: "'t \<Rightarrow> transport_request \<Rightarrow> (transport_fault + transport_response) \<times> 't"

text \<open>The default lease decision is the pure fence; it has no state of its own to change.\<close>

definition deterministic_check_fence ::
  "'f \<Rightarrow> lease option \<Rightarrow> instance_id \<Rightarrow> lease_proof \<Rightarrow> tick \<Rightarrow> (fence_failure + unit) \<times> 'f" where
  "deterministic_check_fence s current target tok t = (evaluate_fence current target tok t, s)"

section \<open>Configuration\<close>

record gateway_config =
  cfg_capacity :: nat
  cfg_lease_duration_millis :: u64
  cfg_max_body_bytes :: nat
  cfg_max_response_bytes :: nat

datatype config_error =
    ZeroCapacity
  | ZeroLeaseDuration
  | ZeroBodyLimit
  | ZeroResponseLimit

definition config_try_new :: "nat \<Rightarrow> u64 \<Rightarrow> nat \<Rightarrow> nat \<Rightarrow> config_error + gateway_config" where
  "config_try_new capacity duration body response =
     (if capacity = 0 then Inl ZeroCapacity
      else if duration = 0 then Inl ZeroLeaseDuration
      else if body = 0 then Inl ZeroBodyLimit
      else if response = 0 then Inl ZeroResponseLimit
      else Inr \<lparr>cfg_capacity = capacity, cfg_lease_duration_millis = duration,
                cfg_max_body_bytes = body, cfg_max_response_bytes = response\<rparr>)"

section \<open>Instance records\<close>

datatype lifecycle_state =
    Created
  | Starting
  | Ready
  | Busy
  | Degraded
  | Stopping
  | Stopped
  | Failed
  | Unknown
  | Expired

definition is_terminal :: "lifecycle_state \<Rightarrow> bool" where
  "is_terminal s \<longleftrightarrow> s = Stopped \<or> s = Failed \<or> s = lifecycle_state.Expired"

definition accepts_forwarding :: "lifecycle_state \<Rightarrow> bool" where
  "accepts_forwarding s \<longleftrightarrow> s = lifecycle_state.Ready \<or> s = Busy"

record instance_record =
  rec_instance_id :: instance_id
  rec_caller_id :: caller_id
  rec_session_id :: session_id
  rec_state :: lifecycle_state
  rec_process :: "process_handle option"
  rec_lease :: "lease option"

record instance_snapshot =
  snap_instance_id :: instance_id
  snap_caller_id :: caller_id
  snap_session_id :: session_id
  snap_state :: lifecycle_state
  snap_has_process :: bool
  snap_lease :: "lease option"

definition record_new :: "instance_id \<Rightarrow> caller_id \<Rightarrow> session_id \<Rightarrow> lease \<Rightarrow> instance_record" where
  "record_new i caller session l = \<lparr>
     rec_instance_id = i, rec_caller_id = caller, rec_session_id = session,
     rec_state = Created, rec_process = None, rec_lease = Some l\<rparr>"

definition assign_process :: "process_handle \<Rightarrow> instance_record \<Rightarrow> instance_record" where
  "assign_process h r = r\<lparr>rec_process := Some h, rec_state := lifecycle_state.Starting\<rparr>"

definition set_lease :: "lease \<Rightarrow> instance_record \<Rightarrow> instance_record" where
  "set_lease l r = r\<lparr>rec_lease := Some l\<rparr>"

definition mark_ready :: "instance_record \<Rightarrow> instance_record" where
  "mark_ready r = r\<lparr>rec_state := lifecycle_state.Ready\<rparr>"

definition mark_starting :: "instance_record \<Rightarrow> instance_record" where
  "mark_starting r = r\<lparr>rec_state := lifecycle_state.Starting\<rparr>"

definition mark_busy :: "instance_record \<Rightarrow> instance_record" where
  "mark_busy r = r\<lparr>rec_state := Busy\<rparr>"

definition mark_degraded :: "instance_record \<Rightarrow> instance_record" where
  "mark_degraded r = r\<lparr>rec_state := lifecycle_state.Degraded\<rparr>"

definition mark_stopping :: "instance_record \<Rightarrow> instance_record" where
  "mark_stopping r = r\<lparr>rec_state := Stopping\<rparr>"

definition mark_stopped :: "instance_record \<Rightarrow> instance_record" where
  "mark_stopped r = r\<lparr>rec_state := Stopped, rec_lease := None\<rparr>"

definition mark_failed :: "instance_record \<Rightarrow> instance_record" where
  "mark_failed r = r\<lparr>rec_state := Failed, rec_lease := None\<rparr>"

definition mark_expired :: "instance_record \<Rightarrow> instance_record" where
  "mark_expired r = r\<lparr>rec_state := lifecycle_state.Expired, rec_lease := None\<rparr>"

definition clear_process :: "instance_record \<Rightarrow> instance_record" where
  "clear_process r = r\<lparr>rec_process := None\<rparr>"

definition record_snapshot :: "instance_record \<Rightarrow> instance_snapshot" where
  "record_snapshot r = \<lparr>
     snap_instance_id = rec_instance_id r, snap_caller_id = rec_caller_id r,
     snap_session_id = rec_session_id r, snap_state = rec_state r,
     snap_has_process = (rec_process r \<noteq> None), snap_lease = rec_lease r\<rparr>"

lemmas mark_defs =
  record_new_def assign_process_def set_lease_def mark_ready_def mark_starting_def mark_busy_def
  mark_degraded_def mark_stopping_def mark_stopped_def mark_failed_def mark_expired_def
  clear_process_def

section \<open>The gateway\<close>

datatype gateway_error =
    AdmissionClosed
  | CapacityExceeded
  | IdentityExhausted
  | InstanceNotFound
  | IdentityMismatch
  | InvalidState lifecycle_state
  | Fence fence_failure
  | ProcessStart process_fault
  | ProcessInspection process_fault
  | ProcessCrashed
  | ProcessStop process_fault
  | ReadinessFault health_fault
  | BodyTooLarge nat nat
  | ResponseTooLarge nat nat
  | Transport transport_fault

record allocation =
  alloc_instance_id :: instance_id
  alloc_lease :: lease

datatype cleanup_result = Removed

datatype cleanup_status = Cleaned | Failed process_fault

record expiration_event =
  event_instance_id :: instance_id
  event_status :: cleanup_status

record shutdown_report =
  report_stopped :: nat
  report_failed :: nat

record ('c, 'p, 'r, 't, 'f) gateway =
  gw_config :: gateway_config
  gw_clock :: 'c
  gw_process :: 'p
  gw_readiness :: 'r
  gw_transport :: 't
  gw_fence :: 'f
  gw_instances :: "(instance_id, instance_record) bmap"
  gw_next_instance_id :: u64
  gw_next_lease_id :: u64
  gw_is_admitting :: bool

definition gateway_with_fence ::
  "gateway_config \<Rightarrow> 'c \<Rightarrow> 'p \<Rightarrow> 'r \<Rightarrow> 't \<Rightarrow> 'f \<Rightarrow> ('c, 'p, 'r, 't, 'f) gateway" where
  "gateway_with_fence config clock process rdy transport fence = \<lparr>
     gw_config = config, gw_clock = clock, gw_process = process, gw_readiness = rdy,
     gw_transport = transport, gw_fence = fence, gw_instances = bm_empty,
     gw_next_instance_id = 1, gw_next_lease_id = 1, gw_is_admitting = True\<rparr>"

text \<open>
  Calls through the ports, and the recurring
  \<open>if let Some(record) = self.instances.get_mut(&id)\<close>.
\<close>

definition gw_now :: "('c, 'p, 'r, 't, 'f) ports \<Rightarrow> ('c, 'p, 'r, 't, 'f) gateway
    \<Rightarrow> tick \<times> ('c, 'p, 'r, 't, 'f) gateway" where
  "gw_now P g = (case now P (gw_clock g) of (t, c) \<Rightarrow> (t, g\<lparr>gw_clock := c\<rparr>))"

definition gw_stop :: "('c, 'p, 'r, 't, 'f) ports \<Rightarrow> process_handle \<Rightarrow> stop_mode
    \<Rightarrow> ('c, 'p, 'r, 't, 'f) gateway \<Rightarrow> (process_fault + unit) \<times> ('c, 'p, 'r, 't, 'f) gateway" where
  "gw_stop P h mode g =
     (case process_stop P (gw_process g) h mode of (r, p) \<Rightarrow> (r, g\<lparr>gw_process := p\<rparr>))"

definition with_record :: "instance_id \<Rightarrow> (instance_record \<Rightarrow> instance_record)
    \<Rightarrow> ('c, 'p, 'r, 't, 'f) gateway \<Rightarrow> ('c, 'p, 'r, 't, 'f) gateway" where
  "with_record i f g = g\<lparr>gw_instances := bm_update i f (gw_instances g)\<rparr>"

subsection \<open>Maintenance and the fence (maintenance.rs, fencing.rs)\<close>

definition expire_instance :: "('c, 'p, 'r, 't, 'f) ports \<Rightarrow> instance_id
    \<Rightarrow> ('c, 'p, 'r, 't, 'f) gateway \<Rightarrow> cleanup_status \<times> ('c, 'p, 'r, 't, 'f) gateway" where
  "expire_instance P i g =
     (case Option.bind (bm_get (gw_instances g) i) rec_process of
        Some h \<Rightarrow>
          (case gw_stop P h Force g of
             (Inr _, g') \<Rightarrow> (Cleaned, with_record i (mark_expired \<circ> clear_process) g')
           | (Inl fault, g') \<Rightarrow> (cleanup_status.Failed fault, with_record i mark_failed g'))
      | None \<Rightarrow> (Cleaned, with_record i mark_expired g))"

definition lease_expired :: "('c, 'p, 'r, 't, 'f) ports \<Rightarrow> instance_id
    \<Rightarrow> ('c, 'p, 'r, 't, 'f) gateway \<Rightarrow> bool \<times> ('c, 'p, 'r, 't, 'f) gateway" where
  "lease_expired P i g =
     (case Option.bind (bm_get (gw_instances g) i) rec_lease of
        None \<Rightarrow> (False, g)
      | Some l \<Rightarrow> (case gw_now P g of (t, g') \<Rightarrow> (lease_expires_at l \<le> t, g')))"

fun expire_each :: "('c, 'p, 'r, 't, 'f) ports \<Rightarrow> instance_id list
    \<Rightarrow> ('c, 'p, 'r, 't, 'f) gateway \<Rightarrow> expiration_event list \<times> ('c, 'p, 'r, 't, 'f) gateway" where
  "expire_each P [] g = ([], g)"
| "expire_each P (i # ids) g =
     (case expire_instance P i g of (status, g') \<Rightarrow>
        (case expire_each P ids g' of (events, g'') \<Rightarrow>
           (\<lparr>event_instance_id = i, event_status = status\<rparr> # events, g'')))"

definition due_leases :: "tick \<Rightarrow> (instance_id, instance_record) bmap \<Rightarrow> instance_id list" where
  "due_leases t m =
     map fst (filter (\<lambda>(i, r). case rec_lease r of None \<Rightarrow> False | Some l \<Rightarrow> lease_expires_at l \<le> t)
       (bm_entries m))"

definition expire_due :: "('c, 'p, 'r, 't, 'f) ports \<Rightarrow> ('c, 'p, 'r, 't, 'f) gateway
    \<Rightarrow> expiration_event list \<times> ('c, 'p, 'r, 't, 'f) gateway" where
  "expire_due P g = (case gw_now P g of (t, g') \<Rightarrow>
     expire_each P (due_leases t (gw_instances g')) g')"

fun shutdown_each :: "('c, 'p, 'r, 't, 'f) ports \<Rightarrow> instance_id list \<Rightarrow> nat \<Rightarrow> nat
    \<Rightarrow> ('c, 'p, 'r, 't, 'f) gateway \<Rightarrow> shutdown_report \<times> ('c, 'p, 'r, 't, 'f) gateway" where
  "shutdown_each P [] stopped failed g = (\<lparr>report_stopped = stopped, report_failed = failed\<rparr>, g)"
| "shutdown_each P (i # ids) stopped failed g =
     (case bm_get (gw_instances g) i of
        None \<Rightarrow> shutdown_each P ids stopped failed g
      | Some r \<Rightarrow>
          if is_terminal (rec_state r) \<and> rec_process r = None
          then shutdown_each P ids stopped failed g
          else case rec_process r of
            Some h \<Rightarrow>
              (case gw_stop P h Graceful g of
                 (Inr _, g') \<Rightarrow> shutdown_each P ids (Suc stopped) failed
                   (with_record i (mark_stopped \<circ> clear_process) g')
               | (Inl _, g') \<Rightarrow> shutdown_each P ids stopped (Suc failed)
                   (with_record i mark_failed g'))
          | None \<Rightarrow> shutdown_each P ids (Suc stopped) failed (with_record i mark_stopped g))"

definition shutdown :: "('c, 'p, 'r, 't, 'f) ports \<Rightarrow> ('c, 'p, 'r, 't, 'f) gateway
    \<Rightarrow> shutdown_report \<times> ('c, 'p, 'r, 't, 'f) gateway" where
  "shutdown P g = (let g' = g\<lparr>gw_is_admitting := False\<rparr> in
     shutdown_each P (bm_keys (gw_instances g')) 0 0 g')"

definition validate_fence :: "('c, 'p, 'r, 't, 'f) ports \<Rightarrow> instance_id \<Rightarrow> lease_proof
    \<Rightarrow> ('c, 'p, 'r, 't, 'f) gateway \<Rightarrow> (gateway_error + unit) \<times> ('c, 'p, 'r, 't, 'f) gateway" where
  "validate_fence P target tok g =
     (case bm_get (gw_instances g) target of
        None \<Rightarrow> (Inl InstanceNotFound, g)
      | Some r \<Rightarrow>
          (case gw_now P g of (t, g') \<Rightarrow>
             case check_fence P (gw_fence g') (rec_lease r) target tok t of (decision, f) \<Rightarrow>
               let g'' = g'\<lparr>gw_fence := f\<rparr>;
                   h = (if decision = Inl fence_failure.Expired
                        then snd (expire_instance P target g'') else g'')
               in (map_err Fence decision, h)))"

subsection \<open>Control operations (control.rs)\<close>

definition next_instance :: "('c, 'p, 'r, 't, 'f) gateway
    \<Rightarrow> (gateway_error + instance_id) \<times> ('c, 'p, 'r, 't, 'f) gateway" where
  "next_instance g = (case checked_add_u64 (gw_next_instance_id g) 1 of
     None \<Rightarrow> (Inl IdentityExhausted, g)
   | Some n \<Rightarrow> (Inr (gw_next_instance_id g), g\<lparr>gw_next_instance_id := n\<rparr>))"

definition next_lease :: "('c, 'p, 'r, 't, 'f) gateway
    \<Rightarrow> (gateway_error + lease_id) \<times> ('c, 'p, 'r, 't, 'f) gateway" where
  "next_lease g = (case checked_add_u64 (gw_next_lease_id g) 1 of
     None \<Rightarrow> (Inl IdentityExhausted, g)
   | Some n \<Rightarrow> (Inr (gw_next_lease_id g), g\<lparr>gw_next_lease_id := n\<rparr>))"

text \<open>The part of \<open>allocate\<close> after both identities are drawn.\<close>

definition allocate_with :: "('c, 'p, 'r, 't, 'f) ports \<Rightarrow> caller_id \<Rightarrow> session_id
    \<Rightarrow> instance_id \<Rightarrow> lease_id \<Rightarrow> ('c, 'p, 'r, 't, 'f) gateway
    \<Rightarrow> (gateway_error + allocation) \<times> ('c, 'p, 'r, 't, 'f) gateway" where
  "allocate_with P caller session i lid g =
     (case gw_now P g of (t, g1) \<Rightarrow>
        let l = \<lparr>lease_instance_id = i, lease_caller_id = caller, lease_session_id = session,
                 lease_lease_id = lid, lease_epoch = 1,
                 lease_expires_at = saturating_add_millis t (cfg_lease_duration_millis (gw_config g1))\<rparr>;
            g2 = g1\<lparr>gw_instances := bm_insert i (record_new i caller session l) (gw_instances g1)\<rparr>
        in case process_start P (gw_process g2) (launch_spec_new i) of
             (Inl fault, p) \<Rightarrow>
               (Inl (ProcessStart fault),
                g2\<lparr>gw_process := p, gw_instances := bm_remove i (gw_instances g2)\<rparr>)
           | (Inr h, p) \<Rightarrow>
               let g3 = g2\<lparr>gw_process := p\<rparr> in
               if bm_has (gw_instances g3) i
               then (Inr \<lparr>alloc_instance_id = i, alloc_lease = l\<rparr>, with_record i (assign_process h) g3)
               else (Inl InstanceNotFound, g3))"

definition allocate :: "('c, 'p, 'r, 't, 'f) ports \<Rightarrow> caller_id \<Rightarrow> session_id
    \<Rightarrow> ('c, 'p, 'r, 't, 'f) gateway \<Rightarrow> (gateway_error + allocation) \<times> ('c, 'p, 'r, 't, 'f) gateway" where
  "allocate P caller session g =
     (if \<not> gw_is_admitting g then (Inl AdmissionClosed, g)
      else if cfg_capacity (gw_config g) \<le> bm_size (gw_instances g) then (Inl CapacityExceeded, g)
      else case next_instance g of
        (Inl e, g1) \<Rightarrow> (Inl e, g1)
      | (Inr i, g1) \<Rightarrow>
          (case next_lease g1 of
             (Inl e, g2) \<Rightarrow> (Inl e, g2)
           | (Inr lid, g2) \<Rightarrow> allocate_with P caller session i lid g2))"

definition status :: "instance_id \<Rightarrow> ('c, 'p, 'r, 't, 'f) gateway
    \<Rightarrow> gateway_error + instance_snapshot" where
  "status i g = (case bm_get (gw_instances g) i of
     None \<Rightarrow> Inl InstanceNotFound | Some r \<Rightarrow> Inr (record_snapshot r))"

text \<open>The readiness probe at the end of \<open>reconcile\<close>.\<close>

definition reconcile_readiness :: "('c, 'p, 'r, 't, 'f) ports \<Rightarrow> instance_id \<Rightarrow> process_handle
    \<Rightarrow> ('c, 'p, 'r, 't, 'f) gateway \<Rightarrow> (gateway_error + lifecycle_state) \<times> ('c, 'p, 'r, 't, 'f) gateway" where
  "reconcile_readiness P i h g =
     (case readiness_probe P (gw_readiness g) i h of (answer, r) \<Rightarrow>
        let g' = g\<lparr>gw_readiness := r\<rparr> in
        case answer of
          Inr readiness.Starting \<Rightarrow> (Inr lifecycle_state.Starting, with_record i mark_starting g')
        | Inr readiness.Ready \<Rightarrow> (Inr lifecycle_state.Ready, with_record i mark_ready g')
        | Inr readiness.Degraded \<Rightarrow> (Inr lifecycle_state.Degraded, with_record i mark_degraded g')
        | Inl fault \<Rightarrow> (Inl (ReadinessFault fault), with_record i mark_degraded g'))"

definition reconcile :: "('c, 'p, 'r, 't, 'f) ports \<Rightarrow> instance_id
    \<Rightarrow> ('c, 'p, 'r, 't, 'f) gateway \<Rightarrow> (gateway_error + lifecycle_state) \<times> ('c, 'p, 'r, 't, 'f) gateway" where
  "reconcile P i g =
     (case bm_get (gw_instances g) i of
        None \<Rightarrow> (Inl InstanceNotFound, g)
      | Some r \<Rightarrow>
          if is_terminal (rec_state r) then (Inr (rec_state r), g)
          else case lease_expired P i g of
            (True, g') \<Rightarrow>
              (case expire_instance P i g' of
                 (Cleaned, g'') \<Rightarrow> (Inr lifecycle_state.Expired, g'')
               | (cleanup_status.Failed fault, g'') \<Rightarrow> (Inl (ProcessStop fault), g''))
          | (False, g') \<Rightarrow>
              (case rec_process r of
                 None \<Rightarrow> (Inl (ProcessInspection process_fault.Unavailable), with_record i mark_failed g')
               | Some h \<Rightarrow>
                   (case process_inspect P (gw_process g') h of (answer, p) \<Rightarrow>
                      let g2 = g'\<lparr>gw_process := p\<rparr> in
                      case answer of
                        Inl fault \<Rightarrow> (Inl (ProcessInspection fault), with_record i mark_degraded g2)
                      | Inr (Exited _) \<Rightarrow> (Inl ProcessCrashed, with_record i mark_failed g2)
                      | Inr Running \<Rightarrow> reconcile_readiness P i h g2)))"

definition renew :: "('c, 'p, 'r, 't, 'f) ports \<Rightarrow> lease_proof
    \<Rightarrow> ('c, 'p, 'r, 't, 'f) gateway \<Rightarrow> (gateway_error + lease) \<times> ('c, 'p, 'r, 't, 'f) gateway" where
  "renew P tok g =
     (case validate_fence P (proof_instance_id tok) tok g of
        (Inl e, g') \<Rightarrow> (Inl e, g')
      | (Inr _, g') \<Rightarrow>
          (case gw_now P g' of (t, g2) \<Rightarrow>
             let expires = saturating_add_millis t (cfg_lease_duration_millis (gw_config g2)) in
             case bm_get (gw_instances g2) (proof_instance_id tok) of
               None \<Rightarrow> (Inl InstanceNotFound, g2)
             | Some r \<Rightarrow>
                 (case rec_lease r of
                    None \<Rightarrow> (Inl (Fence Missing), g2)
                  | Some l \<Rightarrow> (Inr (lease_renewed l expires),
                      with_record (proof_instance_id tok) (set_lease (lease_renewed l expires)) g2))))"

definition release :: "('c, 'p, 'r, 't, 'f) ports \<Rightarrow> lease_proof
    \<Rightarrow> ('c, 'p, 'r, 't, 'f) gateway \<Rightarrow> (gateway_error + unit) \<times> ('c, 'p, 'r, 't, 'f) gateway" where
  "release P tok g =
     (case validate_fence P (proof_instance_id tok) tok g of
        (Inl e, g') \<Rightarrow> (Inl e, g')
      | (Inr _, g') \<Rightarrow>
          let i = proof_instance_id tok in
          (case bm_get (gw_instances g') i of
             None \<Rightarrow> (Inl InstanceNotFound, g')
           | Some r \<Rightarrow>
               if is_terminal (rec_state r) \<or> rec_state r = Stopping
               then (Inl (InvalidState (rec_state r)), g')
               else case rec_process r of
                 Some h \<Rightarrow>
                   (case gw_stop P h Graceful (with_record i mark_stopping g') of
                      (Inr _, g2) \<Rightarrow> (Inr (), with_record i (mark_stopped \<circ> clear_process) g2)
                    | (Inl fault, g2) \<Rightarrow> (Inl (ProcessStop fault), with_record i mark_failed g2))
               | None \<Rightarrow> (Inr (), with_record i mark_stopped g')))"

definition gw_remove :: "instance_id \<Rightarrow> ('c, 'p, 'r, 't, 'f) gateway \<Rightarrow> ('c, 'p, 'r, 't, 'f) gateway" where
  "gw_remove i g = g\<lparr>gw_instances := bm_remove i (gw_instances g)\<rparr>"

definition cleanup :: "('c, 'p, 'r, 't, 'f) ports \<Rightarrow> instance_id \<Rightarrow> caller_id \<Rightarrow> session_id
    \<Rightarrow> ('c, 'p, 'r, 't, 'f) gateway \<Rightarrow> (gateway_error + cleanup_result) \<times> ('c, 'p, 'r, 't, 'f) gateway" where
  "cleanup P i caller session g =
     (case bm_get (gw_instances g) i of
        None \<Rightarrow> (Inl InstanceNotFound, g)
      | Some r \<Rightarrow>
          if rec_caller_id r \<noteq> caller \<or> rec_session_id r \<noteq> session
          then (Inl gateway_error.IdentityMismatch, g)
          else if \<not> is_terminal (rec_state r) then (Inl (InvalidState (rec_state r)), g)
          else case rec_process r of
            Some h \<Rightarrow>
              (case gw_stop P h Force g of
                 (Inr _, g') \<Rightarrow> (Inr Removed, gw_remove i (with_record i clear_process g'))
               | (Inl fault, g') \<Rightarrow> (Inl (ProcessStop fault), with_record i mark_failed g'))
          | None \<Rightarrow> (Inr Removed, gw_remove i g))"

subsection \<open>Forwarding (forwarding.rs)\<close>

definition authorize_forward :: "('c, 'p, 'r, 't, 'f) ports \<Rightarrow> instance_id \<Rightarrow> lease_proof
    \<Rightarrow> ('c, 'p, 'r, 't, 'f) gateway \<Rightarrow> (gateway_error + process_handle) \<times> ('c, 'p, 'r, 't, 'f) gateway" where
  "authorize_forward P target tok g =
     (case validate_fence P target tok g of
        (Inl e, g') \<Rightarrow> (Inl e, g')
      | (Inr _, g') \<Rightarrow>
          (case bm_get (gw_instances g') target of
             None \<Rightarrow> (Inl InstanceNotFound, g')
           | Some r \<Rightarrow>
               if \<not> accepts_forwarding (rec_state r) then (Inl (InvalidState (rec_state r)), g')
               else case rec_process r of
                 None \<Rightarrow> (Inl (ProcessInspection process_fault.Unavailable),
                           with_record target mark_degraded g')
               | Some h \<Rightarrow> (Inr h, with_record target mark_busy g')))"

definition forward :: "('c, 'p, 'r, 't, 'f) ports \<Rightarrow> instance_id \<Rightarrow> lease_proof \<Rightarrow> operation_id
    \<Rightarrow> fixed_route \<Rightarrow> u8 list \<Rightarrow> ('c, 'p, 'r, 't, 'f) gateway
    \<Rightarrow> (gateway_error + transport_response) \<times> ('c, 'p, 'r, 't, 'f) gateway" where
  "forward P target tok oid route body g =
     (if cfg_max_body_bytes (gw_config g) < length body
      then (Inl (BodyTooLarge (cfg_max_body_bytes (gw_config g)) (length body)), g)
      else case authorize_forward P target tok g of
        (Inl e, g') \<Rightarrow> (Inl e, g')
      | (Inr h, g') \<Rightarrow>
          (case transport_forward P (gw_transport g')
                  \<lparr>request_instance_id = target, request_process = h, request_lease = tok,
                   request_operation_id = oid, request_route = route, request_body = body\<rparr> of
             (answer, t) \<Rightarrow>
               let g2 = g'\<lparr>gw_transport := t\<rparr> in
               case answer of
                 Inr response \<Rightarrow>
                   if body_len response \<le> cfg_max_response_bytes (gw_config g2)
                   then (Inr response, with_record target mark_ready g2)
                   else (Inl (ResponseTooLarge (cfg_max_response_bytes (gw_config g2)) (body_len response)),
                         with_record target mark_degraded g2)
               | Inl fault \<Rightarrow> (Inl (Transport fault), with_record target mark_degraded g2)))"

end
