(* ===== verification/Control_Plane_Frame.thy ===== *)
theory Control_Plane_Frame
  imports Control_Plane
begin

text \<open>
  What a control-plane operation may do to the gateway, stated once: every operation on an
  instance leaves configuration, identity counters, admission and all other records alone, and
  moves the record of its instance along \<open>evolves\<close>. The lemmas \<open>*_at\<close> show this for each
  operation of \<open>fencing.rs\<close>, \<open>control.rs\<close>, \<open>forwarding.rs\<close> and \<open>maintenance.rs\<close>; the invariant
  and the safety properties rest on them.
\<close>

section \<open>Record well-formedness and evolution\<close>

text \<open>
  A record holds a lease exactly while it is not terminal, the lease names the record's own
  identities, and the record has given up its process handle exactly when the process was stopped
  (\<open>Stopped\<close>, \<open>Expired\<close>); a \<open>Failed\<close> record still names the process it could not stop.
\<close>

definition record_ok :: "instance_id \<Rightarrow> instance_record \<Rightarrow> bool" where
  "record_ok i r \<longleftrightarrow>
     rec_instance_id r = i
     \<and> (is_terminal (rec_state r) \<longleftrightarrow> rec_lease r = None)
     \<and> (rec_process r = None \<longleftrightarrow> rec_state r = Stopped \<or> rec_state r = lifecycle_state.Expired)
     \<and> (\<forall>l. rec_lease r = Some l \<longrightarrow>
          lease_instance_id l = i \<and> lease_caller_id l = rec_caller_id r
          \<and> lease_session_id l = rec_session_id r)"

definition evolves :: "instance_id \<Rightarrow> instance_record \<Rightarrow> instance_record \<Rightarrow> bool" where
  "evolves i r r' \<longleftrightarrow>
     record_ok i r'
     \<and> rec_caller_id r' = rec_caller_id r \<and> rec_session_id r' = rec_session_id r
     \<and> (is_terminal (rec_state r) \<longrightarrow> is_terminal (rec_state r'))
     \<and> (\<forall>l'. rec_lease r' = Some l' \<longrightarrow>
          (\<exists>l. rec_lease r = Some l \<and> lease_proof_of l' = lease_proof_of l))"

lemma evolves_refl [intro]: "record_ok i r \<Longrightarrow> evolves i r r"
  by (simp add: evolves_def)

lemma evolves_trans [trans]: "evolves i r s \<Longrightarrow> evolves i s t \<Longrightarrow> evolves i r t"
  unfolding evolves_def by metis

lemma evolves_ok: "evolves i r r' \<Longrightarrow> record_ok i r'"
  by (simp add: evolves_def)

lemma is_terminal_simps [simp]:
  "is_terminal Stopped" "is_terminal lifecycle_state.Failed" "is_terminal lifecycle_state.Expired"
  "\<not> is_terminal Created" "\<not> is_terminal lifecycle_state.Starting"
  "\<not> is_terminal lifecycle_state.Ready" "\<not> is_terminal Busy"
  "\<not> is_terminal lifecycle_state.Degraded" "\<not> is_terminal Stopping"
  by (simp_all add: is_terminal_def)

lemma accepts_forwarding_live: "accepts_forwarding s \<Longrightarrow> \<not> is_terminal s"
  by (auto simp: accepts_forwarding_def)

text \<open>The marks of \<open>lifecycle.rs\<close> as evolutions.\<close>

lemma evolves_mark_live:
  assumes "record_ok i r" and "\<not> is_terminal (rec_state r)"
  shows "evolves i r (mark_ready r)" and "evolves i r (mark_starting r)"
    and "evolves i r (mark_degraded r)" and "evolves i r (mark_busy r)"
    and "evolves i r (mark_stopping r)"
  using assms by (auto simp: evolves_def record_ok_def mark_defs is_terminal_def)

lemma evolves_mark_failed:
  "record_ok i r \<Longrightarrow> rec_process r \<noteq> None \<Longrightarrow> evolves i r (mark_failed r)"
  by (auto simp: evolves_def record_ok_def mark_defs is_terminal_def)

lemma evolves_mark_closed:
  "record_ok i r \<Longrightarrow> evolves i r (mark_stopped (clear_process r))"
  "record_ok i r \<Longrightarrow> evolves i r (mark_expired (clear_process r))"
  "record_ok i r \<Longrightarrow> rec_process r = None \<Longrightarrow> evolves i r (mark_stopped r)"
  "record_ok i r \<Longrightarrow> rec_process r = None \<Longrightarrow> evolves i r (mark_expired r)"
  by (auto simp: evolves_def record_ok_def mark_defs is_terminal_def)

lemma evolves_set_lease:
  "record_ok i r \<Longrightarrow> rec_lease r = Some l \<Longrightarrow> evolves i r (set_lease (lease_renewed l t) r)"
  by (auto simp: evolves_def record_ok_def mark_defs)

lemmas evolves_marks = evolves_mark_live evolves_mark_failed evolves_mark_closed evolves_set_lease

lemma record_ok_live_process:
  "record_ok i r \<Longrightarrow> \<not> is_terminal (rec_state r) \<Longrightarrow> \<exists>h. rec_process r = Some h"
  by (auto simp: record_ok_def)

section \<open>Gateway well-formedness and the frame of an operation\<close>

definition gateway_ok :: "('c, 'p, 'r, 't, 'f) gateway \<Rightarrow> bool" where
  "gateway_ok g \<longleftrightarrow>
     (\<forall>i r. bm_get (gw_instances g) i = Some r \<longrightarrow>
        record_ok i r \<and> i < gw_next_instance_id g
        \<and> (\<forall>l. rec_lease r = Some l \<longrightarrow> lease_lease_id l < gw_next_lease_id g))
     \<and> (\<forall>i j r s l k. bm_get (gw_instances g) i = Some r \<longrightarrow> bm_get (gw_instances g) j = Some s \<longrightarrow>
          rec_lease r = Some l \<longrightarrow> rec_lease s = Some k \<longrightarrow>
          lease_lease_id l = lease_lease_id k \<longrightarrow> i = j)
     \<and> bm_size (gw_instances g) \<le> cfg_capacity (gw_config g)"

definition same_frame :: "('c, 'p, 'r, 't, 'f) gateway \<Rightarrow> ('c, 'p, 'r, 't, 'f) gateway \<Rightarrow> bool" where
  "same_frame g g' \<longleftrightarrow>
     gw_config g' = gw_config g \<and> gw_next_instance_id g' = gw_next_instance_id g
     \<and> gw_next_lease_id g' = gw_next_lease_id g \<and> gw_is_admitting g' = gw_is_admitting g"

definition at_instance ::
  "instance_id \<Rightarrow> ('c, 'p, 'r, 't, 'f) gateway \<Rightarrow> ('c, 'p, 'r, 't, 'f) gateway \<Rightarrow> bool" where
  "at_instance i g g' \<longleftrightarrow>
     same_frame g g'
     \<and> (\<forall>j. j \<noteq> i \<longrightarrow> bm_get (gw_instances g') j = bm_get (gw_instances g) j)
     \<and> rel_option (evolves i) (bm_get (gw_instances g) i) (bm_get (gw_instances g') i)"

lemma gateway_ok_record:
  "gateway_ok g \<Longrightarrow> bm_get (gw_instances g) i = Some r \<Longrightarrow> record_ok i r"
  by (simp add: gateway_ok_def)

lemma gateway_ok_bounds:
  "gateway_ok g \<Longrightarrow> bm_get (gw_instances g) i = Some r \<Longrightarrow> i < gw_next_instance_id g"
  "gateway_ok g \<Longrightarrow> bm_get (gw_instances g) i = Some r \<Longrightarrow> rec_lease r = Some l \<Longrightarrow>
     lease_lease_id l < gw_next_lease_id g"
  "gateway_ok g \<Longrightarrow> bm_size (gw_instances g) \<le> cfg_capacity (gw_config g)"
  by (simp_all add: gateway_ok_def)

lemma gateway_ok_lease_inj:
  "gateway_ok g \<Longrightarrow> bm_get (gw_instances g) i = Some r \<Longrightarrow> bm_get (gw_instances g) j = Some s \<Longrightarrow>
     rec_lease r = Some l \<Longrightarrow> rec_lease s = Some k \<Longrightarrow> lease_lease_id l = lease_lease_id k \<Longrightarrow> i = j"
  unfolding gateway_ok_def by blast

lemma gateway_okI:
  assumes "\<And>i r. bm_get (gw_instances g) i = Some r \<Longrightarrow> record_ok i r"
    and "\<And>i r. bm_get (gw_instances g) i = Some r \<Longrightarrow> i < gw_next_instance_id g"
    and "\<And>i r l. bm_get (gw_instances g) i = Some r \<Longrightarrow> rec_lease r = Some l \<Longrightarrow>
      lease_lease_id l < gw_next_lease_id g"
    and "\<And>i j r s l k. bm_get (gw_instances g) i = Some r \<Longrightarrow> bm_get (gw_instances g) j = Some s \<Longrightarrow>
      rec_lease r = Some l \<Longrightarrow> rec_lease s = Some k \<Longrightarrow> lease_lease_id l = lease_lease_id k \<Longrightarrow> i = j"
    and "bm_size (gw_instances g) \<le> cfg_capacity (gw_config g)"
  shows "gateway_ok g"
  unfolding gateway_ok_def using assms by blast

lemma at_instance_refl:
  "(\<And>r. bm_get (gw_instances g) i = Some r \<Longrightarrow> record_ok i r) \<Longrightarrow> at_instance i g g"
  by (cases "bm_get (gw_instances g) i") (auto simp: at_instance_def same_frame_def)

lemma at_instance_trans [trans]:
  assumes "at_instance i g h" and "at_instance i h k"
  shows "at_instance i g k"
proof -
  have "rel_option (evolves i) (bm_get (gw_instances g) i) (bm_get (gw_instances k) i)"
    using assms by (auto simp: at_instance_def option_rel_Some1 elim!: option.rel_cases
        intro: evolves_trans)
  with assms show ?thesis
    by (auto simp: at_instance_def same_frame_def)
qed

lemma at_instance_ok: "at_instance i g g' \<Longrightarrow> bm_get (gw_instances g') i = Some r \<Longrightarrow> record_ok i r"
  by (auto simp: at_instance_def option_rel_Some2 dest: evolves_ok)

lemma at_instance_get:
  "at_instance i g g' \<Longrightarrow> bm_get (gw_instances g) j = Some r \<Longrightarrow>
     \<exists>r'. bm_get (gw_instances g') j = Some r' \<and> (if j = i then evolves i r r' else r' = r)"
  by (cases "j = i") (auto simp: at_instance_def option_rel_Some1)

lemma bm_size_cong:
  "(\<And>k. bm_get m k = None \<longleftrightarrow> bm_get n k = None) \<Longrightarrow> bm_size m = bm_size n"
  using bm.length_entries [of m] bm.length_entries [of n] by (simp add: bm_size_def dom_def)

lemma at_instance_size: "at_instance i g g' \<Longrightarrow> bm_size (gw_instances g') = bm_size (gw_instances g)"
proof (rule bm_size_cong)
  fix k assume "at_instance i g g'"
  then show "(bm_get (gw_instances g') k = None) = (bm_get (gw_instances g) k = None)"
    by (cases "k = i") (auto simp: at_instance_def elim: option.rel_cases)
qed

lemma at_instance_get_back:
  "at_instance i g g' \<Longrightarrow> bm_get (gw_instances g') j = Some r' \<Longrightarrow>
     \<exists>r. bm_get (gw_instances g) j = Some r \<and> (if j = i then evolves i r r' else r' = r)"
  by (cases "j = i") (auto simp: at_instance_def option_rel_Some2)

lemma at_instance_lease:
  assumes "at_instance i g g'" and "bm_get (gw_instances g') j = Some r'" and "rec_lease r' = Some l'"
  obtains r l where "bm_get (gw_instances g) j = Some r" and "rec_lease r = Some l"
    and "lease_lease_id l' = lease_lease_id l"
proof -
  obtain r where r: "bm_get (gw_instances g) j = Some r" "if j = i then evolves i r r' else r' = r"
    using at_instance_get_back [OF assms(1,2)] by blast
  then obtain l where "rec_lease r = Some l" "lease_lease_id l' = lease_lease_id l"
    using assms(3) by (cases "j = i") (auto simp: evolves_def lease_proof_of_def)
  with r(1) show thesis by (rule that)
qed

lemma at_instance_gateway_ok:
  assumes at: "at_instance i g g'" and ok: "gateway_ok g"
  shows "gateway_ok g'"
proof (rule gateway_okI)
  have frame: "same_frame g g'" using at by (simp add: at_instance_def)
  show "record_ok j r" and "j < gw_next_instance_id g'" if r: "bm_get (gw_instances g') j = Some r" for j r
    using at_instance_get_back [OF at r] ok frame
    by (auto simp: same_frame_def gateway_ok_bounds gateway_ok_record dest: evolves_ok split: if_splits)
  show "lease_lease_id l < gw_next_lease_id g'"
    if le: "bm_get (gw_instances g') j = Some r" "rec_lease r = Some l" for j r l
  proof -
    obtain r0 l0 where "bm_get (gw_instances g) j = Some r0" "rec_lease r0 = Some l0"
      "lease_lease_id l = lease_lease_id l0" using at le by (rule at_instance_lease)
    with ok frame show ?thesis by (simp add: same_frame_def gateway_ok_bounds)
  qed
  show "j = k"
    if two: "bm_get (gw_instances g') j = Some r" "bm_get (gw_instances g') k = Some s"
      "rec_lease r = Some l" "rec_lease s = Some m" "lease_lease_id l = lease_lease_id m" for j k r s l m
  proof -
    obtain r0 l0 where "bm_get (gw_instances g) j = Some r0" "rec_lease r0 = Some l0"
      "lease_lease_id l = lease_lease_id l0" using at two(1,3) by (rule at_instance_lease)
    moreover obtain s0 m0 where "bm_get (gw_instances g) k = Some s0" "rec_lease s0 = Some m0"
      "lease_lease_id m = lease_lease_id m0" using at two(2,4) by (rule at_instance_lease)
    ultimately show ?thesis using gateway_ok_lease_inj [OF ok] two(5) by simp
  qed
  show "bm_size (gw_instances g') \<le> cfg_capacity (gw_config g')"
    using at_instance_size [OF at] gateway_ok_bounds(3) [OF ok] frame by (simp add: same_frame_def)
qed

section \<open>Elementary steps\<close>

lemma with_record_fields [simp]:
  "gw_config (with_record i f g) = gw_config g"
  "gw_clock (with_record i f g) = gw_clock g"
  "gw_process (with_record i f g) = gw_process g"
  "gw_readiness (with_record i f g) = gw_readiness g"
  "gw_transport (with_record i f g) = gw_transport g"
  "gw_fence (with_record i f g) = gw_fence g"
  "gw_instances (with_record i f g) = bm_update i f (gw_instances g)"
  "gw_next_instance_id (with_record i f g) = gw_next_instance_id g"
  "gw_next_lease_id (with_record i f g) = gw_next_lease_id g"
  "gw_is_admitting (with_record i f g) = gw_is_admitting g"
  by (simp_all add: with_record_def)

lemma with_record_ports [simp]:
  "with_record i f (g\<lparr>gw_clock := c\<rparr>) = (with_record i f g)\<lparr>gw_clock := c\<rparr>"
  "with_record i f (g\<lparr>gw_process := p\<rparr>) = (with_record i f g)\<lparr>gw_process := p\<rparr>"
  "with_record i f (g\<lparr>gw_readiness := q\<rparr>) = (with_record i f g)\<lparr>gw_readiness := q\<rparr>"
  "with_record i f (g\<lparr>gw_transport := t\<rparr>) = (with_record i f g)\<lparr>gw_transport := t\<rparr>"
  "with_record i f (g\<lparr>gw_fence := e\<rparr>) = (with_record i f g)\<lparr>gw_fence := e\<rparr>"
  by (simp_all add: with_record_def)

lemma at_instance_with_record:
  assumes "\<And>r. bm_get (gw_instances g) i = Some r \<Longrightarrow> evolves i r (f r)"
  shows "at_instance i g (with_record i f g)"
  using assms by (cases "bm_get (gw_instances g) i") (auto simp: at_instance_def same_frame_def)

lemma gw_now_eq: "gw_now P g = (t, g') \<Longrightarrow> \<exists>c. g' = g\<lparr>gw_clock := c\<rparr>"
  by (auto simp: gw_now_def split: prod.splits)

lemma gw_stop_eq: "gw_stop P h m g = (r, g') \<Longrightarrow> \<exists>p. g' = g\<lparr>gw_process := p\<rparr>"
  by (auto simp: gw_stop_def split: prod.splits)

lemma at_instance_ports [simp]:
  "at_instance i g (g'\<lparr>gw_clock := c\<rparr>) = at_instance i g g'"
  "at_instance i g (g'\<lparr>gw_process := p\<rparr>) = at_instance i g g'"
  "at_instance i g (g'\<lparr>gw_readiness := q\<rparr>) = at_instance i g g'"
  "at_instance i g (g'\<lparr>gw_transport := t\<rparr>) = at_instance i g g'"
  "at_instance i g (g'\<lparr>gw_fence := f\<rparr>) = at_instance i g g'"
  "at_instance i (g\<lparr>gw_clock := c\<rparr>) g' = at_instance i g g'"
  "at_instance i (g\<lparr>gw_process := p\<rparr>) g' = at_instance i g g'"
  "at_instance i (g\<lparr>gw_readiness := q\<rparr>) g' = at_instance i g g'"
  "at_instance i (g\<lparr>gw_transport := t\<rparr>) g' = at_instance i g g'"
  "at_instance i (g\<lparr>gw_fence := f\<rparr>) g' = at_instance i g g'"
  by (simp_all add: at_instance_def same_frame_def)

section \<open>The operations\<close>

text \<open>Port calls of the maintenance and fence operations never reach the transport.\<close>

lemma expire_instance_at:
  assumes "expire_instance P i g = (st, g')"
    and "\<And>r. bm_get (gw_instances g) i = Some r \<Longrightarrow> record_ok i r"
  shows "at_instance i g g'" and "gw_transport g' = gw_transport g"
proof -
  have "at_instance i g g' \<and> gw_transport g' = gw_transport g"
  proof (cases "Option.bind (bm_get (gw_instances g) i) rec_process")
    case None
    then have "g' = with_record i mark_expired g"
      using assms(1) by (simp add: expire_instance_def)
    with None assms(2) show ?thesis
      by (auto intro!: at_instance_with_record evolves_marks simp: bind_eq_None_conv)
  next
    case (Some h)
    then obtain r where r: "bm_get (gw_instances g) i = Some r" "rec_process r = Some h"
      by (auto simp: bind_eq_Some_conv)
    obtain res g1 where stop: "gw_stop P h Force g = (res, g1)" by fastforce
    then obtain p where g1: "g1 = g\<lparr>gw_process := p\<rparr>" using gw_stop_eq by blast
    have "at_instance i g g1" using assms(2) by (simp add: g1 at_instance_refl)
    moreover have "at_instance i g1 g' \<and> gw_transport g' = gw_transport g1"
      using assms(1,2) Some stop r
      by (cases res) (auto simp: expire_instance_def g1 intro!: at_instance_with_record evolves_marks)
    ultimately show ?thesis using at_instance_trans by (auto simp: g1)
  qed
  then show "at_instance i g g'" and "gw_transport g' = gw_transport g" by simp_all
qed

lemma validate_fence_at:
  assumes "validate_fence P i tok g = (res, g')" and "gateway_ok g"
  shows "at_instance i g g'" and "gw_transport g' = gw_transport g"
proof -
  have "at_instance i g g' \<and> gw_transport g' = gw_transport g"
  proof (cases "bm_get (gw_instances g) i")
    case None
    with assms show ?thesis
      by (auto simp: validate_fence_def intro: at_instance_refl)
  next
    case (Some r)
    then have r: "record_ok i r" using assms(2) gateway_ok_record by blast
    obtain t g1 where nowg: "gw_now P g = (t, g1)" by fastforce
    then obtain c where g1: "g1 = g\<lparr>gw_clock := c\<rparr>" using gw_now_eq by blast
    obtain d f where chk: "check_fence P (gw_fence g1) (rec_lease r) i tok t = (d, f)" by fastforce
    let ?g2 = "g1\<lparr>gw_fence := f\<rparr>"
    have base: "at_instance i g ?g2" using Some r by (auto simp: g1 intro: at_instance_refl)
    obtain st g3 where ex: "expire_instance P i ?g2 = (st, g3)" by fastforce
    have "at_instance i ?g2 g3" "gw_transport g3 = gw_transport ?g2"
      using expire_instance_at [OF ex] Some r by (auto simp: g1)
    moreover have "g' = (if d = Inl fence_failure.Expired then g3 else ?g2)"
      using assms(1) Some nowg chk ex by (auto simp: validate_fence_def Let_def)
    ultimately show ?thesis using base at_instance_trans by (auto simp: g1)
  qed
  then show "at_instance i g g'" and "gw_transport g' = gw_transport g" by simp_all
qed

text \<open>A fence that answers \<open>Ok\<close> changes no record at all.\<close>

lemma validate_fence_ok:
  assumes "validate_fence P i tok g = (Inr u, g')"
  shows "gw_instances g' = gw_instances g"
    and "\<exists>r t f. bm_get (gw_instances g) i = Some r \<and> fst (now P (gw_clock g)) = t
      \<and> check_fence P (gw_fence g) (rec_lease r) i tok t = (Inr (), f)"
  using assms
  by (auto simp: validate_fence_def gw_now_def Let_def split: option.splits prod.splits if_splits)

lemma lease_expired_eq:
  "lease_expired P i g = (b, g') \<Longrightarrow> \<exists>c. g' = g\<lparr>gw_clock := c\<rparr>"
  by (auto simp: lease_expired_def split: option.splits prod.splits dest!: gw_now_eq
      intro: exI [of _ "gw_clock g"])

lemma reconcile_readiness_at:
  assumes "reconcile_readiness P i h g = (res, g')"
    and "\<And>r. bm_get (gw_instances g) i = Some r \<Longrightarrow> record_ok i r \<and> \<not> is_terminal (rec_state r)"
  shows "at_instance i g g'" and "gw_transport g' = gw_transport g"
  using assms at_instance_with_record [of g i] evolves_mark_live [of i]
  by (auto simp: reconcile_readiness_def Let_def at_instance_def same_frame_def
      split: prod.splits sum.splits readiness.splits)

lemma reconcile_at:
  assumes "reconcile P i g = (res, g')" and "gateway_ok g"
  shows "at_instance i g g'" and "gw_transport g' = gw_transport g"
proof -
  have "at_instance i g g' \<and> gw_transport g' = gw_transport g"
  proof (cases "bm_get (gw_instances g) i")
    case None
    with assms(1) show ?thesis by (auto simp: reconcile_def intro: at_instance_refl)
  next
    case (Some r)
    then have r: "record_ok i r" using assms(2) gateway_ok_record by blast
    then have refl: "at_instance i g g" using Some by (auto intro: at_instance_refl)
    show ?thesis
    proof (cases "is_terminal (rec_state r)")
      case True
      with assms(1) Some refl show ?thesis by (auto simp: reconcile_def)
    next
      case False
      then obtain h where h: "rec_process r = Some h" using r record_ok_live_process by blast
      obtain b g1 where le: "lease_expired P i g = (b, g1)" by fastforce
      then obtain c where g1: "g1 = g\<lparr>gw_clock := c\<rparr>" using lease_expired_eq by blast
      obtain st g2 where ex: "expire_instance P i g1 = (st, g2)" by fastforce
      have ex_at: "at_instance i g g2" "gw_transport g2 = gw_transport g"
        using expire_instance_at [OF ex] Some r by (auto simp: g1)
      obtain ans p where ins: "process_inspect P (gw_process g1) h = (ans, p)" by fastforce
      obtain res2 g3 where rr: "reconcile_readiness P i h (g1\<lparr>gw_process := p\<rparr>) = (res2, g3)"
        by fastforce
      have rr_at: "at_instance i g g3" "gw_transport g3 = gw_transport g"
        using reconcile_readiness_at [OF rr] Some r False by (auto simp: g1)
      show ?thesis
        using assms(1) Some False h le ex ex_at ins rr rr_at r
        by (cases b; cases st; cases ans)
          (auto simp: reconcile_def Let_def g1 split: process_state.splits
            intro!: at_instance_with_record evolves_marks)
    qed
  qed
  then show "at_instance i g g'" and "gw_transport g' = gw_transport g" by simp_all
qed

lemma renew_at:
  assumes "renew P tok g = (res, g')" and "gateway_ok g"
  shows "at_instance (proof_instance_id tok) g g'" and "gw_transport g' = gw_transport g"
proof -
  let ?i = "proof_instance_id tok"
  obtain v g1 where vf: "validate_fence P ?i tok g = (v, g1)" by fastforce
  note base = validate_fence_at [OF vf assms(2)]
  obtain t g2 where nowg: "gw_now P g1 = (t, g2)" by fastforce
  then obtain c where g2: "g2 = g1\<lparr>gw_clock := c\<rparr>" using gw_now_eq by blast
  have step: "at_instance ?i g1 (with_record ?i (set_lease (lease_renewed l e)) g1)"
    if "bm_get (gw_instances g1) ?i = Some r" "rec_lease r = Some l" for r l e
    using that at_instance_ok [OF base(1)] by (auto intro!: at_instance_with_record evolves_marks)
  show "at_instance ?i g g'" and "gw_transport g' = gw_transport g"
    using assms(1) vf nowg base step [THEN at_instance_trans [OF base(1)]]
    by (auto simp: renew_def Let_def g2 split: sum.splits option.splits)
qed

lemma release_at:
  assumes "release P tok g = (res, g')" and "gateway_ok g"
  shows "at_instance (proof_instance_id tok) g g'" and "gw_transport g' = gw_transport g"
proof -
  let ?i = "proof_instance_id tok"
  obtain v g1 where vf: "validate_fence P ?i tok g = (v, g1)" by fastforce
  note base = validate_fence_at [OF vf assms(2)]
  have "at_instance ?i g1 g' \<and> gw_transport g' = gw_transport g1"
  proof (cases "bm_get (gw_instances g1) ?i")
    case None
    with assms(1) vf show ?thesis
      by (auto simp: release_def Let_def split: sum.splits intro: at_instance_refl)
  next
    case (Some r)
    then have r: "record_ok ?i r" using at_instance_ok [OF base(1)] by blast
    then have refl: "at_instance ?i g1 g1" using Some by (auto intro: at_instance_refl)
    obtain x g2 where stop: "\<And>h. rec_process r = Some h \<Longrightarrow>
        gw_stop P h Graceful (with_record ?i mark_stopping g1) = (x, g2)"
      by (cases "rec_process r") fastforce+
    then have g2: "rec_process r \<noteq> None \<Longrightarrow> \<exists>p. g2 = (with_record ?i mark_stopping g1)\<lparr>gw_process := p\<rparr>"
      using gw_stop_eq by blast
    have stopped: "at_instance ?i g1 (with_record ?i f (with_record ?i mark_stopping g1))"
      if "evolves ?i r (f (mark_stopping r))" for f
      using that Some
      by (simp add: with_record_def at_instance_def same_frame_def)
    have "evolves ?i r (mark_failed (mark_stopping r))" if "rec_process r \<noteq> None"
      using that r by (auto simp: evolves_def record_ok_def mark_defs)
    moreover have "evolves ?i r (mark_stopped (clear_process (mark_stopping r)))"
      using r by (auto simp: evolves_def record_ok_def mark_defs)
    moreover have "at_instance ?i g1 (with_record ?i mark_stopped g1)" if "rec_process r = None"
      using that Some r by (auto intro!: at_instance_with_record evolves_marks)
    ultimately show ?thesis
      using assms(1) vf Some refl stop g2 stopped
      by (auto simp: release_def Let_def split: sum.splits if_splits option.splits)
  qed
  with base show "at_instance ?i g g'" and "gw_transport g' = gw_transport g"
    using at_instance_trans by auto
qed

lemma authorize_forward_at:
  assumes "authorize_forward P i tok g = (res, g')" and "gateway_ok g"
  shows "at_instance i g g'" and "gw_transport g' = gw_transport g"
    and "\<And>h. res = Inr h \<Longrightarrow>
      \<exists>r. bm_get (gw_instances g') i = Some r \<and> rec_state r = Busy \<and> rec_process r = Some h"
proof -
  obtain v g1 where vf: "validate_fence P i tok g = (v, g1)" by fastforce
  note base = validate_fence_at [OF vf assms(2)]
  have live: "at_instance i g (with_record i mark_degraded g1)" "at_instance i g (with_record i mark_busy g1)"
    if "bm_get (gw_instances g1) i = Some r" "accepts_forwarding (rec_state r)" for r
    using that at_instance_ok [OF base(1)] accepts_forwarding_live
    by (auto intro!: at_instance_trans [OF base(1)] at_instance_with_record evolves_marks)
  show "at_instance i g g'" and "gw_transport g' = gw_transport g"
    using assms(1) vf base live
    by (auto simp: authorize_forward_def split: sum.splits option.splits if_splits)
  show "\<exists>r. bm_get (gw_instances g') i = Some r \<and> rec_state r = Busy \<and> rec_process r = Some h"
    if "res = Inr h" for h
    using assms(1) vf that
    by (auto simp: authorize_forward_def mark_busy_def split: sum.splits option.splits if_splits)
qed

lemma forward_at:
  assumes "forward P i tok oid route body g = (res, g')" and "gateway_ok g"
  shows "at_instance i g g'"
proof -
  obtain a g1 where au: "authorize_forward P i tok g = (a, g1)" by fastforce
  note base = authorize_forward_at [OF au assms(2)]
  have "at_instance i g (with_record i mark_ready g1)" "at_instance i g (with_record i mark_degraded g1)"
    if "a = Inr h" for h
    using base(3) [OF that] at_instance_ok [OF base(1)]
    by (auto intro!: at_instance_trans [OF base(1)] at_instance_with_record evolves_marks)
  then show ?thesis
    using assms au base(1) at_instance_refl [of g i] gateway_ok_record [OF assms(2)]
    by (auto simp: forward_def Let_def split: sum.splits prod.splits if_splits)
qed

end
