(* ===== verification/Control_Plane_Safety.thy ===== *)
theory Control_Plane_Safety
  imports Control_Plane_Frame
begin

text \<open>
  The control plane as a transition system (\<open>gateway_step\<close>, one rule per public operation of
  \<open>Gateway\<close>), the invariant \<open>gateway_ok\<close> of every reachable state, and the safety properties
  that follow: identities are never reissued, a closed instance stays closed, and only an
  authorised, live, in-bounds request ever reaches the transport.
\<close>

section \<open>Operations over several instances\<close>

definition sweeps :: "instance_id set \<Rightarrow> ('c, 'p, 'r, 't, 'f) gateway \<Rightarrow> ('c, 'p, 'r, 't, 'f) gateway \<Rightarrow> bool" where
  "sweeps I g g' \<longleftrightarrow>
     gateway_ok g' \<and> same_frame g g' \<and> gw_transport g' = gw_transport g
     \<and> (\<forall>j. rel_option (evolves j) (bm_get (gw_instances g) j) (bm_get (gw_instances g') j))
     \<and> (\<forall>j. j \<notin> I \<longrightarrow> bm_get (gw_instances g') j = bm_get (gw_instances g) j)"

lemma rel_option_evolves_refl: "gateway_ok g \<Longrightarrow>
    rel_option (evolves j) (bm_get (gw_instances g) j) (bm_get (gw_instances g) j)"
  by (cases "bm_get (gw_instances g) j") (auto dest: gateway_ok_record)

lemma sweeps_refl: "gateway_ok g \<Longrightarrow> sweeps I g g"
  by (simp add: sweeps_def same_frame_def rel_option_evolves_refl)

lemma sweeps_trans [trans]: "sweeps I g h \<Longrightarrow> sweeps J h k \<Longrightarrow> sweeps (I \<union> J) g k"
proof -
  assume a: "sweeps I g h" "sweeps J h k"
  have "rel_option (evolves j) (bm_get (gw_instances g) j) (bm_get (gw_instances k) j)" for j
  proof -
    from a have "rel_option (evolves j) (bm_get (gw_instances g) j) (bm_get (gw_instances h) j)"
      "rel_option (evolves j) (bm_get (gw_instances h) j) (bm_get (gw_instances k) j)"
      by (simp_all add: sweeps_def)
    then show ?thesis by (auto elim!: option.rel_cases intro: evolves_trans)
  qed
  with a show ?thesis by (simp add: sweeps_def same_frame_def)
qed

lemma at_instance_sweeps:
  assumes "at_instance i g g'" and "gateway_ok g" and "gw_transport g' = gw_transport g"
  shows "sweeps {i} g g'"
proof -
  have "rel_option (evolves j) (bm_get (gw_instances g) j) (bm_get (gw_instances g') j)" for j
    using assms(1) rel_option_evolves_refl [OF assms(2), of j]
    by (cases "j = i") (auto simp: at_instance_def)
  with assms show ?thesis
    using at_instance_gateway_ok [OF assms(1,2)] by (simp add: sweeps_def at_instance_def)
qed

lemma expire_instance_closes:
  assumes "expire_instance P i g = (st, g')" and "bm_get (gw_instances g) i = Some r"
  shows "\<exists>r'. bm_get (gw_instances g') i = Some r' \<and> is_terminal (rec_state r') \<and> rec_lease r' = None"
  using assms
  by (auto simp: expire_instance_def mark_defs split: option.splits prod.splits sum.splits
      dest!: gw_stop_eq)

lemma expire_each_sweeps:
  "expire_each P ids g = (events, g') \<Longrightarrow> gateway_ok g \<Longrightarrow>
     sweeps (set ids) g g' \<and> map event_instance_id events = ids"
proof (induction ids arbitrary: g events g')
  case (Cons i ids)
  obtain st g1 where ex: "expire_instance P i g = (st, g1)" by fastforce
  obtain ev g2 where rest: "expire_each P ids g1 = (ev, g2)" by fastforce
  have first: "sweeps {i} g g1"
    using expire_instance_at [OF ex] gateway_ok_record [OF Cons.prems(2)] Cons.prems(2)
    by (auto intro: at_instance_sweeps)
  then have "gateway_ok g1" by (simp add: sweeps_def)
  with Cons.IH [OF rest] have "sweeps (set ids) g1 g2" "map event_instance_id ev = ids" by auto
  then show ?case
    using Cons.prems(1) ex rest sweeps_trans [OF first] by auto
qed (auto intro: sweeps_refl)

lemma expire_each_closes:
  "expire_each P ids g = (events, g') \<Longrightarrow> gateway_ok g \<Longrightarrow> i \<in> set ids \<Longrightarrow>
     bm_get (gw_instances g) i = Some r \<Longrightarrow>
     \<exists>r'. bm_get (gw_instances g') i = Some r' \<and> is_terminal (rec_state r')"
proof (induction ids arbitrary: g events g' r)
  case (Cons j ids)
  obtain st g1 where ex: "expire_instance P j g = (st, g1)" by fastforce
  obtain ev g2 where rest: "expire_each P ids g1 = (ev, g2)" by fastforce
  have g': "g' = g2" using Cons.prems(1) ex rest by auto
  have first: "sweeps {j} g g1"
    using expire_instance_at [OF ex] gateway_ok_record [OF Cons.prems(2)] Cons.prems(2)
    by (auto intro: at_instance_sweeps)
  then have ok1: "gateway_ok g1" by (simp add: sweeps_def)
  have later: "sweeps (set ids) g1 g2" using expire_each_sweeps [OF rest ok1] by simp
  show ?case
  proof (cases "i = j")
    case True
    then obtain r1 where "bm_get (gw_instances g1) i = Some r1" "is_terminal (rec_state r1)"
      using expire_instance_closes [OF ex] Cons.prems(4) by blast
    moreover have "rel_option (evolves i) (bm_get (gw_instances g1) i) (bm_get (gw_instances g2) i)"
      using later by (simp add: sweeps_def)
    ultimately show ?thesis by (auto simp: g' option_rel_Some1 evolves_def)
  next
    case False
    then have "bm_get (gw_instances g1) i = Some r" using first Cons.prems(4) by (simp add: sweeps_def)
    with False Cons.IH [OF rest ok1] Cons.prems(3) show ?thesis by (auto simp: g')
  qed
qed simp

lemma shutdown_each_step:
  assumes "bm_get (gw_instances g) i = Some r" and "gateway_ok g"
    and "\<not> (is_terminal (rec_state r) \<and> rec_process r = None)"
  obtains h res g1 where "rec_process r = Some h" and "gw_stop P h Graceful g = (res, g1)"
    and "sweeps {i} g (with_record i (mark_stopped \<circ> clear_process) g1)"
    and "sweeps {i} g (with_record i mark_failed g1)"
proof -
  have r: "record_ok i r" using assms(1,2) gateway_ok_record by blast
  then obtain h where h: "rec_process r = Some h"
    using assms(3) record_ok_live_process [OF r] by (cases "rec_process r") auto
  obtain res g1 where stop: "gw_stop P h Graceful g = (res, g1)" by fastforce
  then obtain p where g1: "g1 = g\<lparr>gw_process := p\<rparr>" using gw_stop_eq by blast
  have "sweeps {i} g (with_record i (mark_stopped \<circ> clear_process) g1)"
    and "sweeps {i} g (with_record i mark_failed g1)"
    using r h assms(1,2)
    by (auto simp: g1 intro!: at_instance_sweeps at_instance_with_record evolves_marks)
  then show thesis using that h stop by blast
qed

text \<open>An instance that still owns a process handle.\<close>

definition owns_process :: "('c, 'p, 'r, 't, 'f) gateway \<Rightarrow> instance_id \<Rightarrow> bool" where
  "owns_process g i = (case bm_get (gw_instances g) i of None \<Rightarrow> False | Some r \<Rightarrow> rec_process r \<noteq> None)"

definition owners :: "('c, 'p, 'r, 't, 'f) gateway \<Rightarrow> instance_id list \<Rightarrow> nat" where
  "owners g ids = length (filter (owns_process g) ids)"

lemma owners_simps [simp]:
  "owners g [] = 0"
  "owners g (i # ids) = (if owns_process g i then Suc (owners g ids) else owners g ids)"
  by (simp_all add: owners_def)

lemma owners_cong:
  "(\<And>j. j \<in> set ids \<Longrightarrow> bm_get (gw_instances g') j = bm_get (gw_instances g) j) \<Longrightarrow>
     owners g' ids = owners g ids"
  by (auto simp: owners_def owns_process_def intro!: arg_cong [where f = length] filter_cong)

lemma owns_process_cong:
  "bm_get (gw_instances g') i = bm_get (gw_instances g) i \<Longrightarrow> owns_process g' i = owns_process g i"
  by (simp add: owns_process_def)

definition shut :: "('c, 'p, 'r, 't, 'f) gateway \<Rightarrow> instance_id \<Rightarrow> bool" where
  "shut g i = (case bm_get (gw_instances g) i of None \<Rightarrow> True | Some r \<Rightarrow> is_terminal (rec_state r))"

lemma shut_cong: "bm_get (gw_instances g') i = bm_get (gw_instances g) i \<Longrightarrow> shut g' i = shut g i"
  by (simp add: shut_def)

lemma shutdown_each_spec:
  "shutdown_each P ids s f g = (rep, g') \<Longrightarrow> gateway_ok g \<Longrightarrow> distinct ids \<Longrightarrow>
     sweeps (set ids) g g' \<and> (\<forall>i \<in> set ids. shut g' i)
     \<and> report_failed rep = f + owners g' ids
     \<and> report_stopped rep + report_failed rep = s + f + owners g ids"
proof (induction ids arbitrary: s f g rep g')
  case Nil
  then show ?case by (auto intro: sweeps_refl)
next
  case (Cons i ids)
  have i: "i \<notin> set ids" "distinct ids" using Cons.prems(3) by simp_all
  show ?case
  proof (cases "\<exists>r. bm_get (gw_instances g) i = Some r \<and> \<not> (is_terminal (rec_state r) \<and> rec_process r = None)")
    case False
    then have skip: "shutdown_each P ids s f g = (rep, g')" "shut g i" "\<not> owns_process g i"
      using Cons.prems(1) by (auto simp: shut_def owns_process_def split: option.splits if_splits)
    from Cons.IH [OF skip(1) Cons.prems(2) i(2)] i
    have IH: "sweeps (set ids) g g'" "\<forall>i \<in> set ids. shut g' i" "report_failed rep = f + owners g' ids"
      "report_stopped rep + report_failed rep = s + f + owners g ids"
      and same: "bm_get (gw_instances g') i = bm_get (gw_instances g) i"
      by (simp_all add: sweeps_def)
    with skip show ?thesis
      using shut_cong [OF same] owns_process_cong [OF same] sweeps_trans [OF sweeps_refl IH(1), of "{i}"] Cons.prems(2)
      by simp
  next
    case True
    then obtain r where r: "bm_get (gw_instances g) i = Some r"
      "\<not> (is_terminal (rec_state r) \<and> rec_process r = None)" by blast
    obtain h res g1 where st: "rec_process r = Some h" "gw_stop P h Graceful g = (res, g1)"
      "sweeps {i} g (with_record i (mark_stopped \<circ> clear_process) g1)"
      "sweeps {i} g (with_record i mark_failed g1)"
      using r Cons.prems(2) by (metis shutdown_each_step)
    obtain p where g1: "g1 = g\<lparr>gw_process := p\<rparr>" using gw_stop_eq [OF st(2)] by blast
    define g2 where "g2 = (case res of
        Inr _ \<Rightarrow> with_record i (mark_stopped \<circ> clear_process) g1 | Inl _ \<Rightarrow> with_record i mark_failed g1)"
    define s' f' where "s' = (if is_err res then s else Suc s)" and "f' = (if is_err res then Suc f else f)"
    have g2: "sweeps {i} g g2" using st by (auto simp: g2_def split: sum.splits)
    have rest: "shutdown_each P ids s' f' g2 = (rep, g')"
      using Cons.prems(1) r st by (auto simp: g2_def s'_def f'_def split: sum.splits)
    have own: "owns_process g i" "shut g2 i" "owns_process g2 i = is_err res"
      using r st(1) by (auto simp: owns_process_def shut_def g2_def g1 mark_defs split: sum.splits)
    have "gateway_ok g2" using g2 by (simp add: sweeps_def)
    from Cons.IH [OF rest this i(2)] i
    have IH: "sweeps (set ids) g2 g'" "\<forall>i \<in> set ids. shut g' i" "report_failed rep = f' + owners g' ids"
      "report_stopped rep + report_failed rep = s' + f' + owners g2 ids"
      and same: "bm_get (gw_instances g') i = bm_get (gw_instances g2) i"
      by (simp_all add: sweeps_def)
    have "owners g2 ids = owners g ids"
      using g2 i by (intro owners_cong) (auto simp: sweeps_def)
    with IH own show ?thesis
      using shut_cong [OF same] owns_process_cong [OF same] sweeps_trans [OF g2 IH(1)]
      by (simp add: s'_def f'_def)
  qed
qed

section \<open>Allocation and cleanup\<close>

lemma next_instance_cases:
  "next_instance g = (res, g') \<Longrightarrow>
     res = Inl IdentityExhausted \<and> g' = g \<and> gw_next_instance_id g = - 1
     \<or> (\<exists>n. res = Inr (gw_next_instance_id g) \<and> g' = g\<lparr>gw_next_instance_id := n\<rparr>
          \<and> gw_next_instance_id g < n)"
  by (auto simp: next_instance_def checked_add_u64_None_iff checked_add_u64_less split: option.splits)

lemma next_lease_cases:
  "next_lease g = (res, g') \<Longrightarrow>
     res = Inl IdentityExhausted \<and> g' = g \<and> gw_next_lease_id g = - 1
     \<or> (\<exists>n. res = Inr (gw_next_lease_id g) \<and> g' = g\<lparr>gw_next_lease_id := n\<rparr>
          \<and> gw_next_lease_id g < n)"
  by (auto simp: next_lease_def checked_add_u64_None_iff checked_add_u64_less split: option.splits)

text \<open>
  The outcome of \<open>allocate\<close>: either no record changes and at most the counters move, or one
  fresh record appears with the identities drawn from the counters.
\<close>

definition allocated :: "('c, 'p, 'r, 't, 'f) gateway \<Rightarrow> caller_id \<Rightarrow> session_id \<Rightarrow> allocation
    \<Rightarrow> ('c, 'p, 'r, 't, 'f) gateway \<Rightarrow> bool" where
  "allocated g caller session a g' \<longleftrightarrow>
     alloc_instance_id a = gw_next_instance_id g
     \<and> lease_proof_of (alloc_lease a) = \<lparr>proof_instance_id = gw_next_instance_id g,
          proof_caller_id = caller, proof_session_id = session,
          proof_lease_id = gw_next_lease_id g, proof_epoch = 1\<rparr>
     \<and> (\<exists>h. gw_instances g' = bm_insert (gw_next_instance_id g)
          (assign_process h (record_new (gw_next_instance_id g) caller session (alloc_lease a)))
          (gw_instances g))"

lemma allocate_with_spec:
  assumes "allocate_with P caller session i lid g = (res, g')"
    and "bm_get (gw_instances g) i = None"
  shows "same_frame g g' \<and> gw_transport g' = gw_transport g
    \<and> (case res of
         Inl _ \<Rightarrow> gw_instances g' = gw_instances g
       | Inr a \<Rightarrow> alloc_instance_id a = i
           \<and> lease_proof_of (alloc_lease a) = \<lparr>proof_instance_id = i, proof_caller_id = caller,
                proof_session_id = session, proof_lease_id = lid, proof_epoch = 1\<rparr>
           \<and> (\<exists>h. gw_instances g' = bm_insert i
                (assign_process h (record_new i caller session (alloc_lease a))) (gw_instances g)))"
  using assms
  by (auto simp: allocate_with_def gw_now_def Let_def same_frame_def lease_proof_of_def
      split: prod.splits sum.splits if_splits)

lemma allocate_spec:
  assumes "allocate P caller session g = (res, g')" and "gateway_ok g"
  shows "gw_config g' = gw_config g \<and> gw_is_admitting g' = gw_is_admitting g
    \<and> gw_transport g' = gw_transport g
    \<and> gw_next_instance_id g \<le> gw_next_instance_id g' \<and> gw_next_lease_id g \<le> gw_next_lease_id g'
    \<and> (case res of
         Inl _ \<Rightarrow> gw_instances g' = gw_instances g
       | Inr a \<Rightarrow> allocated g caller session a g' \<and> gw_is_admitting g
           \<and> bm_size (gw_instances g) < cfg_capacity (gw_config g)
           \<and> gw_next_instance_id g < gw_next_instance_id g' \<and> gw_next_lease_id g < gw_next_lease_id g')"
proof (cases "gw_is_admitting g \<and> bm_size (gw_instances g) < cfg_capacity (gw_config g)")
  case False
  then show ?thesis using assms(1) by (auto simp: allocate_def split: if_splits)
next
  case True
  have fresh: "bm_get (gw_instances g) (gw_next_instance_id g) = None"
    using assms(2) by (cases "bm_get (gw_instances g) (gw_next_instance_id g)") (auto simp: gateway_ok_def)
  obtain r1 g1 where n1: "next_instance g = (r1, g1)" by fastforce
  obtain r2 g2 where n2: "next_lease g1 = (r2, g2)" by fastforce
  show ?thesis
  proof (cases "\<exists>i l. r1 = Inr i \<and> r2 = Inr l")
    case False
    then show ?thesis
      using next_instance_cases [OF n1] next_lease_cases [OF n2] assms(1) n1 n2 True
      by (auto simp: allocate_def less_imp_le)
  next
    case both: True
    then obtain n m where eqs: "r1 = Inr (gw_next_instance_id g)" "r2 = Inr (gw_next_lease_id g)"
      "g2 = g\<lparr>gw_next_instance_id := n, gw_next_lease_id := m\<rparr>"
      "gw_next_instance_id g < n" "gw_next_lease_id g < m"
      using next_instance_cases [OF n1] next_lease_cases [OF n2] by auto
    then have "allocate_with P caller session (gw_next_instance_id g) (gw_next_lease_id g) g2 = (res, g')"
      using assms(1) n1 n2 True by (auto simp: allocate_def)
    from allocate_with_spec [OF this] fresh eqs True show ?thesis
      by (auto simp: same_frame_def allocated_def split: sum.splits)
  qed
qed

lemma gateway_ok_cong:
  assumes "gateway_ok g" and "gw_instances g' = gw_instances g" and "gw_config g' = gw_config g"
    and "gw_next_instance_id g \<le> gw_next_instance_id g'" and "gw_next_lease_id g \<le> gw_next_lease_id g'"
  shows "gateway_ok g'"
proof (rule gateway_okI)
  show "i = j"
    if "bm_get (gw_instances g') i = Some r" "bm_get (gw_instances g') j = Some s"
      "rec_lease r = Some l" "rec_lease s = Some k" "lease_lease_id l = lease_lease_id k" for i j r s l k
    using that assms(2) gateway_ok_lease_inj [OF assms(1)] by simp
qed (use assms in \<open>auto dest: gateway_ok_bounds gateway_ok_record\<close>)

lemma gateway_ok_insert:
  assumes ok: "gateway_ok g" and m: "gw_instances g' = bm_insert i r (gw_instances g)"
    and "gw_config g' = gw_config g" and "record_ok i r"
    and "gw_next_instance_id g \<le> i" and "i < gw_next_instance_id g'"
    and "gw_next_lease_id g \<le> lease_lease_id l" and "lease_lease_id l < gw_next_lease_id g'"
    and l: "rec_lease r = Some l" and "bm_size (gw_instances g) < cfg_capacity (gw_config g)"
  shows "gateway_ok g'"
proof (rule gateway_okI)
  have fresh: "bm_get (gw_instances g) i = None"
    using assms(5) gateway_ok_bounds(1) [OF ok] by (cases "bm_get (gw_instances g) i") (auto dest: leD)
  have old: "j < gw_next_instance_id g'" if "bm_get (gw_instances g) j = Some s" for j s
    using gateway_ok_bounds(1) [OF ok that] assms(5,6) by simp
  have old_lease: "lease_lease_id k < lease_lease_id l"
    if "bm_get (gw_instances g) j = Some s" "rec_lease s = Some k" for j s k
    using gateway_ok_bounds(2) [OF ok that] assms(7) by simp
  show "bm_size (gw_instances g') \<le> cfg_capacity (gw_config g')"
    using assms(3,10) fresh by (simp add: m bm_size_insert)
  show "record_ok j s" and "j < gw_next_instance_id g'" if "bm_get (gw_instances g') j = Some s" for j s
    using that assms(4,6) old gateway_ok_record [OF ok] by (auto simp: m split: if_splits)
  show "lease_lease_id k < gw_next_lease_id g'"
    if "bm_get (gw_instances g') j = Some s" "rec_lease s = Some k" for j s k
    using that l assms(8) old_lease [THEN less_trans, OF _ _ assms(8)] by (auto simp: m split: if_splits)
  show "j = k"
    if "bm_get (gw_instances g') j = Some s" "bm_get (gw_instances g') k = Some t"
      "rec_lease s = Some u" "rec_lease t = Some v" "lease_lease_id u = lease_lease_id v" for j k s t u v
    using that l old_lease gateway_ok_lease_inj [OF ok] by (force simp: m split: if_splits)
qed

lemma allocate_ok:
  assumes "allocate P caller session g = (res, g')" and "gateway_ok g"
  shows "gateway_ok g'"
proof (cases res)
  case (Inl e)
  then show ?thesis
    using allocate_spec [OF assms] assms(2) by (auto intro: gateway_ok_cong)
next
  case (Inr a)
  with allocate_spec [OF assms] obtain h where
    m: "gw_instances g' = bm_insert (gw_next_instance_id g)
          (assign_process h (record_new (gw_next_instance_id g) caller session (alloc_lease a)))
          (gw_instances g)"
    and rest: "gw_config g' = gw_config g" "gw_next_instance_id g < gw_next_instance_id g'"
      "gw_next_lease_id g < gw_next_lease_id g'" "bm_size (gw_instances g) < cfg_capacity (gw_config g)"
    and le: "lease_proof_of (alloc_lease a) = \<lparr>proof_instance_id = gw_next_instance_id g,
          proof_caller_id = caller, proof_session_id = session,
          proof_lease_id = gw_next_lease_id g, proof_epoch = 1\<rparr>"
    by (auto simp: allocated_def)
  show ?thesis
    using rest le
    by (intro gateway_ok_insert [OF assms(2) m, where l = "alloc_lease a"])
      (auto simp: record_ok_def mark_defs lease_proof_of_def)
qed

lemma gateway_ok_remove: "gateway_ok g \<Longrightarrow> gateway_ok (gw_remove i g)"
  unfolding gateway_ok_def gw_remove_def by (auto simp: bm_size_remove split: if_splits)

lemma cleanup_spec:
  assumes "cleanup P i caller session g = (res, g')" and "gateway_ok g"
  shows "gw_transport g' = gw_transport g \<and>
    (case res of Inl _ \<Rightarrow> at_instance i g g'
     | Inr _ \<Rightarrow> same_frame g g' \<and> gw_instances g' = bm_remove i (gw_instances g))"
proof (cases "bm_get (gw_instances g) i")
  case None
  with assms(1) at_instance_refl [of g i] show ?thesis by (auto simp: cleanup_def)
next
  case (Some r)
  then have r: "record_ok i r" using assms(2) gateway_ok_record by blast
  then have refl: "at_instance i g g" using Some by (auto intro: at_instance_refl)
  have rm: "bm_remove i (bm_update i f m) = bm_remove i m" for f and m :: "(instance_id, instance_record) bmap"
    by (rule bm.ext) simp
  have "at_instance i g (with_record i mark_failed g)" if "rec_process r = Some h" for h
    using that Some r by (auto intro!: at_instance_with_record evolves_marks)
  then show ?thesis
    using assms(1) Some refl
    by (auto simp: cleanup_def gw_remove_def same_frame_def rm split: if_splits option.splits sum.splits
        prod.splits dest!: gw_stop_eq)
qed

section \<open>The transition system\<close>

text \<open>
  One rule per public operation of \<open>Gateway\<close> that takes \<open>&mut self\<close>, with arbitrary arguments;
  \<open>clock_moves\<close> lets the clock advance between operations.
\<close>

inductive gateway_step :: "('c, 'p, 'r, 't, 'f) ports \<Rightarrow> ('c, 'p, 'r, 't, 'f) gateway
    \<Rightarrow> ('c, 'p, 'r, 't, 'f) gateway \<Rightarrow> bool" for P where
  allocates: "allocate P caller session g = (ra, g') \<Longrightarrow> gateway_step P g g'"
| reconciles: "reconcile P i g = (rs, g') \<Longrightarrow> gateway_step P g g'"
| renews: "renew P tok g = (rl, g') \<Longrightarrow> gateway_step P g g'"
| releases: "release P tok g = (ru, g') \<Longrightarrow> gateway_step P g g'"
| cleans: "cleanup P i caller session g = (rc, g') \<Longrightarrow> gateway_step P g g'"
| forwards: "forward P i tok oid route body g = (rt, g') \<Longrightarrow> gateway_step P g g'"
| expires: "expire_due P g = (events, g') \<Longrightarrow> gateway_step P g g'"
| shuts: "shutdown P g = (rep, g') \<Longrightarrow> gateway_step P g g'"
| clock_moves: "gateway_step P g (g\<lparr>gw_clock := c\<rparr>)"

inductive_cases gateway_stepE: "gateway_step P g g'"

lemma gateway_ok_ports [simp]:
  "gateway_ok (g\<lparr>gw_clock := c\<rparr>) = gateway_ok g"
  "gateway_ok (g\<lparr>gw_transport := t\<rparr>) = gateway_ok g"
  "gateway_ok (g\<lparr>gw_is_admitting := b\<rparr>) = gateway_ok g"
  by (simp_all add: gateway_ok_def)

lemma owners_admitting [simp]: "owners (g\<lparr>gw_is_admitting := b\<rparr>) ids = owners g ids"
  by (rule owners_cong) simp

lemma expire_due_sweeps:
  assumes "expire_due P g = (events, g')" and "gateway_ok g"
  shows "sweeps (set (due_leases (fst (now P (gw_clock g))) (gw_instances g))) g g'
    \<and> map event_instance_id events = due_leases (fst (now P (gw_clock g))) (gw_instances g)"
proof -
  obtain t c where t: "now P (gw_clock g) = (t, c)" by fastforce
  then have "expire_each P (due_leases t (gw_instances g)) (g\<lparr>gw_clock := c\<rparr>) = (events, g')"
    using assms(1) by (simp add: expire_due_def gw_now_def)
  from expire_each_sweeps [OF this] assms(2) t show ?thesis
    by (simp add: sweeps_def same_frame_def)
qed

lemma shutdown_sweeps:
  assumes "shutdown P g = (rep, g')" and "gateway_ok g"
  shows "sweeps (set (bm_keys (gw_instances g))) (g\<lparr>gw_is_admitting := False\<rparr>) g'
    \<and> (\<forall>i \<in> set (bm_keys (gw_instances g)). shut g' i)
    \<and> report_failed rep = owners g' (bm_keys (gw_instances g))
    \<and> report_stopped rep + report_failed rep = owners g (bm_keys (gw_instances g))"
proof -
  have "shutdown_each P (bm_keys (gw_instances g)) 0 0 (g\<lparr>gw_is_admitting := False\<rparr>) = (rep, g')"
    using assms(1) by (simp add: shutdown_def Let_def)
  from shutdown_each_spec [OF this] assms(2) show ?thesis by simp
qed

text \<open>What every step may do: keep the invariant, move the counters up, evolve or drop a record.\<close>

definition progresses :: "('c, 'p, 'r, 't, 'f) gateway \<Rightarrow> ('c, 'p, 'r, 't, 'f) gateway \<Rightarrow> bool" where
  "progresses g g' \<longleftrightarrow>
     gateway_ok g' \<and> gw_config g' = gw_config g
     \<and> gw_next_instance_id g \<le> gw_next_instance_id g' \<and> gw_next_lease_id g \<le> gw_next_lease_id g'
     \<and> (gw_is_admitting g' \<longrightarrow> gw_is_admitting g)
     \<and> (\<forall>i r'. bm_get (gw_instances g') i = Some r' \<longrightarrow> i < gw_next_instance_id g \<longrightarrow>
          (\<exists>r. bm_get (gw_instances g) i = Some r \<and> evolves i r r'))"

lemma sweeps_progresses: "sweeps I g g' \<Longrightarrow> progresses g g'"
proof -
  assume s: "sweeps I g g'"
  have "\<exists>r. bm_get (gw_instances g) i = Some r \<and> evolves i r r'"
    if "bm_get (gw_instances g') i = Some r'" for i r'
  proof -
    have "rel_option (evolves i) (bm_get (gw_instances g) i) (bm_get (gw_instances g') i)"
      using s by (simp add: sweeps_def)
    with that show ?thesis by (auto simp: option_rel_Some2)
  qed
  with s show ?thesis by (auto simp: sweeps_def progresses_def same_frame_def)
qed

lemma at_instance_progresses: "at_instance i g g' \<Longrightarrow> gateway_ok g \<Longrightarrow> progresses g g'"
  using sweeps_progresses [OF at_instance_sweeps, of i g "g'\<lparr>gw_transport := gw_transport g\<rparr>"]
  by (simp add: progresses_def)

lemma progresses_removed:
  assumes "gateway_ok g" and "same_frame g g'" and "gw_instances g' = bm_remove i (gw_instances g)"
  shows "progresses g g'"
proof -
  have "gateway_ok g'"
    using gateway_ok_cong [OF gateway_ok_remove [OF assms(1), of i], of g'] assms(2,3)
    by (simp add: gw_remove_def same_frame_def)
  then show ?thesis
    using assms by (auto simp: progresses_def same_frame_def split: if_splits dest: gateway_ok_record)
qed

lemma allocate_progresses:
  assumes "allocate P caller session g = (res, g')" and "gateway_ok g"
  shows "progresses g g'"
  using allocate_spec [OF assms] allocate_ok [OF assms] assms(2)
  by (cases res)
    (auto simp: progresses_def allocated_def split: if_splits
      intro: evolves_refl [OF gateway_ok_record [OF assms(2)]])

lemma gateway_step_progresses:
  assumes "gateway_step P g g'" and ok: "gateway_ok g"
  shows "progresses g g'"
  using assms(1)
proof (cases rule: gateway_step.cases)
  case (allocates caller session ra)
  then show ?thesis using ok by (rule allocate_progresses)
next
  case (cleans i caller session rc)
  then show ?thesis using cleanup_spec [OF cleans ok] ok
    by (auto intro: progresses_removed at_instance_progresses split: sum.splits)
next
  case (expires events)
  then show ?thesis using expire_due_sweeps [OF expires ok] by (auto intro: sweeps_progresses)
next
  case (shuts rep)
  then show ?thesis using shutdown_sweeps [OF shuts ok] sweeps_progresses
    by (fastforce simp: progresses_def)
next
  case (clock_moves c)
  then show ?thesis using ok by (auto simp: progresses_def dest: gateway_ok_record)
next
  case (reconciles i rs)
  then show ?thesis using reconcile_at(1) ok at_instance_progresses by blast
next
  case (renews tok rl)
  then show ?thesis using renew_at(1) ok at_instance_progresses by blast
next
  case (releases tok ru)
  then show ?thesis using release_at(1) ok at_instance_progresses by blast
next
  case (forwards i tok oid route body rt)
  then show ?thesis using forward_at ok at_instance_progresses by blast
qed

interpretation gateway_run: step_invariant "gateway_step P" gateway_ok for P
  by unfold_locales (auto dest: gateway_step_progresses simp: progresses_def)

interpretation instance_ids: step_monotone "gateway_step P" gateway_ok gw_next_instance_id for P
  by unfold_locales (auto dest: gateway_step_progresses simp: progresses_def)

interpretation lease_ids: step_monotone "gateway_step P" gateway_ok gw_next_lease_id for P
  by unfold_locales (auto dest: gateway_step_progresses simp: progresses_def)

lemma gateway_ok_initial: "gateway_ok (gateway_with_fence config clock process rdy transport fence)"
  by (simp add: gateway_ok_def gateway_with_fence_def)

text \<open>
  An instance is closed once its identity has been issued and it has no record any more or a
  terminal one. No step reopens it.
\<close>

definition closed_instance :: "instance_id \<Rightarrow> ('c, 'p, 'r, 't, 'f) gateway \<Rightarrow> bool" where
  "closed_instance i g \<longleftrightarrow> gateway_ok g \<and> i < gw_next_instance_id g \<and> shut g i"

lemma closed_instance_step:
  assumes "closed_instance i g" and "gateway_step P g g'"
  shows "closed_instance i g'"
proof -
  have "progresses g g'"
    using gateway_step_progresses [OF assms(2)] assms(1) by (simp add: closed_instance_def)
  with assms(1) show ?thesis
    by (fastforce simp: closed_instance_def progresses_def shut_def evolves_def split: option.splits)
qed

interpretation closed_run: step_invariant "gateway_step P" "closed_instance i" for P i
  by unfold_locales (rule closed_instance_step)

text \<open>
  What a forwarded request must satisfy: its body is in bounds, the lease decision accepted the
  proof for the current lease of the target at the time just read, and the target is \<open>Ready\<close> or
  \<open>Busy\<close> with a process of its own, to which the request is addressed.
\<close>

definition forward_admitted :: "('c, 'p, 'r, 't, 'f) ports \<Rightarrow> instance_id \<Rightarrow> lease_proof \<Rightarrow> u8 list
    \<Rightarrow> ('c, 'p, 'r, 't, 'f) gateway \<Rightarrow> process_handle option" where
  "forward_admitted P target tok body g =
     (case bm_get (gw_instances g) target of
        None \<Rightarrow> None
      | Some r \<Rightarrow>
          if length body \<le> cfg_max_body_bytes (gw_config g)
             \<and> fst (check_fence P (gw_fence g) (rec_lease r) target tok (fst (now P (gw_clock g)))) = Inr ()
             \<and> accepts_forwarding (rec_state r)
          then rec_process r else None)"

lemma authorize_forward_Inr:
  assumes "authorize_forward P i tok g = (Inr h, g')"
  shows "\<exists>r. bm_get (gw_instances g) i = Some r \<and> accepts_forwarding (rec_state r) \<and> rec_process r = Some h
    \<and> fst (check_fence P (gw_fence g) (rec_lease r) i tok (fst (now P (gw_clock g)))) = Inr ()"
proof -
  obtain v g1 where vf: "validate_fence P i tok g = (v, g1)" by fastforce
  with assms have v: "v = Inr ()" by (auto simp: authorize_forward_def split: sum.splits)
  note ok = validate_fence_ok [OF vf [unfolded v]]
  show ?thesis
    using assms vf v ok by (auto simp: authorize_forward_def split: option.splits if_splits)
qed

lemma authorize_forward_refused:
  assumes "authorize_forward P i tok g = (Inl e, g')" and "gateway_ok g"
  shows "forward_admitted P i tok body g = None"
proof (rule ccontr)
  assume "forward_admitted P i tok body g \<noteq> None"
  then obtain r h where r: "bm_get (gw_instances g) i = Some r" "accepts_forwarding (rec_state r)"
    "fst (check_fence P (gw_fence g) (rec_lease r) i tok (fst (now P (gw_clock g)))) = Inr ()"
    "rec_process r = Some h"
    by (auto simp: forward_admitted_def split: option.splits if_splits)
  then have "\<exists>g1. validate_fence P i tok g = (Inr (), g1) \<and> gw_instances g1 = gw_instances g"
    by (auto simp: validate_fence_def gw_now_def Let_def split: prod.splits)
  with assms r show False by (auto simp: authorize_forward_def)
qed

end
