(* ===== verification/Control_Plane_Properties.thy ===== *)
theory Control_Plane_Properties
  imports Control_Plane_Safety
begin

text \<open>
  The properties of the control plane, each over the definitions of \<open>Control_Plane\<close>, and a small
  concrete deployment (a clock that stands still until it is moved, a process port that hands out
  consecutive handles, a transport that records what it was asked to forward) at which their
  hypotheses hold.
\<close>

section \<open>A concrete deployment\<close>

definition demo_ports :: "(u64, u64, unit, transport_request list, unit) ports" where
  "demo_ports = \<lparr>
     now = (\<lambda>c. (c, c)),
     check_fence = deterministic_check_fence,
     process_start = (\<lambda>p spec. (Inr p, p + 1)),
     process_inspect = (\<lambda>p h. (Inr Running, p)),
     process_stop = (\<lambda>p h mode. (Inr (), p)),
     readiness_probe = (\<lambda>r i h. (Inr readiness.Ready, r)),
     transport_forward = (\<lambda>t req. (Inr \<lparr>response_status = 200, response_body = []\<rparr>, t @ [req]))\<rparr>"

definition demo_gateway :: "(u64, u64, unit, transport_request list, unit) gateway" where
  "demo_gateway = gateway_with_fence
     \<lparr>cfg_capacity = 2, cfg_lease_duration_millis = 1000, cfg_max_body_bytes = 16,
      cfg_max_response_bytes = 16\<rparr> 100 50 () [] ()"

definition demo_lease :: lease where
  "demo_lease = \<lparr>lease_instance_id = 1, lease_caller_id = 7, lease_session_id = 9,
     lease_lease_id = 1, lease_epoch = 1, lease_expires_at = 1100\<rparr>"

definition demo_record :: instance_record where
  "demo_record = \<lparr>rec_instance_id = 1, rec_caller_id = 7, rec_session_id = 9,
     rec_state = lifecycle_state.Ready, rec_process = Some 50, rec_lease = Some demo_lease\<rparr>"

definition demo_ready :: "(u64, u64, unit, transport_request list, unit) gateway" where
  "demo_ready = demo_gateway\<lparr>gw_process := 51, gw_next_instance_id := 2, gw_next_lease_id := 2,
     gw_instances := bm_insert 1 demo_record bm_empty\<rparr>"

lemmas demo_defs = demo_ports_def demo_gateway_def demo_lease_def demo_record_def demo_ready_def
  gateway_with_fence_def deterministic_check_fence_def

lemmas demo_eval = demo_defs allocate_def allocate_with_def next_instance_def next_lease_def
  gw_now_def gw_stop_def Let_def checked_add_u64_def saturating_add_millis_def saturating_add_u64_def
  mark_defs with_record_def bm_update_def bm.ins_ins launch_spec_new_def

lemma demo_allocate:
  "allocate demo_ports 7 9 demo_gateway =
     (Inr \<lparr>alloc_instance_id = 1, alloc_lease = demo_lease\<rparr>,
      demo_ready\<lparr>gw_instances := bm_insert 1 (demo_record\<lparr>rec_state := lifecycle_state.Starting\<rparr>) bm_empty\<rparr>)"
  by (simp add: demo_eval)

lemma demo_reconcile:
  "reconcile demo_ports 1 (snd (allocate demo_ports 7 9 demo_gateway)) =
     (Inr lifecycle_state.Ready, demo_ready)"
  unfolding demo_allocate snd_conv
  by (simp add: reconcile_def lease_expired_def reconcile_readiness_def demo_eval)

lemma demo_reachable: "(gateway_step demo_ports)\<^sup>*\<^sup>* demo_gateway demo_ready"
proof -
  have "gateway_step demo_ports demo_gateway (snd (allocate demo_ports 7 9 demo_gateway))"
    by (rule gateway_step.allocates [of _ 7 9 _ "fst (allocate demo_ports 7 9 demo_gateway)"]) simp
  moreover have "gateway_step demo_ports (snd (allocate demo_ports 7 9 demo_gateway)) demo_ready"
    by (rule gateway_step.reconciles [OF demo_reconcile])
  ultimately show ?thesis by (meson converse_rtranclp_into_rtranclp r_into_rtranclp)
qed

lemma demo_gateway_ok: "gateway_ok demo_gateway"
  unfolding demo_gateway_def by (rule gateway_ok_initial)

lemma demo_ready_ok: "gateway_ok demo_ready"
  by (rule gateway_run.run_keeps [OF demo_reachable demo_gateway_ok])

section \<open>The invariant\<close>

text \<open>
  C1. In every state that the control plane reaches from start-up through any sequence of
  operations, with any ports: each record belongs to its key; it holds a lease exactly while it is
  not terminal, the lease names the record's own instance, caller and session, and no two
  instances hold leases with the same identity; a record has dropped its process handle exactly
  when it is \<open>Stopped\<close> or \<open>Expired\<close>; issued identities lie below the counters; and the number of
  instances never exceeds the configured capacity.
\<close>

theorem gateway_invariant_reachable:
  assumes "(gateway_step P)\<^sup>*\<^sup>* (gateway_with_fence config clock process rdy transport fence) g"
  shows "gateway_ok g"
  by (rule gateway_run.run_keeps [OF assms gateway_ok_initial])

theorem gateway_invariant_reachable_witness:
  "gateway_ok demo_ready \<and> bm_get (gw_instances demo_ready) 1 = Some demo_record"
  using gateway_invariant_reachable [OF demo_reachable [unfolded demo_gateway_def]]
  by (simp add: demo_ready_def)

section \<open>Forwarding\<close>

lemma forward_exact:
  assumes "gateway_ok g" and "forward P target tok oid route body g = (res, g')"
  shows "case forward_admitted P target tok body g of
      None \<Rightarrow> gw_transport g' = gw_transport g \<and> is_err res
    | Some h \<Rightarrow> gw_transport g' = snd (transport_forward P (gw_transport g)
        \<lparr>request_instance_id = target, request_process = h, request_lease = tok,
         request_operation_id = oid, request_route = route, request_body = body\<rparr>)"
proof (cases "length body \<le> cfg_max_body_bytes (gw_config g)")
  case False
  with assms(2) show ?thesis
    by (auto simp: forward_def forward_admitted_def split: option.splits)
next
  case True
  obtain a g1 where au: "authorize_forward P target tok g = (a, g1)" by fastforce
  note at = authorize_forward_at [OF au assms(1)]
  show ?thesis
  proof (cases a)
    case (Inl e)
    with assms(2) au True at authorize_forward_refused [OF au [unfolded Inl] assms(1)] show ?thesis
      by (auto simp: forward_def)
  next
    case (Inr h)
    then have "forward_admitted P target tok body g = Some h"
      using authorize_forward_Inr [OF au [unfolded Inr]] True by (auto simp: forward_admitted_def)
    with assms(2) au True at Inr show ?thesis
      by (auto simp: forward_def Let_def split: prod.splits sum.splits if_splits)
  qed
qed

text \<open>
  C2. \<open>forward\<close> calls the transport exactly when the request is admitted (body in bounds, lease
  decision \<open>Ok\<close> on the target's current lease, target \<open>Ready\<close> or \<open>Busy\<close> with a process), and then
  exactly once, with the caller's body, route and proof, addressed to the process recorded for
  the target. In every other case the transport is untouched and the caller gets an error.
\<close>

theorem forward_transport_exact:
  assumes "gateway_ok g" and "forward P target tok oid route body g = (res, g')"
  shows "case forward_admitted P target tok body g of
      None \<Rightarrow> gw_transport g' = gw_transport g \<and> is_err res
    | Some h \<Rightarrow> gw_transport g' = snd (transport_forward P (gw_transport g)
        \<lparr>request_instance_id = target, request_process = h, request_lease = tok,
         request_operation_id = oid, request_route = route, request_body = body\<rparr>)"
  using assms by (rule forward_exact)

theorem forward_transport_exact_witness:
  "gw_transport (snd (forward demo_ports 1 (lease_proof_of demo_lease) 5 Command [1, 2] demo_ready)) =
     [\<lparr>request_instance_id = 1, request_process = 50, request_lease = lease_proof_of demo_lease,
       request_operation_id = 5, request_route = Command, request_body = [1, 2]\<rparr>]
   \<and> gw_transport (snd (forward demo_ports 1 ((lease_proof_of demo_lease)\<lparr>proof_epoch := 0\<rparr>) 5 Command
       [1, 2] demo_ready)) = []"
  using forward_transport_exact [OF demo_ready_ok surjective_pairing,
      of demo_ports 1 "lease_proof_of demo_lease" 5 Command "[1, 2]"]
    forward_transport_exact [OF demo_ready_ok surjective_pairing,
      of demo_ports 1 "(lease_proof_of demo_lease)\<lparr>proof_epoch := 0\<rparr>" 5 Command "[1, 2]"]
  by (simp add: forward_admitted_def demo_defs evaluate_fence_def lease_proof_of_def
      accepts_forwarding_def)

text \<open>
  C3. With the default lease decision, a request reaches the transport only if it presents
  exactly the proof of the target's current lease before that lease expires: same instance,
  caller, session, lease identity and epoch. A proof issued for another instance or an older epoch
  never gets through.
\<close>

theorem forward_only_leaseholder:
  assumes "gateway_ok g" and "check_fence P = deterministic_check_fence"
    and "forward P target tok oid route body g = (res, g')"
    and "gw_transport g' \<noteq> gw_transport g"
  shows "\<exists>r l. bm_get (gw_instances g) target = Some r \<and> rec_lease r = Some l
    \<and> tok = lease_proof_of l \<and> proof_instance_id tok = target
    \<and> fst (now P (gw_clock g)) < lease_expires_at l \<and> accepts_forwarding (rec_state r)
    \<and> length body \<le> cfg_max_body_bytes (gw_config g)"
proof -
  obtain h where "forward_admitted P target tok body g = Some h"
    using forward_exact [OF assms(1,3)] assms(4)
    by (cases "forward_admitted P target tok body g") auto
  then obtain r where r: "bm_get (gw_instances g) target = Some r" "accepts_forwarding (rec_state r)"
      "length body \<le> cfg_max_body_bytes (gw_config g)"
      "evaluate_fence (rec_lease r) target tok (fst (now P (gw_clock g))) = Inr ()"
    using assms(2)
    by (auto simp: forward_admitted_def deterministic_check_fence_def split: option.splits if_splits)
  then obtain l where l: "rec_lease r = Some l" "lease_authorises l target tok (fst (now P (gw_clock g)))"
    by (auto simp: default_fence.accepts_iff)
  have "lease_instance_id l = target"
    using gateway_ok_record [OF assms(1) r(1)] l(1) by (simp add: record_ok_def)
  with r l show ?thesis by (auto simp: lease_authorises_def lease_proof_of_def)
qed

theorem forward_only_leaseholder_witness:
  "\<exists>r l. bm_get (gw_instances demo_ready) 1 = Some r \<and> rec_lease r = Some l
    \<and> lease_proof_of demo_lease = lease_proof_of l \<and> proof_instance_id (lease_proof_of demo_lease) = 1
    \<and> fst (now demo_ports (gw_clock demo_ready)) < lease_expires_at l \<and> accepts_forwarding (rec_state r)
    \<and> length [1, 2 :: u8] \<le> cfg_max_body_bytes (gw_config demo_ready)"
proof (rule forward_only_leaseholder [OF demo_ready_ok _ surjective_pairing])
  show "check_fence demo_ports = deterministic_check_fence" by (simp add: demo_ports_def)
  show "gw_transport (snd (forward demo_ports 1 (lease_proof_of demo_lease) 5 Command [1, 2] demo_ready))
    \<noteq> gw_transport demo_ready"
    using forward_exact [OF demo_ready_ok surjective_pairing,
        of demo_ports 1 "lease_proof_of demo_lease" 5 Command "[1, 2]"]
    by (simp add: forward_admitted_def demo_defs evaluate_fence_def lease_proof_of_def
        accepts_forwarding_def)
qed

text \<open>
  C4. Once an instance is closed (its identity was issued and it is terminal or removed), no
  sequence of operations ever makes a request reach the transport for it again, whatever proof is
  presented and whatever the lease decision answers: \<open>forward\<close> reports an error.
\<close>

theorem closed_instance_never_forwarded:
  assumes "closed_instance i g" and "(gateway_step P)\<^sup>*\<^sup>* g g'"
    and "forward P i tok oid route body g' = (res, g'')"
  shows "is_err res \<and> gw_transport g'' = gw_transport g'"
proof -
  have "closed_instance i g'" using assms(2,1) by (rule closed_run.run_keeps)
  then have "gateway_ok g'" and "forward_admitted P i tok body g' = None"
    by (auto simp: closed_instance_def shut_def forward_admitted_def dest: accepts_forwarding_live
        split: option.splits)
  then show ?thesis using forward_exact [OF _ assms(3)] by simp
qed

definition demo_released :: "(u64, u64, unit, transport_request list, unit) gateway" where
  "demo_released = snd (release demo_ports (lease_proof_of demo_lease) demo_ready)"

lemma demo_released_eq: "demo_released = demo_ready\<lparr>gw_instances := bm_insert 1
    (demo_record\<lparr>rec_state := Stopped, rec_process := None, rec_lease := None\<rparr>) bm_empty\<rparr>"
  by (simp add: demo_released_def release_def validate_fence_def demo_eval evaluate_fence_def
      lease_proof_of_def is_terminal_def)

theorem closed_instance_never_forwarded_witness:
  "is_err (fst (forward demo_ports 1 (lease_proof_of demo_lease) 5 Command [] demo_released))
   \<and> gw_transport (snd (forward demo_ports 1 (lease_proof_of demo_lease) 5 Command [] demo_released)) = []"
proof -
  have "gateway_ok demo_released"
    using release_at(1) [OF surjective_pairing demo_ready_ok] at_instance_gateway_ok demo_ready_ok
    unfolding demo_released_def by blast
  then have "closed_instance 1 demo_released"
    by (simp add: closed_instance_def shut_def demo_released_eq) (simp add: demo_ready_def)
  from closed_instance_never_forwarded [OF this rtranclp.rtrancl_refl surjective_pairing,
      of demo_ports "lease_proof_of demo_lease" 5 Command "[]"]
  show ?thesis by (simp add: demo_released_eq) (simp add: demo_defs)
qed

text \<open>
  C5. Instance and lease identities are never reissued: if two allocations of one run both
  succeed, the later one gets strictly larger identities, however many operations lie between
  them. Exhaustion of the counters is an error, never a wrap-around.
\<close>

theorem allocation_identities_fresh:
  assumes "gateway_ok g" and "allocate P caller session g = (Inr a, g1)"
    and "(gateway_step P)\<^sup>*\<^sup>* g1 g2" and "allocate P caller' session' g2 = (Inr b, g3)"
  shows "alloc_instance_id a < alloc_instance_id b
    \<and> lease_lease_id (alloc_lease a) < lease_lease_id (alloc_lease b)"
proof -
  have g1: "gateway_ok g1" using assms(2,1) by (rule allocate_ok)
  have g2: "gateway_ok g2" using assms(3) g1 by (rule gateway_run.run_keeps)
  have a: "alloc_instance_id a < gw_next_instance_id g1" "lease_lease_id (alloc_lease a) < gw_next_lease_id g1"
    using allocate_spec [OF assms(2,1)] by (auto simp: allocated_def lease_proof_of_def)
  have b: "alloc_instance_id b = gw_next_instance_id g2" "lease_lease_id (alloc_lease b) = gw_next_lease_id g2"
    using allocate_spec [OF assms(4) g2] by (auto simp: allocated_def lease_proof_of_def)
  show ?thesis
    using a b instance_ids.run_level [OF assms(3) g1] lease_ids.run_level [OF assms(3) g1] by auto
qed

theorem allocation_identities_fresh_witness:
  "alloc_instance_id (projr (fst (allocate demo_ports 7 9 demo_gateway)))
     < alloc_instance_id (projr (fst (allocate demo_ports 7 9 demo_ready)))"
proof -
  obtain b g3 where b: "allocate demo_ports 7 9 demo_ready = (Inr b, g3)"
    by (simp add: demo_eval bm_size_def bm_entries_insert)
  have "(gateway_step demo_ports)\<^sup>*\<^sup>* (snd (allocate demo_ports 7 9 demo_gateway)) demo_ready"
    by (rule r_into_rtranclp) (rule gateway_step.reconciles [OF demo_reconcile])
  from allocation_identities_fresh [OF demo_gateway_ok demo_allocate this [unfolded demo_allocate snd_conv] b]
  show ?thesis by (simp add: b demo_allocate)
qed

section \<open>Isolation\<close>

text \<open>
  C6. An operation on one instance leaves the record of every other instance exactly as it was:
  state, process and lease. This covers \<open>renew\<close>, \<open>release\<close>, \<open>reconcile\<close>, \<open>cleanup\<close> and
  \<open>forward\<close>, on their error paths too.
\<close>

theorem operations_isolated:
  assumes "gateway_ok g" and "j \<noteq> i" and "proof_instance_id tok = i"
  shows "bm_get (gw_instances (snd (renew P tok g))) j = bm_get (gw_instances g) j
    \<and> bm_get (gw_instances (snd (release P tok g))) j = bm_get (gw_instances g) j
    \<and> bm_get (gw_instances (snd (reconcile P i g))) j = bm_get (gw_instances g) j
    \<and> bm_get (gw_instances (snd (cleanup P i caller session g))) j = bm_get (gw_instances g) j
    \<and> bm_get (gw_instances (snd (forward P i tok' oid route body g))) j = bm_get (gw_instances g) j"
  using renew_at(1) [OF surjective_pairing assms(1)] release_at(1) [OF surjective_pairing assms(1)]
    reconcile_at(1) [OF surjective_pairing assms(1)] forward_at [OF surjective_pairing assms(1)]
    cleanup_spec [OF surjective_pairing assms(1), of P i caller session] assms(2,3)
  by (auto simp: at_instance_def split: sum.splits)

theorem operations_isolated_witness:
  "bm_get (gw_instances (snd (release demo_ports ((lease_proof_of demo_lease)\<lparr>proof_instance_id := 2\<rparr>)
     demo_ready))) 1 = Some demo_record"
  using operations_isolated [OF demo_ready_ok, of 1 2 "(lease_proof_of demo_lease)\<lparr>proof_instance_id := 2\<rparr>" demo_ports]
  by (simp add: demo_ready_def)

section \<open>Expiry, shutdown, allocation, renewal\<close>

lemma due_leases_iff:
  "i \<in> set (due_leases t m) \<longleftrightarrow>
     (\<exists>r l. bm_get m i = Some r \<and> rec_lease r = Some l \<and> lease_expires_at l \<le> t)"
  by (force simp: due_leases_def bm.entries_get image_iff split: option.splits)

lemma due_leases_sorted: "sorted_wrt (<) (due_leases t m)"
  using bm.entries_sorted [of m] unfolding due_leases_def
  by (simp add: sorted_wrt_map sorted_wrt_filter)

text \<open>
  C7. \<open>expire_due\<close> reports one event per lease that is due at the time it reads, in ascending
  instance order; afterwards every lease still held expires later than that time, each reported
  instance is terminal, and every record whose lease was not due is unchanged.
\<close>

theorem expire_due_complete:
  assumes "gateway_ok g" and "expire_due P g = (events, g')"
  shows "let t = fst (now P (gw_clock g)); ids = map event_instance_id events in
    sorted_wrt (<) ids
    \<and> (\<forall>i. i \<in> set ids \<longleftrightarrow> (\<exists>r l. bm_get (gw_instances g) i = Some r \<and> rec_lease r = Some l
          \<and> lease_expires_at l \<le> t))
    \<and> (\<forall>i. i \<in> set ids \<longrightarrow> (\<exists>r. bm_get (gw_instances g') i = Some r \<and> is_terminal (rec_state r)))
    \<and> (\<forall>i. i \<notin> set ids \<longrightarrow> bm_get (gw_instances g') i = bm_get (gw_instances g) i)
    \<and> (\<forall>i r l. bm_get (gw_instances g') i = Some r \<longrightarrow> rec_lease r = Some l \<longrightarrow> t < lease_expires_at l)"
proof -
  obtain t c where c: "now P (gw_clock g) = (t, c)" by fastforce
  let ?due = "due_leases t (gw_instances g)"
  have sw: "sweeps (set ?due) g g'" and ev: "map event_instance_id events = ?due"
    using expire_due_sweeps [OF assms(2,1)] by (simp_all add: c)
  have closes: "\<exists>r. bm_get (gw_instances g') i = Some r \<and> is_terminal (rec_state r)" if "i \<in> set ?due" for i
  proof -
    have "expire_each P ?due (g\<lparr>gw_clock := c\<rparr>) = (events, g')"
      using assms(2) by (simp add: expire_due_def gw_now_def c)
    from expire_each_closes [OF this _ that] assms(1) that show ?thesis
      by (auto simp: due_leases_iff)
  qed
  have same: "bm_get (gw_instances g') i = bm_get (gw_instances g) i" if "i \<notin> set ?due" for i
    using that sw by (simp add: sweeps_def)
  have "t < lease_expires_at l" if r: "bm_get (gw_instances g') i = Some r" and l: "rec_lease r = Some l" for i r l
  proof (cases "i \<in> set ?due")
    case True
    then have "is_terminal (rec_state r)" using closes [of i] r by auto
    moreover have "record_ok i r" using r sw gateway_ok_record by (auto simp: sweeps_def)
    ultimately show ?thesis using l by (simp add: record_ok_def)
  next
    case False
    then have "bm_get (gw_instances g) i = Some r" using r same by simp
    with False l show ?thesis by (auto simp: due_leases_iff not_le)
  qed
  then show ?thesis
    unfolding Let_def ev c fst_conv using closes same by (auto simp: due_leases_sorted due_leases_iff)
qed

theorem expire_due_complete_witness:
  "\<exists>r. bm_get (gw_instances (snd (expire_due demo_ports (demo_ready\<lparr>gw_clock := 1100\<rparr>)))) 1 = Some r
    \<and> is_terminal (rec_state r)"
proof -
  let ?g = "demo_ready\<lparr>gw_clock := 1100\<rparr>"
  have ok: "gateway_ok ?g" using demo_ready_ok by simp
  have due: "bm_get (gw_instances ?g) 1 = Some demo_record" "rec_lease demo_record = Some demo_lease"
    "lease_expires_at demo_lease \<le> fst (now demo_ports (gw_clock ?g))"
    by (simp_all add: demo_defs)
  show ?thesis
    using expire_due_complete [OF ok surjective_pairing [of "expire_due demo_ports ?g"]] due
    unfolding Let_def by blast
qed

lemma admission_stays_closed:
  assumes "(gateway_step P)\<^sup>*\<^sup>* g h" and "gateway_ok g" and "\<not> gw_is_admitting g"
  shows "\<not> gw_is_admitting h"
  using assms
proof (induction rule: rtranclp_induct)
  case (step h k)
  then have "gateway_ok h" by (auto intro: gateway_run.run_keeps)
  with step show ?case using gateway_step_progresses [OF step(2)] by (auto simp: progresses_def)
qed

text \<open>
  C8. \<open>shutdown\<close> closes admission, makes every instance terminal and so ends every lease; the
  report counts each instance that owned a process once, as stopped or failed, and the failed
  count is the number of instances that still own one. Every later allocation is refused.
\<close>

theorem shutdown_closes_everything:
  assumes "gateway_ok g" and "shutdown P g = (rep, g')"
  shows "(\<forall>i r. bm_get (gw_instances g') i = Some r \<longrightarrow> is_terminal (rec_state r) \<and> rec_lease r = None)
    \<and> report_stopped rep + report_failed rep = owners g (bm_keys (gw_instances g))
    \<and> report_failed rep = owners g' (bm_keys (gw_instances g))
    \<and> (\<forall>h caller session. (gateway_step P)\<^sup>*\<^sup>* g' h \<longrightarrow>
          allocate P caller session h = (Inl AdmissionClosed, h))"
proof -
  note sw = shutdown_sweeps [OF assms(2,1)]
  have ok: "gateway_ok g'" and closed: "\<not> gw_is_admitting g'"
    using sw by (auto simp: sweeps_def same_frame_def)
  have "is_terminal (rec_state r) \<and> rec_lease r = None" if r: "bm_get (gw_instances g') i = Some r" for i r
  proof -
    have "rel_option (evolves i) (bm_get (gw_instances g) i) (bm_get (gw_instances g') i)"
      using sw by (auto simp: sweeps_def)
    then have "i \<in> set (bm_keys (gw_instances g))" using r by (auto simp: set_bm_keys option_rel_Some2)
    then have "is_terminal (rec_state r)" using sw r by (auto simp: shut_def)
    with gateway_ok_record [OF ok r] show ?thesis by (simp add: record_ok_def)
  qed
  moreover have "allocate P caller session h = (Inl AdmissionClosed, h)"
    if "(gateway_step P)\<^sup>*\<^sup>* g' h" for h caller session
    using admission_stays_closed [OF that ok closed] by (simp add: allocate_def)
  ultimately show ?thesis using sw by blast
qed

theorem shutdown_closes_everything_witness:
  "report_stopped (fst (shutdown demo_ports demo_ready)) + report_failed (fst (shutdown demo_ports demo_ready)) = 1"
proof -
  have "owners demo_ready (bm_keys (gw_instances demo_ready)) = 1"
    by (simp add: owners_def owns_process_def bm_keys_def bm_entries_insert demo_ready_def)
      (simp add: demo_defs)
  with shutdown_closes_everything [OF demo_ready_ok surjective_pairing [of "shutdown demo_ports demo_ready"]]
  show ?thesis by simp
qed

text \<open>
  \<open>allocate\<close> succeeds only with admission open and capacity left; it then adds exactly one
  record, under an identity that had none, \<open>Starting\<close> with the process the port returned and a
  first-epoch lease for the caller and session. On every error, a failed process start included,
  the instance table is exactly what it was, and the two admission errors are reported exactly
  when admission is closed or the table is full.
\<close>

theorem allocate_outcome:
  assumes "gateway_ok g" and "allocate P caller session g = (res, g')"
  shows "(case res of
      Inl e \<Rightarrow> gw_instances g' = gw_instances g
    | Inr a \<Rightarrow> \<exists>h. bm_get (gw_instances g) (alloc_instance_id a) = None
        \<and> gw_instances g' = bm_insert (alloc_instance_id a)
            \<lparr>rec_instance_id = alloc_instance_id a, rec_caller_id = caller, rec_session_id = session,
             rec_state = lifecycle_state.Starting, rec_process = Some h, rec_lease = Some (alloc_lease a)\<rparr>
            (gw_instances g)
        \<and> lease_caller_id (alloc_lease a) = caller \<and> lease_session_id (alloc_lease a) = session
        \<and> lease_instance_id (alloc_lease a) = alloc_instance_id a \<and> lease_epoch (alloc_lease a) = 1
        \<and> bm_size (gw_instances g') \<le> cfg_capacity (gw_config g))
    \<and> (res = Inl AdmissionClosed \<longleftrightarrow> \<not> gw_is_admitting g)
    \<and> (res = Inl CapacityExceeded \<longleftrightarrow>
         gw_is_admitting g \<and> cfg_capacity (gw_config g) \<le> bm_size (gw_instances g))"
proof -
  have fresh: "bm_get (gw_instances g) (gw_next_instance_id g) = None"
    using gateway_ok_bounds(1) [OF assms(1)] by (cases "bm_get (gw_instances g) (gw_next_instance_id g)") auto
  have closed: "res = Inl AdmissionClosed \<longleftrightarrow> \<not> gw_is_admitting g"
    and full: "res = Inl CapacityExceeded \<longleftrightarrow>
      gw_is_admitting g \<and> cfg_capacity (gw_config g) \<le> bm_size (gw_instances g)"
    using assms(2)
    by (auto simp: allocate_def allocate_with_def next_instance_def next_lease_def gw_now_def Let_def
        split: if_splits option.splits prod.splits sum.splits)
  show ?thesis
    using allocate_spec [OF assms(2,1)] closed full fresh
    by (cases res) (auto simp: allocated_def lease_proof_of_def mark_defs bm_size_insert)
qed

theorem allocate_outcome_witness:
  "bm_size (gw_instances (snd (allocate demo_ports 7 9 demo_gateway))) \<le> 2
   \<and> fst (allocate demo_ports 7 9 (demo_gateway\<lparr>gw_is_admitting := False\<rparr>)) = Inl AdmissionClosed"
proof -
  have "gateway_ok (demo_gateway\<lparr>gw_is_admitting := False\<rparr>)" using demo_gateway_ok by simp
  from allocate_outcome [OF this surjective_pairing, of demo_ports 7 9]
    allocate_outcome [OF demo_gateway_ok demo_allocate]
  show ?thesis by (auto simp: demo_allocate bm_size_insert)
qed

text \<open>
  A successful \<open>renew\<close> under the default lease decision was asked by the current
  leaseholder before expiry; it changes nothing but the expiry of that lease, to the time of the
  second clock reading plus the configured duration (saturating at the largest tick), so that the
  same proof stays valid until then.
\<close>

theorem renew_extends_lease:
  assumes "gateway_ok g" and "check_fence P = deterministic_check_fence"
    and "renew P tok g = (Inr l', g')" and "now P (gw_clock g) = (t1, c1)" and "now P c1 = (t2, c2)"
  shows "\<exists>r l. bm_get (gw_instances g) (proof_instance_id tok) = Some r \<and> rec_lease r = Some l
    \<and> tok = lease_proof_of l \<and> t1 < lease_expires_at l
    \<and> l' = lease_renewed l (saturating_add_millis t2 (cfg_lease_duration_millis (gw_config g)))
    \<and> bm_get (gw_instances g') (proof_instance_id tok) = Some (r\<lparr>rec_lease := Some l'\<rparr>)
    \<and> (\<forall>t. t < lease_expires_at l' \<longrightarrow> evaluate_fence (Some l') (proof_instance_id tok) tok t = Inr ())"
proof -
  let ?i = "proof_instance_id tok"
  obtain v g1 where vf: "validate_fence P ?i tok g = (v, g1)" by fastforce
  with assms(3) have v: "v = Inr ()" by (auto simp: renew_def split: sum.splits)
  note ok = validate_fence_ok [OF vf [unfolded v]]
  obtain r where r: "bm_get (gw_instances g) ?i = Some r" "evaluate_fence (rec_lease r) ?i tok t1 = Inr ()"
    using ok(2) assms(2,4) by (auto simp: deterministic_check_fence_def)
  then obtain l where l: "rec_lease r = Some l" "lease_authorises l ?i tok t1"
    by (auto simp: default_fence.accepts_iff)
  have "lease_instance_id l = ?i" using gateway_ok_record [OF assms(1) r(1)] l(1) by (simp add: record_ok_def)
  then have tok: "tok = lease_proof_of l" "t1 < lease_expires_at l"
    using l(2) by (auto simp: lease_authorises_def lease_proof_of_def)
  have clock: "gw_clock g1 = c1" "gw_config g1 = gw_config g"
    using vf v r assms(4) by (auto simp: validate_fence_def gw_now_def Let_def split: prod.splits if_splits)
  have l': "l' = lease_renewed l (saturating_add_millis t2 (cfg_lease_duration_millis (gw_config g)))"
    and g': "bm_get (gw_instances g') ?i = Some (r\<lparr>rec_lease := Some l'\<rparr>)"
    using assms(3,5) vf v ok(1) r(1) l(1) clock
    by (auto simp: renew_def gw_now_def Let_def set_lease_def)
  have "evaluate_fence (Some l') ?i tok t = Inr ()" if "t < lease_expires_at l'" for t
    using default_fence.renewal_keeps_proof [OF r(2) [unfolded l(1)]] that by (simp add: l')
  with r l tok l' g' show ?thesis by blast
qed

theorem renew_extends_lease_witness:
  "bm_get (gw_instances (snd (renew demo_ports (lease_proof_of demo_lease) (demo_ready\<lparr>gw_clock := 500\<rparr>)))) 1 =
     Some (demo_record\<lparr>rec_lease := Some (lease_renewed demo_lease 1500)\<rparr>)"
proof -
  let ?g = "demo_ready\<lparr>gw_clock := 500\<rparr>"
  have ok: "gateway_ok ?g" using demo_ready_ok by simp
  obtain l' g' where rn: "renew demo_ports (lease_proof_of demo_lease) ?g = (Inr l', g')"
    by (simp add: renew_def validate_fence_def demo_eval evaluate_fence_def lease_proof_of_def)
  have "check_fence demo_ports = deterministic_check_fence"
    and "now demo_ports (gw_clock ?g) = (500, 500)" and "now demo_ports 500 = (500, 500)"
    by (simp_all add: demo_ports_def)
  note renewed = renew_extends_lease [OF ok this(1) rn this(2,3)]
  have facts: "proof_instance_id (lease_proof_of demo_lease) = 1"
    "bm_get (gw_instances ?g) 1 = Some demo_record" "rec_lease demo_record = Some demo_lease"
    "saturating_add_millis 500 (cfg_lease_duration_millis (gw_config ?g)) = 1500"
    by (simp_all add: demo_defs lease_proof_of_def saturating_add_millis_def saturating_add_u64_def)
  show ?thesis
    using renewed unfolding facts rn snd_conv by (auto simp: facts)
qed

end
