(* ===== verification/Coop_Session.thy ===== *)
theory Coop_Session
  imports Gateway_Identity
begin

text \<open>
  The co-op peer synchronisation ledger (\<open>crates/gateway/src/coop_session.rs\<close>): a bounded map of
  peers, each with a role, a generation and a connection status, and the session generation that
  advances when all of them converge.
\<close>

section \<open>State and operations\<close>

definition MAX_PEERS :: nat where
  "MAX_PEERS = 4"

definition COOP_MAX_GENERATION :: u64 where
  "COOP_MAX_GENERATION = 9007199254740991"

datatype coop_peer_role = Local | Ally

datatype peer_status = Connected | Disconnected

record peer_binding =
  peer_role :: coop_peer_role
  peer_generation :: u64
  peer_status :: peer_status

record coop_synchronization_snapshot =
  sync_instance_id :: instance_id
  sync_lease_epoch :: lease_epoch
  sync_generation :: u64
  sync_peer_count :: nat
  sync_missing_peers :: "caller_id list"
  sync_disagreement :: bool
  sync_has_local_peer :: bool

definition mutation_allowed :: "coop_synchronization_snapshot \<Rightarrow> bool" where
  "mutation_allowed s \<longleftrightarrow> sync_has_local_peer s \<and> \<not> sync_disagreement s
     \<and> sync_missing_peers s = [] \<and> 2 \<le> sync_peer_count s"

record coop_session =
  coop_instance_id :: instance_id
  coop_lease_epoch :: lease_epoch
  coop_generation :: u64
  coop_peers :: "(caller_id, peer_binding) bmap"

datatype coop_session_error =
    PeerCapacity
  | DuplicatePeer
  | DuplicateLocalPeer
  | UnknownPeer
  | GenerationOutOfBounds
  | MissingLocalPeer
  | GenerationDisagreement
  | MutationSuspended

definition coop_session_new :: "instance_id \<Rightarrow> lease_epoch \<Rightarrow> u64 \<Rightarrow> coop_session" where
  "coop_session_new i epoch gen = \<lparr>coop_instance_id = i, coop_lease_epoch = epoch,
     coop_generation = gen, coop_peers = bm_empty\<rparr>"

definition has_local :: "coop_session \<Rightarrow> bool" where
  "has_local s = list_ex (\<lambda>p. peer_role p = Local) (bm_values (coop_peers s))"

definition advance_converged_generation :: "coop_session \<Rightarrow> coop_session" where
  "advance_converged_generation s =
     (if bm_size (coop_peers s) < 2 then s
      else case find (\<lambda>p. peer_role p = Local) (bm_values (coop_peers s)) of
        None \<Rightarrow> s
      | Some local_peer \<Rightarrow>
          let gen = peer_generation local_peer in
          if coop_generation s \<le> gen
             \<and> list_all (\<lambda>p. peer_status p = Connected \<and> peer_generation p = gen) (bm_values (coop_peers s))
          then s\<lparr>coop_generation := gen\<rparr> else s)"

definition register_peer :: "caller_id \<Rightarrow> coop_peer_role \<Rightarrow> u64 \<Rightarrow> coop_session
    \<Rightarrow> (coop_session_error + unit) \<times> coop_session" where
  "register_peer peer role gen s =
     (if MAX_PEERS \<le> bm_size (coop_peers s) \<and> \<not> bm_has (coop_peers s) peer then (Inl PeerCapacity, s)
      else if COOP_MAX_GENERATION < gen then (Inl GenerationOutOfBounds, s)
      else if bm_has (coop_peers s) peer then (Inl DuplicatePeer, s)
      else if gen \<noteq> coop_generation s then (Inl GenerationDisagreement, s)
      else if role = Local \<and> has_local s then (Inl DuplicateLocalPeer, s)
      else (Inr (), advance_converged_generation (s\<lparr>coop_peers := bm_insert peer
              \<lparr>peer_role = role, peer_generation = gen, peer_status = Connected\<rparr> (coop_peers s)\<rparr>)))"

definition update_generation :: "caller_id \<Rightarrow> u64 \<Rightarrow> coop_session
    \<Rightarrow> (coop_session_error + unit) \<times> coop_session" where
  "update_generation peer gen s =
     (if COOP_MAX_GENERATION < gen then (Inl GenerationOutOfBounds, s)
      else case bm_get (coop_peers s) peer of
        None \<Rightarrow> (Inl UnknownPeer, s)
      | Some p \<Rightarrow> (Inr (), advance_converged_generation
          (s\<lparr>coop_peers := bm_insert peer (p\<lparr>peer_generation := gen\<rparr>) (coop_peers s)\<rparr>)))"

definition disconnect :: "caller_id \<Rightarrow> coop_session \<Rightarrow> (coop_session_error + unit) \<times> coop_session" where
  "disconnect peer s =
     (case bm_get (coop_peers s) peer of
        None \<Rightarrow> (Inl UnknownPeer, s)
      | Some p \<Rightarrow> (Inr (),
          s\<lparr>coop_peers := bm_insert peer (p\<lparr>peer_status := Disconnected\<rparr>) (coop_peers s)\<rparr>))"

definition reconnect :: "caller_id \<Rightarrow> u64 \<Rightarrow> coop_session
    \<Rightarrow> (coop_session_error + unit) \<times> coop_session" where
  "reconnect peer gen s =
     (if COOP_MAX_GENERATION < gen then (Inl GenerationOutOfBounds, s)
      else case bm_get (coop_peers s) peer of
        None \<Rightarrow> (Inl UnknownPeer, s)
      | Some p \<Rightarrow> (Inr (), advance_converged_generation
          (s\<lparr>coop_peers := bm_insert peer
               (p\<lparr>peer_generation := gen, peer_status := Connected\<rparr>) (coop_peers s)\<rparr>)))"

text \<open>The loop of \<open>snapshot\<close>, with its two accumulators.\<close>

fun snapshot_loop :: "u64 \<Rightarrow> (caller_id \<times> peer_binding) list \<Rightarrow> caller_id list \<Rightarrow> bool
    \<Rightarrow> caller_id list \<times> bool" where
  "snapshot_loop gen [] missing disagreement = (missing, disagreement)"
| "snapshot_loop gen ((i, p) # ps) missing disagreement =
     snapshot_loop gen ps
       (if peer_status p = Disconnected then missing @ [i] else missing)
       (if peer_generation p \<noteq> gen then True else disagreement)"

definition coop_snapshot :: "coop_session \<Rightarrow> coop_synchronization_snapshot" where
  "coop_snapshot s =
     (case snapshot_loop (coop_generation s) (bm_entries (coop_peers s)) [] False of
        (missing, disagreement) \<Rightarrow>
          \<lparr>sync_instance_id = coop_instance_id s, sync_lease_epoch = coop_lease_epoch s,
           sync_generation = coop_generation s, sync_peer_count = bm_size (coop_peers s),
           sync_missing_peers = missing, sync_disagreement = disagreement,
           sync_has_local_peer = has_local s\<rparr>)"

definition authorize_mutation :: "u64 \<Rightarrow> coop_session \<Rightarrow> coop_session_error + unit" where
  "authorize_mutation gen s =
     (let snapshot = coop_snapshot s in
      if gen \<noteq> sync_generation snapshot then Inl GenerationDisagreement
      else if \<not> has_local s then Inl MissingLocalPeer
      else if \<not> mutation_allowed snapshot then Inl MutationSuspended
      else Inr ())"

section \<open>What the snapshot says\<close>

lemma snapshot_loop_eq:
  "snapshot_loop gen ps missing disagreement =
     (missing @ map fst (filter (\<lambda>(i, p). peer_status p = Disconnected) ps),
      disagreement \<or> list_ex (\<lambda>(i, p). peer_generation p \<noteq> gen) ps)"
  by (induction gen ps missing disagreement rule: snapshot_loop.induct) auto

lemma has_local_iff: "has_local s \<longleftrightarrow> (\<exists>i p. bm_get (coop_peers s) i = Some p \<and> peer_role p = Local)"
  by (auto simp: has_local_def list_ex_iff set_bm_values Bex_def)

lemma connected_iff: "peer_status p = Connected \<longleftrightarrow> peer_status p \<noteq> Disconnected"
  by (cases "peer_status p") auto

lemma coop_snapshot_missing:
  "sync_missing_peers (coop_snapshot s) = [] \<longleftrightarrow>
     (\<forall>i p. bm_get (coop_peers s) i = Some p \<longrightarrow> peer_status p = Connected)"
  by (force simp: coop_snapshot_def snapshot_loop_eq filter_empty_conv connected_iff bm.entries_get
      Ball_def)

lemma coop_snapshot_disagreement:
  "sync_disagreement (coop_snapshot s) \<longleftrightarrow>
     (\<exists>i p. bm_get (coop_peers s) i = Some p \<and> peer_generation p \<noteq> coop_generation s)"
  by (force simp: coop_snapshot_def snapshot_loop_eq list_ex_iff bm.entries_get)

lemma coop_snapshot_simps [simp]:
  "sync_generation (coop_snapshot s) = coop_generation s"
  "sync_peer_count (coop_snapshot s) = bm_size (coop_peers s)"
  "sync_has_local_peer (coop_snapshot s) = has_local s"
  by (simp_all add: coop_snapshot_def split: prod.splits)

text \<open>All peers are connected and report one generation.\<close>

definition peers_agree :: "coop_session \<Rightarrow> u64 \<Rightarrow> bool" where
  "peers_agree s gen \<longleftrightarrow>
     (\<forall>p \<in> set (bm_values (coop_peers s)). peer_status p = Connected \<and> peer_generation p = gen)"

lemma peers_agree_iff:
  "peers_agree s gen \<longleftrightarrow>
     (\<forall>i p. bm_get (coop_peers s) i = Some p \<longrightarrow> peer_status p = Connected \<and> peer_generation p = gen)"
  by (auto simp: peers_agree_def set_bm_values)

lemma authorize_mutation_Inr:
  "authorize_mutation gen s = Inr () \<longleftrightarrow>
     gen = coop_generation s \<and> 2 \<le> bm_size (coop_peers s) \<and> has_local s \<and> peers_agree s gen"
  by (auto simp: authorize_mutation_def Let_def mutation_allowed_def peers_agree_iff
      coop_snapshot_missing coop_snapshot_disagreement)

section \<open>Invariant\<close>

text \<open>
  At most four peers, at most one of them local, generations within the JSON-safe bound, and no
  missed convergence: whenever all peers agree on a generation that is not behind the session's,
  the session is already there.
\<close>

definition peers_ok :: "(caller_id, peer_binding) bmap \<Rightarrow> bool" where
  "peers_ok m \<longleftrightarrow>
     bm_size m \<le> MAX_PEERS
     \<and> (\<forall>i j p q. bm_get m i = Some p \<longrightarrow> bm_get m j = Some q \<longrightarrow>
          peer_role p = Local \<longrightarrow> peer_role q = Local \<longrightarrow> i = j)
     \<and> (\<forall>i p. bm_get m i = Some p \<longrightarrow> peer_generation p \<le> COOP_MAX_GENERATION)"

definition coop_ok :: "coop_session \<Rightarrow> bool" where
  "coop_ok s \<longleftrightarrow>
     peers_ok (coop_peers s) \<and> coop_generation s \<le> COOP_MAX_GENERATION
     \<and> (\<forall>gen. 2 \<le> bm_size (coop_peers s) \<longrightarrow> has_local s \<longrightarrow> peers_agree s gen \<longrightarrow>
          coop_generation s \<le> gen \<longrightarrow> coop_generation s = gen)"

lemma find_local:
  "find (\<lambda>p. peer_role p = Local) (bm_values (coop_peers s)) = None \<longleftrightarrow> \<not> has_local s"
  by (auto simp: has_local_def find_None_iff list_ex_iff)

lemma find_local_Some:
  "find (\<lambda>p. peer_role p = Local) (bm_values (coop_peers s)) = Some p \<Longrightarrow>
     \<exists>i. bm_get (coop_peers s) i = Some p"
  by (metis find_Some_iff nth_mem set_bm_values)

lemma peers_agree_unique:
  "peers_agree s a \<Longrightarrow> has_local s \<Longrightarrow> peers_agree s b \<Longrightarrow> a = b"
  by (auto simp: peers_agree_iff has_local_iff)

lemma advance_peers [simp]: "coop_peers (advance_converged_generation s) = coop_peers s"
  by (simp add: advance_converged_generation_def Let_def split: option.splits)

lemma advance_cases:
  "advance_converged_generation s = s \<or>
   (\<exists>gen. advance_converged_generation s = s\<lparr>coop_generation := gen\<rparr> \<and> coop_generation s \<le> gen
      \<and> 2 \<le> bm_size (coop_peers s) \<and> has_local s \<and> peers_agree s gen)"
  by (auto simp: advance_converged_generation_def Let_def peers_agree_def list_all_iff not_less
      find_local [symmetric] split: option.splits if_splits)

lemma advance_converges:
  assumes "2 \<le> bm_size (coop_peers s)" and "has_local s" and "peers_agree s gen"
    and "coop_generation s \<le> gen"
  shows "advance_converged_generation s = s\<lparr>coop_generation := gen\<rparr>"
proof -
  obtain p where p: "find (\<lambda>p. peer_role p = Local) (bm_values (coop_peers s)) = Some p"
    using assms(2) find_local by fastforce
  then have "peer_generation p = gen"
    using find_local_Some assms(3) by (auto simp: peers_agree_iff)
  with p assms show ?thesis
    by (simp add: advance_converged_generation_def peers_agree_def list_all_iff)
qed

lemma agree_cong [simp]:
  "has_local (s\<lparr>coop_generation := g\<rparr>) = has_local s"
  "peers_agree (s\<lparr>coop_generation := g\<rparr>) gen = peers_agree s gen"
  by (simp_all add: has_local_def peers_agree_def)

lemma peers_agree_bound:
  "peers_agree s gen \<Longrightarrow> has_local s \<Longrightarrow> peers_ok (coop_peers s) \<Longrightarrow> gen \<le> COOP_MAX_GENERATION"
  by (auto simp: peers_agree_iff has_local_iff peers_ok_def)

lemma advance_ok:
  assumes "peers_ok (coop_peers s)" and "coop_generation s \<le> COOP_MAX_GENERATION"
  shows "coop_ok (advance_converged_generation s)"
    and "coop_generation s \<le> coop_generation (advance_converged_generation s)"
  using advance_cases [of s] assms peers_agree_bound [of s] peers_agree_unique [of s]
    advance_converges [of s, THEN arg_cong [where f = coop_generation]]
  by (auto simp: coop_ok_def)

lemma peers_ok_insert_same_role:
  assumes "peers_ok m" and "bm_get m i = Some p" and "peer_role q = peer_role p"
    and "peer_generation q \<le> COOP_MAX_GENERATION"
  shows "peers_ok (bm_insert i q m)"
  using assms unfolding peers_ok_def by (auto simp: bm_size_insert split: if_splits)

lemma peers_ok_register:
  assumes "peers_ok m" and "bm_get m i = None" and "bm_size m < MAX_PEERS"
    and "peer_generation q \<le> COOP_MAX_GENERATION"
    and "peer_role q = Local \<Longrightarrow> \<forall>j p. bm_get m j = Some p \<longrightarrow> peer_role p \<noteq> Local"
  shows "peers_ok (bm_insert i q m)"
  using assms unfolding peers_ok_def by (auto simp: bm_size_insert split: if_splits)

inductive coop_step :: "coop_session \<Rightarrow> coop_session \<Rightarrow> bool" where
  registers: "register_peer peer role gen s = (r, t) \<Longrightarrow> coop_step s t"
| updates: "update_generation peer gen s = (r, t) \<Longrightarrow> coop_step s t"
| disconnects: "disconnect peer s = (r, t) \<Longrightarrow> coop_step s t"
| reconnects: "reconnect peer gen s = (r, t) \<Longrightarrow> coop_step s t"

lemma coop_okD:
  "coop_ok s \<Longrightarrow> peers_ok (coop_peers s)" "coop_ok s \<Longrightarrow> coop_generation s \<le> COOP_MAX_GENERATION"
  by (simp_all add: coop_ok_def)

lemma disconnect_ok:
  assumes "coop_ok s" and "bm_get (coop_peers s) peer = Some p"
  shows "coop_ok (s\<lparr>coop_peers := bm_insert peer (p\<lparr>peer_status := Disconnected\<rparr>) (coop_peers s)\<rparr>)"
    (is "coop_ok ?t")
proof -
  have "\<not> peers_agree ?t gen" for gen
    by (auto simp: peers_agree_iff intro!: exI [of _ peer])
  moreover have "peer_generation p \<le> COOP_MAX_GENERATION"
    using assms by (simp add: coop_ok_def peers_ok_def)
  ultimately show ?thesis
    using peers_ok_insert_same_role [OF coop_okD(1) [OF assms(1)] assms(2)] assms(1)
    by (simp add: coop_ok_def)
qed

lemma coop_step_ok:
  assumes "coop_step s t" and "coop_ok s"
  shows "coop_ok t \<and> coop_generation s \<le> coop_generation t"
  using assms(1)
proof cases
  case (registers peer role gen r)
  then show ?thesis
  proof (cases "is_err r")
    case False
    then have ok: "bm_get (coop_peers s) peer = None" "bm_size (coop_peers s) < MAX_PEERS"
      "gen \<le> COOP_MAX_GENERATION" "\<not> (role = Local \<and> has_local s)"
      and t: "t = advance_converged_generation (s\<lparr>coop_peers := bm_insert peer
              \<lparr>peer_role = role, peer_generation = gen, peer_status = Connected\<rparr> (coop_peers s)\<rparr>)"
      using registers by (auto simp: register_peer_def split: if_splits)
    have "peers_ok (bm_insert peer \<lparr>peer_role = role, peer_generation = gen, peer_status = Connected\<rparr>
        (coop_peers s))"
      using ok coop_okD(1) [OF assms(2)] by (intro peers_ok_register) (auto simp: has_local_iff)
    with coop_okD(2) [OF assms(2)] show ?thesis
      using advance_ok [of "s\<lparr>coop_peers := bm_insert peer
              \<lparr>peer_role = role, peer_generation = gen, peer_status = Connected\<rparr> (coop_peers s)\<rparr>"]
      by (simp add: t)
  qed (use assms(2) in \<open>auto simp: register_peer_def split: if_splits\<close>)
next
  case (updates peer gen r)
  with assms(2) show ?thesis
    using advance_ok [of "s\<lparr>coop_peers := bm_insert peer (p\<lparr>peer_generation := gen\<rparr>) (coop_peers s)\<rparr>" for p]
    by (auto simp: update_generation_def not_less coop_okD peers_ok_insert_same_role
        split: if_splits option.splits)
next
  case (disconnects peer r)
  with assms(2) show ?thesis
    by (auto simp: disconnect_def intro: disconnect_ok split: option.splits)
next
  case (reconnects peer gen r)
  with assms(2) show ?thesis
    using advance_ok [of "s\<lparr>coop_peers := bm_insert peer
        (p\<lparr>peer_generation := gen, peer_status := Connected\<rparr>) (coop_peers s)\<rparr>" for p]
    by (auto simp: reconnect_def not_less coop_okD peers_ok_insert_same_role
        split: if_splits option.splits)
qed

interpretation coop_run: step_monotone coop_step coop_ok coop_generation
  by unfold_locales (auto dest: coop_step_ok)

lemma coop_session_new_ok: "gen \<le> COOP_MAX_GENERATION \<Longrightarrow> coop_ok (coop_session_new i epoch gen)"
  by (simp add: coop_ok_def peers_ok_def coop_session_new_def MAX_PEERS_def)

section \<open>Properties\<close>

text \<open>
  A mutation is authorised exactly for the session's current generation, with at least two
  peers, a local peer among them, every peer connected and every peer at that generation; the
  snapshot loop with its accumulators computes this.
\<close>

theorem authorize_mutation_exact:
  "authorize_mutation gen s = Inr () \<longleftrightarrow>
     gen = coop_generation s \<and> 2 \<le> bm_size (coop_peers s)
     \<and> (\<exists>i p. bm_get (coop_peers s) i = Some p \<and> peer_role p = Local)
     \<and> (\<forall>i. case bm_get (coop_peers s) i of
          None \<Rightarrow> True | Some p \<Rightarrow> peer_status p = Connected \<and> peer_generation p = gen)"
  by (auto simp: authorize_mutation_Inr has_local_iff peers_agree_iff split: option.splits)

text \<open>
  C12. However registrations, updates, disconnects and reconnects are interleaved (errors
  included), in a session created at a generation within the JSON-safe bound (which \<open>new\<close> leaves to
  its caller): from every reachable state to every later one the generation never goes back, it
  stays within that bound, and the session never holds more than four peers or two local ones. As
  soon as two or more peers with a local one among them are all connected and agree on a generation
  that is not behind the session's, a mutation at that generation is authorised.
\<close>

theorem coop_session_safe_and_converges:
  assumes "coop_step\<^sup>*\<^sup>* (coop_session_new i epoch gen) s" and "coop_step\<^sup>*\<^sup>* s t"
    and "gen \<le> COOP_MAX_GENERATION"
  shows "gen \<le> coop_generation s \<and> coop_generation s \<le> coop_generation t
    \<and> coop_generation t \<le> COOP_MAX_GENERATION
    \<and> bm_size (coop_peers t) \<le> 4
    \<and> (\<forall>j k p q. bm_get (coop_peers t) j = Some p \<longrightarrow> bm_get (coop_peers t) k = Some q \<longrightarrow>
         peer_role p = Local \<longrightarrow> peer_role q = Local \<longrightarrow> j = k)
    \<and> (\<forall>n. 2 \<le> bm_size (coop_peers t) \<longrightarrow> has_local t \<longrightarrow> peers_agree t n \<longrightarrow> coop_generation t \<le> n \<longrightarrow>
         authorize_mutation n t = Inr ())"
proof -
  have new: "coop_ok (coop_session_new i epoch gen)" using assms(3) by (rule coop_session_new_ok)
  have s: "coop_ok s" using assms(1) new by (rule coop_run.run_keeps)
  have t: "coop_ok t" using assms(2) s by (rule coop_run.run_keeps)
  have "gen \<le> coop_generation s"
    using coop_run.run_level [OF assms(1) new] by (simp add: coop_session_new_def)
  moreover have "coop_generation s \<le> coop_generation t" using assms(2) s by (rule coop_run.run_level)
  moreover have "authorize_mutation n t = Inr ()"
    if "2 \<le> bm_size (coop_peers t)" "has_local t" "peers_agree t n" "coop_generation t \<le> n" for n
    using that t by (auto simp: authorize_mutation_Inr coop_ok_def)
  ultimately show ?thesis
    using t unfolding coop_ok_def peers_ok_def MAX_PEERS_def by blast
qed

definition demo_coop :: coop_session where
  "demo_coop = snd (register_peer 2 Ally 3 (snd (register_peer 1 Local 3 (coop_session_new 5 1 3))))"

lemma demo_coop_peers: "demo_coop = (coop_session_new 5 1 3)\<lparr>coop_peers :=
    bm_insert 2 \<lparr>peer_role = Ally, peer_generation = 3, peer_status = Connected\<rparr>
      (bm_insert 1 \<lparr>peer_role = Local, peer_generation = 3, peer_status = Connected\<rparr> bm_empty)\<rparr>"
  by (simp add: demo_coop_def register_peer_def coop_session_new_def MAX_PEERS_def COOP_MAX_GENERATION_def
      has_local_def bm_values_def ordmap advance_converged_generation_def)

theorem coop_session_safe_and_converges_witness: "authorize_mutation 3 demo_coop = Inr ()"
proof -
  have "coop_step\<^sup>*\<^sup>* (coop_session_new 5 1 3) demo_coop"
    unfolding demo_coop_def
    by (meson coop_step.registers converse_rtranclp_into_rtranclp r_into_rtranclp surjective_pairing)
  note props = coop_session_safe_and_converges [OF this rtranclp.rtrancl_refl]
  have "2 \<le> bm_size (coop_peers demo_coop)" "has_local demo_coop" "peers_agree demo_coop 3"
    "coop_generation demo_coop \<le> 3"
    by (simp_all add: demo_coop_peers coop_session_new_def has_local_def peers_agree_def bm_values_def ordmap)
  with props show ?thesis by (simp add: COOP_MAX_GENERATION_def)
qed

end
