(* ===== verification/Runtime_V2_Contract.thy ===== *)
theory Runtime_V2_Contract
  imports Gateway_Prelude
begin

unbundle bit_operations_syntax

text \<open>
  The Runtime-v2 wire contract: \<open>runtime_v2/contract_types.rs\<close>, \<open>message_constructors.rs\<close>,
  \<open>message_validation.rs\<close>, \<open>helpers.rs\<close>, \<open>identity_fence.rs\<close> and \<open>authority.rs\<close>. Strings are
  their UTF-8 bytes. JSON serialisation (\<open>serde_json::to_vec\<close>) is the argument \<open>to_vec\<close> of the
  definitions that use it.
\<close>

section \<open>Constants and data\<close>

definition RUNTIME_V2_PROTOCOL_VERSION :: string where
  "RUNTIME_V2_PROTOCOL_VERSION = ''runtime-v2''"

definition RUNTIME_V2_ARTIFACT :: string where
  "RUNTIME_V2_ARTIFACT = ''sts2-protocol/runtime-v2''"

definition RUNTIME_V2_SCHEMA_SOURCE :: string where
  "RUNTIME_V2_SCHEMA_SOURCE = ''schemas/runtime-v2.schema.json''"

definition RUNTIME_V2_GENERATOR :: string where
  "RUNTIME_V2_GENERATOR = ''hand-authored''"

definition RUNTIME_V2_SCHEMA_DIGEST :: string where
  "RUNTIME_V2_SCHEMA_DIGEST = ''f7963b19c8ed5bbdc02c08e83c7a2e16c4771ed5eb798b29a8208d7a917a86c2''"

definition RUNTIME_V2_ACTION_ID :: string where
  "RUNTIME_V2_ACTION_ID = ''end_turn''"

definition RUNTIME_V2_EFFECT_KIND :: string where
  "RUNTIME_V2_EFFECT_KIND = ''turn_end_settled''"

definition RUNTIME_V2_MAX_GENERATION :: u64 where
  "RUNTIME_V2_MAX_GENERATION = 9007199254740991"

definition RUNTIME_V2_MAX_TURN_INDEX :: u16 where
  "RUNTIME_V2_MAX_TURN_INDEX = 1024"

datatype v2_combat_phase = OutsideCombat | PlayerTurn | EnemyTurn

datatype v2_status = Accepted | Settled | Rejected | Unknown | Cancelled

datatype v2_message_kind =
    StateRequest
  | StateResponse
  | ActionRequest
  | ActionResponse
  | ReconcileRequest
  | ReconcileResponse

record v2_provenance =
  prov_artifact :: string
  prov_source :: string
  prov_generator :: string

record v2_metadata =
  meta_protocol_version :: string
  meta_schema_digest :: string
  meta_provenance :: v2_provenance

record v2_observation =
  obs_combat_phase :: v2_combat_phase
  obs_turn_index :: u16
  obs_host_ready :: bool
  obs_generation :: u64

record v2_action =
  action_id :: string

record v2_effect_witness =
  effect_kind :: string
  effect_generation :: u64

record v2_message =
  msg_protocol_version :: string
  msg_schema_digest :: string
  msg_provenance :: v2_provenance
  msg_correlation_id :: string
  msg_instance_id :: string
  msg_session_id :: string
  msg_lease_id :: string
  msg_lease_epoch :: u64
  msg_generation :: u64
  msg_kind :: v2_message_kind
  msg_operation_id :: "string option"
  msg_observation :: "v2_observation option"
  msg_action :: "v2_action option"
  msg_status :: "v2_status option"
  msg_error_code :: "string option"
  msg_effect_witness :: "v2_effect_witness option"

datatype v2_validation_error =
    Metadata
  | Provenance
  | InvalidIdentity
  | GenerationBounds
  | ObservationBounds
  | ActionBounds
  | EffectBounds
  | ResultShape

datatype v2_codec_error = Serialization

section \<open>Validation\<close>

definition validate_identity :: "string \<Rightarrow> v2_validation_error + unit" where
  "validate_identity s = ensure (ident_string 128 s) InvalidIdentity"

definition is_digest :: "string \<Rightarrow> bool" where
  "is_digest s = sha256_text s"

definition v2_provenance_default :: v2_provenance where
  "v2_provenance_default = \<lparr>prov_artifact = RUNTIME_V2_ARTIFACT, prov_source = RUNTIME_V2_SCHEMA_SOURCE,
     prov_generator = RUNTIME_V2_GENERATOR\<rparr>"

definition v2_metadata_new :: v2_metadata where
  "v2_metadata_new = \<lparr>meta_protocol_version = RUNTIME_V2_PROTOCOL_VERSION,
     meta_schema_digest = RUNTIME_V2_SCHEMA_DIGEST, meta_provenance = v2_provenance_default\<rparr>"

definition provenance_validate :: "v2_provenance \<Rightarrow> v2_validation_error + unit" where
  "provenance_validate p = ensure (\<not> (prov_artifact p \<noteq> RUNTIME_V2_ARTIFACT
     \<or> prov_source p \<noteq> RUNTIME_V2_SCHEMA_SOURCE \<or> prov_generator p \<noteq> RUNTIME_V2_GENERATOR)) Provenance"

definition metadata_validate :: "v2_metadata \<Rightarrow> v2_validation_error + unit" where
  "metadata_validate m = and_then
     (ensure (\<not> (meta_protocol_version m \<noteq> RUNTIME_V2_PROTOCOL_VERSION
        \<or> meta_schema_digest m \<noteq> RUNTIME_V2_SCHEMA_DIGEST \<or> \<not> is_digest (meta_schema_digest m))) Metadata)
     (\<lambda>_. provenance_validate (meta_provenance m))"

definition observation_validate :: "v2_observation \<Rightarrow> v2_validation_error + unit" where
  "observation_validate ob = and_then
     (ensure (\<not> RUNTIME_V2_MAX_TURN_INDEX < obs_turn_index ob) ObservationBounds)
     (\<lambda>_. ensure (\<not> RUNTIME_V2_MAX_GENERATION < obs_generation ob) GenerationBounds)"

definition end_turn :: v2_action where
  "end_turn = \<lparr>action_id = RUNTIME_V2_ACTION_ID\<rparr>"

definition action_validate :: "v2_action \<Rightarrow> v2_validation_error + unit" where
  "action_validate a = ensure (action_id a = RUNTIME_V2_ACTION_ID) ActionBounds"

definition turn_end_settled :: "u64 \<Rightarrow> v2_effect_witness" where
  "turn_end_settled gen = \<lparr>effect_kind = RUNTIME_V2_EFFECT_KIND, effect_generation = gen\<rparr>"

definition effect_witness_validate :: "v2_effect_witness \<Rightarrow> v2_validation_error + unit" where
  "effect_witness_validate w = and_then
     (ensure (effect_kind w = RUNTIME_V2_EFFECT_KIND) EffectBounds)
     (\<lambda>_. ensure (\<not> RUNTIME_V2_MAX_GENERATION < effect_generation w) GenerationBounds)"

definition message_validate_metadata :: "v2_message \<Rightarrow> v2_validation_error + unit" where
  "message_validate_metadata m = metadata_validate \<lparr>meta_protocol_version = msg_protocol_version m,
     meta_schema_digest = msg_schema_digest m, meta_provenance = msg_provenance m\<rparr>"

definition validate_common_fields :: "v2_message \<Rightarrow> v2_validation_error + unit" where
  "validate_common_fields m =
     and_then (check_each validate_identity
       [msg_correlation_id m, msg_instance_id m, msg_session_id m, msg_lease_id m]) (\<lambda>_.
     and_then (ensure (\<not> (RUNTIME_V2_MAX_GENERATION < msg_lease_epoch m
       \<or> RUNTIME_V2_MAX_GENERATION < msg_generation m)) GenerationBounds) (\<lambda>_.
     and_then (check_option validate_identity (msg_operation_id m)) (\<lambda>_.
     and_then (check_option observation_validate (msg_observation m)) (\<lambda>_.
     and_then (check_option action_validate (msg_action m)) (\<lambda>_.
     and_then (check_option validate_identity (msg_error_code m)) (\<lambda>_.
     check_option effect_witness_validate (msg_effect_witness m)))))))"

definition observation_generation_matches :: "v2_message \<Rightarrow> bool" where
  "observation_generation_matches m =
     (case msg_observation m of None \<Rightarrow> False | Some ob \<Rightarrow> obs_generation ob = msg_generation m)"

definition result_fields_match_status :: "v2_message \<Rightarrow> bool" where
  "result_fields_match_status m = (case msg_status m of
     Some Accepted \<Rightarrow> observation_generation_matches m \<and> msg_error_code m = None
       \<and> msg_effect_witness m = None
   | Some Settled \<Rightarrow> observation_generation_matches m \<and> msg_error_code m = None
       \<and> (case msg_effect_witness m of None \<Rightarrow> False | Some w \<Rightarrow> effect_generation w = msg_generation m)
   | Some Rejected \<Rightarrow> observation_generation_matches m \<and> msg_error_code m \<noteq> None
       \<and> msg_effect_witness m = None
   | Some Cancelled \<Rightarrow> observation_generation_matches m \<and> msg_error_code m \<noteq> None
       \<and> msg_effect_witness m = None
   | Some Unknown \<Rightarrow> msg_observation m = None \<and> msg_error_code m \<noteq> None \<and> msg_effect_witness m = None
   | None \<Rightarrow> False)"

definition validate_state_request :: "v2_message \<Rightarrow> v2_validation_error + unit" where
  "validate_state_request m = ensure (msg_operation_id m = None \<and> msg_observation m = None
     \<and> msg_action m = None \<and> msg_status m = None \<and> msg_error_code m = None
     \<and> msg_effect_witness m = None) ResultShape"

definition validate_state_response :: "v2_message \<Rightarrow> v2_validation_error + unit" where
  "validate_state_response m = ensure (msg_operation_id m = None \<and> observation_generation_matches m
     \<and> msg_action m = None \<and> msg_status m = None \<and> msg_error_code m = None
     \<and> msg_effect_witness m = None) ResultShape"

definition validate_action_fields :: "v2_message \<Rightarrow> v2_validation_error + unit" where
  "validate_action_fields m = ensure (msg_operation_id m \<noteq> None \<and> msg_action m \<noteq> None
     \<and> msg_observation m = None \<and> msg_status m = None \<and> msg_error_code m = None
     \<and> msg_effect_witness m = None) ResultShape"

definition validate_reconcile_fields :: "v2_message \<Rightarrow> v2_validation_error + unit" where
  "validate_reconcile_fields m = ensure (msg_operation_id m \<noteq> None \<and> msg_action m = None
     \<and> msg_observation m = None \<and> msg_status m = None \<and> msg_error_code m = None
     \<and> msg_effect_witness m = None) ResultShape"

definition validate_result :: "v2_message \<Rightarrow> v2_validation_error + unit" where
  "validate_result m = ensure (msg_operation_id m \<noteq> None \<and> msg_action m \<noteq> None \<and> msg_status m \<noteq> None
     \<and> result_fields_match_status m) ResultShape"

definition message_validate :: "v2_message \<Rightarrow> v2_validation_error + unit" where
  "message_validate m =
     and_then (message_validate_metadata m) (\<lambda>_.
     and_then (validate_common_fields m) (\<lambda>_.
     case msg_kind m of
       StateRequest \<Rightarrow> validate_state_request m
     | StateResponse \<Rightarrow> validate_state_response m
     | ActionRequest \<Rightarrow> validate_action_fields m
     | ReconcileRequest \<Rightarrow> validate_reconcile_fields m
     | ActionResponse \<Rightarrow> validate_result m
     | ReconcileResponse \<Rightarrow> validate_result m))"

section \<open>Constructors\<close>

definition message_base :: "v2_metadata \<Rightarrow> string \<Rightarrow> string \<Rightarrow> string \<Rightarrow> string \<Rightarrow> u64 \<Rightarrow> u64
    \<Rightarrow> v2_message_kind \<Rightarrow> v2_message" where
  "message_base md correlation inst sess lse epoch gen kind = \<lparr>
     msg_protocol_version = meta_protocol_version md,
     msg_schema_digest = meta_schema_digest md,
     msg_provenance = meta_provenance md,
     msg_correlation_id = correlation,
     msg_instance_id = inst, msg_session_id = sess, msg_lease_id = lse,
     msg_lease_epoch = epoch, msg_generation = gen, msg_kind = kind,
     msg_operation_id = None, msg_observation = None, msg_action = None,
     msg_status = None, msg_error_code = None, msg_effect_witness = None\<rparr>"

definition state_request :: "v2_metadata \<Rightarrow> string \<Rightarrow> string \<Rightarrow> string \<Rightarrow> string \<Rightarrow> u64 \<Rightarrow> u64 \<Rightarrow> v2_message" where
  "state_request md correlation inst sess lse epoch gen =
     message_base md correlation inst sess lse epoch gen StateRequest"

definition state_response :: "v2_metadata \<Rightarrow> string \<Rightarrow> string \<Rightarrow> string \<Rightarrow> string \<Rightarrow> u64
    \<Rightarrow> v2_observation \<Rightarrow> v2_message" where
  "state_response md correlation inst sess lse epoch ob =
     (message_base md correlation inst sess lse epoch (obs_generation ob) StateResponse)
       \<lparr>msg_observation := Some ob, msg_generation := obs_generation ob\<rparr>"

definition action_request :: "v2_metadata \<Rightarrow> string \<Rightarrow> string \<Rightarrow> string \<Rightarrow> string \<Rightarrow> u64 \<Rightarrow> u64
    \<Rightarrow> string \<Rightarrow> v2_action \<Rightarrow> v2_message" where
  "action_request md correlation inst sess lse epoch gen oid act =
     (message_base md correlation inst sess lse epoch gen ActionRequest)
       \<lparr>msg_operation_id := Some oid, msg_action := Some act\<rparr>"

definition reconcile_request :: "v2_metadata \<Rightarrow> string \<Rightarrow> string \<Rightarrow> string \<Rightarrow> string \<Rightarrow> u64 \<Rightarrow> u64
    \<Rightarrow> string \<Rightarrow> v2_message" where
  "reconcile_request md correlation inst sess lse epoch gen oid =
     (message_base md correlation inst sess lse epoch gen ReconcileRequest)
       \<lparr>msg_operation_id := Some oid\<rparr>"

definition result_message :: "v2_metadata \<Rightarrow> string \<Rightarrow> string \<Rightarrow> string \<Rightarrow> string \<Rightarrow> u64 \<Rightarrow> u64
    \<Rightarrow> string \<Rightarrow> v2_action \<Rightarrow> v2_status \<Rightarrow> v2_observation option \<Rightarrow> string option
    \<Rightarrow> v2_effect_witness option \<Rightarrow> v2_message_kind \<Rightarrow> v2_message" where
  "result_message md correlation inst sess lse epoch gen oid act st ob err wit kind =
     (message_base md correlation inst sess lse epoch gen kind)
       \<lparr>msg_operation_id := Some oid, msg_observation := ob, msg_action := Some act,
        msg_status := Some st, msg_error_code := err, msg_effect_witness := wit\<rparr>"

section \<open>Operation keys and request digests\<close>

datatype v2_operation_key = OperationKey
  (key_instance_id: string) (key_session_id: string) (key_lease_id: string)
  (key_lease_epoch: u64) (key_operation_id: string)

text \<open>The derived \<open>Ord\<close>: lexicographic over the fields in declaration order, strings by bytes.\<close>

fun key_fields :: "v2_operation_key \<Rightarrow> string \<times> string \<times> string \<times> u64 \<times> string" where
  "key_fields (OperationKey i s l e oid) = (i, s, l, e, oid)"

lemma key_fields_inject [simp]: "key_fields k = key_fields k' \<longleftrightarrow> k = k'"
  by (cases k; cases k') simp

instantiation v2_operation_key :: linorder
begin

definition less_eq_v2_operation_key :: "v2_operation_key \<Rightarrow> v2_operation_key \<Rightarrow> bool" where
  "less_eq_v2_operation_key k k' \<longleftrightarrow> key_fields k \<le> key_fields k'"

definition less_v2_operation_key :: "v2_operation_key \<Rightarrow> v2_operation_key \<Rightarrow> bool" where
  "less_v2_operation_key k k' \<longleftrightarrow> key_fields k < key_fields k'"

instance
  by standard
    (auto simp: less_eq_v2_operation_key_def less_v2_operation_key_def simp flip: key_fields_inject
      simp del: key_fields_inject)

end

definition operation_key :: "v2_message \<Rightarrow> v2_operation_key option" where
  "operation_key m = map_option (OperationKey (msg_instance_id m) (msg_session_id m) (msg_lease_id m)
     (msg_lease_epoch m)) (msg_operation_id m)"

type_synonym 'j json_encoder = "v2_message \<Rightarrow> 'j + u8 list"

definition canonical_json :: "'j json_encoder \<Rightarrow> v2_message \<Rightarrow> v2_codec_error + u8 list" where
  "canonical_json to_vec m = map_err (\<lambda>_. Serialization) (to_vec m)"

definition idempotency_canonical_json :: "'j json_encoder \<Rightarrow> v2_message \<Rightarrow> v2_codec_error + u8 list" where
  "idempotency_canonical_json to_vec m =
     map_err (\<lambda>_. Serialization) (to_vec (m\<lparr>msg_correlation_id := []\<rparr>))"

definition fnv1a :: "u8 list \<Rightarrow> u64" where
  "fnv1a bytes = fold (\<lambda>byte hash. (hash XOR ucast byte) * 1099511628211) bytes 14695981039346656037"

definition request_digest :: "'j json_encoder \<Rightarrow> v2_message \<Rightarrow> v2_codec_error + u64" where
  "request_digest to_vec m = and_then (idempotency_canonical_json to_vec m) (\<lambda>bytes. Inr (fnv1a bytes))"

end
