(* ===== verification/Runtime_V2_Binding.thy ===== *)
theory Runtime_V2_Binding
  imports Runtime_V2_Contract
begin

text \<open>
  Owner authority, recovery capabilities and the identity binding of a Runtime-v2 ledger
  (\<open>runtime_v2/authority.rs\<close>, \<open>identity_fence.rs\<close>), and what validation guarantees of messages.
\<close>

section \<open>Authority and recovery contract\<close>

record v2_authority =
  auth_instance_id :: string
  auth_session_id :: string
  auth_lease_id :: string
  auth_lease_epoch :: u64
  auth_boot_epoch :: string

definition authority_new :: "string \<Rightarrow> string \<Rightarrow> string \<Rightarrow> u64 \<Rightarrow> string
    \<Rightarrow> v2_validation_error + v2_authority" where
  "authority_new inst sess lse epoch boot =
     and_then (check_each validate_identity [inst, sess, lse, boot]) (\<lambda>_.
     and_then (ensure (\<not> RUNTIME_V2_MAX_GENERATION < epoch) GenerationBounds) (\<lambda>_.
     Inr \<lparr>auth_instance_id = inst, auth_session_id = sess, auth_lease_id = lse,
          auth_lease_epoch = epoch, auth_boot_epoch = boot\<rparr>))"

datatype v2_recovery_failure_domain = HarnessRestart | GatewayRestart | HostRestart | MachineReboot

datatype v2_recovery_error =
    AuthorityRequired
  | AuthorityMismatch
  | StaleBootEpoch
  | UnsupportedFailureDomain v2_recovery_failure_domain
  | ReceiptRetentionUnavailable
  | InvalidReceiptRetention

definition validate_against :: "v2_authority \<Rightarrow> v2_authority \<Rightarrow> v2_recovery_error + unit" where
  "validate_against presented current = and_then
     (ensure (\<not> (auth_instance_id presented \<noteq> auth_instance_id current
        \<or> auth_session_id presented \<noteq> auth_session_id current
        \<or> auth_lease_id presented \<noteq> auth_lease_id current
        \<or> auth_lease_epoch presented \<noteq> auth_lease_epoch current)) AuthorityMismatch)
     (\<lambda>_. ensure (auth_boot_epoch presented = auth_boot_epoch current) StaleBootEpoch)"

datatype v2_receipt_retention =
    Unavailable
  | ProcessLifetime nat
  | Durable nat u64

definition retention_is_available :: "v2_receipt_retention \<Rightarrow> bool" where
  "retention_is_available r = (r \<noteq> Unavailable)"

definition retention_validate :: "v2_receipt_retention \<Rightarrow> v2_recovery_error + unit" where
  "retention_validate r = (case r of
     Unavailable \<Rightarrow> Inr ()
   | ProcessLifetime n \<Rightarrow> ensure (n \<noteq> 0) InvalidReceiptRetention
   | Durable n secs \<Rightarrow> if n = 0 then Inl InvalidReceiptRetention
       else if secs = 0 then Inl InvalidReceiptRetention else Inr ())"

record v2_recovery_capabilities =
  cap_harness_restart :: bool
  cap_gateway_restart :: bool
  cap_host_restart :: bool
  cap_machine_reboot :: bool
  cap_receipt_retention :: v2_receipt_retention

definition capabilities_unsupported :: v2_recovery_capabilities where
  "capabilities_unsupported = \<lparr>cap_harness_restart = False, cap_gateway_restart = False,
     cap_host_restart = False, cap_machine_reboot = False, cap_receipt_retention = Unavailable\<rparr>"

definition supports :: "v2_recovery_capabilities \<Rightarrow> v2_recovery_failure_domain \<Rightarrow> bool" where
  "supports c d = (case d of
     HarnessRestart \<Rightarrow> cap_harness_restart c
   | GatewayRestart \<Rightarrow> cap_gateway_restart c
   | HostRestart \<Rightarrow> cap_host_restart c
   | MachineReboot \<Rightarrow> cap_machine_reboot c)"

definition require :: "v2_recovery_capabilities \<Rightarrow> v2_recovery_failure_domain \<Rightarrow> v2_recovery_error + unit" where
  "require c d = (if supports c d then Inr () else Inl (UnsupportedFailureDomain d))"

record v2_recovery_contract =
  contract_authority :: v2_authority
  contract_capabilities :: v2_recovery_capabilities

definition contract_new :: "v2_authority \<Rightarrow> v2_recovery_capabilities
    \<Rightarrow> v2_recovery_error + v2_recovery_contract" where
  "contract_new a c = and_then (retention_validate (cap_receipt_retention c))
     (\<lambda>_. Inr \<lparr>contract_authority = a, contract_capabilities = c\<rparr>)"

definition require_domain :: "v2_recovery_contract \<Rightarrow> v2_recovery_failure_domain \<Rightarrow> v2_recovery_error + unit" where
  "require_domain k d = require (contract_capabilities k) d"

definition require_receipt_access :: "v2_recovery_contract \<Rightarrow> v2_recovery_error + unit" where
  "require_receipt_access k = (if retention_is_available (cap_receipt_retention (contract_capabilities k))
     then Inr () else Inl ReceiptRetentionUnavailable)"

definition validate_authority :: "v2_recovery_contract \<Rightarrow> v2_authority \<Rightarrow> v2_recovery_error + unit" where
  "validate_authority k presented = validate_against presented (contract_authority k)"

section \<open>Bindings and the identity fence\<close>

record v2_binding =
  bind_metadata :: v2_metadata
  bind_instance_id :: string
  bind_session_id :: string
  bind_lease_id :: string
  bind_lease_epoch :: u64
  bind_authority :: "v2_authority option"
  bind_observation :: v2_observation

definition binding_with_metadata :: "v2_metadata \<Rightarrow> string \<Rightarrow> string \<Rightarrow> string \<Rightarrow> u64 \<Rightarrow> v2_observation
    \<Rightarrow> v2_validation_error + v2_binding" where
  "binding_with_metadata md inst sess lse epoch ob =
     and_then (metadata_validate md) (\<lambda>_.
     and_then (validate_identity inst) (\<lambda>_.
     and_then (validate_identity sess) (\<lambda>_.
     and_then (validate_identity lse) (\<lambda>_.
     and_then (ensure (\<not> RUNTIME_V2_MAX_GENERATION < epoch) GenerationBounds) (\<lambda>_.
     and_then (observation_validate ob) (\<lambda>_.
     Inr \<lparr>bind_metadata = md, bind_instance_id = inst, bind_session_id = sess, bind_lease_id = lse,
          bind_lease_epoch = epoch, bind_authority = None, bind_observation = ob\<rparr>))))))"

definition binding_new :: "string \<Rightarrow> string \<Rightarrow> string \<Rightarrow> u64 \<Rightarrow> v2_observation
    \<Rightarrow> v2_validation_error + v2_binding" where
  "binding_new = binding_with_metadata v2_metadata_new"

definition binding_with_authority :: "v2_authority \<Rightarrow> v2_observation \<Rightarrow> v2_validation_error + v2_binding" where
  "binding_with_authority a ob = and_then (observation_validate ob) (\<lambda>_.
     Inr \<lparr>bind_metadata = v2_metadata_new, bind_instance_id = auth_instance_id a,
          bind_session_id = auth_session_id a, bind_lease_id = auth_lease_id a,
          bind_lease_epoch = auth_lease_epoch a, bind_authority = Some a, bind_observation = ob\<rparr>)"

definition boot_epoch :: "v2_binding \<Rightarrow> string option" where
  "boot_epoch b = map_option auth_boot_epoch (bind_authority b)"

datatype v2_fence_failure = WrongInstance | WrongSession | WrongLease | StaleEpoch

definition binding_fence_failure :: "v2_binding \<Rightarrow> v2_message \<Rightarrow> v2_fence_failure option" where
  "binding_fence_failure b m =
     (if msg_instance_id m \<noteq> bind_instance_id b then Some WrongInstance
      else if msg_session_id m \<noteq> bind_session_id b then Some WrongSession
      else if msg_lease_id m \<noteq> bind_lease_id b then Some WrongLease
      else if msg_lease_epoch m \<noteq> bind_lease_epoch b then Some StaleEpoch
      else None)"

section \<open>What validation guarantees\<close>

definition observation_ok :: "v2_observation \<Rightarrow> bool" where
  "observation_ok ob \<longleftrightarrow> obs_turn_index ob \<le> 1024 \<and> obs_generation ob \<le> RUNTIME_V2_MAX_GENERATION"

lemma observation_validate_Inr [simp, checks]: "observation_validate ob = Inr u \<longleftrightarrow> observation_ok ob"
  by (auto simp: observation_validate_def observation_ok_def RUNTIME_V2_MAX_TURN_INDEX_def checks)

lemma validate_identity_Inr [simp, checks]: "validate_identity s = Inr u \<longleftrightarrow> ident_string 128 s"
  by (simp add: validate_identity_def)

lemma schema_digest_is_digest: "is_digest RUNTIME_V2_SCHEMA_DIGEST"
  by (simp add: is_digest_def RUNTIME_V2_SCHEMA_DIGEST_def byte_class_defs)

lemma metadata_validate_Inr [simp, checks]: "metadata_validate m = Inr u \<longleftrightarrow> m = v2_metadata_new"
  by (cases m) (auto simp: metadata_validate_def provenance_validate_def v2_metadata_new_def
      v2_provenance_default_def schema_digest_is_digest checks)

lemma action_validate_Inr [simp, checks]: "action_validate a = Inr u \<longleftrightarrow> a = end_turn"
  by (cases a) (simp add: action_validate_def end_turn_def)

lemma effect_witness_validate_Inr [simp, checks]:
  "effect_witness_validate w = Inr u \<longleftrightarrow>
     w = turn_end_settled (effect_generation w) \<and> effect_generation w \<le> RUNTIME_V2_MAX_GENERATION"
  by (cases w) (auto simp: effect_witness_validate_def turn_end_settled_def checks)

text \<open>The fields that every kind of message shares.\<close>

definition message_common_ok :: "v2_message \<Rightarrow> bool" where
  "message_common_ok m \<longleftrightarrow>
     msg_protocol_version m = RUNTIME_V2_PROTOCOL_VERSION \<and> msg_schema_digest m = RUNTIME_V2_SCHEMA_DIGEST
     \<and> msg_provenance m = v2_provenance_default
     \<and> ident_string 128 (msg_correlation_id m) \<and> ident_string 128 (msg_instance_id m)
     \<and> ident_string 128 (msg_session_id m) \<and> ident_string 128 (msg_lease_id m)
     \<and> msg_lease_epoch m \<le> RUNTIME_V2_MAX_GENERATION \<and> msg_generation m \<le> RUNTIME_V2_MAX_GENERATION
     \<and> pred_option (ident_string 128) (msg_operation_id m)
     \<and> pred_option observation_ok (msg_observation m)
     \<and> pred_option (\<lambda>a. a = end_turn) (msg_action m)
     \<and> pred_option (ident_string 128) (msg_error_code m)
     \<and> pred_option (\<lambda>w. w = turn_end_settled (effect_generation w)
          \<and> effect_generation w \<le> RUNTIME_V2_MAX_GENERATION) (msg_effect_witness m)"

lemma pred_option_iff: "pred_option P x \<longleftrightarrow> (\<forall>a. x = Some a \<longrightarrow> P a)"
  by (cases x) auto

lemma message_common_checks:
  "message_validate_metadata m = Inr () \<and> validate_common_fields m = Inr () \<longleftrightarrow> message_common_ok m"
  by (auto simp: message_validate_metadata_def validate_common_fields_def message_common_ok_def
      v2_metadata_new_def pred_option_iff checks)

definition message_shape_ok :: "v2_message \<Rightarrow> bool" where
  "message_shape_ok m \<longleftrightarrow> (case msg_kind m of
     StateRequest \<Rightarrow> msg_operation_id m = None \<and> msg_observation m = None \<and> msg_action m = None
       \<and> msg_status m = None \<and> msg_error_code m = None \<and> msg_effect_witness m = None
   | StateResponse \<Rightarrow> msg_operation_id m = None \<and> observation_generation_matches m \<and> msg_action m = None
       \<and> msg_status m = None \<and> msg_error_code m = None \<and> msg_effect_witness m = None
   | ActionRequest \<Rightarrow> msg_operation_id m \<noteq> None \<and> msg_action m \<noteq> None \<and> msg_observation m = None
       \<and> msg_status m = None \<and> msg_error_code m = None \<and> msg_effect_witness m = None
   | ReconcileRequest \<Rightarrow> msg_operation_id m \<noteq> None \<and> msg_action m = None \<and> msg_observation m = None
       \<and> msg_status m = None \<and> msg_error_code m = None \<and> msg_effect_witness m = None
   | _ \<Rightarrow> msg_operation_id m \<noteq> None \<and> msg_action m \<noteq> None \<and> result_fields_match_status m)"

lemma result_fields_status: "result_fields_match_status m \<Longrightarrow> msg_status m \<noteq> None"
  by (auto simp: result_fields_match_status_def split: option.splits)

lemma message_validate_Inr [checks]:
  "message_validate m = Inr u \<longleftrightarrow> message_common_ok m \<and> message_shape_ok m"
  using message_common_checks [of m] result_fields_status [of m]
  by (auto simp: message_validate_def message_shape_ok_def checks validate_state_request_def
      validate_state_response_def validate_action_fields_def validate_reconcile_fields_def
      validate_result_def split: v2_message_kind.splits)

lemma is_err_message_validate [simp]:
  "is_err (message_validate m) \<longleftrightarrow> \<not> (message_common_ok m \<and> message_shape_ok m)"
  using message_validate_Inr [of m "()"] by (cases "message_validate m") auto

lemma result_fields_updates [simp]:
  "observation_generation_matches (m\<lparr>msg_kind := k\<rparr>) = observation_generation_matches m"
  "observation_generation_matches (m\<lparr>msg_correlation_id := c\<rparr>) = observation_generation_matches m"
  "result_fields_match_status (m\<lparr>msg_kind := k\<rparr>) = result_fields_match_status m"
  "result_fields_match_status (m\<lparr>msg_correlation_id := c\<rparr>) = result_fields_match_status m"
  by (simp_all add: observation_generation_matches_def result_fields_match_status_def
      split: option.splits v2_status.splits)

lemma message_common_ok_updates [simp]:
  "message_common_ok (m\<lparr>msg_kind := k\<rparr>) = message_common_ok m"
  "message_common_ok m \<Longrightarrow> ident_string 128 c \<Longrightarrow> message_common_ok (m\<lparr>msg_correlation_id := c\<rparr>)"
  by (simp_all add: message_common_ok_def)

lemma message_shape_ok_correlation [simp]:
  "message_shape_ok (m\<lparr>msg_correlation_id := c\<rparr>) = message_shape_ok m"
  by (simp add: message_shape_ok_def split: v2_message_kind.split)

lemma message_shape_ok_response_kind:
  "message_shape_ok m \<Longrightarrow> msg_kind m = ActionResponse \<Longrightarrow> message_shape_ok (m\<lparr>msg_kind := ReconcileResponse\<rparr>)"
  by (simp add: message_shape_ok_def)

end
