(* ===== verification/Runtime_V2_Ledger.thy ===== *)
theory Runtime_V2_Ledger
  imports Runtime_V2_Binding
begin

text \<open>
  The Runtime-v2 operation ledger: \<open>runtime_v2/ledger.rs\<close>, \<open>ledger_dispatch.rs\<close>,
  \<open>ledger_receipts.rs\<close>, \<open>ledger_persistence.rs\<close> and the data of \<open>identity_forwarding.rs\<close>.

  The forwarding port is a pair of state-passing functions over its own state, which is a field of
  the ledger; JSON serialisation is a third function of the same record. The checkpoint closure of
  \<open>submit_action_with_checkpoint\<close> is a state-passing function too, and its state is an argument
  and a result of the submission.
\<close>

section \<open>State\<close>

record v2_ledger_config =
  operation_capacity :: nat

record v2_receipt_request =
  receipt_message :: v2_message
  receipt_key :: v2_operation_key
  receipt_action :: v2_action

record v2_persisted_operation =
  persisted_request :: v2_message
  persisted_result :: "v2_message option"

record v2_persisted_state =
  per_instance_id :: string
  per_session_id :: string
  per_lease_id :: string
  per_lease_epoch :: u64
  per_boot_epoch :: "string option"
  per_observation :: v2_observation
  per_operations :: "v2_persisted_operation list"

datatype v2_transport_fault =
    UnavailableBeforeWrite
  | RejectedBeforeWrite
  | TimeoutBeforeWrite
  | DisconnectedBeforeWrite
  | TimeoutAfterWrite
  | DisconnectedAfterWrite
  | MalformedResponse
  | ReceiptUnavailable

datatype v2_ledger_error =
    InvalidRequest v2_validation_error
  | RequestDigest v2_codec_error
  | MissingOperationId
  | CapacityExceeded
  | OperationNotFound
  | OperationInProgress
  | Fence v2_fence_failure
  | StaleGeneration (expected: u64) (actual: u64)
  | ZeroCapacity
  | PersistedStateMismatch
  | PersistedStateInvalid
  | PersistenceFailed
  | Recovery v2_recovery_error

record ('p, 'j) v2_env =
  json_to_vec :: "'j json_encoder"
  forward_runtime_v2 :: "'p \<Rightarrow> v2_message \<Rightarrow> (v2_transport_fault + v2_message) \<times> 'p"
  read_runtime_v2_receipt :: "'p \<Rightarrow> v2_receipt_request \<Rightarrow> (v2_transport_fault + v2_message option) \<times> 'p"

record v2_operation =
  op_request_digest :: u64
  op_canonical_request :: "u8 list"
  op_request :: v2_message
  op_result :: "v2_message option"

record 'p v2_ledger =
  led_config :: v2_ledger_config
  led_binding :: v2_binding
  led_recovery :: "v2_recovery_contract option"
  led_forwarding :: 'p
  led_operations :: "(v2_operation_key, v2_operation) bmap"

definition ledger_new_inner :: "v2_ledger_config \<Rightarrow> v2_binding \<Rightarrow> v2_recovery_contract option \<Rightarrow> 'p
    \<Rightarrow> v2_ledger_error + 'p v2_ledger" where
  "ledger_new_inner config binding recovery forwarding =
     (if operation_capacity config = 0 then Inl ZeroCapacity
      else Inr \<lparr>led_config = config, led_binding = binding, led_recovery = recovery,
                led_forwarding = forwarding, led_operations = bm_empty\<rparr>)"

definition ledger_new :: "v2_ledger_config \<Rightarrow> v2_binding \<Rightarrow> 'p \<Rightarrow> v2_ledger_error + 'p v2_ledger" where
  "ledger_new config binding forwarding = ledger_new_inner config binding None forwarding"

definition ledger_new_with_recovery_contract :: "v2_ledger_config \<Rightarrow> v2_recovery_contract \<Rightarrow> v2_observation
    \<Rightarrow> 'p \<Rightarrow> v2_ledger_error + 'p v2_ledger" where
  "ledger_new_with_recovery_contract config contract ob forwarding =
     and_then (map_err InvalidRequest (binding_with_authority (contract_authority contract) ob))
       (\<lambda>binding. ledger_new_inner config binding (Some contract) forwarding)"

text \<open>Assignments to the binding's observation and to the result of one operation.\<close>

definition set_observation :: "v2_observation \<Rightarrow> 'p v2_ledger \<Rightarrow> 'p v2_ledger" where
  "set_observation ob L = L\<lparr>led_binding := (led_binding L)\<lparr>bind_observation := ob\<rparr>\<rparr>"

definition set_result :: "v2_operation_key \<Rightarrow> v2_message \<Rightarrow> 'p v2_ledger \<Rightarrow> 'p v2_ledger" where
  "set_result key m L = L\<lparr>led_operations := bm_update key (\<lambda>p. p\<lparr>op_result := Some m\<rparr>) (led_operations L)\<rparr>"

abbreviation ledger_observation :: "'p v2_ledger \<Rightarrow> v2_observation" where
  "ledger_observation L \<equiv> bind_observation (led_binding L)"

section \<open>Request checks (ledger_dispatch.rs)\<close>

definition validate_action_request :: "v2_message \<Rightarrow> v2_ledger_error + unit" where
  "validate_action_request m = and_then (map_err InvalidRequest (message_validate m))
     (\<lambda>_. ensure (msg_kind m = ActionRequest) (InvalidRequest ResultShape))"

definition validate_reconcile_request :: "v2_message \<Rightarrow> v2_ledger_error + unit" where
  "validate_reconcile_request m = and_then (map_err InvalidRequest (message_validate m))
     (\<lambda>_. ensure (msg_kind m = ReconcileRequest) (InvalidRequest ResultShape))"

definition key_for :: "v2_message \<Rightarrow> v2_ledger_error + v2_operation_key" where
  "key_for m = ok_or (operation_key m) MissingOperationId"

definition validate_context :: "'p v2_ledger \<Rightarrow> v2_message \<Rightarrow> v2_ledger_error + unit" where
  "validate_context L m = (case binding_fence_failure (led_binding L) m of
     Some failure \<Rightarrow> Inl (Fence failure) | None \<Rightarrow> Inr ())"

definition result_response :: "'p v2_ledger \<Rightarrow> v2_message \<Rightarrow> v2_status \<Rightarrow> v2_observation option
    \<Rightarrow> string option \<Rightarrow> v2_effect_witness option \<Rightarrow> v2_message_kind \<Rightarrow> v2_ledger_error + v2_message" where
  "result_response L request st ob err wit kind =
     (case msg_operation_id request of
        None \<Rightarrow> Inl MissingOperationId
      | Some oid \<Rightarrow>
          (case msg_action request of
             None \<Rightarrow> Inl (InvalidRequest ResultShape)
           | Some act \<Rightarrow>
               let gen = (case ob of None \<Rightarrow> msg_generation request | Some v \<Rightarrow> obs_generation v);
                   b = led_binding L;
                   response = result_message (bind_metadata b) (msg_correlation_id request)
                     (bind_instance_id b) (bind_session_id b) (bind_lease_id b) (bind_lease_epoch b)
                     gen oid act st ob err wit kind
               in and_then (map_err InvalidRequest (message_validate response)) (\<lambda>_. Inr response)))"

definition rejected_response :: "'p v2_ledger \<Rightarrow> v2_message \<Rightarrow> string \<Rightarrow> v2_observation
    \<Rightarrow> v2_ledger_error + v2_message" where
  "rejected_response L request err ob = result_response L request Rejected (Some ob) (Some err) None ActionResponse"

definition replay_or_conflict :: "'p v2_ledger \<Rightarrow> v2_operation \<Rightarrow> v2_message \<Rightarrow> u64 \<Rightarrow> u8 list
    \<Rightarrow> v2_ledger_error + v2_message" where
  "replay_or_conflict L existing request digest canonical =
     (if op_request_digest existing = digest \<and> op_canonical_request existing = canonical
      then and_then (ok_or (op_result existing) OperationInProgress)
             (\<lambda>replay. Inr (replay\<lparr>msg_correlation_id := msg_correlation_id request\<rparr>))
      else result_response L request Rejected (Some (ledger_observation L))
             (Some ''idempotency_conflict'') None ActionResponse)"

definition retain :: "v2_operation_key \<Rightarrow> u64 \<Rightarrow> u8 list \<Rightarrow> v2_message \<Rightarrow> v2_message
    \<Rightarrow> 'p v2_ledger \<Rightarrow> 'p v2_ledger" where
  "retain key digest canonical request result L = L\<lparr>led_operations := bm_insert key
     \<lparr>op_request_digest = digest, op_canonical_request = canonical, op_request = request,
      op_result = Some result\<rparr> (led_operations L)\<rparr>"

section \<open>Receipts and forwarded responses (ledger_receipts.rs)\<close>

definition unknown_response :: "'p v2_ledger \<Rightarrow> v2_message \<Rightarrow> string \<Rightarrow> v2_ledger_error + v2_message" where
  "unknown_response L request err = result_response L request Unknown None (Some err) None ActionResponse"

definition response_for_transport_fault :: "'p v2_ledger \<Rightarrow> v2_message \<Rightarrow> v2_transport_fault
    \<Rightarrow> v2_ledger_error + v2_message" where
  "response_for_transport_fault L request fault = (case fault of
     UnavailableBeforeWrite \<Rightarrow>
       rejected_response L request ''sts2.runtime/downstream_unavailable'' (ledger_observation L)
   | RejectedBeforeWrite \<Rightarrow>
       rejected_response L request ''sts2.runtime/downstream_rejected'' (ledger_observation L)
   | TimeoutBeforeWrite \<Rightarrow>
       rejected_response L request ''sts2.runtime/timeout_before_write'' (ledger_observation L)
   | DisconnectedBeforeWrite \<Rightarrow>
       rejected_response L request ''sts2.runtime/disconnected_before_write'' (ledger_observation L)
   | _ \<Rightarrow> unknown_response L request ''sts2.runtime/unknown_after_disconnect'')"

definition response_matches_request :: "v2_message \<Rightarrow> v2_message \<Rightarrow> bool" where
  "response_matches_request request response \<longleftrightarrow>
     msg_protocol_version response = msg_protocol_version request
     \<and> msg_schema_digest response = msg_schema_digest request
     \<and> msg_provenance response = msg_provenance request
     \<and> msg_correlation_id response = msg_correlation_id request
     \<and> msg_instance_id response = msg_instance_id request
     \<and> msg_session_id response = msg_session_id request
     \<and> msg_lease_id response = msg_lease_id request
     \<and> msg_lease_epoch response = msg_lease_epoch request
     \<and> msg_operation_id response = msg_operation_id request
     \<and> msg_action response = msg_action request"

definition is_some_and :: "('a \<Rightarrow> bool) \<Rightarrow> 'a option \<Rightarrow> bool" where
  "is_some_and p v = (case v of None \<Rightarrow> False | Some a \<Rightarrow> p a)"

definition accept_forwarded_response :: "v2_message \<Rightarrow> v2_message \<Rightarrow> 'p v2_ledger
    \<Rightarrow> (v2_ledger_error + v2_message) \<times> 'p v2_ledger" where
  "accept_forwarded_response request response L =
     (let unknown = (unknown_response L request ''sts2.runtime/unknown_after_disconnect'', L) in
      if \<not> response_matches_request request response \<or> is_err (message_validate response)
         \<or> msg_kind response \<noteq> ActionResponse
      then unknown
      else case msg_status response of
        None \<Rightarrow> unknown
      | Some Accepted \<Rightarrow>
          if is_some_and (\<lambda>ob. obs_generation ob = msg_generation request \<and> ob = ledger_observation L)
               (msg_observation response)
             \<and> msg_effect_witness response = None \<and> msg_error_code response = None
          then (Inr response, L) else unknown
      | Some Settled \<Rightarrow>
          if is_some_and (\<lambda>ob. msg_generation request < obs_generation ob) (msg_observation response)
             \<and> is_some_and (\<lambda>w. effect_generation w = msg_generation response) (msg_effect_witness response)
          then (Inr response,
                case msg_observation response of None \<Rightarrow> L | Some ob \<Rightarrow> set_observation ob L)
          else unknown
      | Some Rejected \<Rightarrow>
          if is_some_and (\<lambda>ob. obs_generation ob = obs_generation (ledger_observation L))
               (msg_observation response)
             \<and> msg_effect_witness response = None \<and> msg_error_code response \<noteq> None
          then (Inr response, L) else unknown
      | Some Unknown \<Rightarrow> unknown
      | Some Cancelled \<Rightarrow> unknown)"

definition accept_receipt :: "v2_message \<Rightarrow> v2_message \<Rightarrow> v2_message \<Rightarrow> 'p v2_ledger
    \<Rightarrow> v2_message option \<times> 'p v2_ledger" where
  "accept_receipt action_req reconcile_req receipt L =
     (if msg_protocol_version receipt \<noteq> msg_protocol_version action_req
         \<or> msg_schema_digest receipt \<noteq> msg_schema_digest action_req
         \<or> msg_provenance receipt \<noteq> msg_provenance action_req
         \<or> msg_correlation_id receipt \<noteq> msg_correlation_id reconcile_req
         \<or> msg_instance_id receipt \<noteq> msg_instance_id action_req
         \<or> msg_session_id receipt \<noteq> msg_session_id action_req
         \<or> msg_lease_id receipt \<noteq> msg_lease_id action_req
         \<or> msg_lease_epoch receipt \<noteq> msg_lease_epoch action_req
         \<or> msg_operation_id receipt \<noteq> msg_operation_id action_req
         \<or> msg_action receipt \<noteq> msg_action action_req
         \<or> is_err (message_validate receipt)
         \<or> msg_kind receipt \<noteq> ActionResponse
      then (None, L)
      else
        let r = receipt\<lparr>msg_correlation_id := msg_correlation_id action_req\<rparr> in
        if msg_status r = Some Settled
           \<and> is_some_and (\<lambda>ob. msg_generation action_req < obs_generation ob) (msg_observation r)
           \<and> is_some_and (\<lambda>w. effect_generation w = msg_generation r) (msg_effect_witness r)
        then (Some r,
              case msg_observation r of
                None \<Rightarrow> L
              | Some ob \<Rightarrow> if obs_generation (ledger_observation L) < obs_generation ob
                           then set_observation ob L else L)
        else if msg_status r \<in> {Some Accepted, Some Rejected}
           \<and> is_some_and (\<lambda>ob. obs_generation ob = msg_generation action_req) (msg_observation r)
        then (Some r, L)
        else (None, L))"

definition as_reconcile_response :: "v2_message \<Rightarrow> v2_message \<Rightarrow> v2_message" where
  "as_reconcile_response result request =
     result\<lparr>msg_kind := ReconcileResponse, msg_correlation_id := msg_correlation_id request\<rparr>"

section \<open>Ledger operations (ledger.rs)\<close>

definition reject_implicit_workflow_authority :: "'p v2_ledger \<Rightarrow> v2_ledger_error + unit" where
  "reject_implicit_workflow_authority L =
     (if led_recovery L \<noteq> None then Inl (Recovery AuthorityRequired) else Inr ())"

definition validate_workflow_authority :: "'p v2_ledger \<Rightarrow> v2_authority \<Rightarrow> bool \<Rightarrow> v2_ledger_error + unit" where
  "validate_workflow_authority L auth needs_receipt =
     (case led_recovery L of
        None \<Rightarrow> Inl (Recovery AuthorityRequired)
      | Some contract \<Rightarrow>
          and_then (map_err Recovery (validate_authority contract auth)) (\<lambda>_.
          if needs_receipt then map_err Recovery (require_receipt_access contract) else Inr ()))"

text \<open>\<open>guarded check body\<close>: run the body on the ledger only if the check passed (\<open>check?; body\<close>).\<close>

definition guarded :: "'e + unit \<Rightarrow> ('s \<Rightarrow> ('e + 'a) \<times> 's) \<Rightarrow> 's \<Rightarrow> ('e + 'a) \<times> 's" where
  "guarded c body s = (case c of Inl e \<Rightarrow> (Inl e, s) | Inr _ \<Rightarrow> body s)"

definition accept_state_response_inner :: "v2_message \<Rightarrow> v2_message \<Rightarrow> 'p v2_ledger
    \<Rightarrow> (v2_ledger_error + v2_message) \<times> 'p v2_ledger" where
  "accept_state_response_inner request response L =
     (if is_err (message_validate request) \<or> msg_kind request \<noteq> StateRequest
         \<or> is_err (message_validate response) \<or> msg_kind response \<noteq> StateResponse
         \<or> \<not> response_matches_request request response
      then (Inl (InvalidRequest ResultShape), L)
      else case validate_context L request of
        Inl e \<Rightarrow> (Inl e, L)
      | Inr _ \<Rightarrow>
          (case msg_observation response of
             None \<Rightarrow> (Inl (InvalidRequest ResultShape), L)
           | Some ob \<Rightarrow>
               if obs_generation ob < obs_generation (ledger_observation L)
               then (Inl (StaleGeneration (obs_generation (ledger_observation L)) (obs_generation ob)), L)
               else (Inr response, set_observation ob L)))"

definition accept_state_response :: "v2_message \<Rightarrow> v2_message \<Rightarrow> 'p v2_ledger
    \<Rightarrow> (v2_ledger_error + v2_message) \<times> 'p v2_ledger" where
  "accept_state_response request response L =
     guarded (reject_implicit_workflow_authority L) (accept_state_response_inner request response) L"

definition accept_state_response_with_authority :: "v2_authority \<Rightarrow> v2_message \<Rightarrow> v2_message
    \<Rightarrow> 'p v2_ledger \<Rightarrow> (v2_ledger_error + v2_message) \<times> 'p v2_ledger" where
  "accept_state_response_with_authority auth request response L =
     guarded (validate_workflow_authority L auth False) (accept_state_response_inner request response) L"

text \<open>
  The checks that \<open>cancel_before_dispatch_inner\<close> and \<open>submit_action_inner\<close> both start with, up
  to the lookup of the operation: the key, the canonical bytes and the digest.
\<close>

definition admit_action :: "('p, 'j) v2_env \<Rightarrow> 'p v2_ledger \<Rightarrow> v2_message
    \<Rightarrow> v2_ledger_error + v2_operation_key \<times> u8 list \<times> u64" where
  "admit_action E L request =
     and_then (validate_action_request request) (\<lambda>_.
     and_then (key_for request) (\<lambda>key.
     and_then (map_err RequestDigest (idempotency_canonical_json (json_to_vec E) request)) (\<lambda>canonical.
     and_then (map_err RequestDigest (request_digest (json_to_vec E) request)) (\<lambda>digest.
     and_then (validate_context L request) (\<lambda>_.
     Inr (key, canonical, digest))))))"

definition cancel_before_dispatch_inner :: "('p, 'j) v2_env \<Rightarrow> v2_message \<Rightarrow> 'p v2_ledger
    \<Rightarrow> (v2_ledger_error + v2_message) \<times> 'p v2_ledger" where
  "cancel_before_dispatch_inner E request L =
     (case admit_action E L request of
        Inl e \<Rightarrow> (Inl e, L)
      | Inr (key, canonical, digest) \<Rightarrow>
          (case bm_get (led_operations L) key of
             Some existing \<Rightarrow> (replay_or_conflict L existing request digest canonical, L)
           | None \<Rightarrow>
               if operation_capacity (led_config L) \<le> bm_size (led_operations L)
               then (Inl CapacityExceeded, L)
               else if msg_generation request \<noteq> obs_generation (ledger_observation L)
               then (Inl (StaleGeneration (obs_generation (ledger_observation L)) (msg_generation request)), L)
               else case result_response L request Cancelled (Some (ledger_observation L))
                      (Some ''sts2.runtime/cancelled_before_dispatch'') None ActionResponse of
                 Inl e \<Rightarrow> (Inl e, L)
               | Inr response \<Rightarrow> (Inr response, retain key digest canonical request response L)))"

definition cancel_before_dispatch :: "('p, 'j) v2_env \<Rightarrow> v2_message \<Rightarrow> 'p v2_ledger
    \<Rightarrow> (v2_ledger_error + v2_message) \<times> 'p v2_ledger" where
  "cancel_before_dispatch E request L =
     guarded (reject_implicit_workflow_authority L) (cancel_before_dispatch_inner E request) L"

definition cancel_before_dispatch_with_authority :: "('p, 'j) v2_env \<Rightarrow> v2_authority \<Rightarrow> v2_message
    \<Rightarrow> 'p v2_ledger \<Rightarrow> (v2_ledger_error + v2_message) \<times> 'p v2_ledger" where
  "cancel_before_dispatch_with_authority E auth request L =
     guarded (validate_workflow_authority L auth False) (cancel_before_dispatch_inner E request) L"

text \<open>
  \<open>reconcile_inner\<close>, split at the point where the retained result is known to be open (accepted or
  unknown): \<open>reconcile_open\<close> reads the receipt. A transport fault reads as no receipt
  (\<open>unwrap_or_default\<close>).
\<close>

definition reconcile_open :: "('p, 'j) v2_env \<Rightarrow> v2_message \<Rightarrow> v2_operation_key \<Rightarrow> v2_message \<Rightarrow> v2_message
    \<Rightarrow> 'p v2_ledger \<Rightarrow> (v2_ledger_error + v2_message) \<times> 'p v2_ledger" where
  "reconcile_open E request key original_request original_result L =
     (case msg_action original_request of
        None \<Rightarrow> (Inl MissingOperationId, L)
      | Some act \<Rightarrow>
          (case read_runtime_v2_receipt E (led_forwarding L)
                  \<lparr>receipt_message = request, receipt_key = key, receipt_action = act\<rparr> of
             (answer, p) \<Rightarrow>
               let L1 = L\<lparr>led_forwarding := p\<rparr> in
               case (case answer of Inl _ \<Rightarrow> None | Inr r \<Rightarrow> r) of
                 None \<Rightarrow> (Inr (as_reconcile_response original_result request), L1)
               | Some receipt \<Rightarrow>
                   (case accept_receipt original_request request receipt L1 of
                      (None, L2) \<Rightarrow> (Inr (as_reconcile_response original_result request), L2)
                    | (Some result, L2) \<Rightarrow>
                        (Inr (as_reconcile_response result request), set_result key result L2))))"

definition reconcile_inner :: "('p, 'j) v2_env \<Rightarrow> v2_message \<Rightarrow> 'p v2_ledger
    \<Rightarrow> (v2_ledger_error + v2_message) \<times> 'p v2_ledger" where
  "reconcile_inner E request L =
     (case and_then (validate_reconcile_request request) (\<lambda>_.
           and_then (key_for request) (\<lambda>key.
           and_then (validate_context L request) (\<lambda>_. Inr key))) of
        Inl e \<Rightarrow> (Inl e, L)
      | Inr key \<Rightarrow>
          if msg_generation request \<noteq> obs_generation (ledger_observation L)
          then (Inl (StaleGeneration (obs_generation (ledger_observation L)) (msg_generation request)), L)
          else case bm_get (led_operations L) key of
            None \<Rightarrow> (Inl OperationNotFound, L)
          | Some operation \<Rightarrow>
              (case op_result operation of
                 None \<Rightarrow> (Inl OperationInProgress, L)
               | Some result \<Rightarrow>
                   if msg_status result \<notin> {Some Accepted, Some Unknown}
                   then (Inr (as_reconcile_response result request), L)
                   else reconcile_open E request key (op_request operation) result L))"

definition v2_reconcile :: "('p, 'j) v2_env \<Rightarrow> v2_message \<Rightarrow> 'p v2_ledger
    \<Rightarrow> (v2_ledger_error + v2_message) \<times> 'p v2_ledger" where
  "v2_reconcile E request L = guarded (reject_implicit_workflow_authority L) (reconcile_inner E request) L"

definition reconcile_with_authority :: "('p, 'j) v2_env \<Rightarrow> v2_authority \<Rightarrow> v2_message
    \<Rightarrow> 'p v2_ledger \<Rightarrow> (v2_ledger_error + v2_message) \<times> 'p v2_ledger" where
  "reconcile_with_authority E auth request L =
     guarded (validate_workflow_authority L auth True) (reconcile_inner E request) L"

section \<open>Persistence and submission (ledger_persistence.rs)\<close>

definition persisted_state :: "'p v2_ledger \<Rightarrow> v2_persisted_state" where
  "persisted_state L = (let b = led_binding L in
     \<lparr>per_instance_id = bind_instance_id b, per_session_id = bind_session_id b,
      per_lease_id = bind_lease_id b, per_lease_epoch = bind_lease_epoch b,
      per_boot_epoch = boot_epoch b, per_observation = bind_observation b,
      per_operations = map (\<lambda>p. \<lparr>persisted_request = op_request p, persisted_result = op_result p\<rparr>)
        (bm_values (led_operations L))\<rparr>)"

definition restart_uncertain_response :: "'p v2_ledger \<Rightarrow> v2_message \<Rightarrow> v2_ledger_error + v2_message" where
  "restart_uncertain_response L request = unknown_response L request ''sts2.runtime/restart_uncertain''"

definition restore_result :: "'p v2_ledger \<Rightarrow> v2_observation \<Rightarrow> v2_message \<Rightarrow> v2_message option
    \<Rightarrow> v2_ledger_error + v2_message" where
  "restore_result L ob request result = (case result of
     None \<Rightarrow> restart_uncertain_response L request
   | Some r \<Rightarrow>
       if \<not> response_matches_request request r \<or> is_err (message_validate r)
          \<or> msg_kind r \<noteq> ActionResponse
          \<or> is_some_and (\<lambda>o'. obs_generation ob < obs_generation o') (msg_observation r)
          \<or> (msg_status r = Some Settled \<and> msg_generation r \<le> msg_generation request)
          \<or> (msg_status r = Some Accepted \<and> msg_generation r \<noteq> msg_generation request)
       then Inl PersistedStateInvalid
       else if msg_status r = Some Accepted then restart_uncertain_response L request
       else Inr r)"

text \<open>One iteration of the loop of \<open>restore_state\<close>, and the loop.\<close>

definition restore_operation :: "('p, 'j) v2_env \<Rightarrow> 'p v2_ledger \<Rightarrow> v2_observation \<Rightarrow> v2_persisted_operation
    \<Rightarrow> (v2_operation_key, v2_operation) bmap \<Rightarrow> v2_ledger_error + (v2_operation_key, v2_operation) bmap" where
  "restore_operation E L ob p restored =
     (let request = persisted_request p in
      and_then (map_err (\<lambda>_. PersistedStateInvalid) (validate_action_request request)) (\<lambda>_.
      and_then (map_err (\<lambda>_. PersistedStateInvalid) (validate_context L request)) (\<lambda>_.
      and_then (map_err (\<lambda>_. PersistedStateInvalid) (key_for request)) (\<lambda>key.
      and_then (ensure (\<not> bm_has restored key) PersistedStateInvalid) (\<lambda>_.
      and_then (map_err (\<lambda>_. PersistedStateInvalid)
        (idempotency_canonical_json (json_to_vec E) request)) (\<lambda>canonical.
      and_then (map_err (\<lambda>_. PersistedStateInvalid) (request_digest (json_to_vec E) request)) (\<lambda>digest.
      and_then (restore_result L ob request (persisted_result p)) (\<lambda>result.
      Inr (bm_insert key \<lparr>op_request_digest = digest, op_canonical_request = canonical,
                          op_request = request, op_result = Some result\<rparr> restored)))))))))"

fun restore_loop :: "('p, 'j) v2_env \<Rightarrow> 'p v2_ledger \<Rightarrow> v2_observation \<Rightarrow> v2_persisted_operation list
    \<Rightarrow> (v2_operation_key, v2_operation) bmap \<Rightarrow> v2_ledger_error + (v2_operation_key, v2_operation) bmap" where
  "restore_loop E L ob [] restored = Inr restored"
| "restore_loop E L ob (p # ps) restored =
     and_then (restore_operation E L ob p restored) (restore_loop E L ob ps)"

definition restore_state :: "('p, 'j) v2_env \<Rightarrow> v2_persisted_state \<Rightarrow> 'p v2_ledger
    \<Rightarrow> (v2_ledger_error + unit) \<times> 'p v2_ledger" where
  "restore_state E s L =
     (let b = led_binding L in
      if per_instance_id s \<noteq> bind_instance_id b \<or> per_session_id s \<noteq> bind_session_id b
         \<or> per_lease_id s \<noteq> bind_lease_id b \<or> per_lease_epoch s \<noteq> bind_lease_epoch b
         \<or> per_boot_epoch s \<noteq> boot_epoch b
      then (Inl PersistedStateMismatch, L)
      else if is_err (observation_validate (per_observation s)) then (Inl PersistedStateInvalid, L)
      else if operation_capacity (led_config L) < length (per_operations s)
      then (Inl PersistedStateInvalid, L)
      else case restore_loop E L (per_observation s) (per_operations s) bm_empty of
        Inl e \<Rightarrow> (Inl e, L)
      | Inr restored \<Rightarrow> (Inr (), (set_observation (per_observation s) L)\<lparr>led_operations := restored\<rparr>))"

type_synonym 'k checkpoint = "'k \<Rightarrow> v2_persisted_state \<Rightarrow> (unit + unit) \<times> 'k"

definition checkpoint_or_remove :: "v2_operation_key \<Rightarrow> 'k checkpoint \<Rightarrow> 'k \<Rightarrow> 'p v2_ledger
    \<Rightarrow> (v2_ledger_error + unit) \<times> 'k \<times> 'p v2_ledger" where
  "checkpoint_or_remove key checkpoint k L =
     (case checkpoint k (persisted_state L) of
        (Inl _, k') \<Rightarrow> (Inl PersistenceFailed, k', L\<lparr>led_operations := bm_remove key (led_operations L)\<rparr>)
      | (Inr _, k') \<Rightarrow> (Inr (), k', L))"

definition persistence_uncertain_response :: "'p v2_ledger \<Rightarrow> v2_message \<Rightarrow> v2_ledger_error + v2_message" where
  "persistence_uncertain_response L request =
     unknown_response L request ''sts2.runtime/persistence_uncertain''"

text \<open>
  \<open>submit_action_inner\<close> in three parts: the admission checks that lead to a locally decided answer
  (\<open>reject_locally\<close> retains and checkpoints it), and the dispatch itself.
\<close>

definition reject_locally :: "v2_operation_key \<Rightarrow> u8 list \<Rightarrow> u64 \<Rightarrow> v2_message \<Rightarrow> string \<Rightarrow> 'k checkpoint
    \<Rightarrow> 'k \<Rightarrow> 'p v2_ledger \<Rightarrow> (v2_ledger_error + v2_message) \<times> 'k \<times> 'p v2_ledger" where
  "reject_locally key canonical digest request err checkpoint k L =
     (case rejected_response L request err (ledger_observation L) of
        Inl e \<Rightarrow> (Inl e, k, L)
      | Inr response \<Rightarrow>
          (case checkpoint_or_remove key checkpoint k (retain key digest canonical request response L) of
             (Inl e, k', L') \<Rightarrow> (Inl e, k', L')
           | (Inr _, k', L') \<Rightarrow> (Inr response, k', L')))"

definition phase_error :: "v2_combat_phase \<Rightarrow> string option" where
  "phase_error phase = (case phase of
     OutsideCombat \<Rightarrow> Some ''sts2.game-core/outside_combat''
   | EnemyTurn \<Rightarrow> Some ''sts2.game-core/not_player_turn''
   | PlayerTurn \<Rightarrow> None)"

definition dispatch_action :: "('p, 'j) v2_env \<Rightarrow> v2_operation_key \<Rightarrow> u8 list \<Rightarrow> u64 \<Rightarrow> v2_message
    \<Rightarrow> 'k checkpoint \<Rightarrow> 'k \<Rightarrow> 'p v2_ledger \<Rightarrow> (v2_ledger_error + v2_message) \<times> 'k \<times> 'p v2_ledger" where
  "dispatch_action E key canonical digest request checkpoint k L =
     (let L1 = L\<lparr>led_operations := bm_insert key
            \<lparr>op_request_digest = digest, op_canonical_request = canonical, op_request = request,
             op_result = None\<rparr> (led_operations L)\<rparr>
      in case checkpoint k (persisted_state L1) of
           (Inl _, k1) \<Rightarrow>
             (Inl PersistenceFailed, k1, L1\<lparr>led_operations := bm_remove key (led_operations L1)\<rparr>)
         | (Inr _, k1) \<Rightarrow>
             (case forward_runtime_v2 E (led_forwarding L1) request of
                (answer, p) \<Rightarrow>
                  let L2 = L1\<lparr>led_forwarding := p\<rparr> in
                  case (case answer of
                          Inr response \<Rightarrow> accept_forwarded_response request response L2
                        | Inl fault \<Rightarrow> (response_for_transport_fault L2 request fault, L2)) of
                    (Inl e, L3) \<Rightarrow> (Inl e, k1, L3)
                  | (Inr response, L3) \<Rightarrow>
                      let L4 = set_result key response L3 in
                      case checkpoint k1 (persisted_state L4) of
                        (Inr _, k2) \<Rightarrow> (Inr response, k2, L4)
                      | (Inl _, k2) \<Rightarrow>
                          (case persistence_uncertain_response L4 request of
                             Inl e \<Rightarrow> (Inl e, k2, L4)
                           | Inr uncertain \<Rightarrow> (Inr uncertain, k2, set_result key uncertain L4))))"

definition submit_action_inner :: "('p, 'j) v2_env \<Rightarrow> v2_message \<Rightarrow> 'k checkpoint \<Rightarrow> 'k \<Rightarrow> 'p v2_ledger
    \<Rightarrow> (v2_ledger_error + v2_message) \<times> 'k \<times> 'p v2_ledger" where
  "submit_action_inner E request checkpoint k L =
     (case admit_action E L request of
        Inl e \<Rightarrow> (Inl e, k, L)
      | Inr (key, canonical, digest) \<Rightarrow>
          (case bm_get (led_operations L) key of
             Some existing \<Rightarrow> (replay_or_conflict L existing request digest canonical, k, L)
           | None \<Rightarrow>
               if operation_capacity (led_config L) \<le> bm_size (led_operations L)
               then (Inl CapacityExceeded, k, L)
               else if msg_generation request \<noteq> obs_generation (ledger_observation L)
               then reject_locally key canonical digest request ''sts2.game-core/stale_generation'' checkpoint k L
               else if \<not> obs_host_ready (ledger_observation L)
               then reject_locally key canonical digest request ''sts2.runtime/host_not_ready'' checkpoint k L
               else case phase_error (obs_combat_phase (ledger_observation L)) of
                 Some err \<Rightarrow> reject_locally key canonical digest request err checkpoint k L
               | None \<Rightarrow> dispatch_action E key canonical digest request checkpoint k L))"

definition submit_action_with_checkpoint :: "('p, 'j) v2_env \<Rightarrow> v2_message \<Rightarrow> 'k checkpoint \<Rightarrow> 'k
    \<Rightarrow> 'p v2_ledger \<Rightarrow> (v2_ledger_error + v2_message) \<times> 'k \<times> 'p v2_ledger" where
  "submit_action_with_checkpoint E request checkpoint k L =
     (case reject_implicit_workflow_authority L of
        Inl e \<Rightarrow> (Inl e, k, L) | Inr _ \<Rightarrow> submit_action_inner E request checkpoint k L)"

definition submit_action_with_authority_and_checkpoint :: "('p, 'j) v2_env \<Rightarrow> v2_authority \<Rightarrow> v2_message
    \<Rightarrow> 'k checkpoint \<Rightarrow> 'k \<Rightarrow> 'p v2_ledger \<Rightarrow> (v2_ledger_error + v2_message) \<times> 'k \<times> 'p v2_ledger" where
  "submit_action_with_authority_and_checkpoint E auth request checkpoint k L =
     (case validate_workflow_authority L auth False of
        Inl e \<Rightarrow> (Inl e, k, L) | Inr _ \<Rightarrow> submit_action_inner E request checkpoint k L)"

text \<open>Without a store, the checkpoint is the closure \<open>|_| Ok(())\<close>.\<close>

definition no_checkpoint :: "unit checkpoint" where
  "no_checkpoint k s = (Inr (), k)"

definition submit_action :: "('p, 'j) v2_env \<Rightarrow> v2_message \<Rightarrow> 'p v2_ledger
    \<Rightarrow> (v2_ledger_error + v2_message) \<times> 'p v2_ledger" where
  "submit_action E request L = (case reject_implicit_workflow_authority L of
     Inl e \<Rightarrow> (Inl e, L)
   | Inr _ \<Rightarrow> (case submit_action_inner E request no_checkpoint () L of (r, _, L') \<Rightarrow> (r, L')))"

definition submit_action_with_authority :: "('p, 'j) v2_env \<Rightarrow> v2_authority \<Rightarrow> v2_message
    \<Rightarrow> 'p v2_ledger \<Rightarrow> (v2_ledger_error + v2_message) \<times> 'p v2_ledger" where
  "submit_action_with_authority E auth request L =
     (case submit_action_with_authority_and_checkpoint E auth request no_checkpoint () L of
        (r, _, L') \<Rightarrow> (r, L'))"

end
