(* ===== verification/Runtime_V2_Safety.thy ===== *)
theory Runtime_V2_Safety
  imports Runtime_V2_Ledger
begin

text \<open>
  The invariant of the Runtime-v2 ledger and what each operation does to the ledger, the forwarding
  port and the checkpoint store.
\<close>

section \<open>The invariant\<close>

definition binding_ok :: "v2_binding \<Rightarrow> bool" where
  "binding_ok b \<longleftrightarrow> bind_metadata b = v2_metadata_new
     \<and> ident_string 128 (bind_instance_id b) \<and> ident_string 128 (bind_session_id b)
     \<and> ident_string 128 (bind_lease_id b) \<and> bind_lease_epoch b \<le> RUNTIME_V2_MAX_GENERATION
     \<and> observation_ok (bind_observation b)"

text \<open>An action request admitted under the binding, and a result that may be retained for it.\<close>

definition request_ok :: "v2_binding \<Rightarrow> v2_message \<Rightarrow> bool" where
  "request_ok b m \<longleftrightarrow> message_common_ok m \<and> message_shape_ok m \<and> msg_kind m = ActionRequest
     \<and> binding_fence_failure b m = None"

definition result_ok :: "v2_binding \<Rightarrow> v2_message \<Rightarrow> v2_message \<Rightarrow> bool" where
  "result_ok b request r \<longleftrightarrow> response_matches_request request r
     \<and> message_common_ok r \<and> message_shape_ok r \<and> msg_kind r = ActionResponse
     \<and> pred_option (\<lambda>ob. obs_generation ob \<le> obs_generation (bind_observation b)) (msg_observation r)
     \<and> (msg_status r = Some Settled \<longrightarrow> msg_generation request < msg_generation r)
     \<and> (msg_status r = Some Accepted \<longrightarrow> msg_generation r = msg_generation request)
     \<and> (msg_status r = Some Unknown \<longrightarrow> msg_generation request \<le> obs_generation (bind_observation b))"

definition operation_ok :: "('p, 'j) v2_env \<Rightarrow> v2_binding \<Rightarrow> v2_operation_key \<Rightarrow> v2_operation \<Rightarrow> bool" where
  "operation_ok E b key p \<longleftrightarrow> request_ok b (op_request p) \<and> operation_key (op_request p) = Some key
     \<and> idempotency_canonical_json (json_to_vec E) (op_request p) = Inr (op_canonical_request p)
     \<and> op_request_digest p = fnv1a (op_canonical_request p)
     \<and> (case op_result p of
          None \<Rightarrow> msg_generation (op_request p) \<le> obs_generation (bind_observation b)
        | Some r \<Rightarrow> result_ok b (op_request p) r)"

definition ledger_ok :: "('p, 'j) v2_env \<Rightarrow> 'p v2_ledger \<Rightarrow> bool" where
  "ledger_ok E L \<longleftrightarrow> binding_ok (led_binding L) \<and> 0 < operation_capacity (led_config L)
     \<and> bm_size (led_operations L) \<le> operation_capacity (led_config L)
     \<and> (\<forall>key p. bm_get (led_operations L) key = Some p \<longrightarrow> operation_ok E (led_binding L) key p)"

lemma ledger_okD:
  assumes "ledger_ok E L"
  shows "binding_ok (led_binding L)"
    and "bm_get (led_operations L) key = Some p \<Longrightarrow> operation_ok E (led_binding L) key p"
    and "bm_size (led_operations L) \<le> operation_capacity (led_config L)"
  using assms by (auto simp: ledger_ok_def)

lemma binding_fence_failure_None:
  "binding_fence_failure b m = None \<longleftrightarrow> msg_instance_id m = bind_instance_id b \<and> msg_session_id m = bind_session_id b
     \<and> msg_lease_id m = bind_lease_id b \<and> msg_lease_epoch m = bind_lease_epoch b"
  by (auto simp: binding_fence_failure_def)

lemma binding_fence_failure_observation [simp]: "binding_fence_failure (b\<lparr>bind_observation := ob\<rparr>) m = binding_fence_failure b m"
  by (simp add: binding_fence_failure_def)

lemma request_ok_observation [simp]: "request_ok (b\<lparr>bind_observation := ob\<rparr>) m = request_ok b m"
  by (simp add: request_ok_def)

lemma is_some_and_iff: "is_some_and P v \<longleftrightarrow> (\<exists>a. v = Some a \<and> P a)"
  by (cases v) (auto simp: is_some_and_def)

lemma request_ok_fields:
  assumes "request_ok b m"
  obtains oid where "msg_operation_id m = Some oid" "ident_string 128 oid" "msg_action m = Some end_turn"
  using assms by (auto simp: request_ok_def message_common_ok_def message_shape_ok_def)

lemma operation_ok_observation:
  assumes "operation_ok E b key p" and "obs_generation (bind_observation b) \<le> obs_generation ob"
  shows "operation_ok E (b\<lparr>bind_observation := ob\<rparr>) key p"
  using assms order_trans [OF _ assms(2)]
  by (auto simp: operation_ok_def result_ok_def pred_option_iff split: option.splits)

lemma set_observation_simps [simp]:
  "led_config (set_observation ob L) = led_config L"
  "led_recovery (set_observation ob L) = led_recovery L"
  "led_forwarding (set_observation ob L) = led_forwarding L"
  "led_operations (set_observation ob L) = led_operations L"
  "led_binding (set_observation ob L) = (led_binding L)\<lparr>bind_observation := ob\<rparr>"
  by (simp_all add: set_observation_def)

lemma set_result_simps [simp]:
  "led_config (set_result key r L) = led_config L"
  "led_recovery (set_result key r L) = led_recovery L"
  "led_forwarding (set_result key r L) = led_forwarding L"
  "led_binding (set_result key r L) = led_binding L"
  "led_operations (set_result key r L) =
     bm_update key (\<lambda>p. p\<lparr>op_result := Some r\<rparr>) (led_operations L)"
  by (simp_all add: set_result_def)

lemma ledger_ok_set_observation:
  assumes "ledger_ok E L" and "observation_ok ob"
    and "obs_generation (ledger_observation L) \<le> obs_generation ob"
  shows "ledger_ok E (set_observation ob L)"
  using assms by (auto simp: ledger_ok_def binding_ok_def intro: operation_ok_observation)

lemma ledger_ok_forwarding [simp]: "ledger_ok E (L\<lparr>led_forwarding := p\<rparr>) = ledger_ok E L"
  by (simp add: ledger_ok_def)

lemma ledger_ok_insert:
  assumes "ledger_ok E L" and "operation_ok E (led_binding L) key p"
    and "bm_size (led_operations L) < operation_capacity (led_config L)"
  shows "ledger_ok E (L\<lparr>led_operations := bm_insert key p (led_operations L)\<rparr>)"
  using assms by (auto simp: ledger_ok_def bm_size_insert)

lemma ledger_ok_set_result:
  assumes "ledger_ok E L"
    and "\<And>p. bm_get (led_operations L) key = Some p \<Longrightarrow> result_ok (led_binding L) (op_request p) r"
  shows "ledger_ok E (set_result key r L)"
  using assms by (auto simp: ledger_ok_def operation_ok_def split: if_splits)

section \<open>Replies built by the ledger are valid\<close>

lemma result_response_ok:
  assumes "binding_ok (led_binding L)" and "request_ok (led_binding L) request" and "ident_string 128 err"
    and "st \<in> {Rejected, Cancelled} \<and> ob = Some (ledger_observation L)
      \<or> st = Unknown \<and> ob = None \<and> msg_generation request \<le> obs_generation (ledger_observation L)"
  shows "\<exists>r. result_response L request st ob (Some err) None ActionResponse = Inr r
    \<and> result_ok (led_binding L) request r \<and> msg_status r = Some st \<and> msg_error_code r = Some err"
proof -
  let ?b = "led_binding L"
  obtain oid where oid: "msg_operation_id request = Some oid" "ident_string 128 oid"
      "msg_action request = Some end_turn"
    using assms(2) by (rule request_ok_fields)
  define gen where "gen = (case ob of None \<Rightarrow> msg_generation request | Some v \<Rightarrow> obs_generation v)"
  define r where "r = result_message (bind_metadata ?b) (msg_correlation_id request)
    (bind_instance_id ?b) (bind_session_id ?b) (bind_lease_id ?b) (bind_lease_epoch ?b)
    gen oid end_turn st ob (Some err) None ActionResponse"
  have common: "message_common_ok r"
    using assms oid
    by (auto simp: r_def gen_def message_common_ok_def result_message_def message_base_def binding_ok_def
        request_ok_def v2_metadata_new_def observation_ok_def)
  have shape: "message_shape_ok r"
    using assms(4) by (auto simp: r_def gen_def message_shape_ok_def result_message_def message_base_def
        result_fields_match_status_def observation_generation_matches_def)
  have matches: "response_matches_request request r"
    using assms(1,2) oid
    by (auto simp: r_def response_matches_request_def result_message_def message_base_def request_ok_def
        binding_fence_failure_None message_common_ok_def binding_ok_def v2_metadata_new_def)
  have "result_response L request st ob (Some err) None ActionResponse = Inr r"
    using message_validate_Inr [of r "()"] common shape
    by (simp add: result_response_def oid gen_def [symmetric] r_def [symmetric] Let_def)
  moreover have "result_ok ?b request r"
    using assms(4) common shape matches
    by (auto simp: result_ok_def) (auto simp: r_def result_message_def message_base_def)
  ultimately show ?thesis by (auto simp: r_def result_message_def message_base_def)
qed

lemma error_codes_ok [simp]:
  "ident_string 128 ''idempotency_conflict''"
  "ident_string 128 ''sts2.runtime/cancelled_before_dispatch''"
  "ident_string 128 ''sts2.runtime/downstream_unavailable''"
  "ident_string 128 ''sts2.runtime/downstream_rejected''"
  "ident_string 128 ''sts2.runtime/timeout_before_write''"
  "ident_string 128 ''sts2.runtime/disconnected_before_write''"
  "ident_string 128 ''sts2.runtime/unknown_after_disconnect''"
  "ident_string 128 ''sts2.runtime/restart_uncertain''"
  "ident_string 128 ''sts2.runtime/persistence_uncertain''"
  "ident_string 128 ''sts2.runtime/host_not_ready''"
  "ident_string 128 ''sts2.game-core/stale_generation''"
  "ident_string 128 ''sts2.game-core/outside_combat''"
  "ident_string 128 ''sts2.game-core/not_player_turn''"
  by (simp_all add: byte_class_defs)

lemma rejected_response_ok:
  assumes "binding_ok (led_binding L)" and "request_ok (led_binding L) request" and "ident_string 128 err"
  shows "\<exists>r. rejected_response L request err (ledger_observation L) = Inr r
    \<and> result_ok (led_binding L) request r \<and> msg_status r = Some Rejected \<and> msg_error_code r = Some err"
  using result_response_ok [OF assms] by (auto simp: rejected_response_def)

lemma unknown_response_ok:
  assumes "binding_ok (led_binding L)" and "request_ok (led_binding L) request" and "ident_string 128 err"
    and "msg_generation request \<le> obs_generation (ledger_observation L)"
  shows "\<exists>r. unknown_response L request err = Inr r
    \<and> result_ok (led_binding L) request r \<and> msg_status r = Some Unknown \<and> msg_error_code r = Some err"
  using result_response_ok [OF assms(1-3), of Unknown None] assms(4) by (simp add: unknown_response_def)

section \<open>What each operation does\<close>

lemma validate_action_request_Inr [checks]:
  "validate_action_request m = Inr u \<longleftrightarrow>
     message_common_ok m \<and> message_shape_ok m \<and> msg_kind m = ActionRequest"
  by (auto simp: validate_action_request_def checks)

lemma validate_reconcile_request_Inr [checks]:
  "validate_reconcile_request m = Inr u \<longleftrightarrow>
     message_common_ok m \<and> message_shape_ok m \<and> msg_kind m = ReconcileRequest"
  by (auto simp: validate_reconcile_request_def checks)

lemma validate_context_Inr [checks]: "validate_context L m = Inr u \<longleftrightarrow> binding_fence_failure (led_binding L) m = None"
  by (auto simp: validate_context_def split: option.splits)

lemma key_for_Inr [checks]: "key_for m = Inr key \<longleftrightarrow> operation_key m = Some key"
  by (simp add: key_for_def)

lemma request_digest_Inr [checks]:
  "request_digest enc m = Inr d \<longleftrightarrow> (\<exists>c. idempotency_canonical_json enc m = Inr c \<and> d = fnv1a c)"
  by (auto simp: request_digest_def checks)

lemma admit_action_Inr [checks]:
  "admit_action E L request = Inr (key, canonical, digest) \<longleftrightarrow>
     request_ok (led_binding L) request \<and> operation_key request = Some key
     \<and> idempotency_canonical_json (json_to_vec E) request = Inr canonical \<and> digest = fnv1a canonical"
  by (auto simp: admit_action_def request_ok_def checks)

text \<open>The ledger with one more operation.\<close>

definition with_operation :: "v2_operation_key \<Rightarrow> v2_operation \<Rightarrow> 'p v2_ledger \<Rightarrow> 'p v2_ledger" where
  "with_operation key p L = L\<lparr>led_operations := bm_insert key p (led_operations L)\<rparr>"

lemma with_operation_simps [simp]:
  "led_config (with_operation key p L) = led_config L"
  "led_recovery (with_operation key p L) = led_recovery L"
  "led_forwarding (with_operation key p L) = led_forwarding L"
  "led_binding (with_operation key p L) = led_binding L"
  "led_operations (with_operation key p L) = bm_insert key p (led_operations L)"
  by (simp_all add: with_operation_def)

lemma with_operation_removed [simp]:
  assumes "bm_get (led_operations L) key = None"
  shows "(with_operation key p L)\<lparr>led_operations := bm_remove key (bm_insert key p (led_operations L))\<rparr> = L"
  using assms by (simp add: with_operation_def)

definition pending :: "u64 \<Rightarrow> u8 list \<Rightarrow> v2_message \<Rightarrow> v2_message option \<Rightarrow> v2_operation" where
  "pending digest canonical request result = \<lparr>op_request_digest = digest, op_canonical_request = canonical,
     op_request = request, op_result = result\<rparr>"

lemma pending_simps [simp]:
  "op_request (pending d c m r) = m" "op_result (pending d c m r) = r"
  "op_canonical_request (pending d c m r) = c" "op_request_digest (pending d c m r) = d"
  "(pending d c m r)\<lparr>op_result := r'\<rparr> = pending d c m r'"
  by (simp_all add: pending_def)

lemma retain_eq: "retain key d c m r L = with_operation key (pending d c m (Some r)) L"
  by (simp add: retain_def with_operation_def pending_def)

lemma admitted_operation_ok:
  assumes "admit_action E L request = Inr (key, canonical, digest)"
    and "case result of None \<Rightarrow> msg_generation request \<le> obs_generation (ledger_observation L)
      | Some r \<Rightarrow> result_ok (led_binding L) request r"
  shows "operation_ok E (led_binding L) key (pending digest canonical request result)"
  using assms by (auto simp: operation_ok_def checks split: option.splits)

lemma accept_forwarded_response_spec:
  assumes "accept_forwarded_response request response L = (res, L')"
    and "binding_ok (led_binding L)" and "request_ok (led_binding L) request"
    and "msg_generation request = obs_generation (ledger_observation L)"
  obtains r where "res = Inr r" "result_ok (led_binding L') request r"
    "L' = L \<or> (\<exists>ob. msg_observation response = Some ob \<and> observation_ok ob
        \<and> msg_generation request < obs_generation ob \<and> L' = set_observation ob L)"
    "msg_status r = Some Unknown \<or> r = response \<and> msg_status r \<noteq> Some Cancelled"
proof -
  obtain u where u: "unknown_response L request ''sts2.runtime/unknown_after_disconnect'' = Inr u"
      "result_ok (led_binding L) request u" "msg_status u = Some Unknown"
    using unknown_response_ok [OF assms(2,3), of "''sts2.runtime/unknown_after_disconnect''"] assms(4) by auto
  note r = assms(1) [unfolded accept_forwarded_response_def Let_def u]
  consider (unknown) "res = Inr u" "L' = L"
    | (kept) "res = Inr response" "L' = L" "response_matches_request request response"
        "message_common_ok response" "message_shape_ok response" "msg_kind response = ActionResponse"
        "msg_status response \<in> {Some Accepted, Some Rejected}"
        "\<exists>ob. msg_observation response = Some ob \<and> obs_generation ob = msg_generation request"
    | (settled) ob where "res = Inr response" "response_matches_request request response"
        "message_common_ok response" "message_shape_ok response" "msg_kind response = ActionResponse"
        "msg_status response = Some Settled" "msg_observation response = Some ob"
        "msg_generation request < obs_generation ob" "L' = set_observation ob L"
    using r assms(4) by (fastforce simp: is_some_and_iff split: if_splits option.splits v2_status.splits)
  then show thesis
  proof cases
    case unknown
    with u show thesis by (auto intro: that)
  next
    case kept
    then have "result_ok (led_binding L) request response"
      using assms(4)
      by (auto simp: result_ok_def message_shape_ok_def result_fields_match_status_def observation_generation_matches_def)
    with kept show thesis by (auto intro: that)
  next
    case settled
    then have "result_ok (led_binding L') request response" "observation_ok ob"
      by (auto simp: result_ok_def message_shape_ok_def result_fields_match_status_def
          observation_generation_matches_def message_common_ok_def)
    with settled show thesis by (auto intro!: that)
  qed
qed

lemma response_for_transport_fault_spec:
  assumes "binding_ok (led_binding L)" and "request_ok (led_binding L) request"
    and "msg_generation request \<le> obs_generation (ledger_observation L)"
  shows "\<exists>r. response_for_transport_fault L request fault = Inr r \<and> result_ok (led_binding L) request r
    \<and> msg_status r \<in> {Some Rejected, Some Unknown}"
proof -
  let ?answers = "\<lambda>reply. \<exists>r. reply = Inr r \<and> result_ok (led_binding L) request r
    \<and> msg_status r \<in> {Some Rejected, Some Unknown}"
  have "?answers (rejected_response L request err (ledger_observation L))" if "ident_string 128 err" for err
    using rejected_response_ok [OF assms(1,2) that] by auto
  moreover have "?answers (unknown_response L request err)" if "ident_string 128 err" for err
    using unknown_response_ok [OF assms(1,2) that assms(3)] by auto
  ultimately show ?thesis by (cases fault) (simp_all add: response_for_transport_fault_def)
qed

text \<open>
  A submission leaves ledger and store alone, or checkpoints one new operation that was decided
  without the port (or could not be stored), or dispatches.
\<close>

lemma reject_locally_cases:
  assumes "reject_locally key canonical digest request err checkpoint k L = (res, k', L')"
    and "admit_action E L request = Inr (key, canonical, digest)" and "binding_ok (led_binding L)"
    and "bm_get (led_operations L) key = None" and "ident_string 128 err"
  obtains r c where "result_ok (led_binding L) request r" "msg_status r = Some Rejected"
    "checkpoint k (persisted_state (with_operation key (pending digest canonical request (Some r)) L)) = (c, k')"
    "L' = (if is_err c then L else with_operation key (pending digest canonical request (Some r)) L)"
    "res = (if is_err c then Inl PersistenceFailed else Inr r)"
proof -
  have "request_ok (led_binding L) request" using assms(2) by (simp add: checks)
  then obtain r where r: "rejected_response L request err (ledger_observation L) = Inr r"
      "result_ok (led_binding L) request r" "msg_status r = Some Rejected"
    using rejected_response_ok assms(3,5) by blast
  obtain c k1 where c: "checkpoint k (persisted_state
      (with_operation key (pending digest canonical request (Some r)) L)) = (c, k1)"
    by fastforce
  show thesis
  proof (rule that [OF r(2,3), of c])
    show "checkpoint k (persisted_state (with_operation key (pending digest canonical request (Some r)) L)) = (c, k')"
      and "L' = (if is_err c then L else with_operation key (pending digest canonical request (Some r)) L)"
      and "res = (if is_err c then Inl PersistenceFailed else Inr r)"
      using assms(1,4) c
      by (auto simp: reject_locally_def r retain_eq checkpoint_or_remove_def split: sum.splits prod.splits)
  qed
qed

text \<open>The course of a dispatch: what is stored before and after the forward, and what is answered.\<close>

definition dispatched :: "('p, 'j) v2_env \<Rightarrow> 'k checkpoint \<Rightarrow> v2_operation_key \<Rightarrow> u8 list \<Rightarrow> u64 \<Rightarrow> v2_message
    \<Rightarrow> 'k \<Rightarrow> 'p v2_ledger \<Rightarrow> v2_message \<Rightarrow> 'k \<Rightarrow> 'p v2_ledger \<Rightarrow> bool" where
  "dispatched E checkpoint key canonical digest request k L r k' L' \<longleftrightarrow>
     (\<exists>k1 answer p M s c.
        checkpoint k (persisted_state (with_operation key (pending digest canonical request None) L)) = (Inr (), k1)
      \<and> forward_runtime_v2 E (led_forwarding L) request = (answer, p)
      \<and> (M = L\<lparr>led_forwarding := p\<rparr>
         \<or> (\<exists>ob m. answer = Inr m \<and> msg_observation m = Some ob \<and> observation_ok ob
              \<and> msg_generation request < obs_generation ob
              \<and> M = set_observation ob (L\<lparr>led_forwarding := p\<rparr>)))
      \<and> result_ok (led_binding M) request s
      \<and> (msg_status s \<in> {Some Accepted, Some Settled} \<longrightarrow> answer = Inr s)
      \<and> checkpoint k1 (persisted_state (with_operation key (pending digest canonical request (Some s)) M)) = (c, k')
      \<and> L' = with_operation key (pending digest canonical request (Some r)) M
      \<and> result_ok (led_binding M) request r
      \<and> (if is_err c then msg_status r = Some Unknown \<and> msg_error_code r = Some ''sts2.runtime/persistence_uncertain''
         else r = s))"

lemma set_result_with_operation:
  "set_result key r (set_observation ob (with_operation key p L)) =
     with_operation key (p\<lparr>op_result := Some r\<rparr>) (set_observation ob L)"
  "set_result key r (with_operation key p L) = with_operation key (p\<lparr>op_result := Some r\<rparr>) L"
  by (simp_all add: set_result_def set_observation_def with_operation_def)

lemma with_operation_forwarding:
  "(with_operation key p L)\<lparr>led_forwarding := q\<rparr> = with_operation key p (L\<lparr>led_forwarding := q\<rparr>)"
  "set_observation ob (with_operation key p L) = with_operation key p (set_observation ob L)"
  by (simp_all add: with_operation_def set_observation_def)

lemma settle_forward:
  assumes "binding_ok (led_binding L)" and "request_ok (led_binding L) request"
    and "msg_generation request = obs_generation (ledger_observation L)"
    and "(case answer of
            Inr response \<Rightarrow> accept_forwarded_response request response L
          | Inl fault \<Rightarrow> (response_for_transport_fault L request fault, L)) = (res, M)"
  obtains s where "res = Inr s" "result_ok (led_binding M) request s"
    "msg_status s \<in> {Some Accepted, Some Settled} \<longrightarrow> answer = Inr s"
    "M = L \<or> (\<exists>ob m. answer = Inr m \<and> msg_observation m = Some ob \<and> observation_ok ob
        \<and> msg_generation request < obs_generation ob \<and> M = set_observation ob L)"
proof (cases answer)
  case (Inl fault)
  with assms(3,4) response_for_transport_fault_spec [OF assms(1,2), of fault] show thesis
    by (auto intro!: that)
next
  case (Inr m)
  then have "accept_forwarded_response request m L = (res, M)" using assms(4) by simp
  then obtain r where "res = Inr r" "result_ok (led_binding M) request r"
      "M = L \<or> (\<exists>ob. msg_observation m = Some ob \<and> observation_ok ob
        \<and> msg_generation request < obs_generation ob \<and> M = set_observation ob L)"
      "msg_status r = Some Unknown \<or> r = m \<and> msg_status r \<noteq> Some Cancelled"
    by (rule accept_forwarded_response_spec [OF _ assms(1-3)])
  with Inr show thesis by (intro that [of r]) auto
qed

lemma dispatch_action_cases:
  assumes "dispatch_action E key canonical digest request checkpoint k L = (res, k', L')"
    and "admit_action E L request = Inr (key, canonical, digest)" and "binding_ok (led_binding L)"
    and "bm_get (led_operations L) key = None"
    and "msg_generation request = obs_generation (ledger_observation L)"
  obtains (unstored) "checkpoint k (persisted_state (with_operation key (pending digest canonical request None) L))
      = (Inl (), k')" "L' = L" "res = Inl PersistenceFailed"
  | (dispatched) r where "res = Inr r" "dispatched E checkpoint key canonical digest request k L r k' L'"
proof -
  let ?L1 = "with_operation key (pending digest canonical request None) L"
  have ok: "request_ok (led_binding L) request" using assms(2) by (simp add: checks)
  obtain c1 k1 where c1: "checkpoint k (persisted_state ?L1) = (c1, k1)" by fastforce
  note run = assms(1) [unfolded dispatch_action_def Let_def, folded pending_def, folded with_operation_def, unfolded c1]
  show thesis
  proof (cases c1)
    case (Inl x)
    with run c1 assms(4) show thesis by (auto intro: unstored)
  next
    case (Inr x)
    obtain answer p where fw: "forward_runtime_v2 E (led_forwarding L) request = (answer, p)" by fastforce
    let ?L2 = "?L1\<lparr>led_forwarding := p\<rparr>"
    obtain res1 M1 where "(case answer of
            Inr response \<Rightarrow> accept_forwarded_response request response ?L2
          | Inl fault \<Rightarrow> (response_for_transport_fault ?L2 request fault, ?L2)) = (res1, M1)" (is "?settle = _")
      by (cases ?settle)
    note settle = this
    obtain s where s: "res1 = Inr s" "result_ok (led_binding M1) request s"
        "msg_status s \<in> {Some Accepted, Some Settled} \<longrightarrow> answer = Inr s"
        "M1 = ?L2 \<or> (\<exists>ob m. answer = Inr m \<and> msg_observation m = Some ob \<and> observation_ok ob
          \<and> msg_generation request < obs_generation ob \<and> M1 = set_observation ob ?L2)"
      by (rule settle_forward [OF _ _ _ settle]) (use assms(3,5) ok in auto)
    define M where "M = M1\<lparr>led_operations := led_operations L\<rparr>"
    have M1: "M1 = with_operation key (pending digest canonical request None) M"
      using s(4) by (auto simp: M_def with_operation_def set_observation_def)
    have M: "M = L\<lparr>led_forwarding := p\<rparr> \<or> (\<exists>ob m. answer = Inr m \<and> msg_observation m = Some ob \<and> observation_ok ob
          \<and> msg_generation request < obs_generation ob \<and> M = set_observation ob (L\<lparr>led_forwarding := p\<rparr>))"
      using s(4) by (auto simp: M_def with_operation_def set_observation_def)
    let ?L4 = "with_operation key (pending digest canonical request (Some s)) M"
    obtain c k2 where c: "checkpoint k1 (persisted_state ?L4) = (c, k2)" by fastforce
    have bind: "binding_ok (led_binding M)" "request_ok (led_binding M) request"
        "msg_generation request \<le> obs_generation (ledger_observation M)"
      using M assms(3,5) ok by (auto simp: binding_ok_def)
    obtain u where u: "persistence_uncertain_response ?L4 request = Inr u" "result_ok (led_binding M) request u"
        "msg_status u = Some Unknown" "msg_error_code u = Some ''sts2.runtime/persistence_uncertain''"
      using unknown_response_ok [of ?L4 request "''sts2.runtime/persistence_uncertain''"] bind
      by (auto simp: persistence_uncertain_response_def)
    define r where "r = (if is_err c then u else s)"
    have "res = Inr r" "k' = k2" "L' = with_operation key (pending digest canonical request (Some r)) M"
      using run Inr fw settle s(1) c u(1)
      by (auto simp: r_def M1 set_result_with_operation split: sum.splits)
    then have "dispatched E checkpoint key canonical digest request k L r k' L'"
      unfolding dispatched_def using c1 Inr fw M s c u
      by (intro exI [of _ k1] exI [of _ answer] exI [of _ p] exI [of _ M] exI [of _ s] exI [of _ c])
        (auto simp: r_def M1)
    with \<open>res = Inr r\<close> show thesis by (rule dispatched)
  qed
qed

end
