(* ===== verification/Runtime_V2_Steps.thy ===== *)
theory Runtime_V2_Steps
  imports Runtime_V2_Safety
begin

text \<open>
  The Runtime-v2 ledger as a transition system: every public operation keeps the invariant, never
  moves the observed generation back, and forwards a request at most once; restoring the persisted
  state of a ledger succeeds.
\<close>

section \<open>Submission\<close>

text \<open>The reason for which an admitted, new operation is refused without being forwarded.\<close>

definition local_refusal :: "v2_observation \<Rightarrow> v2_message \<Rightarrow> string option" where
  "local_refusal ob request =
     (if msg_generation request \<noteq> obs_generation ob then Some ''sts2.game-core/stale_generation''
      else if \<not> obs_host_ready ob then Some ''sts2.runtime/host_not_ready''
      else phase_error (obs_combat_phase ob))"

lemma local_refusal_code: "local_refusal ob request = Some err \<Longrightarrow> ident_string 128 err"
  by (auto simp: local_refusal_def phase_error_def split: if_splits v2_combat_phase.splits)

lemma local_refusal_None: "local_refusal ob request = None \<longleftrightarrow>
    msg_generation request = obs_generation ob \<and> obs_host_ready ob \<and> obs_combat_phase ob = PlayerTurn"
  by (auto simp: local_refusal_def phase_error_def split: if_splits v2_combat_phase.splits)

lemma submit_action_inner_new:
  assumes "admit_action E L request = Inr (key, canonical, digest)"
  shows "submit_action_inner E request checkpoint k L = (case bm_get (led_operations L) key of
      Some existing \<Rightarrow> (replay_or_conflict L existing request digest canonical, k, L)
    | None \<Rightarrow>
        if operation_capacity (led_config L) \<le> bm_size (led_operations L) then (Inl CapacityExceeded, k, L)
        else case local_refusal (ledger_observation L) request of
          Some err \<Rightarrow> reject_locally key canonical digest request err checkpoint k L
        | None \<Rightarrow> dispatch_action E key canonical digest request checkpoint k L)"
  by (auto simp: submit_action_inner_def assms local_refusal_def split: option.splits)

lemma submit_action_inner_bound_cases:
  assumes "submit_action_inner E request checkpoint k L = (res, k', L')" and "binding_ok (led_binding L)"
  obtains (unchanged) "L' = L" "k' = k"
  | (decided) key p c where "bm_get (led_operations L) key = None"
      "bm_size (led_operations L) < operation_capacity (led_config L)"
      "operation_ok E (led_binding L) key p" "is_err c \<or> op_result p \<noteq> None"
      "checkpoint k (persisted_state (with_operation key p L)) = (c, k')"
      "L' = (if is_err c then L else with_operation key p L)"
  | (dispatched) key canonical digest r where "bm_get (led_operations L) key = None"
      "bm_size (led_operations L) < operation_capacity (led_config L)"
      "admit_action E L request = Inr (key, canonical, digest)"
      "msg_generation request = obs_generation (ledger_observation L)"
      "obs_host_ready (ledger_observation L)" "obs_combat_phase (ledger_observation L) = PlayerTurn"
      "res = Inr r" "dispatched E checkpoint key canonical digest request k L r k' L'"
proof (cases "admit_action E L request")
  case (Inl e)
  with assms(1) show thesis by (auto simp: submit_action_inner_def intro: unchanged)
next
  case (Inr t)
  then obtain key canonical digest where adm: "admit_action E L request = Inr (key, canonical, digest)"
    by (cases t) auto
  note run = assms(1) [unfolded submit_action_inner_new [OF adm]]
  note bind = assms(2)
  consider (known) "L' = L" "k' = k"
    | (reject) err where "bm_get (led_operations L) key = None"
        "bm_size (led_operations L) < operation_capacity (led_config L)"
        "local_refusal (ledger_observation L) request = Some err"
        "reject_locally key canonical digest request err checkpoint k L = (res, k', L')"
    | (dispatch) "bm_get (led_operations L) key = None"
        "bm_size (led_operations L) < operation_capacity (led_config L)"
        "local_refusal (ledger_observation L) request = None"
        "dispatch_action E key canonical digest request checkpoint k L = (res, k', L')"
    using run by (auto simp: not_le split: option.splits if_splits)
  then show thesis
  proof cases
    case known
    then show thesis by (rule unchanged)
  next
    case reject
    obtain r c where r: "result_ok (led_binding L) request r"
      "checkpoint k (persisted_state (with_operation key (pending digest canonical request (Some r)) L)) = (c, k')"
      "L' = (if is_err c then L else with_operation key (pending digest canonical request (Some r)) L)"
      by (rule reject_locally_cases [OF reject(4) adm bind reject(1) local_refusal_code [OF reject(3)]])
    have "operation_ok E (led_binding L) key (pending digest canonical request (Some r))"
      by (rule admitted_operation_ok [OF adm]) (simp add: r(1))
    with r(2,3) reject(1,2) show thesis by (intro decided) auto
  next
    case dispatch
    note ready = dispatch(3) [unfolded local_refusal_None]
    from dispatch(4) adm bind dispatch(1) conjunct1 [OF ready] show thesis
    proof (cases rule: dispatch_action_cases)
      case unstored
      have "operation_ok E (led_binding L) key (pending digest canonical request None)"
        by (rule admitted_operation_ok [OF adm]) (simp add: ready)
      with unstored dispatch(1,2) show thesis by (intro decided [of key _ "Inl ()"]) auto
    next
      case (dispatched r)
      with dispatch(1,2) ready adm show thesis by (intro that(3)) auto
    qed
  qed
qed

lemmas submit_action_inner_cases = submit_action_inner_bound_cases
  [OF _ ledger_okD(1), consumes 2, case_names unchanged decided dispatched]

lemma dispatched_ok:
  assumes "dispatched E checkpoint key canonical digest request k L r k' L'" and "ledger_ok E L"
    and "admit_action E L request = Inr (key, canonical, digest)"
    and "bm_size (led_operations L) < operation_capacity (led_config L)"
    and "msg_generation request = obs_generation (ledger_observation L)"
  shows "ledger_ok E L'" and "obs_generation (ledger_observation L) \<le> obs_generation (ledger_observation L')"
proof -
  obtain p M where M: "M = L\<lparr>led_forwarding := p\<rparr> \<or> (\<exists>ob. observation_ok ob
        \<and> msg_generation request < obs_generation ob \<and> M = set_observation ob (L\<lparr>led_forwarding := p\<rparr>))"
    and L': "L' = with_operation key (pending digest canonical request (Some r)) M"
    and r: "result_ok (led_binding M) request r"
    using assms(1) by (auto simp: dispatched_def)
  have "ledger_ok E M"
    using M assms(2,5) ledger_ok_set_observation [of E "L\<lparr>led_forwarding := p\<rparr>"] by auto
  moreover have "admit_action E M request = Inr (key, canonical, digest)"
    using M assms(3) by (auto simp: checks)
  ultimately show "ledger_ok E L'"
    using M L' r assms(4) unfolding with_operation_def
    by (auto intro!: ledger_ok_insert admitted_operation_ok)
  show "obs_generation (ledger_observation L) \<le> obs_generation (ledger_observation L')"
    using M L' assms(5) by auto
qed

section \<open>State responses, cancellation, reconciliation\<close>

lemma accept_state_response_cases:
  assumes "accept_state_response_inner request response L = (res, L')"
  obtains (unchanged) "L' = L"
  | (observed) ob where "msg_observation response = Some ob" "observation_ok ob"
      "obs_generation (ledger_observation L) \<le> obs_generation ob" "L' = set_observation ob L"
proof (cases "L' = L")
  case False
  then obtain ob where "message_common_ok response" "msg_observation response = Some ob"
      "\<not> obs_generation ob < obs_generation (ledger_observation L)" "L' = set_observation ob L"
    using assms unfolding accept_state_response_inner_def
    by (simp split: if_splits option.splits sum.splits)
  then show thesis by (intro observed) (auto simp: message_common_ok_def)
qed (rule unchanged)

lemma cancel_bound_cases:
  assumes "cancel_before_dispatch_inner E request L = (res, L')" and "binding_ok (led_binding L)"
  obtains (unchanged) "L' = L"
  | (cancelled) key p where "bm_get (led_operations L) key = None"
      "bm_size (led_operations L) < operation_capacity (led_config L)"
      "operation_ok E (led_binding L) key p" "op_result p \<noteq> None" "L' = with_operation key p L"
proof (cases "admit_action E L request")
  case (Inl e)
  with assms(1) show thesis by (auto simp: cancel_before_dispatch_inner_def intro: unchanged)
next
  case (Inr t)
  then obtain key canonical digest where adm: "admit_action E L request = Inr (key, canonical, digest)"
    by (cases t) auto
  then have "request_ok (led_binding L) request" by (simp add: checks)
  then obtain r where r: "result_response L request Cancelled (Some (ledger_observation L))
      (Some ''sts2.runtime/cancelled_before_dispatch'') None ActionResponse = Inr r"
      "result_ok (led_binding L) request r"
    using result_response_ok [OF assms(2), of request
        "''sts2.runtime/cancelled_before_dispatch''" Cancelled "Some (ledger_observation L)"] by auto
  have "operation_ok E (led_binding L) key (pending digest canonical request (Some r))"
    by (rule admitted_operation_ok [OF adm]) (simp add: r(2))
  note p_ok = this
  show thesis
  proof (cases "L' = L")
    case False
    then have "bm_get (led_operations L) key = None"
      "bm_size (led_operations L) < operation_capacity (led_config L)"
      "L' = with_operation key (pending digest canonical request (Some r)) L"
      using assms(1)
      by (auto simp: cancel_before_dispatch_inner_def adm r(1) retain_eq not_le split: option.splits if_splits)
    with p_ok show thesis by (intro cancelled) auto
  qed (rule unchanged)
qed

lemmas cancel_cases = cancel_bound_cases [OF _ ledger_okD(1), consumes 2, case_names unchanged cancelled]

lemma accept_receipt_cases:
  assumes "accept_receipt action_req reconcile_req receipt L = (res, L')"
    and "request_ok (led_binding L) action_req"
    and "msg_generation action_req \<le> obs_generation (ledger_observation L)"
  obtains (ignored) "res = None" "L' = L"
  | (accepted) r where "res = Some r" "result_ok (led_binding L') action_req r"
      "L' = L \<or> (\<exists>ob. observation_ok ob \<and> obs_generation (ledger_observation L) < obs_generation ob
         \<and> L' = set_observation ob L)"
proof (cases res)
  case None
  with assms(1) show thesis
    by (intro ignored) (auto simp: accept_receipt_def Let_def split: if_splits)
next
  case (Some r)
  have r: "r = receipt\<lparr>msg_correlation_id := msg_correlation_id action_req\<rparr>"
      "response_matches_request action_req r" "message_common_ok receipt" "message_shape_ok receipt"
      "msg_kind receipt = ActionResponse"
    using assms(1) Some
    by (auto simp: accept_receipt_def Let_def response_matches_request_def split: if_splits)
  have corr: "ident_string 128 (msg_correlation_id action_req)"
    using assms(2) by (simp add: request_ok_def message_common_ok_def)
  have ok: "message_common_ok r" "message_shape_ok r" "msg_kind r = ActionResponse"
    using r corr by auto
  consider (settled) ob where "msg_status r = Some Settled" "msg_observation r = Some ob"
        "msg_generation action_req < obs_generation ob"
        "L' = (if obs_generation (ledger_observation L) < obs_generation ob then set_observation ob L else L)"
    | (other) "msg_status r \<in> {Some Accepted, Some Rejected}" "L' = L"
        "\<exists>ob. msg_observation r = Some ob \<and> obs_generation ob = msg_generation action_req"
    using assms(1) Some r(1)
    by (auto simp: accept_receipt_def Let_def is_some_and_iff split: if_splits)
  then show thesis
  proof cases
    case settled
    have "obs_generation ob = msg_generation r" "observation_ok ob"
      using ok settled(1,2)
      by (auto simp: message_shape_ok_def result_fields_match_status_def observation_generation_matches_def
          message_common_ok_def)
    then show thesis
      using settled ok r(2) by (intro accepted [OF Some]) (auto simp: result_ok_def not_less)
  next
    case other
    then have "result_ok (led_binding L) action_req r"
      using ok r(2) assms(3)
      by (auto simp: result_ok_def message_shape_ok_def result_fields_match_status_def
          observation_generation_matches_def)
    with other show thesis by (intro accepted [OF Some]) auto
  qed
qed

text \<open>
  Reconciliation changes the port only through a receipt read, and the ledger only where the
  retained result was still open.
\<close>

definition read_only :: "('p, 'j) v2_env \<Rightarrow> 'p \<Rightarrow> 'p \<Rightarrow> bool" where
  "read_only E p p' \<longleftrightarrow> p' = p \<or> (\<exists>q. p' = snd (read_runtime_v2_receipt E p q))"

definition open_result :: "v2_message option \<Rightarrow> bool" where
  "open_result r \<longleftrightarrow> (case r of None \<Rightarrow> True | Some m \<Rightarrow> msg_status m \<in> {Some Accepted, Some Unknown})"

definition raised :: "'p v2_ledger \<Rightarrow> 'p v2_ledger \<Rightarrow> bool" where
  "raised L M \<longleftrightarrow> M = L \<or> (\<exists>ob. observation_ok ob
     \<and> obs_generation (ledger_observation L) < obs_generation ob \<and> M = set_observation ob L)"

lemma reconcile_open_cases:
  assumes "reconcile_open E request key original result L = (res, L')"
    and "request_ok (led_binding L) original"
    and "msg_generation original \<le> obs_generation (ledger_observation L)"
  obtains (unchanged) p where "read_only E (led_forwarding L) p" "L' = L\<lparr>led_forwarding := p\<rparr>"
      "res = Inr (as_reconcile_response result request)"
  | (settled) p M r where "read_only E (led_forwarding L) p" "raised (L\<lparr>led_forwarding := p\<rparr>) M"
      "result_ok (led_binding M) original r" "L' = set_result key r M"
      "res = Inr (as_reconcile_response r request)"
proof -
  have act: "msg_action original = Some end_turn" using assms(2) by (rule request_ok_fields)
  define q where "q = \<lparr>receipt_message = request, receipt_key = key, receipt_action = end_turn\<rparr>"
  obtain answer p where rd: "read_runtime_v2_receipt E (led_forwarding L) q = (answer, p)" by fastforce
  then have ro: "read_only E (led_forwarding L) p" by (auto simp: read_only_def intro!: exI [of _ q])
  let ?L1 = "L\<lparr>led_forwarding := p\<rparr>"
  note run = assms(1) [unfolded reconcile_open_def act option.case q_def [symmetric] rd prod.case Let_def]
  show thesis
  proof (cases "case answer of Inl _ \<Rightarrow> None | Inr r \<Rightarrow> r")
    case None
    with run ro show thesis by (auto intro: unchanged)
  next
    case (Some receipt)
    obtain got M where rcpt: "accept_receipt original request receipt ?L1 = (got, M)" by fastforce
    have "request_ok (led_binding ?L1) original" "msg_generation original \<le> obs_generation (ledger_observation ?L1)"
      using assms(2,3) by simp_all
    with rcpt show thesis
    proof (cases rule: accept_receipt_cases)
      case ignored
      with run Some rcpt ro show thesis by (intro unchanged) auto
    next
      case (accepted r)
      with run Some rcpt ro show thesis by (intro settled) (auto simp: raised_def)
    qed
  qed
qed

lemma reconcile_cases:
  assumes "reconcile_inner E request L = (res, L')" and "ledger_ok E L"
  obtains (unchanged) p where "read_only E (led_forwarding L) p" "L' = L\<lparr>led_forwarding := p\<rparr>"
  | (settled) key old p M r where "bm_get (led_operations L) key = Some old" "open_result (op_result old)"
      "read_only E (led_forwarding L) p" "raised (L\<lparr>led_forwarding := p\<rparr>) M"
      "result_ok (led_binding M) (op_request old) r" "L' = set_result key r M"
proof (cases "\<exists>key old result. bm_get (led_operations L) key = Some old \<and> op_result old = Some result
    \<and> msg_status result \<in> {Some Accepted, Some Unknown}
    \<and> reconcile_open E request key (op_request old) result L = (res, L')")
  case True
  then obtain key old result where old: "bm_get (led_operations L) key = Some old" "op_result old = Some result"
      "msg_status result \<in> {Some Accepted, Some Unknown}"
      "reconcile_open E request key (op_request old) result L = (res, L')"
    by blast
  have "operation_ok E (led_binding L) key old" using ledger_okD(2) [OF assms(2) old(1)] .
  then have ok: "request_ok (led_binding L) (op_request old)" "result_ok (led_binding L) (op_request old) result"
    using old(2) by (auto simp: operation_ok_def)
  then have "msg_generation (op_request old) \<le> obs_generation (ledger_observation L)"
    using old(3) by (auto simp: result_ok_def message_shape_ok_def result_fields_match_status_def
        observation_generation_matches_def split: option.splits)
  with old(4) ok(1) show thesis
  proof (cases rule: reconcile_open_cases)
    case (unchanged p)
    then show thesis by (intro that(1))
  next
    case (settled p M r)
    with old show thesis by (intro that(2) [of key old p M r]) (auto simp: open_result_def)
  qed
next
  case False
  then have "L' = L"
    using assms(1) by (auto simp: reconcile_inner_def split: sum.splits if_splits option.splits)
  then show thesis by (intro unchanged [of "led_forwarding L"]) (simp_all add: read_only_def)
qed

section \<open>Progress of the ledger\<close>

text \<open>
  What no operation violates: the invariant, the identity of the ledger, the observed generation,
  every operation retained so far with its request, and every result that is not open.
\<close>

definition advances :: "('p, 'j) v2_env \<Rightarrow> 'p v2_ledger \<Rightarrow> 'p v2_ledger \<Rightarrow> bool" where
  "advances E L L' \<longleftrightarrow> ledger_ok E L' \<and> led_config L' = led_config L \<and> led_recovery L' = led_recovery L
     \<and> led_binding L' = (led_binding L)\<lparr>bind_observation := ledger_observation L'\<rparr>
     \<and> obs_generation (ledger_observation L) \<le> obs_generation (ledger_observation L')
     \<and> (\<forall>key p. bm_get (led_operations L) key = Some p \<longrightarrow>
          (\<exists>p'. bm_get (led_operations L') key = Some p'
             \<and> (p' = p \<or> open_result (op_result p) \<and> (\<exists>r. p' = p\<lparr>op_result := r\<rparr>))))"

lemma advances_refl: "ledger_ok E L \<Longrightarrow> advances E L L"
  by (auto simp: advances_def)

lemma advances_forwarding [simp]: "advances E L (L'\<lparr>led_forwarding := p\<rparr>) = advances E L L'"
  by (simp add: advances_def)

lemma advances_with_operation:
  assumes "ledger_ok E L" and "bm_get (led_operations L) key = None"
    and "bm_size (led_operations L) < operation_capacity (led_config L)"
    and "operation_ok E (led_binding L) key p"
  shows "advances E L (with_operation key p L)"
  using ledger_ok_insert [OF assms(1,4,3)] assms(2)
  by (auto simp: advances_def with_operation_def)

lemma raised_ok: "raised L M \<Longrightarrow> ledger_ok E L \<Longrightarrow> ledger_ok E M"
  by (auto simp: raised_def intro: ledger_ok_set_observation)

lemma advances_accept_state:
  assumes "accept_state_response_inner request response L = (res, L')" and "ledger_ok E L"
  shows "advances E L L' \<and> led_forwarding L' = led_forwarding L"
  using assms(1)
proof (cases rule: accept_state_response_cases)
  case (observed ob)
  with ledger_ok_set_observation [OF assms(2)] show ?thesis
    by (auto simp: advances_def)
qed (simp add: advances_refl assms(2))

lemma advances_cancel:
  assumes "cancel_before_dispatch_inner E request L = (res, L')" and "ledger_ok E L"
  shows "advances E L L' \<and> led_forwarding L' = led_forwarding L"
  using assms
proof (cases rule: cancel_cases)
  case (cancelled key p)
  with advances_with_operation [OF assms(2)] show ?thesis by auto
qed (simp add: advances_refl assms(2))

lemma advances_reconcile:
  assumes "reconcile_inner E request L = (res, L')" and "ledger_ok E L"
  shows "advances E L L' \<and> read_only E (led_forwarding L) (led_forwarding L')"
  using assms
proof (cases rule: reconcile_cases)
  case (unchanged p)
  then show ?thesis by (simp add: advances_refl assms(2))
next
  case (settled key old p M r)
  have "ledger_ok E M" using settled(4) assms(2) by (auto intro: raised_ok)
  moreover have "led_operations M = led_operations L" using settled(4) by (auto simp: raised_def)
  ultimately have "ledger_ok E (set_result key r M)"
    using settled(1,5) by (intro ledger_ok_set_result) auto
  with settled show ?thesis
    by (auto simp: advances_def raised_def less_imp_le)
qed

lemma advances_submit:
  assumes "submit_action_inner E request checkpoint k L = (res, k', L')" and "ledger_ok E L"
  shows "advances E L L'"
  using assms
proof (cases rule: submit_action_inner_cases)
  case unchanged
  then show ?thesis by (simp add: advances_refl assms(2))
next
  case (decided key p c)
  then show ?thesis using advances_with_operation [OF assms(2)] by (auto intro: advances_refl [OF assms(2)])
next
  case (dispatched key canonical digest r)
  note ok = dispatched_ok [OF dispatched(8) assms(2) dispatched(3,2,4)]
  then show ?thesis
    using dispatched(1,8)
    by (auto simp: advances_def dispatched_def)
qed

end
