(* ===== verification/Runtime_V2_Recovery.thy ===== *)
theory Runtime_V2_Recovery
  imports Runtime_V2_Steps
begin

text \<open>
  Restart recovery of the Runtime-v2 ledger: what \<open>restore_state\<close> makes of a persisted state, and
  the ledger together with its checkpoint store as one transition system with crashes.
\<close>

section \<open>Restoring a persisted state\<close>

text \<open>
  Two ledgers with the same identity: everything but the observation, the port and the operations.
\<close>

definition same_identity :: "'p v2_ledger \<Rightarrow> 'p v2_ledger \<Rightarrow> bool" where
  "same_identity L M \<longleftrightarrow> led_config L = led_config M \<and> led_recovery L = led_recovery M
     \<and> led_binding L = (led_binding M)\<lparr>bind_observation := ledger_observation L\<rparr>"

lemma same_identity_refl [simp]: "same_identity L L"
  by (simp add: same_identity_def)

lemma same_identity_sym: "same_identity L M \<Longrightarrow> same_identity M L"
  by (cases "led_binding L"; cases "led_binding M") (simp add: same_identity_def)

lemma same_identity_trans: "same_identity L M \<Longrightarrow> same_identity M N \<Longrightarrow> same_identity L N"
  by (cases "led_binding L"; cases "led_binding M"; cases "led_binding N") (simp add: same_identity_def)

lemma advances_same_identity: "advances E L L' \<Longrightarrow> same_identity L' L"
  by (simp add: advances_def same_identity_def)

lemma unknown_response_identity:
  assumes "same_identity L M"
  shows "unknown_response L request err = unknown_response M request err"
  using assms by (cases "led_binding L"; cases "led_binding M")
    (simp add: unknown_response_def result_response_def same_identity_def Let_def split: option.splits)

text \<open>In-flight and merely accepted work becomes unknown; every other result is restored as it is.\<close>

definition uncertain_result :: "v2_message option \<Rightarrow> bool" where
  "uncertain_result r \<longleftrightarrow> (case r of None \<Rightarrow> True | Some m \<Rightarrow> msg_status m = Some Accepted)"

definition restored_as :: "v2_binding \<Rightarrow> v2_operation \<Rightarrow> v2_operation \<Rightarrow> bool" where
  "restored_as b p p' \<longleftrightarrow> (\<exists>r. p' = p\<lparr>op_result := Some r\<rparr> \<and> result_ok b (op_request p) r
     \<and> (if uncertain_result (op_result p)
        then msg_status r = Some Unknown \<and> msg_error_code r = Some ''sts2.runtime/restart_uncertain''
        else op_result p = Some r))"

lemma restore_result_ok:
  assumes "operation_ok E b key p" and "binding_ok b"
    and "led_binding L = b\<lparr>bind_observation := ob\<rparr>"
  shows "\<exists>r. restore_result L (bind_observation b) (op_request p) (op_result p) = Inr r
    \<and> restored_as b p (p\<lparr>op_result := Some r\<rparr>)"
proof -
  let ?D = "L\<lparr>led_binding := b\<rparr>"
  have rq: "request_ok b (op_request p)" using assms(1) by (simp add: operation_ok_def)
  have eq: "restart_uncertain_response L (op_request p) = restart_uncertain_response ?D (op_request p)"
    unfolding restart_uncertain_response_def
    by (rule unknown_response_identity) (simp add: same_identity_def assms(3))
  have uncertain: "\<exists>u. restart_uncertain_response L (op_request p) = Inr u \<and> result_ok b (op_request p) u
      \<and> msg_status u = Some Unknown \<and> msg_error_code u = Some ''sts2.runtime/restart_uncertain''"
    if "msg_generation (op_request p) \<le> obs_generation (bind_observation b)"
    using unknown_response_ok [of ?D "op_request p" "''sts2.runtime/restart_uncertain''"] assms(2) rq that
    unfolding eq by (simp add: restart_uncertain_response_def)
  show ?thesis
  proof (cases "op_result p")
    case None
    then have "msg_generation (op_request p) \<le> obs_generation (bind_observation b)"
      using assms(1) by (simp add: operation_ok_def)
    from uncertain [OF this] None show ?thesis
      by (auto simp: restore_result_def restored_as_def uncertain_result_def)
  next
    case (Some r)
    then have r: "result_ok b (op_request p) r" using assms(1) by (simp add: operation_ok_def)
    have checked: "restore_result L (bind_observation b) (op_request p) (op_result p) =
        (if msg_status r = Some Accepted then restart_uncertain_response L (op_request p) else Inr r)"
      using r Some by (auto simp: restore_result_def result_ok_def is_some_and_iff pred_option_iff)
    show ?thesis
    proof (cases "msg_status r = Some Accepted")
      case True
      then have "msg_generation (op_request p) \<le> obs_generation (bind_observation b)"
        using r by (auto simp: result_ok_def message_shape_ok_def result_fields_match_status_def
            observation_generation_matches_def split: option.splits)
      from uncertain [OF this] Some True checked show ?thesis
        by (auto simp: restored_as_def uncertain_result_def)
    next
      case False
      with Some r checked show ?thesis by (auto simp: restored_as_def uncertain_result_def)
    qed
  qed
qed

lemma restore_operation_ok:
  assumes "operation_ok E b key p" and "binding_ok b" and "led_binding L = b\<lparr>bind_observation := ob\<rparr>"
    and "bm_get acc key = None"
  shows "\<exists>p'. restore_operation E L (bind_observation b)
      \<lparr>persisted_request = op_request p, persisted_result = op_result p\<rparr> acc = Inr (bm_insert key p' acc)
    \<and> restored_as b p p'"
proof -
  obtain r where r: "restore_result L (bind_observation b) (op_request p) (op_result p) = Inr r"
      "restored_as b p (p\<lparr>op_result := Some r\<rparr>)"
    using restore_result_ok [OF assms(1-3)] by auto
  have p: "validate_action_request (op_request p) = Inr ()" "validate_context L (op_request p) = Inr ()"
      "key_for (op_request p) = Inr key"
      "idempotency_canonical_json (json_to_vec E) (op_request p) = Inr (op_canonical_request p)"
      "request_digest (json_to_vec E) (op_request p) = Inr (op_request_digest p)"
    using assms(1) by (auto simp: operation_ok_def request_ok_def assms(3) checks)
  have "restore_operation E L (bind_observation b)
      \<lparr>persisted_request = op_request p, persisted_result = op_result p\<rparr> acc =
      Inr (bm_insert key \<lparr>op_request_digest = op_request_digest p,
        op_canonical_request = op_canonical_request p, op_request = op_request p, op_result = Some r\<rparr> acc)"
    using assms(4) by (simp add: restore_operation_def p r(1) ensure_def)
  then show ?thesis using r(2) by (cases p) auto
qed

lemma restore_loop_ok:
  assumes "binding_ok b" and "led_binding L = b\<lparr>bind_observation := ob\<rparr>"
    and "\<And>key p. (key, p) \<in> set xs \<Longrightarrow> operation_ok E b key p \<and> bm_get acc key = None"
    and "distinct (map fst xs)"
  shows "\<exists>m. restore_loop E L (bind_observation b)
      (map (\<lambda>(key, p). \<lparr>persisted_request = op_request p, persisted_result = op_result p\<rparr>) xs) acc = Inr m
    \<and> (\<forall>key. if key \<in> fst ` set xs then rel_option (restored_as b) (map_of xs key) (bm_get m key)
             else bm_get m key = bm_get acc key)"
  using assms(3,4)
proof (induction xs arbitrary: acc)
  case Nil
  then show ?case by simp
next
  case (Cons x xs)
  obtain key p where x: "x = (key, p)" by (cases x)
  have "operation_ok E b key p" "bm_get acc key = None" using Cons.prems(1) [of key p] x by auto
  then obtain p' where p': "restore_operation E L (bind_observation b)
      \<lparr>persisted_request = op_request p, persisted_result = op_result p\<rparr> acc = Inr (bm_insert key p' acc)"
      "restored_as b p p'"
    using restore_operation_ok [OF _ assms(1,2)] by blast
  have "\<And>k q. (k, q) \<in> set xs \<Longrightarrow> operation_ok E b k q \<and> bm_get (bm_insert key p' acc) k = None"
    using Cons.prems x by force
  from Cons.IH [OF this] Cons.prems(2) x obtain m where m: "restore_loop E L (bind_observation b)
      (map (\<lambda>(key, p). \<lparr>persisted_request = op_request p, persisted_result = op_result p\<rparr>) xs)
      (bm_insert key p' acc) = Inr m"
      "\<forall>k. if k \<in> fst ` set xs then rel_option (restored_as b) (map_of xs k) (bm_get m k)
           else bm_get m k = bm_get (bm_insert key p' acc) k"
    by auto
  have "\<forall>k. if k \<in> fst ` set (x # xs) then rel_option (restored_as b) (map_of (x # xs) k) (bm_get m k)
      else bm_get m k = bm_get acc k"
  proof
    fix k
    show "if k \<in> fst ` set (x # xs) then rel_option (restored_as b) (map_of (x # xs) k) (bm_get m k)
      else bm_get m k = bm_get acc k"
      using spec [OF m(2), of k] Cons.prems(2) x p'(2) by (auto split: if_splits)
  qed
  with m(1) p'(1) x show ?case by simp
qed

text \<open>
  The round trip: a ledger of the same identity restores whatever an invariant-abiding ledger
  persisted; the observation and all requests come back, results as \<open>restored_as\<close> says.
\<close>

definition restored_from :: "'p v2_ledger \<Rightarrow> 'p v2_ledger \<Rightarrow> bool" where
  "restored_from D L' \<longleftrightarrow> led_config L' = led_config D \<and> led_recovery L' = led_recovery D
     \<and> led_binding L' = led_binding D
     \<and> (\<forall>key. rel_option (restored_as (led_binding D)) (bm_get (led_operations D) key)
          (bm_get (led_operations L') key))"

lemma restore_persisted:
  assumes "ledger_ok E D" and "same_identity L D"
  obtains L' where "restore_state E (persisted_state D) L = (Inr (), L')" "restored_from D L'"
    "led_forwarding L' = led_forwarding L"
proof -
  let ?b = "led_binding D"
  let ?xs = "bm_entries (led_operations D)"
  have L: "led_config L = led_config D" "led_recovery L = led_recovery D"
      "led_binding L = ?b\<lparr>bind_observation := ledger_observation L\<rparr>"
    using assms(2) by (auto simp: same_identity_def)
  have b: "binding_ok ?b" using assms(1) by (rule ledger_okD)
  have "\<exists>m. restore_loop E L (bind_observation ?b)
      (map (\<lambda>(key, p). \<lparr>persisted_request = op_request p, persisted_result = op_result p\<rparr>) ?xs) bm_empty = Inr m
    \<and> (\<forall>key. if key \<in> fst ` set ?xs then rel_option (restored_as ?b) (map_of ?xs key) (bm_get m key)
             else bm_get m key = bm_get bm_empty key)"
    using ledger_okD(2) [OF assms(1)] bm.entries_distinct_keys [of "led_operations D"]
    by (intro restore_loop_ok [OF b L(3)]) (auto simp: bm.entries_get)
  then obtain m where m: "restore_loop E L (bind_observation ?b)
      (map (\<lambda>(key, p). \<lparr>persisted_request = op_request p, persisted_result = op_result p\<rparr>) ?xs) bm_empty = Inr m"
      "\<And>key. if key \<in> fst ` set ?xs then rel_option (restored_as ?b) (map_of ?xs key) (bm_get m key)
             else bm_get m key = None"
    by auto
  have rel: "rel_option (restored_as ?b) (bm_get (led_operations D) key) (bm_get m key)" for key
    using m(2) [of key] set_bm_keys [of key "led_operations D"]
    by (cases "bm_get (led_operations D) key") (auto simp: bm_keys_def simp flip: bm_get_map_of)
  have ops: "per_operations (persisted_state D) =
      map (\<lambda>(key, p). \<lparr>persisted_request = op_request p, persisted_result = op_result p\<rparr>) ?xs"
    by (simp add: persisted_state_def Let_def bm_values_def split_def)
  have fields: "per_instance_id (persisted_state D) = bind_instance_id ?b"
      "per_session_id (persisted_state D) = bind_session_id ?b" "per_lease_id (persisted_state D) = bind_lease_id ?b"
      "per_lease_epoch (persisted_state D) = bind_lease_epoch ?b" "per_boot_epoch (persisted_state D) = boot_epoch ?b"
      "per_observation (persisted_state D) = bind_observation ?b"
    by (simp_all add: persisted_state_def Let_def)
  have ids: "bind_instance_id (led_binding L) = bind_instance_id ?b" "bind_session_id (led_binding L) = bind_session_id ?b"
      "bind_lease_id (led_binding L) = bind_lease_id ?b" "bind_lease_epoch (led_binding L) = bind_lease_epoch ?b"
      "boot_epoch (led_binding L) = boot_epoch ?b" "(led_binding L)\<lparr>bind_observation := bind_observation ?b\<rparr> = ?b"
    by (subst L(3), simp add: boot_epoch_def)+
  have len: "length ?xs \<le> operation_capacity (led_config L)"
    using ledger_okD(3) [OF assms(1)] by (simp add: bm_size_def L)
  have obs: "\<not> is_err (observation_validate (bind_observation ?b))"
    using b by (simp add: binding_ok_def not_is_err_unit)
  have "restore_state E (persisted_state D) L =
      (Inr (), (set_observation (bind_observation ?b) L)\<lparr>led_operations := m\<rparr>)"
    using m(1) len obs by (simp add: restore_state_def Let_def fields ids ops del: map_map)
  then show thesis
    by (rule that) (use rel L ids(6) in \<open>simp_all add: restored_from_def\<close>)
qed

lemma restored_from_ok:
  assumes "restored_from D L'" and "ledger_ok E D"
  shows "ledger_ok E L'" and "dom (bm_get (led_operations L')) = dom (bm_get (led_operations D))"
proof -
  note rel = assms(1) [unfolded restored_from_def]
  show dom_eq: "dom (bm_get (led_operations L')) = dom (bm_get (led_operations D))"
  proof -
    have "bm_get (led_operations L') key = None \<longleftrightarrow> bm_get (led_operations D) key = None" for key
      using rel by (metis (mono_tags, lifting) option.rel_distinct(1) option.rel_distinct(2) option.exhaust)
    then show ?thesis by (auto simp: dom_def)
  qed
  have "operation_ok E (led_binding D) key p'" if p': "bm_get (led_operations L') key = Some p'" for key p'
  proof -
    obtain p where "bm_get (led_operations D) key = Some p" "restored_as (led_binding D) p p'"
      using rel p' by (metis (no_types, lifting) option_rel_Some2)
    with ledger_okD(2) [OF assms(2)] show ?thesis by (auto simp: restored_as_def operation_ok_def)
  qed
  with rel assms(2) dom_eq show "ledger_ok E L'"
    by (auto simp: ledger_ok_def bm_size_def bm.length_entries)
qed

section \<open>The ledger with its checkpoint store\<close>

text \<open>
  One rule per public operation that changes the ledger; a checkpoint closure is called with its
  own state \<open>k\<close>.
\<close>

inductive v2_step :: "('p, 'j) v2_env \<Rightarrow> 'k checkpoint \<Rightarrow> 'p v2_ledger \<times> 'k \<Rightarrow> 'p v2_ledger \<times> 'k \<Rightarrow> bool"
  for E checkpoint where
  submits: "submit_action_with_checkpoint E request checkpoint k L = (r, k', L') \<Longrightarrow> v2_step E checkpoint (L, k) (L', k')"
| submits_authorised: "submit_action_with_authority_and_checkpoint E auth request checkpoint k L = (r, k', L')
    \<Longrightarrow> v2_step E checkpoint (L, k) (L', k')"
| observes: "accept_state_response request response L = (r, L') \<Longrightarrow> v2_step E checkpoint (L, k) (L', k)"
| observes_authorised: "accept_state_response_with_authority auth request response L = (r, L')
    \<Longrightarrow> v2_step E checkpoint (L, k) (L', k)"
| cancels: "cancel_before_dispatch E request L = (r, L') \<Longrightarrow> v2_step E checkpoint (L, k) (L', k)"
| cancels_authorised: "cancel_before_dispatch_with_authority E auth request L = (r, L')
    \<Longrightarrow> v2_step E checkpoint (L, k) (L', k)"
| reconciles: "v2_reconcile E request L = (r, L') \<Longrightarrow> v2_step E checkpoint (L, k) (L', k)"
| reconciles_authorised: "reconcile_with_authority E auth request L = (r, L')
    \<Longrightarrow> v2_step E checkpoint (L, k) (L', k)"

inductive_cases v2_stepE: "v2_step E checkpoint s t"

text \<open>
  A restart: a new ledger with the same configuration, identity and contract, some valid first
  observation and no operations, which then restores what the store holds.
\<close>

definition rebooted :: "v2_observation \<Rightarrow> 'p v2_ledger \<Rightarrow> 'p v2_ledger" where
  "rebooted ob L = (set_observation ob L)\<lparr>led_operations := bm_empty\<rparr>"

inductive v2_durable_step :: "('p, 'j) v2_env \<Rightarrow> 'k checkpoint \<Rightarrow> ('k \<Rightarrow> v2_persisted_state option)
    \<Rightarrow> 'p v2_ledger \<times> 'k \<Rightarrow> 'p v2_ledger \<times> 'k \<Rightarrow> bool" for E checkpoint disk where
  operates: "v2_step E checkpoint s t \<Longrightarrow> v2_durable_step E checkpoint disk s t"
| restarts_empty: "disk k = None \<Longrightarrow> observation_ok ob \<Longrightarrow>
    v2_durable_step E checkpoint disk (L, k) (rebooted ob L, k)"
| restarts: "disk k = Some stored \<Longrightarrow> observation_ok ob \<Longrightarrow>
    restore_state E stored (rebooted ob L) = (r, L') \<Longrightarrow> v2_durable_step E checkpoint disk (L, k) (L', k)"

text \<open>
  What is expected of the store: a successful checkpoint is what the store holds next; a failed one
  left the old content or may have reached the disk all the same.
\<close>

definition durable :: "'k checkpoint \<Rightarrow> ('k \<Rightarrow> v2_persisted_state option) \<Rightarrow> bool" where
  "durable checkpoint disk \<longleftrightarrow> (\<forall>k s. case checkpoint k s of
     (Inr _, k') \<Rightarrow> disk k' = Some s
   | (Inl _, k') \<Rightarrow> disk k' = disk k \<or> disk k' = Some s)"

lemma durableD:
  assumes "durable checkpoint disk" and "checkpoint k s = (c, k')"
  shows "disk k' = Some s \<or> is_err c \<and> disk k' = disk k"
  using assms by (cases c) (auto simp: durable_def dest!: spec [of _ k] spec [of _ s])

text \<open>A port that also records the requests it was asked to forward.\<close>

definition recording :: "('p, 'j) v2_env \<Rightarrow> ('p \<times> v2_message list, 'j) v2_env" where
  "recording E = \<lparr>json_to_vec = json_to_vec E,
     forward_runtime_v2 = (\<lambda>(p, ms) m. case forward_runtime_v2 E p m of (a, p') \<Rightarrow> (a, (p', ms @ [m]))),
     read_runtime_v2_receipt = (\<lambda>(p, ms) q. case read_runtime_v2_receipt E p q of (a, p') \<Rightarrow> (a, (p', ms)))\<rparr>"

lemma recording_read_only: "read_only (recording E) p p' \<Longrightarrow> snd p' = snd p"
  by (cases p) (auto simp: read_only_def recording_def split_def)

lemma recording_forward: "forward_runtime_v2 (recording E) p m = (a, p') \<Longrightarrow> snd p' = snd p @ [m]"
  by (cases p) (auto simp: recording_def split: prod.splits)

definition forwarded :: "('p \<times> v2_message list) v2_ledger \<Rightarrow> v2_operation_key list" where
  "forwarded L = map (the \<circ> operation_key) (snd (led_forwarding L))"

definition stored_keys :: "v2_persisted_state option \<Rightarrow> v2_operation_key set" where
  "stored_keys stored = (case stored of None \<Rightarrow> {}
     | Some s \<Rightarrow> {key. \<exists>p \<in> set (per_operations s). operation_key (persisted_request p) = Some key})"

lemma stored_keys_persisted:
  assumes "ledger_ok E D"
  shows "stored_keys (Some (persisted_state D)) = dom (bm_get (led_operations D))"
proof -
  have "key \<in> stored_keys (Some (persisted_state D)) \<longleftrightarrow>
      (\<exists>key' p. bm_get (led_operations D) key' = Some p \<and> operation_key (op_request p) = Some key)" for key
    unfolding stored_keys_def persisted_state_def Let_def
    by (simp add: Bex_def [of "set (bm_values _)"] set_bm_values) blast
  moreover have "operation_key (op_request p) = Some key" if "bm_get (led_operations D) key = Some p" for key p
    using ledger_okD(2) [OF assms that] by (simp add: operation_ok_def)
  ultimately show ?thesis
    by (intro set_eqI iffI) (metis domI option.inject, metis domD)
qed

text \<open>The content of the store comes from some ledger of the same identity that met the invariant.\<close>

definition stored_ok :: "('p, 'j) v2_env \<Rightarrow> 'p v2_ledger \<Rightarrow> v2_persisted_state option \<Rightarrow> bool" where
  "stored_ok E L stored \<longleftrightarrow> (case stored of None \<Rightarrow> True
     | Some s \<Rightarrow> \<exists>D. ledger_ok E D \<and> same_identity D L \<and> s = persisted_state D)"

lemma stored_ok_identity: "stored_ok E L stored \<Longrightarrow> same_identity L' L \<Longrightarrow> stored_ok E L' stored"
  unfolding stored_ok_def
  by (auto split: option.splits) (metis same_identity_sym same_identity_trans)

lemma checkpoint_durable:
  assumes "durable checkpoint disk" and "checkpoint k (persisted_state X) = (c, k')"
    and "ledger_ok E X" and "same_identity X L" and "stored_ok E L (disk k)"
    and "dom (bm_get (led_operations L)) \<inter> stored_keys (disk k) \<subseteq> dom (bm_get (led_operations X))"
  shows "stored_ok E L (disk k')"
    and "dom (bm_get (led_operations L)) \<inter> stored_keys (disk k) \<subseteq> stored_keys (disk k')"
    and "is_err c \<or> stored_keys (disk k') = dom (bm_get (led_operations X))"
    and "stored_keys (disk k') \<in> {stored_keys (disk k), dom (bm_get (led_operations X))}"
  using durableD [OF assms(1,2)] assms(5,6)
  by (elim disjE conjE; simp add: stored_keys_persisted [OF assms(3)];
      use assms(3,4) in \<open>auto simp: stored_ok_def\<close>)+

lemma submit_durable:
  assumes "submit_action_inner (recording E) request checkpoint k L = (res, k', L')"
    and "ledger_ok (recording E) L" and "stored_ok (recording E) L (disk k)" and "durable checkpoint disk"
  shows "stored_ok (recording E) L (disk k')"
    and "dom (bm_get (led_operations L)) \<inter> stored_keys (disk k) \<subseteq> stored_keys (disk k')"
    and "forwarded L' = forwarded L \<or> (\<exists>key. forwarded L' = forwarded L @ [key]
      \<and> key \<notin> dom (bm_get (led_operations L)) \<and> key \<in> dom (bm_get (led_operations L'))
      \<and> key \<in> stored_keys (disk k'))"
proof -
  from assms(1,2) have "stored_ok (recording E) L (disk k')
    \<and> dom (bm_get (led_operations L)) \<inter> stored_keys (disk k) \<subseteq> stored_keys (disk k')
    \<and> (forwarded L' = forwarded L \<or> (\<exists>key. forwarded L' = forwarded L @ [key]
      \<and> key \<notin> dom (bm_get (led_operations L)) \<and> key \<in> dom (bm_get (led_operations L'))
      \<and> key \<in> stored_keys (disk k')))"
  proof (cases rule: submit_action_inner_cases)
    case unchanged
    with assms(3) show ?thesis by simp
  next
    case (decided key p c)
    let ?X = "with_operation key p L"
    have X: "ledger_ok (recording E) ?X" "same_identity ?X L"
      using ledger_ok_insert [OF assms(2) decided(3,2)] by (simp_all add: with_operation_def same_identity_def)
    have "dom (bm_get (led_operations L)) \<inter> stored_keys (disk k) \<subseteq> dom (bm_get (led_operations ?X))" by auto
    from checkpoint_durable(1,2) [OF assms(4) decided(5) X assms(3) this] decided(6) show ?thesis
      by (auto simp: forwarded_def)
  next
    case (dispatched key canonical digest r)
    let ?X = "with_operation key (pending digest canonical request None) L"
    obtain k1 answer p M s c where d:
        "checkpoint k (persisted_state ?X) = (Inr (), k1)"
        "forward_runtime_v2 (recording E) (led_forwarding L) request = (answer, p)"
        "M = L\<lparr>led_forwarding := p\<rparr> \<or> (\<exists>ob. observation_ok ob \<and> msg_generation request < obs_generation ob
            \<and> M = set_observation ob (L\<lparr>led_forwarding := p\<rparr>))"
        "result_ok (led_binding M) request s"
        "checkpoint k1 (persisted_state (with_operation key (pending digest canonical request (Some s)) M)) = (c, k')"
        "L' = with_operation key (pending digest canonical request (Some r)) M"
      using dispatched(8) unfolding dispatched_def by blast
    let ?Y = "with_operation key (pending digest canonical request (Some s)) M"
    have X: "ledger_ok (recording E) ?X" "same_identity ?X L"
      using ledger_ok_insert [OF assms(2) _ dispatched(2)] admitted_operation_ok [OF dispatched(3), of None] dispatched(4)
      by (simp_all add: with_operation_def same_identity_def)
    have M: "ledger_ok (recording E) M" "led_operations M = led_operations L" "led_config M = led_config L"
        "same_identity M L" "admit_action (recording E) M request = Inr (key, canonical, digest)"
      using d(3) assms(2) dispatched(3,4) ledger_ok_set_observation [of "recording E" "L\<lparr>led_forwarding := p\<rparr>"]
      by (auto simp: same_identity_def checks)
    have Y: "ledger_ok (recording E) ?Y"
      using ledger_ok_insert [OF M(1) admitted_operation_ok [OF M(5), of "Some s"]] d(4) dispatched(2) M(2,3)
      by (simp add: with_operation_def)
    have "same_identity ?Y M" by (simp add: same_identity_def)
    then have Y': "same_identity ?Y L" using M(4) by (rule same_identity_trans)
    have sub: "dom (bm_get (led_operations L)) \<inter> stored_keys (disk k) \<subseteq> dom (bm_get (led_operations ?X))"
      by auto
    note first = checkpoint_durable [OF assms(4) d(1) X assms(3) sub]
    then have k1: "stored_keys (disk k1) = insert key (dom (bm_get (led_operations L)))" by (auto simp: dom_def)
    have sub': "dom (bm_get (led_operations L)) \<inter> stored_keys (disk k1) \<subseteq> dom (bm_get (led_operations ?Y))"
      using M(2) by auto
    note second = checkpoint_durable [OF assms(4) d(5) Y Y' first(1) sub']
    have dom_Y: "dom (bm_get (led_operations ?Y)) = insert key (dom (bm_get (led_operations L)))"
      using M(2) by (auto simp: dom_def)
    have k': "stored_keys (disk k') = insert key (dom (bm_get (led_operations L)))"
      using second(4) k1 dom_Y by auto
    have "snd (led_forwarding M) = snd (led_forwarding L) @ [request]"
      using recording_forward [OF d(2)] d(3) by auto
    moreover have "operation_key request = Some key" using dispatched(3) by (simp add: checks)
    ultimately have "forwarded L' = forwarded L @ [key]" using d(6) by (simp add: forwarded_def)
    with second(1) k' dispatched(1) d(6) show ?thesis by (auto simp: domIff)
  qed
  then show "stored_ok (recording E) L (disk k')"
    and "dom (bm_get (led_operations L)) \<inter> stored_keys (disk k) \<subseteq> stored_keys (disk k')"
    and "forwarded L' = forwarded L \<or> (\<exists>key. forwarded L' = forwarded L @ [key]
      \<and> key \<notin> dom (bm_get (led_operations L)) \<and> key \<in> dom (bm_get (led_operations L'))
      \<and> key \<in> stored_keys (disk k'))"
    by blast+
qed

section \<open>Runs\<close>

lemma guarded_cases: "guarded c body s = (r, s') \<Longrightarrow> s' = s \<and> is_err r \<or> c = Inr () \<and> body s = (r, s')"
  by (cases c) (auto simp: guarded_def)

lemma v2_step_cases:
  assumes "v2_step E checkpoint (L, k) (L', k')"
  obtains (stays) "L' = L" "k' = k"
  | (submits) request res where "submit_action_inner E request checkpoint k L = (res, k', L')"
  | (observes) request response res where "accept_state_response_inner request response L = (res, L')" "k' = k"
  | (cancels) request res where "cancel_before_dispatch_inner E request L = (res, L')" "k' = k"
  | (reconciles) request res where "reconcile_inner E request L = (res, L')" "k' = k"
  using assms
  by cases (auto simp: submit_action_with_checkpoint_def submit_action_with_authority_and_checkpoint_def
      accept_state_response_def accept_state_response_with_authority_def cancel_before_dispatch_def
      cancel_before_dispatch_with_authority_def v2_reconcile_def reconcile_with_authority_def
      split: sum.splits dest!: guarded_cases)

lemma v2_step_advances:
  assumes "v2_step E checkpoint (L, k) (L', k')" and "ledger_ok E L"
  shows "advances E L L'"
  using assms(1)
proof (cases rule: v2_step_cases)
  case stays
  with assms(2) show ?thesis by (simp add: advances_refl)
qed (use assms(2) in \<open>auto dest: advances_submit advances_accept_state advances_cancel advances_reconcile\<close>)

interpretation v2_run: step_monotone "v2_step E checkpoint" "\<lambda>s. ledger_ok E (fst s)"
  "\<lambda>s. obs_generation (ledger_observation (fst s))" for E checkpoint
  by unfold_locales (auto dest!: v2_step_advances simp: advances_def)

text \<open>A retained result that is not open is final.\<close>

definition final_result :: "('p, 'j) v2_env \<Rightarrow> v2_operation_key \<Rightarrow> v2_operation \<Rightarrow> 'p v2_ledger \<Rightarrow> bool" where
  "final_result E key p L \<longleftrightarrow> ledger_ok E L \<and> bm_get (led_operations L) key = Some p
     \<and> \<not> open_result (op_result p)"

lemma final_result_advances:
  "v2_step E checkpoint (L, k) (L', k') \<Longrightarrow> final_result E key p L \<Longrightarrow> final_result E key p L'"
  using v2_step_advances [of E checkpoint L k L' k']
  unfolding final_result_def advances_def by (metis option.inject)

interpretation v2_final: step_invariant "v2_step E checkpoint" "\<lambda>s. final_result E key p (fst s)"
  for E checkpoint key p
  by unfold_locales (auto intro: final_result_advances)

section \<open>Evidence of settled results\<close>

text \<open>
  What a settled result has to show, against the observation of the ledger that retains it. Unlike
  the invariant of a run it also survives the restore of any state whatsoever.
\<close>

definition settled_evidence :: "v2_observation \<Rightarrow> v2_message \<Rightarrow> v2_message \<Rightarrow> bool" where
  "settled_evidence now request r \<longleftrightarrow> (msg_status r = Some Settled \<longrightarrow>
     (\<exists>ob. msg_observation r = Some ob \<and> msg_generation request < obs_generation ob
        \<and> obs_generation ob \<le> obs_generation now
        \<and> msg_effect_witness r = Some (turn_end_settled (obs_generation ob))))"

definition evidence_ok :: "'p v2_ledger \<Rightarrow> bool" where
  "evidence_ok L \<longleftrightarrow> binding_ok (led_binding L) \<and> bm_size (led_operations L) \<le> operation_capacity (led_config L)
     \<and> (\<forall>key q r. bm_get (led_operations L) key = Some q \<longrightarrow> op_result q = Some r \<longrightarrow>
          settled_evidence (ledger_observation L) (op_request q) r)"

lemma settled_evidence_checked:
  assumes "message_common_ok r" and "message_shape_ok r" and "msg_kind r = ActionResponse"
    and "msg_status r = Some Settled \<Longrightarrow> msg_generation request < msg_generation r"
    and "pred_option (\<lambda>ob. obs_generation ob \<le> obs_generation now) (msg_observation r)"
  shows "settled_evidence now request r"
  using assms
  by (auto simp: settled_evidence_def message_shape_ok_def result_fields_match_status_def message_common_ok_def
      observation_generation_matches_def split: option.splits)

lemma result_ok_evidence: "result_ok b request r \<Longrightarrow> settled_evidence (bind_observation b) request r"
  by (rule settled_evidence_checked) (auto simp: result_ok_def)

lemma settled_evidence_later:
  "settled_evidence ob request r \<Longrightarrow> obs_generation ob \<le> obs_generation now \<Longrightarrow> settled_evidence now request r"
  by (auto simp: settled_evidence_def)

lemma evidence_ok_set_observation:
  assumes "evidence_ok L" and "observation_ok ob" and "obs_generation (ledger_observation L) \<le> obs_generation ob"
  shows "evidence_ok (set_observation ob L)"
  using assms by (auto simp: evidence_ok_def binding_ok_def intro: settled_evidence_later)

lemma evidence_ok_forwarding [simp]: "evidence_ok (L\<lparr>led_forwarding := p\<rparr>) = evidence_ok L"
  by (simp add: evidence_ok_def)

lemma evidence_ok_with_operation:
  assumes "evidence_ok L" and "bm_size (led_operations L) < operation_capacity (led_config L)"
    and "\<And>r. op_result p = Some r \<Longrightarrow> settled_evidence (ledger_observation L) (op_request p) r"
  shows "evidence_ok (with_operation key p L)"
  using assms by (auto simp: evidence_ok_def with_operation_def bm_size_insert split: if_splits)

lemma evidence_ok_set_result:
  assumes "evidence_ok L"
    and "\<And>q. bm_get (led_operations L) key = Some q \<Longrightarrow> settled_evidence (ledger_observation L) (op_request q) r"
  shows "evidence_ok (set_result key r L)"
  using assms by (auto simp: evidence_ok_def split: if_splits)

lemma accept_receipt_evidence:
  assumes "accept_receipt original request receipt L = (Some r, L')"
  shows "raised L L'" and "settled_evidence (ledger_observation L') original r"
  using assms
  by (auto simp: accept_receipt_def Let_def raised_def settled_evidence_def is_some_and_iff checks
      message_common_ok_def message_shape_ok_def result_fields_match_status_def
      observation_generation_matches_def split: if_splits option.splits)

lemma accept_receipt_ignored: "accept_receipt original request receipt L = (None, L') \<Longrightarrow> L' = L"
  by (auto simp: accept_receipt_def Let_def split: if_splits)

lemma restart_uncertain_unknown: "restart_uncertain_response L request = Inr r \<Longrightarrow> msg_status r = Some Unknown"
  by (auto simp: restart_uncertain_response_def unknown_response_def result_response_def result_message_def
      message_base_def Let_def checks split: option.splits)

lemma restore_result_evidence:
  assumes "restore_result L ob request result = Inr r"
  shows "settled_evidence ob request r"
proof (cases "msg_status r = Some Settled")
  case True
  then have "result = Some r" and checked: "\<not> is_err (message_validate r)" "msg_kind r = ActionResponse"
      "\<not> is_some_and (\<lambda>o'. obs_generation ob < obs_generation o') (msg_observation r)"
      "msg_generation request < msg_generation r"
    using assms by (auto simp: restore_result_def dest: restart_uncertain_unknown split: option.splits if_splits)
  then show ?thesis
    by (intro settled_evidence_checked) (auto simp: not_is_err_unit checks is_some_and_iff pred_option_iff not_less)
qed (simp add: settled_evidence_def)

definition all_evidence :: "v2_observation \<Rightarrow> (v2_operation_key, v2_operation) bmap \<Rightarrow> bool" where
  "all_evidence ob m \<longleftrightarrow> (\<forall>key q r. bm_get m key = Some q \<longrightarrow> op_result q = Some r \<longrightarrow>
     settled_evidence ob (op_request q) r)"

lemma restore_operation_evidence:
  assumes "restore_operation E L ob p acc = Inr m" and "all_evidence ob acc"
  shows "all_evidence ob m \<and> bm_size m \<le> Suc (bm_size acc)"
proof -
  obtain key digest canonical r where "restore_result L ob (persisted_request p) (persisted_result p) = Inr r"
      and m: "m = bm_insert key \<lparr>op_request_digest = digest, op_canonical_request = canonical,
        op_request = persisted_request p, op_result = Some r\<rparr> acc"
    using assms(1) by (auto simp: restore_operation_def Let_def checks)
  with restore_result_evidence assms(2) show ?thesis
    by (auto simp: all_evidence_def bm_size_insert)
qed

lemma restore_loop_evidence:
  assumes "restore_loop E L ob ps acc = Inr m" and "all_evidence ob acc"
  shows "all_evidence ob m \<and> bm_size m \<le> bm_size acc + length ps"
  using assms
proof (induction ps arbitrary: acc)
  case (Cons p ps)
  then obtain m1 where "restore_operation E L ob p acc = Inr m1" "restore_loop E L ob ps m1 = Inr m"
    by (auto simp: checks)
  with restore_operation_evidence [of E L ob p acc m1] Cons.IH [of m1] Cons.prems(2) show ?case by auto
qed auto

lemma restore_state_evidence:
  assumes "restore_state E s L = (res, L')" and "evidence_ok L"
  shows "evidence_ok L' \<and> led_config L' = led_config L"
proof (cases res)
  case (Inr u)
  then obtain m where ob: "\<not> is_err (observation_validate (per_observation s))"
      "length (per_operations s) \<le> operation_capacity (led_config L)"
      and m: "restore_loop E L (per_observation s) (per_operations s) bm_empty = Inr m"
      and L': "L' = (set_observation (per_observation s) L)\<lparr>led_operations := m\<rparr>"
    using assms(1) by (auto simp: restore_state_def Let_def not_less split: if_splits sum.splits)
  have "all_evidence (per_observation s) m \<and> bm_size m \<le> length (per_operations s)"
    using restore_loop_evidence [OF m] by (simp add: all_evidence_def)
  with ob L' assms(2) show ?thesis
    by (auto simp: evidence_ok_def all_evidence_def binding_ok_def not_is_err_unit)
next
  case (Inl e)
  with assms show ?thesis by (auto simp: restore_state_def Let_def split: if_splits sum.splits)
qed

text \<open>
  A ledger under all its public operations: those of a run, and the restore of any persisted state,
  genuine or not.
\<close>

inductive v2_open_step :: "('p, 'j) v2_env \<Rightarrow> 'k checkpoint \<Rightarrow> 'p v2_ledger \<times> 'k \<Rightarrow> 'p v2_ledger \<times> 'k \<Rightarrow> bool"
  for E checkpoint where
  runs: "v2_step E checkpoint s t \<Longrightarrow> v2_open_step E checkpoint s t"
| restores: "restore_state E stored L = (r, L') \<Longrightarrow> v2_open_step E checkpoint (L, k) (L', k)"

lemma evidence_submit:
  assumes "submit_action_inner E request checkpoint k L = (res, k', L')" and "evidence_ok L"
  shows "evidence_ok L' \<and> led_config L' = led_config L"
proof -
  have "binding_ok (led_binding L)" using assms(2) by (simp add: evidence_ok_def)
  with assms(1) show ?thesis
  proof (cases rule: submit_action_inner_bound_cases)
    case (decided key p c)
    then have "settled_evidence (ledger_observation L) (op_request p) r" if "op_result p = Some r" for r
      using that by (auto simp: operation_ok_def dest: result_ok_evidence)
    with decided assms(2) show ?thesis by (auto intro: evidence_ok_with_operation)
  next
    case (dispatched key canonical digest r)
    then obtain p M where M: "M = L\<lparr>led_forwarding := p\<rparr> \<or> (\<exists>ob. observation_ok ob
          \<and> msg_generation request < obs_generation ob \<and> M = set_observation ob (L\<lparr>led_forwarding := p\<rparr>))"
      and L': "L' = with_operation key (pending digest canonical request (Some r)) M"
      and r: "result_ok (led_binding M) request r"
      by (auto simp: dispatched_def)
    have "evidence_ok M" "led_config M = led_config L" "led_operations M = led_operations L"
      using M assms(2) dispatched(4) evidence_ok_set_observation [of "L\<lparr>led_forwarding := p\<rparr>"] by auto
    with L' r dispatched(2) show ?thesis
      by (auto intro!: evidence_ok_with_operation dest: result_ok_evidence)
  qed (use assms(2) in simp)
qed

lemma evidence_observe:
  assumes "accept_state_response_inner request response L = (res, L')" and "evidence_ok L"
  shows "evidence_ok L' \<and> led_config L' = led_config L"
  using assms(1)
  by (cases rule: accept_state_response_cases) (use assms(2) in \<open>auto intro: evidence_ok_set_observation\<close>)

lemma evidence_cancel:
  assumes "cancel_before_dispatch_inner E request L = (res, L')" and "evidence_ok L"
  shows "evidence_ok L' \<and> led_config L' = led_config L"
proof -
  have "binding_ok (led_binding L)" using assms(2) by (simp add: evidence_ok_def)
  with assms(1) show ?thesis
  proof (cases rule: cancel_bound_cases)
    case (cancelled key p)
    then have "settled_evidence (ledger_observation L) (op_request p) r" if "op_result p = Some r" for r
      using that by (auto simp: operation_ok_def dest: result_ok_evidence)
    with cancelled assms(2) show ?thesis by (auto intro: evidence_ok_with_operation)
  qed (use assms(2) in simp)
qed

lemma evidence_reconcile:
  assumes "reconcile_inner E request L = (res, L')" and "evidence_ok L"
  shows "evidence_ok L' \<and> led_config L' = led_config L"
proof (cases "\<exists>key old result. bm_get (led_operations L) key = Some old
    \<and> reconcile_open E request key (op_request old) result L = (res, L')")
  case True
  then obtain key old result where old: "bm_get (led_operations L) key = Some old"
      "reconcile_open E request key (op_request old) result L = (res, L')"
    by blast
  show ?thesis
  proof (cases "L' = L \<or> (\<exists>p. L' = L\<lparr>led_forwarding := p\<rparr>)")
    case False
    then obtain p r receipt M where "accept_receipt (op_request old) request receipt (L\<lparr>led_forwarding := p\<rparr>) = (Some r, M)"
        and L': "L' = set_result key r M"
      using old(2)
      by (auto simp: reconcile_open_def Let_def dest!: accept_receipt_ignored
          split: option.splits sum.splits prod.splits)
    then have M: "raised (L\<lparr>led_forwarding := p\<rparr>) M" "settled_evidence (ledger_observation M) (op_request old) r"
      using accept_receipt_evidence by blast+
    then have "evidence_ok M" "led_config M = led_config L" "led_operations M = led_operations L"
      using assms(2) evidence_ok_set_observation [of "L\<lparr>led_forwarding := p\<rparr>"] by (auto simp: raised_def)
    with L' M(2) old(1) show ?thesis by (auto intro: evidence_ok_set_result)
  qed (use assms(2) in auto)
next
  case False
  then have "L' = L"
    using assms(1) by (auto simp: reconcile_inner_def split: sum.splits if_splits option.splits)
  with assms(2) show ?thesis by simp
qed

lemma v2_step_evidence:
  assumes "v2_step E checkpoint (L, k) (L', k')" and "evidence_ok L"
  shows "evidence_ok L' \<and> led_config L' = led_config L"
  using assms(1)
  by (cases rule: v2_step_cases)
    (use assms(2) in \<open>auto dest: evidence_submit evidence_observe evidence_cancel evidence_reconcile\<close>)

interpretation v2_open: step_invariant "v2_open_step E checkpoint"
  "\<lambda>s. evidence_ok (fst s) \<and> led_config (fst s) = config" for E checkpoint config
  by unfold_locales (auto elim!: v2_open_step.cases dest!: v2_step_evidence restore_state_evidence)

definition v2_system_ok :: "('p \<times> v2_message list, 'j) v2_env \<Rightarrow> 'k checkpoint \<Rightarrow> ('k \<Rightarrow> v2_persisted_state option)
    \<Rightarrow> ('p \<times> v2_message list) v2_ledger \<times> 'k \<Rightarrow> bool" where
  "v2_system_ok E checkpoint disk s \<longleftrightarrow> durable checkpoint disk \<and> ledger_ok E (fst s)
     \<and> stored_ok E (fst s) (disk (snd s))"

definition safe_keys :: "('k \<Rightarrow> v2_persisted_state option) \<Rightarrow> 'p v2_ledger \<times> 'k \<Rightarrow> v2_operation_key set" where
  "safe_keys disk s = dom (bm_get (led_operations (fst s))) \<inter> stored_keys (disk (snd s))"

lemma v2_step_durable:
  assumes "v2_step (recording E) checkpoint (L, k) (L', k')"
    and "v2_system_ok (recording E) checkpoint disk (L, k)"
  shows "v2_system_ok (recording E) checkpoint disk (L', k')"
    and "safe_keys disk (L, k) \<subseteq> safe_keys disk (L', k')"
    and "forwarded L' = forwarded L \<or> (\<exists>key. forwarded L' = forwarded L @ [key]
      \<and> key \<notin> safe_keys disk (L, k) \<and> key \<in> safe_keys disk (L', k'))"
proof -
  have ok: "ledger_ok (recording E) L" "stored_ok (recording E) L (disk k)" "durable checkpoint disk"
    using assms(2) by (auto simp: v2_system_ok_def)
  have adv: "advances (recording E) L L'" using assms(1) ok(1) by (rule v2_step_advances)
  then have grow: "dom (bm_get (led_operations L)) \<subseteq> dom (bm_get (led_operations L'))"
    by (fastforce simp: advances_def dom_def)
  have "stored_ok (recording E) L (disk k')
      \<and> dom (bm_get (led_operations L)) \<inter> stored_keys (disk k) \<subseteq> stored_keys (disk k')
      \<and> (forwarded L' = forwarded L \<or> (\<exists>key. forwarded L' = forwarded L @ [key]
        \<and> key \<notin> dom (bm_get (led_operations L)) \<and> key \<in> dom (bm_get (led_operations L'))
        \<and> key \<in> stored_keys (disk k')))"
    using assms(1)
  proof (cases rule: v2_step_cases)
    case (submits request res)
    with submit_durable [OF submits ok] show ?thesis by blast
  next
    case (observes request response res)
    with ok advances_accept_state [OF observes(1) ok(1)] show ?thesis by (simp add: forwarded_def)
  next
    case (cancels request res)
    with ok advances_cancel [OF cancels(1) ok(1)] show ?thesis by (simp add: forwarded_def)
  next
    case (reconciles request res)
    with ok recording_read_only [OF conjunct2 [OF advances_reconcile [OF reconciles(1) ok(1)]]] show ?thesis
      by (simp add: forwarded_def)
  qed (use ok in auto)
  then show "v2_system_ok (recording E) checkpoint disk (L', k')"
    and "safe_keys disk (L, k) \<subseteq> safe_keys disk (L', k')"
    and "forwarded L' = forwarded L \<or> (\<exists>key. forwarded L' = forwarded L @ [key]
      \<and> key \<notin> safe_keys disk (L, k) \<and> key \<in> safe_keys disk (L', k'))"
    using adv ok grow stored_ok_identity [OF _ advances_same_identity [OF adv]]
    by (auto simp: v2_system_ok_def safe_keys_def advances_def)
qed

lemma rebooted_ok:
  assumes "ledger_ok E L" and "observation_ok ob"
  shows "ledger_ok E (rebooted ob L)" and "same_identity (rebooted ob L) L"
    and "led_forwarding (rebooted ob L) = led_forwarding L"
  using assms by (auto simp: rebooted_def ledger_ok_def binding_ok_def same_identity_def)

lemma v2_restart_durable:
  assumes "v2_system_ok E checkpoint disk (L, k)" and "disk k = Some stored" and "observation_ok ob"
    and "restore_state E stored (rebooted ob L) = (r, L')"
  shows "r = Inr ()" and "v2_system_ok E checkpoint disk (L', k)"
    and "safe_keys disk (L, k) \<subseteq> safe_keys disk (L', k)" and "led_forwarding L' = led_forwarding L"
proof -
  obtain D where D: "ledger_ok E D" "same_identity D L" "stored = persisted_state D"
    using assms(1,2) by (auto simp: v2_system_ok_def stored_ok_def)
  note boot = rebooted_ok [OF _ assms(3), of E L]
  have "same_identity (rebooted ob L) D"
    using boot(2) D(2) assms(1) by (auto simp: v2_system_ok_def intro: same_identity_trans same_identity_sym)
  then obtain M where M: "restore_state E stored (rebooted ob L) = (Inr (), M)" "restored_from D M"
      "led_forwarding M = led_forwarding (rebooted ob L)"
    using restore_persisted [OF D(1)] D(3) by metis
  then have eq: "L' = M" "r = Inr ()" using assms(4) by auto
  note M_ok = restored_from_ok [OF M(2) D(1)]
  have "same_identity M D" using M(2) by (simp add: restored_from_def same_identity_def)
  then have "same_identity L' L" using D(2) eq by (auto intro: same_identity_trans)
  with M_ok eq assms(1) show "v2_system_ok E checkpoint disk (L', k)"
    by (auto simp: v2_system_ok_def intro: stored_ok_identity)
  show "safe_keys disk (L, k) \<subseteq> safe_keys disk (L', k)"
    using M_ok(2) stored_keys_persisted [OF D(1)] eq assms(2) D(3) by (auto simp: safe_keys_def)
  show "r = Inr ()" and "led_forwarding L' = led_forwarding L"
    using eq M(3) by (simp_all add: rebooted_def)
qed

lemma v2_durable_step_ok:
  assumes "v2_durable_step (recording E) checkpoint disk s t" and "v2_system_ok (recording E) checkpoint disk s"
  shows "v2_system_ok (recording E) checkpoint disk t \<and> safe_keys disk s \<subseteq> safe_keys disk t
    \<and> (forwarded (fst t) = forwarded (fst s) \<or> (\<exists>key. forwarded (fst t) = forwarded (fst s) @ [key]
         \<and> key \<notin> safe_keys disk s \<and> key \<in> safe_keys disk t))"
  using assms(1)
proof cases
  case operates
  with v2_step_durable [of E checkpoint "fst s" "snd s" "fst t" "snd t" disk] assms(2) show ?thesis by simp
next
  case (restarts_empty k ob L)
  with assms(2) rebooted_ok [of "recording E" L ob] show ?thesis
    by (auto simp: v2_system_ok_def safe_keys_def stored_keys_def stored_ok_def forwarded_def)
next
  case (restarts k stored ob L r L')
  with v2_restart_durable [of "recording E" checkpoint disk L k stored ob r L'] assms(2) show ?thesis
    by (auto simp: forwarded_def)
qed

interpretation v2_dispatch: at_most_once "v2_durable_step (recording E) checkpoint disk"
  "v2_system_ok (recording E) checkpoint disk" "\<lambda>s. forwarded (fst s)" "safe_keys disk"
  for E checkpoint disk
  by unfold_locales (auto dest: v2_durable_step_ok)

end
