(* ===== verification/Runtime_V2_Properties.thy ===== *)
theory Runtime_V2_Properties
  imports Runtime_V2_Recovery
begin

text \<open>
  The properties of the Runtime-v2 ledger, and a small concrete deployment (a host that settles
  every action, a store that never fails) at which their hypotheses hold.
\<close>

section \<open>A concrete deployment\<close>

definition demo_json :: "unit json_encoder" where
  "demo_json m = Inr [ucast (msg_generation m), of_nat (length (concat (case msg_operation_id m of None \<Rightarrow> [] | Some s \<Rightarrow> [s])))]"

definition demo_settled :: "v2_message \<Rightarrow> v2_message" where
  "demo_settled m = m\<lparr>msg_kind := ActionResponse, msg_status := Some Settled, msg_generation := msg_generation m + 1,
     msg_observation := Some \<lparr>obs_combat_phase = EnemyTurn, obs_turn_index = 1, obs_host_ready = True,
       obs_generation = msg_generation m + 1\<rparr>,
     msg_effect_witness := Some (turn_end_settled (msg_generation m + 1))\<rparr>"

definition demo_env :: "(unit, unit) v2_env" where
  "demo_env = \<lparr>json_to_vec = demo_json, forward_runtime_v2 = (\<lambda>p m. (Inr (demo_settled m), p)),
     read_runtime_v2_receipt = (\<lambda>p q. (Inr None, p))\<rparr>"

definition demo_observation :: v2_observation where
  "demo_observation = \<lparr>obs_combat_phase = PlayerTurn, obs_turn_index = 1, obs_host_ready = True, obs_generation = 5\<rparr>"

definition demo_binding :: v2_binding where
  "demo_binding = \<lparr>bind_metadata = v2_metadata_new, bind_instance_id = ''i'', bind_session_id = ''s'',
     bind_lease_id = ''l'', bind_lease_epoch = 1, bind_authority = None, bind_observation = demo_observation\<rparr>"

definition demo_ledger :: "(unit \<times> v2_message list) v2_ledger" where
  "demo_ledger = \<lparr>led_config = \<lparr>operation_capacity = 2\<rparr>, led_binding = demo_binding, led_recovery = None,
     led_forwarding = ((), []), led_operations = bm_empty\<rparr>"

definition demo_checkpoint :: "v2_persisted_state option checkpoint" where
  "demo_checkpoint k s = (Inr (), Some s)"

definition demo_request :: "string \<Rightarrow> u64 \<Rightarrow> v2_message" where
  "demo_request correlation gen = action_request v2_metadata_new correlation ''i'' ''s'' ''l'' 1 gen ''op'' end_turn"

lemmas demo_v2_defs = demo_json_def demo_env_def demo_observation_def demo_binding_def demo_ledger_def
  demo_checkpoint_def demo_request_def recording_def

lemma demo_binding_new: "binding_new ''i'' ''s'' ''l'' 1 demo_observation = Inr demo_binding"
  by (simp add: binding_new_def binding_with_metadata_def checks demo_v2_defs byte_class_defs
      RUNTIME_V2_MAX_GENERATION_def observation_ok_def)

lemma demo_ledger_new: "ledger_new \<lparr>operation_capacity = 2\<rparr> demo_binding ((), []) = Inr demo_ledger"
  by (simp add: ledger_new_def ledger_new_inner_def demo_ledger_def)

lemma binding_new_ok: "binding_new i s l e ob = Inr b \<Longrightarrow> binding_ok b"
  by (auto simp: binding_new_def binding_with_metadata_def binding_ok_def checks)

lemma ledger_new_ok:
  assumes "ledger_new config binding p = Inr L" and "binding_ok binding"
  shows "ledger_ok E L" and "led_operations L = bm_empty" and "led_forwarding L = p"
  using assms by (auto simp: ledger_new_def ledger_new_inner_def ledger_ok_def split: if_splits)

lemma demo_ledger_ok: "ledger_ok E demo_ledger"
  by (rule ledger_new_ok(1) [OF demo_ledger_new binding_new_ok [OF demo_binding_new]])

lemma demo_request_admitted:
  assumes "gen \<le> 100" and "ident_string 128 c"
  shows "admit_action (recording demo_env) demo_ledger (demo_request c gen) =
    Inr (OperationKey ''i'' ''s'' ''l'' 1 ''op'', [ucast gen, 2], fnv1a [ucast gen, 2])"
proof -
  have gen: "gen \<le> 9007199254740991" using assms(1) by (rule order_trans) simp
  show ?thesis
    using assms gen
    by (simp add: admit_action_Inr request_ok_def message_common_ok_def message_shape_ok_def binding_fence_failure_def
        operation_key_def idempotency_canonical_json_def demo_v2_defs action_request_def message_base_def
        v2_metadata_new_def RUNTIME_V2_MAX_GENERATION_def byte_class_defs)
qed

definition demo_key :: v2_operation_key where
  "demo_key = OperationKey ''i'' ''s'' ''l'' 1 ''op''"

definition demo_operation :: v2_operation where
  "demo_operation = \<lparr>op_request_digest = fnv1a [5, 2], op_canonical_request = [5, 2],
     op_request = demo_request ''c1'' 5, op_result = Some (demo_settled (demo_request ''c1'' 5))\<rparr>"

definition demo_dispatched :: "(unit \<times> v2_message list) v2_ledger" where
  "demo_dispatched = demo_ledger\<lparr>
     led_binding := demo_binding\<lparr>bind_observation := \<lparr>obs_combat_phase = EnemyTurn, obs_turn_index = 1,
       obs_host_ready = True, obs_generation = 6\<rparr>\<rparr>,
     led_forwarding := ((), [demo_request ''c1'' 5]),
     led_operations := bm_insert demo_key demo_operation bm_empty\<rparr>"

lemma demo_settled_ok:
  "message_common_ok (demo_settled (demo_request ''c1'' 5)) \<and> message_shape_ok (demo_settled (demo_request ''c1'' 5))
   \<and> response_matches_request (demo_request ''c1'' 5) (demo_settled (demo_request ''c1'' 5))"
  by (simp add: message_common_ok_def message_shape_ok_def demo_settled_def demo_request_def action_request_def
      message_base_def v2_metadata_new_def RUNTIME_V2_MAX_GENERATION_def byte_class_defs observation_ok_def
      turn_end_settled_def result_fields_match_status_def observation_generation_matches_def
      response_matches_request_def)

lemma demo_submit:
  "submit_action_with_checkpoint (recording demo_env) (demo_request ''c1'' 5) demo_checkpoint None demo_ledger =
     (Inr (demo_settled (demo_request ''c1'' 5)), Some (persisted_state demo_dispatched), demo_dispatched)"
proof -
  have kind: "msg_kind (demo_settled m) = ActionResponse" "msg_status (demo_settled m) = Some Settled"
      "msg_generation (demo_settled m) = msg_generation m + 1" "msg_generation (demo_request c gen) = gen"
      "msg_effect_witness (demo_settled m) = Some (turn_end_settled (msg_generation m + 1))"
      "msg_observation (demo_settled m) = Some \<lparr>obs_combat_phase = EnemyTurn, obs_turn_index = 1,
         obs_host_ready = True, obs_generation = msg_generation m + 1\<rparr>" for m c gen
    by (simp_all add: demo_settled_def demo_request_def action_request_def message_base_def)
  have "ident_string 128 ''c1''" "(5 :: u64) \<le> 100" by (simp_all add: byte_class_defs)
  note adm = demo_request_admitted [OF this(2,1)]
  have local: "local_refusal demo_observation (demo_request ''c1'' 5) = None"
    by (simp add: local_refusal_None kind demo_observation_def)
  have "submit_action_inner (recording demo_env) (demo_request ''c1'' 5) demo_checkpoint None demo_ledger =
     (Inr (demo_settled (demo_request ''c1'' 5)), Some (persisted_state demo_dispatched), demo_dispatched)"
    unfolding submit_action_inner_new [OF adm] using demo_settled_ok local
    by (simp add: dispatch_action_def accept_forwarded_response_def Let_def
        kind is_some_and_def turn_end_settled_def demo_ledger_def demo_binding_def demo_checkpoint_def
        demo_dispatched_def recording_def demo_env_def set_result_def set_observation_def demo_key_def demo_operation_def)
  then show ?thesis
    by (simp add: submit_action_with_checkpoint_def reject_implicit_workflow_authority_def demo_ledger_def)
qed

lemma demo_dispatched_ok: "ledger_ok (recording demo_env) demo_dispatched"
proof -
  have "v2_step (recording demo_env) demo_checkpoint (demo_ledger, None)
      (demo_dispatched, Some (persisted_state demo_dispatched))"
    by (rule v2_step.submits [OF demo_submit])
  from v2_step_advances [OF this demo_ledger_ok] show ?thesis by (simp add: advances_def)
qed

section \<open>At most one dispatch\<close>

text \<open>
  C13. Every operation key is forwarded at most once, whatever the forwarding port answers and
  however submissions, cancellations, reconciliations, state responses and gateway restarts are
  interleaved, if the checkpoint store keeps what it acknowledged. Failed checkpoints, which may or
  may not have reached the disk, are included; so are restarts right after a dispatch.
\<close>

theorem runtime_v2_at_most_once:
  assumes "binding_ok b" and "ledger_new_inner config b recovery (p, []) = Inr L0"
    and "durable checkpoint disk" and "disk k0 = None"
    and "(v2_durable_step (recording E) checkpoint disk)\<^sup>*\<^sup>* (L0, k0) (L, k)"
  shows "distinct (map operation_key (snd (led_forwarding L)))"
proof -
  have L0: "ledger_ok (recording E) L0" "led_forwarding L0 = (p, [])" "led_operations L0 = bm_empty"
    using assms(1,2) by (auto simp: ledger_new_inner_def ledger_ok_def split: if_splits)
  have start: "v2_system_ok (recording E) checkpoint disk (L0, k0)"
    using L0 assms(3,4) by (simp add: v2_system_ok_def stored_ok_def)
  have "distinct (forwarded (fst (L, k)))"
    using v2_dispatch.run_distinct [OF assms(5) start] L0(2) by (simp add: forwarded_def)
  then show ?thesis by (simp add: forwarded_def distinct_map inj_on_def)
qed

theorem runtime_v2_at_most_once_witness:
  "distinct (map operation_key (snd (led_forwarding demo_dispatched)))
   \<and> snd (led_forwarding demo_dispatched) = [demo_request ''c1'' 5]"
proof -
  have "(v2_durable_step (recording demo_env) demo_checkpoint (\<lambda>k. k))\<^sup>*\<^sup>* (demo_ledger, None)
      (demo_dispatched, Some (persisted_state demo_dispatched))"
    by (rule r_into_rtranclp, rule v2_durable_step.operates, rule v2_step.submits [OF demo_submit])
  moreover have "durable demo_checkpoint (\<lambda>k. k)" by (simp add: durable_def demo_checkpoint_def)
  moreover have "ledger_new_inner \<lparr>operation_capacity = 2\<rparr> demo_binding None ((), []) = Inr demo_ledger"
    using demo_ledger_new by (simp add: ledger_new_def)
  ultimately show ?thesis
    using runtime_v2_at_most_once [OF binding_new_ok [OF demo_binding_new]] by (simp add: demo_dispatched_def)
qed

section \<open>Exactly when a request is forwarded\<close>

definition may_dispatch :: "('p, 'j) v2_env \<Rightarrow> 'k checkpoint \<Rightarrow> 'k \<Rightarrow> 'p v2_ledger \<Rightarrow> v2_message \<Rightarrow> bool" where
  "may_dispatch E checkpoint k L request \<longleftrightarrow>
     (\<exists>key canonical. message_validate request = Inr () \<and> msg_kind request = ActionRequest
      \<and> binding_fence_failure (led_binding L) request = None \<and> operation_key request = Some key
      \<and> idempotency_canonical_json (json_to_vec E) request = Inr canonical
      \<and> bm_get (led_operations L) key = None
      \<and> bm_size (led_operations L) < operation_capacity (led_config L)
      \<and> msg_generation request = obs_generation (ledger_observation L)
      \<and> obs_host_ready (ledger_observation L) \<and> obs_combat_phase (ledger_observation L) = PlayerTurn
      \<and> \<not> is_err (fst (checkpoint k (persisted_state (L\<lparr>led_operations := bm_insert key
            \<lparr>op_request_digest = fnv1a canonical, op_canonical_request = canonical, op_request = request,
             op_result = None\<rparr> (led_operations L)\<rparr>)))))"

lemma may_dispatch_iff:
  assumes "admit_action E L request = Inr (key, canonical, digest)"
  shows "may_dispatch E checkpoint k L request \<longleftrightarrow> bm_get (led_operations L) key = None
    \<and> bm_size (led_operations L) < operation_capacity (led_config L)
    \<and> local_refusal (ledger_observation L) request = None
    \<and> \<not> is_err (fst (checkpoint k (persisted_state (with_operation key (pending digest canonical request None) L))))"
  using assms
  by (auto simp: may_dispatch_def checks request_ok_def local_refusal_None with_operation_def pending_def)

lemma may_dispatch_admitted:
  assumes "may_dispatch E checkpoint k L request"
  obtains key canonical digest where "admit_action E L request = Inr (key, canonical, digest)"
  using assms by (auto simp: may_dispatch_def checks request_ok_def)

lemma dispatched_log:
  assumes "dispatched (recording E) checkpoint key canonical digest request k L r k' L'"
  shows "snd (led_forwarding L') = snd (led_forwarding L) @ [request]
    \<and> bm_get (led_operations L') key = Some (pending digest canonical request (Some r))"
  using assms unfolding dispatched_def by (auto dest: recording_forward)

lemma submit_refused:
  assumes "submit_action_inner E request checkpoint k L = (res, k', L')" and "ledger_ok E L"
    and "\<not> may_dispatch E checkpoint k L request"
  shows "led_forwarding L' = led_forwarding L"
  using assms(1,2)
proof (cases rule: submit_action_inner_cases)
  case (dispatched key canonical digest r)
  then have "may_dispatch E checkpoint k L request"
    by (auto simp: may_dispatch_iff local_refusal_None dispatched_def)
  with assms(3) show ?thesis by simp
qed auto

lemma submit_dispatches:
  assumes "submit_action_inner E request checkpoint k L = (res, k', L')" and "ledger_ok E L"
    and "may_dispatch E checkpoint k L request"
  obtains key canonical digest r where "admit_action E L request = Inr (key, canonical, digest)" "res = Inr r"
    "dispatched E checkpoint key canonical digest request k L r k' L'"
proof -
  obtain key canonical digest where adm: "admit_action E L request = Inr (key, canonical, digest)"
    using assms(3) by (rule may_dispatch_admitted)
  have fresh: "bm_get (led_operations L) key = None"
      "\<not> operation_capacity (led_config L) \<le> bm_size (led_operations L)"
      "local_refusal (ledger_observation L) request = None"
      "\<not> is_err (fst (checkpoint k (persisted_state (with_operation key (pending digest canonical request None) L))))"
    using assms(3) adm by (auto simp: may_dispatch_iff)
  then have "dispatch_action E key canonical digest request checkpoint k L = (res, k', L')"
    using assms(1) by (simp add: submit_action_inner_new [OF adm])
  from this adm ledger_okD(1) [OF assms(2)] fresh(1) conjunct1 [OF fresh(3) [unfolded local_refusal_None]]
  show thesis
  proof (cases rule: dispatch_action_cases)
    case unstored
    with fresh(4) show thesis by simp
  next
    case (dispatched r)
    with adm show thesis by (rule that)
  qed
qed

text \<open>
  C14. A submission forwards its request exactly when the request is a valid action request for this
  ledger's identity, its key is new and fits the capacity, the observed state is the player's turn on
  a ready host at the generation the request names, and the in-flight record was stored first. It
  then forwards exactly that request, once, returns a result, and retains that very result: once the
  request is out there is no error return. In all other cases nothing is forwarded.
\<close>

theorem runtime_v2_dispatch_exact:
  assumes "ledger_ok (recording E) L"
    and "submit_action_inner (recording E) request checkpoint k L = (res, k', L')"
  shows "snd (led_forwarding L') = snd (led_forwarding L) @
      (if may_dispatch (recording E) checkpoint k L request then [request] else [])
    \<and> (may_dispatch (recording E) checkpoint k L request \<longrightarrow>
        (\<exists>key p r. operation_key request = Some key \<and> bm_get (led_operations L') key = Some p
          \<and> op_request p = request \<and> op_result p = Some r \<and> res = Inr r))"
proof (cases "may_dispatch (recording E) checkpoint k L request")
  case True
  with assms(2,1) obtain key canonical digest r where "admit_action (recording E) L request = Inr (key, canonical, digest)"
      "res = Inr r" "dispatched (recording E) checkpoint key canonical digest request k L r k' L'"
    by (rule submit_dispatches)
  with True dispatched_log show ?thesis by (fastforce simp: checks)
next
  case False
  with submit_refused [OF assms(2,1)] show ?thesis by simp
qed

theorem runtime_v2_dispatch_exact_witness:
  "case submit_action_inner (recording demo_env) (demo_request ''c1'' 5) demo_checkpoint None demo_ledger of
     (res, k', L') \<Rightarrow> snd (led_forwarding L') = [demo_request ''c1'' 5] \<and> \<not> is_err res"
proof -
  have id: "ident_string 128 ''c1''" "(5 :: u64) \<le> 100" by (simp_all add: byte_class_defs)
  have "may_dispatch (recording demo_env) demo_checkpoint None demo_ledger (demo_request ''c1'' 5)"
    unfolding may_dispatch_iff [OF demo_request_admitted [OF id(2,1)]]
    by (simp add: local_refusal_None demo_v2_defs action_request_def message_base_def)
  then show ?thesis
    using runtime_v2_dispatch_exact [OF demo_ledger_ok, of demo_env "demo_request ''c1'' 5" demo_checkpoint None]
    by (auto simp: demo_ledger_def split: prod.splits)
qed

section \<open>Replies\<close>

lemma operation_key_matches:
  "response_matches_request m r \<Longrightarrow> operation_key r = operation_key m"
  by (simp add: response_matches_request_def operation_key_def)

lemma same_key_matches:
  assumes "request_ok b m" and "request_ok b m'" and "operation_key m = Some key" and "operation_key m' = Some key"
    and "response_matches_request m r"
  shows "response_matches_request m' (r\<lparr>msg_correlation_id := msg_correlation_id m'\<rparr>)"
proof -
  have "msg_action m = msg_action m'"
    using assms(1,2) by (auto elim!: request_ok_fields)
  moreover have "msg_protocol_version m = msg_protocol_version m'" "msg_schema_digest m = msg_schema_digest m'"
      "msg_provenance m = msg_provenance m'"
    using assms(1,2) by (simp_all add: request_ok_def message_common_ok_def)
  moreover have "msg_instance_id m = msg_instance_id m'" "msg_session_id m = msg_session_id m'"
      "msg_lease_id m = msg_lease_id m'" "msg_lease_epoch m = msg_lease_epoch m'"
      "msg_operation_id m = msg_operation_id m'"
    using assms(3,4) by (auto simp: operation_key_def)
  ultimately show ?thesis using assms(5) by (simp add: response_matches_request_def)
qed

lemma operation_key_updates [simp]:
  "operation_key (m\<lparr>msg_kind := kind\<rparr>) = operation_key m"
  "operation_key (m\<lparr>msg_correlation_id := c\<rparr>) = operation_key m"
  by (simp_all add: operation_key_def)

definition reply_ok :: "v2_message \<Rightarrow> v2_message \<Rightarrow> bool" where
  "reply_ok request r \<longleftrightarrow> message_validate r = Inr () \<and> response_matches_request request r
     \<and> msg_kind r = ActionResponse"

lemma result_ok_reply: "result_ok b request r \<Longrightarrow> reply_ok request r"
  by (simp add: result_ok_def reply_ok_def checks)

lemma replay_or_conflict_reply:
  assumes "ledger_ok E L" and "admit_action E L request = Inr (key, canonical, digest)"
    and "bm_get (led_operations L) key = Some p" and "replay_or_conflict L p request digest canonical = Inr r"
  shows "reply_ok request r"
proof (cases "op_request_digest p = digest \<and> op_canonical_request p = canonical")
  case True
  then obtain x where x: "op_result p = Some x" "r = x\<lparr>msg_correlation_id := msg_correlation_id request\<rparr>"
    using assms(4) by (auto simp: replay_or_conflict_def checks)
  have p: "operation_ok E (led_binding L) key p" using assms(1,3) by (rule ledger_okD)
  have req: "request_ok (led_binding L) request" "operation_key request = Some key"
    using assms(2) by (simp_all add: checks)
  from p x(1) have "result_ok (led_binding L) (op_request p) x" "request_ok (led_binding L) (op_request p)"
      "operation_key (op_request p) = Some key"
    by (auto simp: operation_ok_def)
  with same_key_matches [OF this(2) req(1) this(3) req(2)] req(1) x(2) show ?thesis
    by (auto simp: reply_ok_def result_ok_def checks request_ok_def message_common_ok_def)
next
  case False
  with assms(4) result_response_ok [OF ledger_okD(1) [OF assms(1)], of request "''idempotency_conflict''" Rejected] assms(2)
  show ?thesis by (auto simp: replay_or_conflict_def checks dest: result_ok_reply)
qed

lemma submit_reply:
  assumes "submit_action_inner E request checkpoint k L = (Inr r, k', L')" and "ledger_ok E L"
  shows "reply_ok request r"
proof (cases "admit_action E L request")
  case (Inl e)
  with assms(1) show ?thesis by (simp add: submit_action_inner_def)
next
  case (Inr t)
  then obtain key canonical digest where adm: "admit_action E L request = Inr (key, canonical, digest)"
    by (cases t) auto
  note run = assms(1) [unfolded submit_action_inner_new [OF adm]]
  show ?thesis
  proof (cases "bm_get (led_operations L) key")
    case (Some p)
    with run replay_or_conflict_reply [OF assms(2) adm Some] show ?thesis by auto
  next
    case None
    show ?thesis
    proof (cases "local_refusal (ledger_observation L) request")
      case (Some err)
      with run None have "reject_locally key canonical digest request err checkpoint k L = (Inr r, k', L')"
        by (simp split: if_splits)
      from this adm ledger_okD(1) [OF assms(2)] None local_refusal_code [OF Some] show ?thesis
        by (cases rule: reject_locally_cases) (auto dest: result_ok_reply split: if_splits)
    next
      case None': None
      with run None have "dispatch_action E key canonical digest request checkpoint k L = (Inr r, k', L')"
        by (simp split: if_splits)
      from this adm ledger_okD(1) [OF assms(2)] None conjunct1 [OF None' [unfolded local_refusal_None]]
      show ?thesis
        by (cases rule: dispatch_action_cases) (auto simp: dispatched_def dest: result_ok_reply)
    qed
  qed
qed

lemma cancel_reply:
  assumes "cancel_before_dispatch_inner E request L = (Inr r, L')" and "ledger_ok E L"
  shows "reply_ok request r"
proof (cases "admit_action E L request")
  case (Inl e)
  with assms(1) show ?thesis by (simp add: cancel_before_dispatch_inner_def)
next
  case (Inr t)
  then obtain key canonical digest where adm: "admit_action E L request = Inr (key, canonical, digest)"
    by (cases t) auto
  note run = assms(1) [unfolded cancel_before_dispatch_inner_def adm sum.case prod.case]
  show ?thesis
  proof (cases "bm_get (led_operations L) key")
    case (Some p)
    with run replay_or_conflict_reply [OF assms(2) adm Some] show ?thesis by auto
  next
    case None
    with run result_response_ok [OF ledger_okD(1) [OF assms(2)], of request
        "''sts2.runtime/cancelled_before_dispatch''" Cancelled] adm
    show ?thesis by (auto simp: checks dest: result_ok_reply split: if_splits)
  qed
qed

lemma reconcile_reply:
  assumes "reconcile_inner E request L = (Inr r, L')" and "ledger_ok E L"
  shows "message_validate r = Inr () \<and> msg_kind r = ReconcileResponse
    \<and> msg_correlation_id r = msg_correlation_id request \<and> operation_key r = operation_key request"
proof -
  have answer: ?thesis if "result_ok b (op_request p) x" "operation_ok E (led_binding L) key p"
      "operation_key request = Some key" "message_common_ok request" "r = as_reconcile_response x request" for b x p key
  proof -
    have "operation_key x = Some key"
      using that(1-3) operation_key_matches [of "op_request p" x] by (simp add: result_ok_def operation_ok_def)
    then have "operation_key r = operation_key request" using that(3,5)
      by (simp add: as_reconcile_response_def)
    with that(1,4,5) show ?thesis
      by (auto simp: result_ok_def as_reconcile_response_def checks message_shape_ok_response_kind message_common_ok_def)
  qed
  obtain key p x where key: "operation_key request = Some key" "message_common_ok request"
      "bm_get (led_operations L) key = Some p" "op_result p = Some x"
      "r = as_reconcile_response x request \<or> msg_status x \<in> {Some Accepted, Some Unknown}
        \<and> reconcile_open E request key (op_request p) x L = (Inr r, L')"
    using assms(1) by (auto simp: reconcile_inner_def checks split: sum.splits if_splits option.splits)
  have p: "operation_ok E (led_binding L) key p" using assms(2) key(3) by (rule ledger_okD)
  then have x: "result_ok (led_binding L) (op_request p) x" "request_ok (led_binding L) (op_request p)"
    using key(4) by (auto simp: operation_ok_def)
  show ?thesis
  proof (cases "r = as_reconcile_response x request")
    case True
    then show ?thesis by (rule answer [OF x(1) p key(1,2)])
  next
    case False
    with key(5) have run: "reconcile_open E request key (op_request p) x L = (Inr r, L')"
      and "msg_status x \<in> {Some Accepted, Some Unknown}" by auto
    then have "msg_generation (op_request p) \<le> obs_generation (ledger_observation L)"
      using x(1) by (auto simp: result_ok_def message_shape_ok_def result_fields_match_status_def
          observation_generation_matches_def split: option.splits)
    with run x(2) show ?thesis
    proof (cases rule: reconcile_open_cases)
      case (unchanged q)
      with False show ?thesis by simp
    next
      case (settled q M y)
      with answer [OF settled(3) p key(1,2)] show ?thesis by simp
    qed
  qed
qed

text \<open>
  C15. Every reply the ledger gives is a valid message for the request it answers: a submission or
  cancellation is answered by a well-formed action response with the request's identity, operation,
  action and correlation, also when the operation is replayed, conflicting or refused; a
  reconciliation is answered by a well-formed reconcile response with the correlation and operation
  asked for.
\<close>

theorem runtime_v2_replies_valid:
  assumes "ledger_ok E L"
  shows "(submit_action_inner E request checkpoint k L = (Inr r, k', L1) \<longrightarrow>
       message_validate r = Inr () \<and> response_matches_request request r \<and> msg_kind r = ActionResponse)
    \<and> (cancel_before_dispatch_inner E request L = (Inr r, L2) \<longrightarrow>
       message_validate r = Inr () \<and> response_matches_request request r \<and> msg_kind r = ActionResponse)
    \<and> (reconcile_inner E request L = (Inr r, L3) \<longrightarrow>
       message_validate r = Inr () \<and> msg_kind r = ReconcileResponse
       \<and> msg_correlation_id r = msg_correlation_id request \<and> operation_key r = operation_key request)"
proof (intro conjI [of "_ \<longrightarrow> _"] impI)
  show "message_validate r = Inr () \<and> response_matches_request request r \<and> msg_kind r = ActionResponse"
    if "submit_action_inner E request checkpoint k L = (Inr r, k', L1)"
    using submit_reply [OF that assms] by (simp add: reply_ok_def)
  show "message_validate r = Inr () \<and> response_matches_request request r \<and> msg_kind r = ActionResponse"
    if "cancel_before_dispatch_inner E request L = (Inr r, L2)"
    using cancel_reply [OF that assms] by (simp add: reply_ok_def)
  show "message_validate r = Inr () \<and> msg_kind r = ReconcileResponse
       \<and> msg_correlation_id r = msg_correlation_id request \<and> operation_key r = operation_key request"
    if "reconcile_inner E request L = (Inr r, L3)"
    using that assms by (rule reconcile_reply)
qed

theorem runtime_v2_replies_valid_witness:
  "message_validate (demo_settled (demo_request ''c1'' 5)) = Inr ()"
proof -
  have "submit_action_inner (recording demo_env) (demo_request ''c1'' 5) demo_checkpoint None demo_ledger =
     (Inr (demo_settled (demo_request ''c1'' 5)), Some (persisted_state demo_dispatched), demo_dispatched)"
    using demo_submit
    by (simp add: submit_action_with_checkpoint_def reject_implicit_workflow_authority_def demo_ledger_def)
  from mp [OF conjunct1 [OF runtime_v2_replies_valid [OF demo_ledger_ok]] this] show ?thesis by blast
qed

text \<open>
  A key that is already retained with a result is never dispatched again: the same request
  under any correlation gets the retained result, with its own correlation; a request whose
  canonical bytes differ gets the rejection \<open>idempotency_conflict\<close>. Neither touches the ledger, the
  port or the store.
\<close>

theorem runtime_v2_replay_or_conflict:
  assumes "ledger_ok E L" and "message_validate request = Inr ()" and "msg_kind request = ActionRequest"
    and "binding_fence_failure (led_binding L) request = None" and "operation_key request = Some key"
    and "idempotency_canonical_json (json_to_vec E) request = Inr canonical"
    and "bm_get (led_operations L) key = Some p" and "op_result p = Some r"
  shows "(\<forall>c. request = (op_request p)\<lparr>msg_correlation_id := c\<rparr> \<longrightarrow>
       submit_action_inner E request checkpoint k L = (Inr (r\<lparr>msg_correlation_id := c\<rparr>), k, L))
    \<and> (canonical \<noteq> op_canonical_request p \<longrightarrow>
       (\<exists>m. submit_action_inner E request checkpoint k L = (Inr m, k, L) \<and> msg_status m = Some Rejected
          \<and> msg_error_code m = Some ''idempotency_conflict''))"
proof -
  have ok: "request_ok (led_binding L) request" using assms(2-4) by (simp add: request_ok_def checks)
  then have adm: "admit_action E L request = Inr (key, canonical, fnv1a canonical)"
    using assms(5,6) by (simp add: checks)
  have p: "operation_ok E (led_binding L) key p" using assms(1,7) by (rule ledger_okD)
  obtain m where m: "result_response L request Rejected (Some (ledger_observation L))
      (Some ''idempotency_conflict'') None ActionResponse = Inr m" "msg_status m = Some Rejected"
      "msg_error_code m = Some ''idempotency_conflict''"
    using result_response_ok [OF ledger_okD(1) [OF assms(1)] ok, of "''idempotency_conflict''" Rejected] by auto
  have "canonical = op_canonical_request p" if "request = (op_request p)\<lparr>msg_correlation_id := c\<rparr>" for c
    using that p assms(6) by (simp add: operation_ok_def idempotency_canonical_json_def)
  then show ?thesis
    using p m assms(7,8) unfolding submit_action_inner_new [OF adm]
    by (auto simp: replay_or_conflict_def operation_ok_def)
qed

theorem runtime_v2_replay_or_conflict_witness:
  "submit_action_inner (recording demo_env) (demo_request ''c2'' 5) demo_checkpoint None demo_dispatched =
     (Inr ((demo_settled (demo_request ''c1'' 5))\<lparr>msg_correlation_id := ''c2''\<rparr>), None, demo_dispatched)"
proof -
  have "message_validate (demo_request ''c2'' 5) = Inr ()" "msg_kind (demo_request ''c2'' 5) = ActionRequest"
      "binding_fence_failure (led_binding demo_dispatched) (demo_request ''c2'' 5) = None"
      "operation_key (demo_request ''c2'' 5) = Some demo_key"
      "idempotency_canonical_json (json_to_vec (recording demo_env)) (demo_request ''c2'' 5) = Inr [5, 2]"
    by (simp_all add: checks message_common_ok_def message_shape_ok_def demo_v2_defs action_request_def message_base_def
        v2_metadata_new_def RUNTIME_V2_MAX_GENERATION_def byte_class_defs demo_dispatched_def binding_fence_failure_def
        operation_key_def demo_key_def idempotency_canonical_json_def)
  moreover have "demo_request ''c2'' 5 = (op_request demo_operation)\<lparr>msg_correlation_id := ''c2''\<rparr>"
    by (simp add: demo_operation_def demo_request_def action_request_def message_base_def)
  ultimately show ?thesis
    using runtime_v2_replay_or_conflict [OF demo_dispatched_ok, of "demo_request ''c2'' 5" demo_key "[5, 2]"
        demo_operation "demo_settled (demo_request ''c1'' 5)" demo_checkpoint None]
    by (simp add: demo_dispatched_def demo_operation_def)
qed

section \<open>Recovery\<close>



section \<open>Runs of one ledger\<close>

text \<open>
  C18. While a ledger runs, its observed generation never goes back, and an operation that is
  settled, rejected or cancelled keeps its request and its result, byte for byte, through every
  further operation, whatever the port and the store answer.
\<close>

theorem runtime_v2_results_final:
  assumes "ledger_ok E L" and "(v2_step E checkpoint)\<^sup>*\<^sup>* (L, k) (L', k')"
  shows "obs_generation (ledger_observation L) \<le> obs_generation (ledger_observation L')
    \<and> (\<forall>key p r. bm_get (led_operations L) key = Some p \<longrightarrow> op_result p = Some r \<longrightarrow>
         msg_status r \<in> {Some Settled, Some Rejected, Some Cancelled} \<longrightarrow> bm_get (led_operations L') key = Some p)"
proof -
  have "bm_get (led_operations L') key = Some p"
    if "bm_get (led_operations L) key = Some p" "op_result p = Some r"
      "msg_status r \<in> {Some Settled, Some Rejected, Some Cancelled}" for key p r
    using v2_final.run_keeps [OF assms(2), of key p] that assms(1) by (auto simp: final_result_def open_result_def)
  moreover have "obs_generation (ledger_observation L) \<le> obs_generation (ledger_observation L')"
    using v2_run.run_level [OF assms(2)] assms(1) by simp
  ultimately show ?thesis by blast
qed

theorem runtime_v2_results_final_witness:
  "case submit_action_with_checkpoint (recording demo_env) (demo_request ''c2'' 6) demo_checkpoint None demo_dispatched of
     (res, k', L') \<Rightarrow> bm_get (led_operations L') demo_key = Some demo_operation"
proof -
  obtain res k' L' where run: "submit_action_with_checkpoint (recording demo_env) (demo_request ''c2'' 6)
      demo_checkpoint None demo_dispatched = (res, k', L')"
    by (cases "submit_action_with_checkpoint (recording demo_env) (demo_request ''c2'' 6)
      demo_checkpoint None demo_dispatched") auto
  have "(v2_step (recording demo_env) demo_checkpoint)\<^sup>*\<^sup>* (demo_dispatched, None) (L', k')"
    by (rule r_into_rtranclp, rule v2_step.submits [OF run])
  from runtime_v2_results_final [OF demo_dispatched_ok this] run show ?thesis
    by (auto simp: demo_dispatched_def demo_operation_def demo_settled_def)
qed

text \<open>
  C19. A result is settled only on evidence: in every state that a ledger created with a validated
  binding reaches by any of its public operations, the restore of an arbitrary persisted state (genuine, stale or forged) included, a
  settled result carries an observation whose generation is later than the generation the request
  was admitted at, not later than what the ledger observed, and the \<open>turn_end_settled\<close> witness for
  exactly that generation. The number of retained operations stays within the capacity.
\<close>

theorem runtime_v2_settled_evidence:
  assumes "binding_ok b" and "ledger_new_inner config b recovery p = Inr L0"
    and "(v2_open_step E checkpoint)\<^sup>*\<^sup>* (L0, k0) (L, k)"
  shows "bm_size (led_operations L) \<le> operation_capacity config
    \<and> (\<forall>key q r. bm_get (led_operations L) key = Some q \<longrightarrow> op_result q = Some r \<longrightarrow> msg_status r = Some Settled \<longrightarrow>
         (\<exists>ob. msg_observation r = Some ob \<and> msg_generation (op_request q) < obs_generation ob
            \<and> obs_generation ob \<le> obs_generation (ledger_observation L)
            \<and> msg_effect_witness r = Some (turn_end_settled (obs_generation ob))))"
proof -
  have "evidence_ok L0 \<and> led_config L0 = config"
    using assms(1,2) by (auto simp: ledger_new_inner_def evidence_ok_def split: if_splits)
  then have "evidence_ok L \<and> led_config L = config"
    using v2_open.run_keeps [OF assms(3), of config] by simp
  then show ?thesis by (auto simp: evidence_ok_def settled_evidence_def)
qed

theorem runtime_v2_settled_evidence_witness:
  "\<exists>ob. msg_observation (demo_settled (demo_request ''c1'' 5)) = Some ob \<and> 5 < obs_generation ob"
proof -
  have "(v2_open_step (recording demo_env) demo_checkpoint)\<^sup>*\<^sup>* (demo_ledger, None)
      (demo_dispatched, Some (persisted_state demo_dispatched))"
    by (rule r_into_rtranclp, rule v2_open_step.runs [OF v2_step.submits [OF demo_submit]])
  moreover have "ledger_new_inner \<lparr>operation_capacity = 2\<rparr> demo_binding None ((), []) = Inr demo_ledger"
    using demo_ledger_new by (simp add: ledger_new_def)
  moreover have "bm_get (led_operations demo_dispatched) demo_key = Some demo_operation"
      "op_result demo_operation = Some (demo_settled (demo_request ''c1'' 5))"
      "msg_status (demo_settled (demo_request ''c1'' 5)) = Some Settled"
      "msg_generation (op_request demo_operation) = 5"
    by (simp_all add: demo_dispatched_def demo_operation_def demo_settled_def demo_request_def action_request_def
        message_base_def)
  ultimately show ?thesis
    using runtime_v2_settled_evidence [OF binding_new_ok [OF demo_binding_new]] by metis
qed

section \<open>Workflow authority\<close>




end
