(* ===== verification/Seeded_Run_Contract.thy ===== *)
theory Seeded_Run_Contract
  imports Gateway_Prelude
begin

text \<open>
  The seeded-run wire contract: \<open>seeded_run/types.rs\<close>, \<open>context.rs\<close>, \<open>message.rs\<close> and
  \<open>validation.rs\<close>. Strings are their UTF-8 bytes. Serialisation of a context to JSON and SHA-256
  (the \<open>serde_json\<close> and \<open>sha2\<close> crates) are the fields of the record \<open>sr_codec\<close>.
\<close>

section \<open>Constants and data\<close>

definition SEEDED_RUN_PROTOCOL_VERSION :: string where
  "SEEDED_RUN_PROTOCOL_VERSION = ''seeded-run-v1''"

definition SEEDED_RUN_ARTIFACT :: string where
  "SEEDED_RUN_ARTIFACT = ''sts2-protocol/seeded-run-v1''"

definition SEEDED_RUN_SCHEMA_SOURCE :: string where
  "SEEDED_RUN_SCHEMA_SOURCE = ''schemas/seeded-run-v1.schema.json''"

definition SEEDED_RUN_GENERATOR :: string where
  "SEEDED_RUN_GENERATOR = ''hand-authored''"

definition SEEDED_RUN_SCHEMA_DIGEST :: string where
  "SEEDED_RUN_SCHEMA_DIGEST = ''5c659f344be78f84e8d783986925d462714f933cac95d18943358992f7d3e2b8''"

definition SEEDED_RUN_MAX_SEED_BYTES :: nat where "SEEDED_RUN_MAX_SEED_BYTES = 64"

definition SEEDED_RUN_MAX_IDENTITY_BYTES :: nat where "SEEDED_RUN_MAX_IDENTITY_BYTES = 128"

definition SEEDED_RUN_MAX_CONTEXT_ID_BYTES :: nat where "SEEDED_RUN_MAX_CONTEXT_ID_BYTES = 128"

definition SEEDED_RUN_MAX_CONTEXT_TEXT_BYTES :: nat where "SEEDED_RUN_MAX_CONTEXT_TEXT_BYTES = 128"

definition SEEDED_RUN_MAX_MODIFIERS :: nat where "SEEDED_RUN_MAX_MODIFIERS = 32"

definition SEEDED_RUN_MAX_ACTS :: nat where "SEEDED_RUN_MAX_ACTS = 8"

definition SEEDED_RUN_MAX_GENERATION :: u64 where "SEEDED_RUN_MAX_GENERATION = 9007199254740991"

definition SEEDED_RUN_EFFECT_KIND :: string where "SEEDED_RUN_EFFECT_KIND = ''run_started''"

datatype sr_mode = SeededTraining | SeededReplay | Diagnostic

datatype sr_message_kind = StartRequest | StartResponse | ReconcileRequest | ReconcileResponse

datatype sr_status = Accepted | Settled | Rejected | Unknown | Cancelled

datatype sr_game_mode = Standard

datatype sr_character = Ironclad

datatype sr_profile_kind = Fresh | Existing

datatype sr_save_policy = Disabled | Enabled

datatype sr_validation_error =
    Metadata
  | Provenance
  | InvalidIdentity
  | InvalidSeed
  | SeedBounds
  | ContextDigest
  | InvalidContext
  | ContextBounds
  | ContextOrdering
  | InvalidCompatibility
  | ContextDigestMismatch
  | ContextSerialization
  | ContextRequired
  | GenerationBounds
  | EffectWitness
  | RequestShape
  | ResponseShape
  | SettlementEvidence

record sr_identity_digest =
  idd_identity :: string
  idd_digest :: string

record sr_profile_baseline =
  base_kind :: sr_profile_kind
  base_identity :: string
  base_digest :: string

record sr_compatibility =
  compat_game :: sr_identity_digest
  compat_mod :: sr_identity_digest

text \<open>
  The native selection: the fields that are hashed (\<open>SeededRunContextDigestInput\<close>), extended by the
  digest itself.
\<close>

record sr_digest_input =
  ctx_context_id :: string
  ctx_game_mode :: sr_game_mode
  ctx_character :: sr_character
  ctx_ascension :: u8
  ctx_modifiers :: "string list"
  ctx_acts :: "string list"
  ctx_selection_policy :: string
  ctx_profile_baseline :: sr_profile_baseline
  ctx_save_policy :: sr_save_policy
  ctx_compatibility :: sr_compatibility

record sr_selection_context = sr_digest_input +
  ctx_context_digest :: string

record sr_observation =
  sob_run_started :: bool
  sob_host_ready :: bool
  sob_generation :: u64
  sob_canonical_seed :: string
  sob_selected_context_digest :: "string option"
  sob_phase_before :: string
  sob_phase_after :: string
  sob_compatibility_identity :: string

record sr_effect_witness =
  wit_kind :: string
  wit_generation :: u64
  wit_canonical_seed :: string

record sr_context =
  cx_correlation_id :: string
  cx_instance_id :: string
  cx_session_id :: string
  cx_lease_id :: string
  cx_lease_epoch :: u64
  cx_generation :: u64

record sr_provenance =
  sprov_artifact :: string
  sprov_source :: string
  sprov_generator :: string

record sr_message =
  sm_protocol_version :: string
  sm_schema_digest :: string
  sm_provenance :: sr_provenance
  sm_correlation_id :: string
  sm_instance_id :: string
  sm_session_id :: string
  sm_lease_id :: string
  sm_lease_epoch :: u64
  sm_generation :: u64
  sm_kind :: sr_message_kind
  sm_operation_id :: string
  sm_requested_seed :: "string option"
  sm_run_mode :: "sr_mode option"
  sm_selected_context :: "sr_selection_context option"
  sm_context_digest :: "string option"
  sm_status :: "sr_status option"
  sm_canonical_seed :: "string option"
  sm_observation :: "sr_observation option"
  sm_effect_witness :: "sr_effect_witness option"
  sm_error_code :: "string option"

record 'j sr_codec =
  message_to_vec :: "sr_message \<Rightarrow> 'j + u8 list"
  digest_input_to_vec :: "sr_digest_input \<Rightarrow> 'j + u8 list"
  sha256_digest :: "u8 list \<Rightarrow> u8 list"

section \<open>Validation of text, contexts and evidence\<close>

definition sr_validate_identity :: "string \<Rightarrow> sr_validation_error + unit" where
  "sr_validate_identity s = ensure (ident_string SEEDED_RUN_MAX_IDENTITY_BYTES s) InvalidIdentity"

text \<open>
  \<open>chars().any(char::is_control)\<close> on UTF-8 bytes: U+0000 to U+001F and U+007F are single bytes,
  U+0080 to U+009F are the byte C2 followed by 80 to 9F.
\<close>

fun has_control :: "string \<Rightarrow> bool" where
  "has_control [] = False"
| "has_control (c # cs) \<longleftrightarrow> (of_char c :: nat) < 32 \<or> (of_char c :: nat) = 127
     \<or> (of_char c :: nat) = 194 \<and> (case cs of [] \<Rightarrow> False
          | d # _ \<Rightarrow> 128 \<le> (of_char d :: nat) \<and> (of_char d :: nat) \<le> 159)
     \<or> has_control cs"

definition validate_seed :: "string \<Rightarrow> sr_validation_error + unit" where
  "validate_seed s =
     and_then (ensure (s \<noteq> []) InvalidSeed) (\<lambda>_.
     and_then (ensure (\<not> SEEDED_RUN_MAX_SEED_BYTES < length s) SeedBounds) (\<lambda>_.
     ensure (\<not> has_control s) InvalidSeed))"

definition sr_is_digest :: "string \<Rightarrow> bool" where
  "sr_is_digest s = sha256_text s"

definition is_context_digest :: "string \<Rightarrow> bool" where
  "is_context_digest s = sha256_text s"

definition validate_context_text :: "string \<Rightarrow> nat \<Rightarrow> sr_validation_error \<Rightarrow> sr_validation_error + unit" where
  "validate_context_text s maximum err =
     ensure (\<not> (s = [] \<or> maximum < length s \<or> has_control s \<or> \<not> list_all ident_byte s)) err"

definition identity_digest_validate :: "sr_identity_digest \<Rightarrow> sr_validation_error \<Rightarrow> sr_validation_error + unit" where
  "identity_digest_validate d err =
     and_then (validate_context_text (idd_identity d) SEEDED_RUN_MAX_CONTEXT_ID_BYTES err) (\<lambda>_.
     ensure (is_context_digest (idd_digest d)) ContextDigest)"

definition profile_baseline_validate :: "sr_profile_baseline \<Rightarrow> sr_validation_error + unit" where
  "profile_baseline_validate p =
     and_then (validate_context_text (base_identity p) SEEDED_RUN_MAX_CONTEXT_ID_BYTES InvalidContext) (\<lambda>_.
     ensure (is_context_digest (base_digest p)) ContextDigest)"

text \<open>\<open>windows(2).any(|pair| pair[0] >= pair[1])\<close>, and an act that occurs earlier in the list.\<close>

fun unordered_pair :: "string list \<Rightarrow> bool" where
  "unordered_pair (a # b # rest) \<longleftrightarrow> b \<le> a \<or> unordered_pair (b # rest)"
| "unordered_pair _ = False"

definition repeated_act :: "string list \<Rightarrow> bool" where
  "repeated_act acts = list_ex (\<lambda>i. acts ! i \<in> set (take i acts)) [0..<length acts]"

text \<open>\<open>write!(output, "{byte:02x}")\<close> for every byte of the digest.\<close>

definition hex_digit :: "nat \<Rightarrow> char" where
  "hex_digit n = (if n < 10 then char_of (48 + n) else char_of (87 + n))"

definition sha256_hex :: "'j sr_codec \<Rightarrow> u8 list \<Rightarrow> string" where
  "sha256_hex C bytes = concat (map (\<lambda>byte. [hex_digit (unat byte div 16), hex_digit (unat byte mod 16)])
     (sha256_digest C bytes))"

definition canonical_digest :: "'j sr_codec \<Rightarrow> sr_selection_context \<Rightarrow> sr_validation_error + string" where
  "canonical_digest C ctx =
     and_then (map_err (\<lambda>_. ContextSerialization) (digest_input_to_vec C (sr_digest_input.truncate ctx)))
       (\<lambda>bytes. Inr (sha256_hex C bytes))"

definition selection_context_validate :: "'j sr_codec \<Rightarrow> sr_selection_context \<Rightarrow> sr_validation_error + unit" where
  "selection_context_validate C ctx =
     and_then (validate_context_text (ctx_context_id ctx) SEEDED_RUN_MAX_CONTEXT_ID_BYTES InvalidContext) (\<lambda>_.
     and_then (ensure (\<not> 20 < ctx_ascension ctx) ContextBounds) (\<lambda>_.
     and_then (ensure (\<not> (SEEDED_RUN_MAX_MODIFIERS < length (ctx_modifiers ctx) \<or> ctx_acts ctx = []
       \<or> SEEDED_RUN_MAX_ACTS < length (ctx_acts ctx))) ContextBounds) (\<lambda>_.
     and_then (check_each (\<lambda>s. validate_context_text s SEEDED_RUN_MAX_CONTEXT_TEXT_BYTES InvalidContext)
       (ctx_modifiers ctx)) (\<lambda>_.
     and_then (check_each (\<lambda>s. validate_context_text s SEEDED_RUN_MAX_CONTEXT_TEXT_BYTES InvalidContext)
       (ctx_acts ctx)) (\<lambda>_.
     and_then (ensure (\<not> (unordered_pair (ctx_modifiers ctx) \<or> repeated_act (ctx_acts ctx))) ContextOrdering) (\<lambda>_.
     and_then (validate_context_text (ctx_selection_policy ctx) SEEDED_RUN_MAX_CONTEXT_TEXT_BYTES InvalidContext) (\<lambda>_.
     and_then (profile_baseline_validate (ctx_profile_baseline ctx)) (\<lambda>_.
     and_then (identity_digest_validate (compat_game (ctx_compatibility ctx)) InvalidCompatibility) (\<lambda>_.
     and_then (identity_digest_validate (compat_mod (ctx_compatibility ctx)) InvalidCompatibility) (\<lambda>_.
     and_then (ensure (is_context_digest (ctx_context_digest ctx)) ContextDigest) (\<lambda>_.
     and_then (canonical_digest C ctx) (\<lambda>digest.
     ensure (digest = ctx_context_digest ctx) ContextDigestMismatch))))))))))))"

definition sr_provenance_default :: sr_provenance where
  "sr_provenance_default = \<lparr>sprov_artifact = SEEDED_RUN_ARTIFACT, sprov_source = SEEDED_RUN_SCHEMA_SOURCE,
     sprov_generator = SEEDED_RUN_GENERATOR\<rparr>"

definition sr_provenance_validate :: "sr_provenance \<Rightarrow> sr_validation_error + unit" where
  "sr_provenance_validate p = ensure (\<not> (sprov_artifact p \<noteq> SEEDED_RUN_ARTIFACT
     \<or> sprov_source p \<noteq> SEEDED_RUN_SCHEMA_SOURCE \<or> sprov_generator p \<noteq> SEEDED_RUN_GENERATOR)) Provenance"

definition sr_observation_validate :: "sr_observation \<Rightarrow> sr_validation_error + unit" where
  "sr_observation_validate ob =
     and_then (ensure (\<not> SEEDED_RUN_MAX_GENERATION < sob_generation ob) GenerationBounds) (\<lambda>_.
     and_then (validate_seed (sob_canonical_seed ob)) (\<lambda>_.
     and_then (check_option (\<lambda>d. ensure (sr_is_digest d) ContextDigest) (sob_selected_context_digest ob)) (\<lambda>_.
     and_then (sr_validate_identity (sob_phase_before ob)) (\<lambda>_.
     and_then (sr_validate_identity (sob_phase_after ob)) (\<lambda>_.
     sr_validate_identity (sob_compatibility_identity ob))))))"

definition sr_effect_witness_validate :: "sr_effect_witness \<Rightarrow> sr_validation_error + unit" where
  "sr_effect_witness_validate w =
     and_then (ensure (wit_kind w = SEEDED_RUN_EFFECT_KIND) EffectWitness) (\<lambda>_.
     and_then (ensure (\<not> SEEDED_RUN_MAX_GENERATION < wit_generation w) GenerationBounds) (\<lambda>_.
     validate_seed (wit_canonical_seed w)))"

section \<open>Messages\<close>

definition sr_base :: "sr_provenance \<Rightarrow> sr_context \<Rightarrow> sr_message_kind \<Rightarrow> string \<Rightarrow> string option
    \<Rightarrow> sr_mode option \<Rightarrow> string option \<Rightarrow> sr_message" where
  "sr_base md cx kind oid seed mode digest = \<lparr>
     sm_protocol_version = SEEDED_RUN_PROTOCOL_VERSION, sm_schema_digest = SEEDED_RUN_SCHEMA_DIGEST,
     sm_provenance = md, sm_correlation_id = cx_correlation_id cx, sm_instance_id = cx_instance_id cx,
     sm_session_id = cx_session_id cx, sm_lease_id = cx_lease_id cx, sm_lease_epoch = cx_lease_epoch cx,
     sm_generation = cx_generation cx, sm_kind = kind, sm_operation_id = oid, sm_requested_seed = seed,
     sm_run_mode = mode, sm_selected_context = None, sm_context_digest = digest, sm_status = None,
     sm_canonical_seed = None, sm_observation = None, sm_effect_witness = None, sm_error_code = None\<rparr>"

definition start_request :: "sr_provenance \<Rightarrow> sr_context \<Rightarrow> string \<Rightarrow> string \<Rightarrow> sr_mode \<Rightarrow> string option \<Rightarrow> sr_message" where
  "start_request md cx oid seed mode digest = sr_base md cx StartRequest oid (Some seed) (Some mode) digest"

definition start_request_with_context :: "sr_provenance \<Rightarrow> sr_context \<Rightarrow> string \<Rightarrow> string \<Rightarrow> sr_mode
    \<Rightarrow> sr_selection_context \<Rightarrow> sr_message" where
  "start_request_with_context md cx oid seed mode ctx =
     (start_request md cx oid seed mode (Some (ctx_context_digest ctx)))\<lparr>sm_selected_context := Some ctx\<rparr>"

definition sr_reconcile_request :: "sr_provenance \<Rightarrow> sr_context \<Rightarrow> string \<Rightarrow> sr_message" where
  "sr_reconcile_request md cx oid = sr_base md cx ReconcileRequest oid None None None"

definition sr_result :: "sr_provenance \<Rightarrow> sr_context \<Rightarrow> sr_message_kind \<Rightarrow> string \<Rightarrow> string \<Rightarrow> sr_mode
    \<Rightarrow> string option \<Rightarrow> sr_status \<Rightarrow> string option \<Rightarrow> sr_observation option \<Rightarrow> sr_effect_witness option
    \<Rightarrow> string option \<Rightarrow> sr_message" where
  "sr_result md cx kind oid seed mode digest st canonical ob wit err =
     (sr_base md cx kind oid (Some seed) (Some mode) digest)
       \<lparr>sm_status := Some st, sm_canonical_seed := canonical, sm_observation := ob,
        sm_effect_witness := wit, sm_error_code := err\<rparr>"

definition result_with_context :: "sr_provenance \<Rightarrow> sr_context \<Rightarrow> sr_message_kind \<Rightarrow> string \<Rightarrow> string \<Rightarrow> sr_mode
    \<Rightarrow> sr_selection_context \<Rightarrow> sr_status \<Rightarrow> string option \<Rightarrow> sr_observation option \<Rightarrow> sr_effect_witness option
    \<Rightarrow> string option \<Rightarrow> sr_message" where
  "result_with_context md cx kind oid seed mode ctx st canonical ob wit err =
     (sr_result md cx kind oid seed mode (Some (ctx_context_digest ctx)) st canonical ob wit err)
       \<lparr>sm_selected_context := Some ctx\<rparr>"

definition validate_start_request :: "sr_message \<Rightarrow> sr_validation_error + unit" where
  "validate_start_request m =
     and_then (ensure (sm_selected_context m \<noteq> None) ContextRequired) (\<lambda>_.
     ensure (sm_requested_seed m \<noteq> None \<and> sm_run_mode m \<noteq> None \<and> sm_status m = None
       \<and> sm_canonical_seed m = None \<and> sm_observation m = None \<and> sm_effect_witness m = None
       \<and> sm_error_code m = None) RequestShape)"

definition sr_validate_reconcile_request :: "sr_message \<Rightarrow> sr_validation_error + unit" where
  "sr_validate_reconcile_request m =
     ensure (sm_requested_seed m = None \<and> sm_run_mode m = None \<and> sm_selected_context m = None
       \<and> sm_context_digest m = None \<and> sm_status m = None \<and> sm_canonical_seed m = None
       \<and> sm_observation m = None \<and> sm_effect_witness m = None \<and> sm_error_code m = None) RequestShape"

definition observation_context_matches :: "sr_message \<Rightarrow> sr_observation \<Rightarrow> bool" where
  "observation_context_matches m ob = (case sm_selected_context m of
     Some ctx \<Rightarrow> sob_selected_context_digest ob = Some (ctx_context_digest ctx)
   | None \<Rightarrow> sob_selected_context_digest ob = None)"

definition no_evidence :: "sr_message \<Rightarrow> bool" where
  "no_evidence m \<longleftrightarrow> sm_canonical_seed m = None \<and> sm_observation m = None \<and> sm_effect_witness m = None"

definition sr_validate_result :: "sr_message \<Rightarrow> sr_validation_error + unit" where
  "sr_validate_result m =
     and_then (ensure (sm_kind m \<in> {StartResponse, ReconcileResponse}) ResponseShape) (\<lambda>_.
     and_then (ensure (\<not> (sm_requested_seed m = None \<or> sm_run_mode m = None \<or> sm_status m = None)) ResponseShape) (\<lambda>_.
     and_then (ensure (sm_selected_context m \<noteq> None) ContextRequired) (\<lambda>_.
     case sm_status m of
       Some Accepted \<Rightarrow> ensure (no_evidence m \<and> sm_error_code m = None) ResponseShape
     | Some Settled \<Rightarrow>
         (case sm_canonical_seed m of
            None \<Rightarrow> Inl SettlementEvidence
          | Some seed \<Rightarrow>
              (case sm_observation m of
                 None \<Rightarrow> Inl SettlementEvidence
               | Some ob \<Rightarrow>
                   (case sm_effect_witness m of
                      None \<Rightarrow> Inl SettlementEvidence
                    | Some w \<Rightarrow>
                        ensure (sob_run_started ob \<and> sob_host_ready ob \<and> sob_canonical_seed ob = seed
                          \<and> wit_kind w = SEEDED_RUN_EFFECT_KIND \<and> wit_canonical_seed w = seed
                          \<and> wit_generation w = sob_generation ob \<and> sm_generation m < sob_generation ob
                          \<and> observation_context_matches m ob \<and> sm_error_code m = None) ResponseShape)))
     | Some Rejected \<Rightarrow> ensure (no_evidence m \<and> sm_error_code m \<noteq> None) ResponseShape
     | Some Cancelled \<Rightarrow> ensure (no_evidence m \<and> sm_error_code m \<noteq> None) ResponseShape
     | Some Unknown \<Rightarrow> ensure (no_evidence m \<and> sm_error_code m \<noteq> None) ResponseShape
     | None \<Rightarrow> Inl ResponseShape)))"

definition selected_context_check :: "'j sr_codec \<Rightarrow> sr_message \<Rightarrow> sr_validation_error + unit" where
  "selected_context_check C m = (case sm_selected_context m of
     Some ctx \<Rightarrow> and_then (selection_context_validate C ctx) (\<lambda>_.
       ensure (sm_context_digest m = Some (ctx_context_digest ctx)) ContextDigestMismatch)
   | None \<Rightarrow> ensure (sm_context_digest m = None) ContextRequired)"

definition sr_validate :: "'j sr_codec \<Rightarrow> sr_message \<Rightarrow> sr_validation_error + unit" where
  "sr_validate C m =
     and_then (ensure (\<not> (sm_protocol_version m \<noteq> SEEDED_RUN_PROTOCOL_VERSION
       \<or> sm_schema_digest m \<noteq> SEEDED_RUN_SCHEMA_DIGEST \<or> \<not> sr_is_digest (sm_schema_digest m))) Metadata) (\<lambda>_.
     and_then (sr_provenance_validate (sm_provenance m)) (\<lambda>_.
     and_then (check_each sr_validate_identity
       [sm_correlation_id m, sm_instance_id m, sm_session_id m, sm_lease_id m, sm_operation_id m]) (\<lambda>_.
     and_then (ensure (\<not> (SEEDED_RUN_MAX_GENERATION < sm_lease_epoch m
       \<or> SEEDED_RUN_MAX_GENERATION < sm_generation m)) GenerationBounds) (\<lambda>_.
     and_then (check_option validate_seed (sm_requested_seed m)) (\<lambda>_.
     and_then (check_option validate_seed (sm_canonical_seed m)) (\<lambda>_.
     and_then (check_option sr_validate_identity (sm_error_code m)) (\<lambda>_.
     and_then (check_option (\<lambda>d. ensure (sr_is_digest d) ContextDigest) (sm_context_digest m)) (\<lambda>_.
     and_then (selected_context_check C m) (\<lambda>_.
     and_then (check_option sr_observation_validate (sm_observation m)) (\<lambda>_.
     and_then (check_option sr_effect_witness_validate (sm_effect_witness m)) (\<lambda>_.
     case sm_kind m of
       StartRequest \<Rightarrow> validate_start_request m
     | ReconcileRequest \<Rightarrow> sr_validate_reconcile_request m
     | StartResponse \<Rightarrow> sr_validate_result m
     | ReconcileResponse \<Rightarrow> sr_validate_result m)))))))))))"

end
