(* ===== verification/Seeded_Run_Ledger.thy ===== *)
theory Seeded_Run_Ledger
  imports Seeded_Run_Contract
begin

text \<open>
  The seeded-run ledger: \<open>seeded_run/ledger.rs\<close>, \<open>ledger_responses.rs\<close> and
  \<open>ledger_persistence.rs\<close>. The forwarding port is a pair of state-passing functions in the
  environment record, whose codec part is the one of \<open>Seeded_Run_Contract\<close>; the checkpoint closure
  receives the ledger and threads its own state.
\<close>

section \<open>State\<close>

record sr_binding =
  sb_instance_id :: string
  sb_session_id :: string
  sb_lease_id :: string
  sb_lease_epoch :: u64
  sb_generation :: u64

record sr_ledger_config =
  sr_operation_capacity :: nat

record sr_operation =
  sop_request_digest :: "u8 list"
  sop_request :: sr_message
  sop_result :: "sr_message option"

record sr_receipt_request =
  srr_message :: sr_message
  srr_operation_id :: string

datatype sr_transport_fault = UnavailableBeforeWrite | Timeout | MalformedResponse

datatype sr_ledger_error =
    ZeroCapacity
  | InvalidBinding
  | InvalidRequest
  | InvalidResponse
  | RequestDigest
  | CapacityExceeded
  | OperationNotFound
  | OperationInProgress
  | OperationConflict
  | StaleGeneration
  | FenceRejected
  | PersistenceFailed

record ('p, 'j) sr_env =
  sr_codec_of :: "'j sr_codec"
  forward_seeded_run :: "'p \<Rightarrow> sr_message \<Rightarrow> (sr_transport_fault + sr_message) \<times> 'p"
  read_seeded_run_receipt :: "'p \<Rightarrow> sr_receipt_request \<Rightarrow> (sr_transport_fault + sr_message option) \<times> 'p"

record 'p sr_ledger =
  srl_config :: sr_ledger_config
  srl_binding :: sr_binding
  srl_forwarding :: 'p
  srl_operations :: "(string, sr_operation) bmap"

definition safe_identity :: "string \<Rightarrow> bool" where
  "safe_identity s \<longleftrightarrow> s \<noteq> [] \<and> length s \<le> SEEDED_RUN_MAX_IDENTITY_BYTES \<and> list_all ident_byte s"

definition sr_binding_new :: "string \<Rightarrow> string \<Rightarrow> string \<Rightarrow> u64 \<Rightarrow> u64 \<Rightarrow> sr_ledger_error + sr_binding" where
  "sr_binding_new inst sess lse epoch gen =
     and_then (check_each (\<lambda>s. ensure (safe_identity s) InvalidBinding) [inst, sess, lse]) (\<lambda>_.
     and_then (ensure (\<not> (SEEDED_RUN_MAX_GENERATION < epoch \<or> SEEDED_RUN_MAX_GENERATION < gen)) InvalidBinding) (\<lambda>_.
     Inr \<lparr>sb_instance_id = inst, sb_session_id = sess, sb_lease_id = lse, sb_lease_epoch = epoch,
          sb_generation = gen\<rparr>))"

definition binding_matches :: "sr_binding \<Rightarrow> sr_message \<Rightarrow> bool" where
  "binding_matches b m \<longleftrightarrow> sb_instance_id b = sm_instance_id m \<and> sb_session_id b = sm_session_id m
     \<and> sb_lease_id b = sm_lease_id m \<and> sb_lease_epoch b = sm_lease_epoch m"

definition sr_ledger_new :: "sr_ledger_config \<Rightarrow> sr_binding \<Rightarrow> 'p \<Rightarrow> sr_ledger_error + 'p sr_ledger" where
  "sr_ledger_new config binding forwarding =
     (if sr_operation_capacity config = 0 then Inl ZeroCapacity
      else Inr \<lparr>srl_config = config, srl_binding = binding, srl_forwarding = forwarding,
                srl_operations = bm_empty\<rparr>)"

text \<open>Assignments to the binding's generation and to the result of one operation.\<close>

definition set_generation :: "u64 \<Rightarrow> 'p sr_ledger \<Rightarrow> 'p sr_ledger" where
  "set_generation gen L = L\<lparr>srl_binding := (srl_binding L)\<lparr>sb_generation := gen\<rparr>\<rparr>"

definition set_sr_result :: "string \<Rightarrow> sr_message \<Rightarrow> 'p sr_ledger \<Rightarrow> 'p sr_ledger" where
  "set_sr_result oid r L = L\<lparr>srl_operations := bm_update oid (\<lambda>p. p\<lparr>sop_result := Some r\<rparr>) (srl_operations L)\<rparr>"

section \<open>Requests and responses (ledger_responses.rs)\<close>

text \<open>\<open>?\<close> turns every validation error into \<open>InvalidRequest\<close> (\<open>From<SeededRunValidationError>\<close>).\<close>

definition validate_message :: "'j sr_codec \<Rightarrow> sr_message \<Rightarrow> sr_ledger_error + unit" where
  "validate_message C m = map_err (\<lambda>_. InvalidRequest) (sr_validate C m)"

definition validate_binding :: "'p sr_ledger \<Rightarrow> sr_message \<Rightarrow> sr_ledger_error + unit" where
  "validate_binding L m = (if binding_matches (srl_binding L) m then Inr () else Inl FenceRejected)"

definition canonical_request :: "'j sr_codec \<Rightarrow> sr_message \<Rightarrow> sr_ledger_error + u8 list" where
  "canonical_request C m = map_err (\<lambda>_. RequestDigest) (message_to_vec C (m\<lparr>sm_correlation_id := []\<rparr>))"

definition accept_forwarded :: "'j sr_codec \<Rightarrow> sr_message \<Rightarrow> sr_message \<Rightarrow> sr_ledger_error + sr_message" where
  "accept_forwarded C request response =
     and_then (map_err (\<lambda>_. InvalidResponse) (sr_validate C response)) (\<lambda>_.
     if sm_kind response \<notin> {StartResponse, ReconcileResponse}
        \<or> sm_correlation_id response \<noteq> sm_correlation_id request
        \<or> sm_instance_id response \<noteq> sm_instance_id request
        \<or> sm_session_id response \<noteq> sm_session_id request
        \<or> sm_lease_id response \<noteq> sm_lease_id request
        \<or> sm_lease_epoch response \<noteq> sm_lease_epoch request
        \<or> sm_generation response \<noteq> sm_generation request
        \<or> sm_operation_id response \<noteq> sm_operation_id request
        \<or> sm_requested_seed response \<noteq> sm_requested_seed request
        \<or> sm_run_mode response \<noteq> sm_run_mode request
        \<or> sm_context_digest response \<noteq> sm_context_digest request
        \<or> sm_selected_context response \<noteq> sm_selected_context request
     then Inl InvalidResponse else Inr response)"

definition sr_accept_receipt :: "'j sr_codec \<Rightarrow> sr_message \<Rightarrow> sr_message \<Rightarrow> sr_message \<Rightarrow> sr_ledger_error + sr_message" where
  "sr_accept_receipt C original reconcile response =
     and_then (map_err (\<lambda>_. InvalidResponse) (sr_validate C response)) (\<lambda>_.
     if sm_kind response \<noteq> ReconcileResponse
        \<or> sm_correlation_id response \<noteq> sm_correlation_id reconcile
        \<or> sm_instance_id response \<noteq> sm_instance_id original
        \<or> sm_session_id response \<noteq> sm_session_id original
        \<or> sm_lease_id response \<noteq> sm_lease_id original
        \<or> sm_lease_epoch response \<noteq> sm_lease_epoch original
        \<or> sm_generation response \<noteq> sm_generation original
        \<or> sm_operation_id response \<noteq> sm_operation_id original
        \<or> sm_requested_seed response \<noteq> sm_requested_seed original
        \<or> sm_run_mode response \<noteq> sm_run_mode original
        \<or> sm_context_digest response \<noteq> sm_context_digest original
        \<or> sm_selected_context response \<noteq> sm_selected_context original
     then Inl InvalidResponse else Inr response)"

definition advance_generation :: "sr_message \<Rightarrow> 'p sr_ledger \<Rightarrow> 'p sr_ledger" where
  "advance_generation response L =
     (if sm_status response = Some Settled
      then case sm_observation response of
        None \<Rightarrow> L
      | Some ob \<Rightarrow> if sb_generation (srl_binding L) < sob_generation ob
                   then set_generation (sob_generation ob) L else L
      else L)"

definition sr_retain :: "sr_message \<Rightarrow> u8 list \<Rightarrow> sr_message \<Rightarrow> 'p sr_ledger \<Rightarrow> 'p sr_ledger" where
  "sr_retain request digest response L = L\<lparr>srl_operations := bm_insert (sm_operation_id request)
     \<lparr>sop_request_digest = digest, sop_request = request, sop_result = Some response\<rparr> (srl_operations L)\<rparr>"

definition context_of :: "sr_message \<Rightarrow> sr_context" where
  "context_of m = \<lparr>cx_correlation_id = sm_correlation_id m, cx_instance_id = sm_instance_id m,
     cx_session_id = sm_session_id m, cx_lease_id = sm_lease_id m, cx_lease_epoch = sm_lease_epoch m,
     cx_generation = sm_generation m\<rparr>"

definition sr_rejected :: "sr_message \<Rightarrow> string \<Rightarrow> sr_ledger_error + sr_message" where
  "sr_rejected request err =
     and_then (ok_or (sm_selected_context request) InvalidRequest) (\<lambda>ctx.
     and_then (ok_or (sm_requested_seed request) InvalidRequest) (\<lambda>seed.
     and_then (ok_or (sm_run_mode request) InvalidRequest) (\<lambda>mode.
     Inr (result_with_context (sm_provenance request) (context_of request) StartResponse
       (sm_operation_id request) seed mode ctx Rejected None None None (Some err)))))"

definition sr_unknown :: "sr_message \<Rightarrow> string \<Rightarrow> sr_ledger_error + sr_message" where
  "sr_unknown request err =
     and_then (ok_or (sm_selected_context request) InvalidRequest) (\<lambda>ctx.
     and_then (ok_or (sm_requested_seed request) InvalidRequest) (\<lambda>seed.
     and_then (ok_or (sm_run_mode request) InvalidRequest) (\<lambda>mode.
     Inr (result_with_context (sm_provenance request) (context_of request) StartResponse
       (sm_operation_id request) seed mode ctx Unknown None None None (Some err)))))"

definition replay_for_request :: "sr_message \<Rightarrow> sr_message \<Rightarrow> sr_message" where
  "replay_for_request result request = result\<lparr>sm_correlation_id := sm_correlation_id request\<rparr>"

definition sr_as_reconcile_response :: "sr_message \<Rightarrow> sr_message \<Rightarrow> sr_message" where
  "sr_as_reconcile_response response request =
     response\<lparr>sm_kind := ReconcileResponse, sm_correlation_id := sm_correlation_id request\<rparr>"

section \<open>Submission and reconciliation (ledger.rs)\<close>

type_synonym ('p, 'k) sr_checkpoint = "'k \<Rightarrow> 'p sr_ledger \<Rightarrow> (unit + unit) \<times> 'k"

text \<open>The checks before the operation is looked up.\<close>

definition admit_start :: "'j sr_codec \<Rightarrow> 'p sr_ledger \<Rightarrow> sr_message \<Rightarrow> sr_ledger_error + u8 list" where
  "admit_start C L request =
     and_then (validate_message C request) (\<lambda>_.
     and_then (ensure (sm_kind request = StartRequest) InvalidRequest) (\<lambda>_.
     and_then (validate_binding L request) (\<lambda>_.
     canonical_request C request)))"

text \<open>The match on the port's answer to a forwarded start.\<close>

definition forward_outcome :: "'j sr_codec \<Rightarrow> sr_message \<Rightarrow> sr_transport_fault + sr_message
    \<Rightarrow> sr_ledger_error + sr_message" where
  "forward_outcome C request answer = (case answer of
     Inr response \<Rightarrow> accept_forwarded C request response
   | Inl Timeout \<Rightarrow> sr_unknown request ''downstream_timeout''
   | Inl UnavailableBeforeWrite \<Rightarrow> sr_unknown request ''downstream_unavailable''
   | Inl MalformedResponse \<Rightarrow> sr_unknown request ''downstream_malformed_response'')"

text \<open>From the insertion of the in-flight record to the end of \<open>submit_start_with_checkpoint\<close>.\<close>

definition dispatch_start :: "('p, 'j) sr_env \<Rightarrow> sr_message \<Rightarrow> u8 list \<Rightarrow> ('p, 'k) sr_checkpoint \<Rightarrow> 'k \<Rightarrow> 'p sr_ledger
    \<Rightarrow> (sr_ledger_error + sr_message) \<times> 'k \<times> 'p sr_ledger" where
  "dispatch_start E request digest checkpoint k L =
     (let oid = sm_operation_id request;
          L1 = L\<lparr>srl_operations := bm_insert oid
            \<lparr>sop_request_digest = digest, sop_request = request, sop_result = None\<rparr> (srl_operations L)\<rparr>
      in case checkpoint k L1 of
           (Inl _, k1) \<Rightarrow>
             (Inl PersistenceFailed, k1, L1\<lparr>srl_operations := bm_remove oid (srl_operations L1)\<rparr>)
         | (Inr _, k1) \<Rightarrow>
             (case forward_seeded_run E (srl_forwarding L1) request of
                (answer, p) \<Rightarrow>
                  let L2 = L1\<lparr>srl_forwarding := p\<rparr> in
                  case forward_outcome (sr_codec_of E) request answer of
                    Inl e \<Rightarrow> (Inl e, k1, L2)
                  | Inr result \<Rightarrow>
                      if \<not> bm_has (srl_operations L2) oid then (Inl OperationNotFound, k1, L2)
                      else
                        let L3 = advance_generation result (set_sr_result oid result L2) in
                        case checkpoint k1 L3 of
                          (Inl _, k2) \<Rightarrow> (Inl PersistenceFailed, k2, L3)
                        | (Inr _, k2) \<Rightarrow> (Inr result, k2, L3)))"

definition submit_start_with_checkpoint :: "('p, 'j) sr_env \<Rightarrow> sr_message \<Rightarrow> ('p, 'k) sr_checkpoint \<Rightarrow> 'k
    \<Rightarrow> 'p sr_ledger \<Rightarrow> (sr_ledger_error + sr_message) \<times> 'k \<times> 'p sr_ledger" where
  "submit_start_with_checkpoint E request checkpoint k L =
     (case admit_start (sr_codec_of E) L request of
        Inl e \<Rightarrow> (Inl e, k, L)
      | Inr digest \<Rightarrow>
          (case bm_get (srl_operations L) (sm_operation_id request) of
             Some existing \<Rightarrow>
               if sop_request_digest existing \<noteq> digest then (Inl OperationConflict, k, L)
               else (ok_or (map_option (\<lambda>r. replay_for_request r request) (sop_result existing))
                       OperationInProgress, k, L)
           | None \<Rightarrow>
               if sr_operation_capacity (srl_config L) \<le> bm_size (srl_operations L)
               then (Inl CapacityExceeded, k, L)
               else
                 let L1 = (if bm_size (srl_operations L) = 0
                              \<and> sb_generation (srl_binding L) \<le> sm_generation request
                           then set_generation (sm_generation request) L else L)
                 in if sm_generation request \<noteq> sb_generation (srl_binding L1)
                    then (case sr_rejected request ''stale_generation'' of
                            Inl e \<Rightarrow> (Inl e, k, L1)
                          | Inr response \<Rightarrow>
                              let L2 = sr_retain request digest response L1 in
                              case checkpoint k L2 of
                                (Inl _, k1) \<Rightarrow> (Inl PersistenceFailed, k1, L2)
                              | (Inr _, k1) \<Rightarrow> (Inr response, k1, L2))
                    else dispatch_start E request digest checkpoint k L1))"

definition sr_no_checkpoint :: "('p, unit) sr_checkpoint" where
  "sr_no_checkpoint k L = (Inr (), k)"

definition submit_start :: "('p, 'j) sr_env \<Rightarrow> sr_message \<Rightarrow> 'p sr_ledger
    \<Rightarrow> (sr_ledger_error + sr_message) \<times> 'p sr_ledger" where
  "submit_start E request L =
     (case submit_start_with_checkpoint E request sr_no_checkpoint () L of (r, _, L') \<Rightarrow> (r, L'))"

definition sr_reconcile :: "('p, 'j) sr_env \<Rightarrow> sr_message \<Rightarrow> 'p sr_ledger
    \<Rightarrow> (sr_ledger_error + sr_message) \<times> 'p sr_ledger" where
  "sr_reconcile E request L =
     (case and_then (validate_message (sr_codec_of E) request) (\<lambda>_.
           and_then (ensure (sm_kind request = ReconcileRequest) InvalidRequest) (\<lambda>_.
           and_then (validate_binding L request) (\<lambda>_.
           and_then (ensure (sm_generation request = sb_generation (srl_binding L)) StaleGeneration) (\<lambda>_.
           and_then (ok_or (bm_get (srl_operations L) (sm_operation_id request)) OperationNotFound) (\<lambda>p.
           and_then (ok_or (sop_result p) OperationInProgress) (\<lambda>result. Inr (p, result))))))) of
        Inl e \<Rightarrow> (Inl e, L)
      | Inr (p, result) \<Rightarrow>
          if sm_status result \<notin> {Some Accepted, Some Unknown}
          then (Inr (sr_as_reconcile_response result request), L)
          else
            (case read_seeded_run_receipt E (srl_forwarding L)
                    \<lparr>srr_message = request, srr_operation_id = sm_operation_id request\<rparr> of
               (answer, q) \<Rightarrow>
                 let L1 = L\<lparr>srl_forwarding := q\<rparr> in
                 case (case answer of Inl _ \<Rightarrow> None | Inr r \<Rightarrow> r) of
                   None \<Rightarrow> (Inr (sr_as_reconcile_response result request), L1)
                 | Some receipt \<Rightarrow>
                     (case sr_accept_receipt (sr_codec_of E) (sop_request p) request receipt of
                        Inl _ \<Rightarrow> (Inr (sr_as_reconcile_response result request), L1)
                      | Inr r \<Rightarrow>
                          let stored = r\<lparr>sm_kind := StartResponse,
                                sm_correlation_id := sm_correlation_id (sop_request p)\<rparr>
                          in (Inr (sr_as_reconcile_response r request),
                              advance_generation stored (set_sr_result (sm_operation_id request) stored L1)))))"

section \<open>Persistence (ledger_persistence.rs)\<close>

record sr_persisted_operation =
  spo_request :: sr_message
  spo_result :: "sr_message option"

record sr_persisted_state =
  sps_binding :: sr_binding
  sps_operations :: "sr_persisted_operation list"

definition sr_persisted_state_of :: "'p sr_ledger \<Rightarrow> sr_persisted_state" where
  "sr_persisted_state_of L = \<lparr>sps_binding = srl_binding L,
     sps_operations = map (\<lambda>p. \<lparr>spo_request = sop_request p, spo_result = sop_result p\<rparr>)
       (bm_values (srl_operations L))\<rparr>"

definition sr_restore_result :: "'j sr_codec \<Rightarrow> u64 \<Rightarrow> sr_message \<Rightarrow> sr_message option
    \<Rightarrow> sr_ledger_error + sr_message" where
  "sr_restore_result C gen request result = (case result of
     Some r \<Rightarrow>
       and_then (accept_forwarded C request r) (\<lambda>_.
       and_then (ensure (\<not> (sm_kind r \<noteq> StartResponse
          \<or> (case sm_observation r of None \<Rightarrow> False | Some ob \<Rightarrow> gen < sob_generation ob))) InvalidResponse) (\<lambda>_.
       if sm_status r = Some Accepted then sr_unknown request ''restart_uncertain'' else Inr r))
   | None \<Rightarrow> sr_unknown request ''restart_uncertain'')"

text \<open>The loop of \<open>restore_state\<close>, one iteration per persisted operation.\<close>

fun sr_restore_loop :: "'j sr_codec \<Rightarrow> sr_binding \<Rightarrow> u64 \<Rightarrow> sr_persisted_operation list
    \<Rightarrow> (string, sr_operation) bmap \<Rightarrow> sr_ledger_error + (string, sr_operation) bmap" where
  "sr_restore_loop C b gen [] acc = Inr acc"
| "sr_restore_loop C b gen (item # items) acc =
     and_then (validate_message C (spo_request item)) (\<lambda>_.
     and_then (ensure (\<not> (sm_kind (spo_request item) \<noteq> StartRequest \<or> \<not> binding_matches b (spo_request item)
        \<or> bm_has acc (sm_operation_id (spo_request item)))) InvalidRequest) (\<lambda>_.
     and_then (canonical_request C (spo_request item)) (\<lambda>digest.
     and_then (sr_restore_result C gen (spo_request item) (spo_result item)) (\<lambda>result.
     sr_restore_loop C b gen items (bm_insert (sm_operation_id (spo_request item))
       \<lparr>sop_request_digest = digest, sop_request = spo_request item, sop_result = Some result\<rparr> acc)))))"

definition sr_restore_state :: "('p, 'j) sr_env \<Rightarrow> sr_persisted_state \<Rightarrow> 'p sr_ledger
    \<Rightarrow> (sr_ledger_error + unit) \<times> 'p sr_ledger" where
  "sr_restore_state E s L =
     (let b = sps_binding s; mine = srl_binding L in
      case sr_binding_new (sb_instance_id b) (sb_session_id b) (sb_lease_id b) (sb_lease_epoch b) (sb_generation b) of
        Inl _ \<Rightarrow> (Inl InvalidBinding, L)
      | Inr validated \<Rightarrow>
          if sb_instance_id b \<noteq> sb_instance_id mine \<or> sb_session_id b \<noteq> sb_session_id mine
             \<or> sb_lease_id b \<noteq> sb_lease_id mine \<or> sb_lease_epoch b \<noteq> sb_lease_epoch mine
             \<or> sb_generation validated < sb_generation mine
             \<or> sr_operation_capacity (srl_config L) < length (sps_operations s)
          then (Inl InvalidBinding, L)
          else case sr_restore_loop (sr_codec_of E) mine (sb_generation b) (sps_operations s) bm_empty of
            Inl e \<Rightarrow> (Inl e, L)
          | Inr operations \<Rightarrow>
              (Inr (), (set_generation (sb_generation b) L)\<lparr>srl_operations := operations\<rparr>))"

end
