(* ===== verification/Seeded_Run_Safety.thy ===== *)
theory Seeded_Run_Safety
  imports Seeded_Run_Ledger
begin

text \<open>
  The invariant of the seeded-run ledger, what each operation does to ledger, port and store, and
  the transition system with restarts.
\<close>

section \<open>What validation guarantees\<close>

definition sr_common_ok :: "'j sr_codec \<Rightarrow> sr_message \<Rightarrow> bool" where
  "sr_common_ok C m \<longleftrightarrow> sm_protocol_version m = SEEDED_RUN_PROTOCOL_VERSION
     \<and> sm_schema_digest m = SEEDED_RUN_SCHEMA_DIGEST \<and> sm_provenance m = sr_provenance_default
     \<and> (\<forall>s \<in> {sm_correlation_id m, sm_instance_id m, sm_session_id m, sm_lease_id m, sm_operation_id m}.
          ident_string 128 s)
     \<and> sm_lease_epoch m \<le> SEEDED_RUN_MAX_GENERATION \<and> sm_generation m \<le> SEEDED_RUN_MAX_GENERATION
     \<and> check_option validate_seed (sm_requested_seed m) = Inr ()
     \<and> check_option validate_seed (sm_canonical_seed m) = Inr ()
     \<and> (\<forall>err. sm_error_code m = Some err \<longrightarrow> ident_string 128 err)
     \<and> check_option (\<lambda>d. ensure (sr_is_digest d) ContextDigest) (sm_context_digest m) = Inr ()
     \<and> selected_context_check C m = Inr ()
     \<and> check_option sr_observation_validate (sm_observation m) = Inr ()
     \<and> check_option sr_effect_witness_validate (sm_effect_witness m) = Inr ()"

definition sr_shape_ok :: "sr_message \<Rightarrow> bool" where
  "sr_shape_ok m \<longleftrightarrow> (case sm_kind m of
     StartRequest \<Rightarrow> validate_start_request m = Inr ()
   | ReconcileRequest \<Rightarrow> sr_validate_reconcile_request m = Inr ()
   | _ \<Rightarrow> sr_validate_result m = Inr ())"

lemma sr_validate_identity_Inr [simp, checks]: "sr_validate_identity s = Inr u \<longleftrightarrow> ident_string 128 s"
  by (simp add: sr_validate_identity_def SEEDED_RUN_MAX_IDENTITY_BYTES_def)

lemma seeded_schema_digest_is_digest: "sr_is_digest SEEDED_RUN_SCHEMA_DIGEST"
  by (simp add: sr_is_digest_def SEEDED_RUN_SCHEMA_DIGEST_def byte_class_defs)

lemma sr_provenance_validate_Inr [simp, checks]: "sr_provenance_validate p = Inr u \<longleftrightarrow> p = sr_provenance_default"
  by (cases p) (auto simp: sr_provenance_validate_def sr_provenance_default_def)

lemma sr_validate_Inr: "sr_validate C m = Inr u \<longleftrightarrow> sr_common_ok C m \<and> sr_shape_ok m"
proof -
  have shape: "(case sm_kind m of
       StartRequest \<Rightarrow> validate_start_request m
     | ReconcileRequest \<Rightarrow> sr_validate_reconcile_request m
     | StartResponse \<Rightarrow> sr_validate_result m
     | ReconcileResponse \<Rightarrow> sr_validate_result m) = Inr () \<longleftrightarrow> sr_shape_ok m"
    by (cases "sm_kind m") (simp_all add: sr_shape_ok_def)
  show ?thesis
    unfolding sr_validate_def and_then_eq_Inr ensure_Inr sr_common_ok_def
    using seeded_schema_digest_is_digest
    by (auto simp: shape and_then_eq_Inr check_each_Inr not_less check_option_Inr [of sr_validate_identity])
qed

lemma selected_context_check_updates [simp]:
  "selected_context_check C (m\<lparr>sm_kind := kind\<rparr>) = selected_context_check C m"
  "selected_context_check C (m\<lparr>sm_correlation_id := c\<rparr>) = selected_context_check C m"
  "selected_context_check C (m\<lparr>sm_status := st\<rparr>) = selected_context_check C m"
  "selected_context_check C (m\<lparr>sm_error_code := e\<rparr>) = selected_context_check C m"
  by (simp_all add: selected_context_check_def split: option.split)

section \<open>Replies built by the ledger\<close>

definition start_ok :: "'j sr_codec \<Rightarrow> sr_binding \<Rightarrow> sr_message \<Rightarrow> bool" where
  "start_ok C b m \<longleftrightarrow> sr_validate C m = Inr () \<and> sm_kind m = StartRequest \<and> binding_matches b m"

lemma start_ok_generation [simp]: "start_ok C (b\<lparr>sb_generation := g\<rparr>) m = start_ok C b m"
  by (simp add: start_ok_def binding_matches_def)

lemma start_ok_fields:
  assumes "start_ok C b m"
  obtains ctx seed mode where "sm_selected_context m = Some ctx" "sm_requested_seed m = Some seed"
    "sm_run_mode m = Some mode" "sm_context_digest m = Some (ctx_context_digest ctx)"
  using assms
  by (auto simp: start_ok_def sr_validate_Inr sr_common_ok_def sr_shape_ok_def validate_start_request_def
      selected_context_check_def checks split: option.splits)

text \<open>A reply of the given status without evidence, as \<open>rejected\<close> and \<open>unknown\<close> build it.\<close>

definition bare_reply :: "sr_message \<Rightarrow> sr_status \<Rightarrow> string \<Rightarrow> sr_message" where
  "bare_reply m st err = m\<lparr>sm_kind := StartResponse, sm_status := Some st, sm_error_code := Some err\<rparr>"

lemma bare_replies:
  assumes "start_ok C b m"
  shows "sr_rejected m err = Inr (bare_reply m Rejected err)" and "sr_unknown m err = Inr (bare_reply m Unknown err)"
proof -
  have none: "sm_status m = None" "sm_canonical_seed m = None" "sm_observation m = None" "sm_effect_witness m = None"
      "sm_error_code m = None" "sm_protocol_version m = SEEDED_RUN_PROTOCOL_VERSION"
      "sm_schema_digest m = SEEDED_RUN_SCHEMA_DIGEST"
    using assms by (auto simp: start_ok_def sr_validate_Inr sr_shape_ok_def validate_start_request_def sr_common_ok_def checks)
  obtain ctx seed mode where "sm_selected_context m = Some ctx" "sm_requested_seed m = Some seed"
      "sm_run_mode m = Some mode" "sm_context_digest m = Some (ctx_context_digest ctx)"
    using assms by (rule start_ok_fields)
  with none show "sr_rejected m err = Inr (bare_reply m Rejected err)" "sr_unknown m err = Inr (bare_reply m Unknown err)"
    by (simp_all add: sr_rejected_def sr_unknown_def result_with_context_def sr_result_def sr_base_def context_of_def
        bare_reply_def)
qed

lemma bare_reply_simps [simp]:
  "sm_kind (bare_reply m st err) = StartResponse" "sm_status (bare_reply m st err) = Some st"
  "sm_error_code (bare_reply m st err) = Some err" "sm_observation (bare_reply m st err) = sm_observation m"
  by (simp_all add: bare_reply_def)

lemma bare_reply_accepted:
  assumes "start_ok C b m" and "ident_string 128 err" and "st \<in> {Rejected, Unknown}"
  shows "accept_forwarded C m (bare_reply m st err) = Inr (bare_reply m st err)"
proof -
  have "sr_common_ok C (bare_reply m st err)"
    using assms(1,2)
    by (simp add: start_ok_def sr_validate_Inr sr_common_ok_def bare_reply_def)
  moreover have "sr_shape_ok (bare_reply m st err)"
  proof -
    obtain ctx seed mode where "sm_selected_context m = Some ctx" "sm_requested_seed m = Some seed"
        "sm_run_mode m = Some mode"
      using assms(1) by (rule start_ok_fields)
    moreover have "no_evidence m"
      using assms(1)
      by (auto simp: start_ok_def sr_validate_Inr sr_shape_ok_def validate_start_request_def no_evidence_def checks)
    ultimately show ?thesis
      using assms(3) by (auto simp: sr_shape_ok_def bare_reply_def sr_validate_result_def no_evidence_def ensure_def)
  qed
  ultimately have "sr_validate C (bare_reply m st err) = Inr ()" by (simp add: sr_validate_Inr)
  then show ?thesis by (simp add: accept_forwarded_def) (simp add: bare_reply_def)
qed

lemma accept_forwarded_Inr: "accept_forwarded C m r = Inr r' \<Longrightarrow> r' = r"
  by (auto simp: accept_forwarded_def checks split: if_splits)

lemma accept_forwarded_err: "is_err (accept_forwarded C m r) \<Longrightarrow> accept_forwarded C m r = Inl InvalidResponse"
  by (cases "sr_validate C r") (auto simp: accept_forwarded_def split: if_splits)

lemma accept_forwarded_valid:
  assumes "accept_forwarded C m r = Inr r'"
  shows "sr_validate C r = Inr ()" and "sm_kind r \<in> {StartResponse, ReconcileResponse}"
    and "sm_selected_context r = sm_selected_context m" and "sm_requested_seed r = sm_requested_seed m"
    and "sm_generation r = sm_generation m" and "sm_operation_id r = sm_operation_id m"
    and "sm_correlation_id r = sm_correlation_id m"
  using assms by (auto simp: accept_forwarded_def checks split: if_splits)

lemma seeded_error_codes_ok [simp]:
  "ident_string 128 ''stale_generation''" "ident_string 128 ''downstream_timeout''"
  "ident_string 128 ''downstream_unavailable''" "ident_string 128 ''downstream_malformed_response''"
  "ident_string 128 ''restart_uncertain''"
  by (simp_all add: byte_class_defs)

text \<open>Only a settled result carries an observation.\<close>

lemma result_observation:
  assumes "sr_validate C r = Inr ()" and "sm_kind r \<in> {StartResponse, ReconcileResponse}"
  shows "sm_observation r \<noteq> None \<longleftrightarrow> sm_status r = Some Settled"
  using assms
  by (auto simp: sr_validate_Inr sr_shape_ok_def sr_validate_result_def no_evidence_def checks
      split: option.splits sr_status.splits)

section \<open>The invariant\<close>

definition sr_result_ok :: "'j sr_codec \<Rightarrow> sr_binding \<Rightarrow> sr_message \<Rightarrow> sr_message \<Rightarrow> bool" where
  "sr_result_ok C b request r \<longleftrightarrow> accept_forwarded C request r = Inr r
     \<and> (\<forall>ob. sm_observation r = Some ob \<longrightarrow> sob_generation ob \<le> sb_generation b)"

definition sr_operation_ok :: "'j sr_codec \<Rightarrow> sr_binding \<Rightarrow> string \<Rightarrow> sr_operation \<Rightarrow> bool" where
  "sr_operation_ok C b oid p \<longleftrightarrow> start_ok C b (sop_request p) \<and> sm_operation_id (sop_request p) = oid
     \<and> canonical_request C (sop_request p) = Inr (sop_request_digest p)
     \<and> (\<forall>r. sop_result p = Some r \<longrightarrow> sr_result_ok C b (sop_request p) r)"

definition sr_binding_ok :: "sr_binding \<Rightarrow> bool" where
  "sr_binding_ok b \<longleftrightarrow> ident_string 128 (sb_instance_id b) \<and> ident_string 128 (sb_session_id b)
     \<and> ident_string 128 (sb_lease_id b) \<and> sb_lease_epoch b \<le> SEEDED_RUN_MAX_GENERATION
     \<and> sb_generation b \<le> SEEDED_RUN_MAX_GENERATION"

definition sr_ledger_ok :: "('p, 'j) sr_env \<Rightarrow> 'p sr_ledger \<Rightarrow> bool" where
  "sr_ledger_ok E L \<longleftrightarrow> sr_binding_ok (srl_binding L)
     \<and> bm_size (srl_operations L) \<le> sr_operation_capacity (srl_config L)
     \<and> (\<forall>oid p. bm_get (srl_operations L) oid = Some p \<longrightarrow> sr_operation_ok (sr_codec_of E) (srl_binding L) oid p)"

lemma safe_identity_iff: "safe_identity s \<longleftrightarrow> ident_string 128 s"
  by (simp add: safe_identity_def ident_string_def SEEDED_RUN_MAX_IDENTITY_BYTES_def)

lemma sr_binding_new_Inr:
  "sr_binding_new i s l e g = Inr b \<longleftrightarrow> b = \<lparr>sb_instance_id = i, sb_session_id = s, sb_lease_id = l,
     sb_lease_epoch = e, sb_generation = g\<rparr> \<and> sr_binding_ok b"
  by (auto simp: sr_binding_new_def sr_binding_ok_def safe_identity_iff checks)

lemma set_generation_simps [simp]:
  "srl_config (set_generation g L) = srl_config L"
  "srl_forwarding (set_generation g L) = srl_forwarding L"
  "srl_operations (set_generation g L) = srl_operations L"
  "srl_binding (set_generation g L) = (srl_binding L)\<lparr>sb_generation := g\<rparr>"
  by (simp_all add: set_generation_def)

lemma set_sr_result_simps [simp]:
  "srl_config (set_sr_result oid r L) = srl_config L"
  "srl_forwarding (set_sr_result oid r L) = srl_forwarding L"
  "srl_binding (set_sr_result oid r L) = srl_binding L"
  "srl_operations (set_sr_result oid r L) =
     bm_update oid (\<lambda>p. p\<lparr>sop_result := Some r\<rparr>) (srl_operations L)"
  by (simp_all add: set_sr_result_def)

lemma advance_generation_simps [simp]:
  "srl_config (advance_generation r L) = srl_config L"
  "srl_forwarding (advance_generation r L) = srl_forwarding L"
  "srl_operations (advance_generation r L) = srl_operations L"
  by (simp_all add: advance_generation_def split: option.split)

lemma sr_operation_ok_generation:
  "sr_operation_ok C b oid p \<Longrightarrow> sb_generation b \<le> g \<Longrightarrow> sr_operation_ok C (b\<lparr>sb_generation := g\<rparr>) oid p"
  unfolding sr_operation_ok_def sr_result_ok_def by (auto intro: order_trans)

lemma sr_ledger_ok_generation:
  assumes "sr_ledger_ok E L" and "sb_generation (srl_binding L) \<le> g" and "g \<le> SEEDED_RUN_MAX_GENERATION"
  shows "sr_ledger_ok E (set_generation g L)"
  using assms by (auto simp: sr_ledger_ok_def sr_binding_ok_def intro: sr_operation_ok_generation)

lemma sr_ledger_ok_forwarding [simp]: "sr_ledger_ok E (L\<lparr>srl_forwarding := p\<rparr>) = sr_ledger_ok E L"
  by (simp add: sr_ledger_ok_def)

text \<open>The ledger with one more operation.\<close>

definition with_start :: "u8 list \<Rightarrow> sr_message \<Rightarrow> sr_message option \<Rightarrow> 'p sr_ledger \<Rightarrow> 'p sr_ledger" where
  "with_start digest request result L = L\<lparr>srl_operations := bm_insert (sm_operation_id request)
     \<lparr>sop_request_digest = digest, sop_request = request, sop_result = result\<rparr> (srl_operations L)\<rparr>"

lemma with_start_simps [simp]:
  "srl_config (with_start d m r L) = srl_config L"
  "srl_forwarding (with_start d m r L) = srl_forwarding L"
  "srl_binding (with_start d m r L) = srl_binding L"
  "srl_operations (with_start d m r L) = bm_insert (sm_operation_id m)
     \<lparr>sop_request_digest = d, sop_request = m, sop_result = r\<rparr> (srl_operations L)"
  by (simp_all add: with_start_def)

lemma with_start_ok:
  assumes "sr_ledger_ok E L" and "bm_size (srl_operations L) < sr_operation_capacity (srl_config L)"
    and "start_ok (sr_codec_of E) (srl_binding L) request" and "canonical_request (sr_codec_of E) request = Inr digest"
    and "\<And>r. result = Some r \<Longrightarrow> sr_result_ok (sr_codec_of E) (srl_binding L) request r"
  shows "sr_ledger_ok E (with_start digest request result L)"
  using assms by (auto simp: sr_ledger_ok_def sr_operation_ok_def with_start_def bm_size_insert)

lemma settled_observation:
  assumes "accept_forwarded C m r = Inr r'" and "sm_observation r = Some ob"
  shows "sm_status r = Some Settled" and "sob_generation ob \<le> SEEDED_RUN_MAX_GENERATION"
  using result_observation [OF accept_forwarded_valid(1,2) [OF assms(1)]] accept_forwarded_valid(1) [OF assms(1)] assms(2)
  by (auto simp: sr_validate_Inr sr_common_ok_def sr_observation_validate_def checks)

text \<open>What a settled result must prove.\<close>

lemma settled_evidence:
  assumes "accept_forwarded C m r = Inr r'" and "sm_status r = Some Settled"
  shows "\<exists>seed ob w ctx. sm_canonical_seed r = Some seed \<and> sm_observation r = Some ob \<and> sm_effect_witness r = Some w
      \<and> sm_selected_context m = Some ctx
      \<and> sob_run_started ob \<and> sob_host_ready ob \<and> sob_canonical_seed ob = seed \<and> wit_canonical_seed w = seed
      \<and> wit_kind w = SEEDED_RUN_EFFECT_KIND \<and> wit_generation w = sob_generation ob
      \<and> sob_selected_context_digest ob = Some (ctx_context_digest ctx) \<and> sm_generation m < sob_generation ob"
proof -
  note v = accept_forwarded_valid [OF assms(1)]
  have "sr_validate_result r = Inr ()" using v(1,2) by (auto simp: sr_validate_Inr sr_shape_ok_def)
  with assms(2) v(3,5) show ?thesis
    by (auto simp: sr_validate_result_def observation_context_matches_def checks split: option.splits)
qed

text \<open>Storing a result and advancing the generation with it.\<close>

lemma advance_generation_result:
  assumes "accept_forwarded C m r = Inr r'" and "sr_binding_ok (srl_binding L)"
  obtains g where "advance_generation r L = set_generation g L" "sb_generation (srl_binding L) \<le> g"
    "g \<le> SEEDED_RUN_MAX_GENERATION" "\<forall>ob. sm_observation r = Some ob \<longrightarrow> sob_generation ob \<le> g"
proof (cases "sm_observation r")
  case None
  then show thesis using assms(2)
    by (intro that [of "sb_generation (srl_binding L)"])
      (auto simp: advance_generation_def set_generation_def sr_binding_ok_def)
next
  case (Some ob)
  with settled_observation [OF assms(1) Some] assms(2) show thesis
    by (intro that [of "max (sb_generation (srl_binding L)) (sob_generation ob)"])
      (auto simp: advance_generation_def set_generation_def sr_binding_ok_def max_def not_less)
qed

lemma store_result_ok:
  assumes "sr_ledger_ok E L" and "bm_get (srl_operations L) oid = Some p"
    and "accept_forwarded (sr_codec_of E) (sop_request p) r = Inr r'"
  shows "sr_ledger_ok E (advance_generation r (set_sr_result oid r L))"
    and "sb_generation (srl_binding L) \<le> sb_generation (srl_binding (advance_generation r (set_sr_result oid r L)))"
    and "\<exists>g. srl_binding (advance_generation r (set_sr_result oid r L)) = (srl_binding L)\<lparr>sb_generation := g\<rparr>"
proof -
  have b: "sr_binding_ok (srl_binding (set_sr_result oid r L))" using assms(1) by (simp add: sr_ledger_ok_def)
  obtain g where g: "advance_generation r (set_sr_result oid r L) = set_generation g (set_sr_result oid r L)"
      "sb_generation (srl_binding L) \<le> g" "g \<le> SEEDED_RUN_MAX_GENERATION"
      "\<forall>ob. sm_observation r = Some ob \<longrightarrow> sob_generation ob \<le> g"
    using advance_generation_result [OF assms(3) b] by auto
  have "sr_ledger_ok E (set_generation g L)" using sr_ledger_ok_generation [OF assms(1) g(2,3)] .
  then show "sr_ledger_ok E (advance_generation r (set_sr_result oid r L))"
    using assms(2,3) g(4) accept_forwarded_Inr [OF assms(3)] unfolding g(1)
    by (auto simp: sr_ledger_ok_def sr_operation_ok_def sr_result_ok_def split: if_splits)
  show "sb_generation (srl_binding L) \<le> sb_generation (srl_binding (advance_generation r (set_sr_result oid r L)))"
    and "\<exists>g. srl_binding (advance_generation r (set_sr_result oid r L)) = (srl_binding L)\<lparr>sb_generation := g\<rparr>"
    using g by (auto simp: g(1))
qed

section \<open>What a submission does\<close>

text \<open>The first operation of an empty ledger sets the generation it is fenced against.\<close>

definition primed :: "sr_message \<Rightarrow> 'p sr_ledger \<Rightarrow> 'p sr_ledger" where
  "primed request L = (if bm_size (srl_operations L) = 0 \<and> sb_generation (srl_binding L) \<le> sm_generation request
     then set_generation (sm_generation request) L else L)"

lemma primed_simps [simp]:
  "srl_config (primed m L) = srl_config L" "srl_forwarding (primed m L) = srl_forwarding L"
  "srl_operations (primed m L) = srl_operations L"
  by (simp_all add: primed_def)

lemma primed_binding: "\<exists>g. srl_binding (primed m L) = (srl_binding L)\<lparr>sb_generation := g\<rparr>"
  unfolding primed_def by (auto intro: exI [of _ "sb_generation (srl_binding L)"])

lemma start_ok_primed [simp]: "start_ok C (srl_binding (primed m L)) m' = start_ok C (srl_binding L) m'"
  by (simp add: primed_def)

lemma primed_ok:
  assumes "sr_ledger_ok E L" and "start_ok C (srl_binding L) m"
  shows "sr_ledger_ok E (primed m L)" and "sb_generation (srl_binding L) \<le> sb_generation (srl_binding (primed m L))"
proof -
  have "sm_generation m \<le> SEEDED_RUN_MAX_GENERATION"
    using assms(2) by (simp add: start_ok_def sr_validate_Inr sr_common_ok_def)
  then show "sr_ledger_ok E (primed m L)" using assms(1) by (simp add: primed_def sr_ledger_ok_generation)
  show "sb_generation (srl_binding L) \<le> sb_generation (srl_binding (primed m L))" by (simp add: primed_def)
qed

lemma admit_start_Inr [checks]:
  "admit_start C L m = Inr digest \<longleftrightarrow> start_ok C (srl_binding L) m \<and> canonical_request C m = Inr digest"
  by (auto simp: admit_start_def validate_message_def start_ok_def validate_binding_def checks split: if_splits)

lemma forward_outcome_accepted:
  assumes "forward_outcome C m answer = Inr r" and "start_ok C b m"
  shows "accept_forwarded C m r = Inr r"
  using assms
  by (auto simp: forward_outcome_def bare_replies bare_reply_accepted dest: accept_forwarded_Inr
      split: sum.splits sr_transport_fault.splits)

definition may_start :: "('p, 'j) sr_env \<Rightarrow> ('p, 'k) sr_checkpoint \<Rightarrow> 'k \<Rightarrow> 'p sr_ledger \<Rightarrow> sr_message \<Rightarrow> bool" where
  "may_start E checkpoint k L request \<longleftrightarrow>
     (\<exists>digest. start_ok (sr_codec_of E) (srl_binding L) request
      \<and> canonical_request (sr_codec_of E) request = Inr digest
      \<and> bm_get (srl_operations L) (sm_operation_id request) = None
      \<and> bm_size (srl_operations L) < sr_operation_capacity (srl_config L)
      \<and> sm_generation request = sb_generation (srl_binding (primed request L))
      \<and> \<not> is_err (fst (checkpoint k (with_start digest request None (primed request L)))))"

lemma submit_start_cases:
  fixes E :: "('p, 'j) sr_env" and checkpoint :: "('p, 'k) sr_checkpoint"
  assumes "submit_start_with_checkpoint E request checkpoint k L = (res, k', L')"
  obtains (unchanged) "L' = L" "k' = k" "\<not> may_start E checkpoint k L request"
      "\<And>r. res = Inr r \<Longrightarrow> \<exists>p x. bm_get (srl_operations L) (sm_operation_id request) = Some p
         \<and> sop_result p = Some x \<and> r = replay_for_request x request"
  | (stale) digest c where "start_ok (sr_codec_of E) (srl_binding L) request"
      "canonical_request (sr_codec_of E) request = Inr digest"
      "bm_get (srl_operations L) (sm_operation_id request) = None"
      "bm_size (srl_operations L) < sr_operation_capacity (srl_config L)"
      "L' = with_start digest request (Some (bare_reply request Rejected ''stale_generation'')) (primed request L)"
      "checkpoint k L' = (c, k')" "\<not> may_start E checkpoint k L request"
      "res = (if is_err c then Inl PersistenceFailed else Inr (bare_reply request Rejected ''stale_generation''))"
  | (unstored) digest where "start_ok (sr_codec_of E) (srl_binding L) request"
      "canonical_request (sr_codec_of E) request = Inr digest"
      "bm_get (srl_operations L) (sm_operation_id request) = None"
      "bm_size (srl_operations L) < sr_operation_capacity (srl_config L)"
      "checkpoint k (with_start digest request None (primed request L)) = (Inl (), k')" "L' = primed request L"
      "\<not> may_start E checkpoint k L request" "res = Inl PersistenceFailed"
  | (started) digest k1 answer p where "start_ok (sr_codec_of E) (srl_binding L) request"
      "canonical_request (sr_codec_of E) request = Inr digest"
      "bm_get (srl_operations L) (sm_operation_id request) = None"
      "bm_size (srl_operations L) < sr_operation_capacity (srl_config L)"
      "checkpoint k (with_start digest request None (primed request L)) = (Inr (), k1)"
      "forward_seeded_run E (srl_forwarding L) request = (answer, p)"
      "may_start E checkpoint k L request"
      "case forward_outcome (sr_codec_of E) request answer of
         Inl e \<Rightarrow> res = Inl e \<and> k' = k1 \<and> L' = (with_start digest request None (primed request L))\<lparr>srl_forwarding := p\<rparr>
       | Inr r \<Rightarrow> (\<exists>c. L' = advance_generation r
             (with_start digest request (Some r) ((primed request L)\<lparr>srl_forwarding := p\<rparr>))
           \<and> checkpoint k1 L' = (c, k') \<and> res = (if is_err c then Inl PersistenceFailed else Inr r))"
proof (cases "\<exists>digest. admit_start (sr_codec_of E) L request = Inr digest
    \<and> bm_get (srl_operations L) (sm_operation_id request) = None
    \<and> bm_size (srl_operations L) < sr_operation_capacity (srl_config L)")
  case False
  then have "L' = L" "k' = k"
    using assms by (auto simp: submit_start_with_checkpoint_def not_le split: sum.splits option.splits if_splits)
  moreover have "\<not> may_start E checkpoint k L request" using False by (auto simp: may_start_def checks)
  moreover have "\<exists>p x. bm_get (srl_operations L) (sm_operation_id request) = Some p
      \<and> sop_result p = Some x \<and> r = replay_for_request x request" if "res = Inr r" for r
    using assms False that
    by (auto simp: submit_start_with_checkpoint_def not_le ok_or_def split: sum.splits option.splits if_splits)
  ultimately show thesis by (rule unchanged)
next
  case True
  then obtain digest where adm: "admit_start (sr_codec_of E) L request = Inr digest"
      "bm_get (srl_operations L) (sm_operation_id request) = None"
      "bm_size (srl_operations L) < sr_operation_capacity (srl_config L)"
    by blast
  then have ok: "start_ok (sr_codec_of E) (srl_binding L) request" "canonical_request (sr_codec_of E) request = Inr digest"
    by (simp_all add: checks)
  let ?P = "primed request L"
  note run = assms [unfolded submit_start_with_checkpoint_def adm(1,2) sum.case option.case, folded primed_def]
  show thesis
  proof (cases "sm_generation request = sb_generation (srl_binding ?P)")
    case False
    then have "\<not> may_start E checkpoint k L request" by (simp add: may_start_def)
    obtain c k1 where c: "checkpoint k (with_start digest request
        (Some (bare_reply request Rejected ''stale_generation'')) ?P) = (c, k1)" by fastforce
    have "L' = with_start digest request (Some (bare_reply request Rejected ''stale_generation'')) ?P" "k' = k1"
        "res = (if is_err c then Inl PersistenceFailed else Inr (bare_reply request Rejected ''stale_generation''))"
      using run adm(3) False c bare_replies(1) [OF ok(1)]
      by (auto simp: primed_def [symmetric] sr_retain_def with_start_def Let_def split: sum.splits)
    with c \<open>\<not> may_start E checkpoint k L request\<close> show thesis by (intro stale [OF ok adm(2,3)]) auto
  next
    case True
    obtain c1 k1 where c1: "checkpoint k (with_start digest request None ?P) = (c1, k1)" by fastforce
    note disp = run [unfolded primed_def [symmetric] Let_def dispatch_start_def, folded with_start_def]
    show thesis
    proof (cases c1)
      case (Inl x)
      then have "\<not> may_start E checkpoint k L request" using c1 ok by (auto simp: may_start_def)
      moreover have "L' = ?P" "k' = k1" "res = Inl PersistenceFailed"
        using disp True adm(2,3) c1 Inl by (auto simp: with_start_def)
      ultimately show thesis using c1 Inl by (intro unstored [OF ok adm(2,3)]) auto
    next
      case (Inr x)
      then have may: "may_start E checkpoint k L request" using c1 ok adm True by (auto simp: may_start_def)
      obtain answer p where fw: "forward_seeded_run E (srl_forwarding L) request = (answer, p)" by fastforce
      have "case forward_outcome (sr_codec_of E) request answer of
         Inl e \<Rightarrow> res = Inl e \<and> k' = k1 \<and> L' = (with_start digest request None ?P)\<lparr>srl_forwarding := p\<rparr>
       | Inr r \<Rightarrow> (\<exists>c. L' = advance_generation r (with_start digest request (Some r) (?P\<lparr>srl_forwarding := p\<rparr>))
           \<and> checkpoint k1 L' = (c, k') \<and> res = (if is_err c then Inl PersistenceFailed else Inr r))"
        using disp True adm(3) c1 Inr fw
        by (auto simp: set_sr_result_def with_start_def split: sum.splits prod.splits)
      with c1 Inr fw may show thesis by (intro started [OF ok adm(2,3)]) auto
    qed
  qed
qed

end
