(* ===== verification/Seeded_Run_Recovery.thy ===== *)
theory Seeded_Run_Recovery
  imports Seeded_Run_Safety
begin

text \<open>
  Progress of the seeded-run ledger, restart recovery, and the transition system of ledger and
  checkpoint store.
\<close>

section \<open>Progress\<close>

definition sr_open :: "sr_message option \<Rightarrow> bool" where
  "sr_open r \<longleftrightarrow> (case r of None \<Rightarrow> True | Some m \<Rightarrow> sm_status m \<in> {Some Accepted, Some Unknown})"

definition sr_advances :: "('p, 'j) sr_env \<Rightarrow> 'p sr_ledger \<Rightarrow> 'p sr_ledger \<Rightarrow> bool" where
  "sr_advances E L L' \<longleftrightarrow> sr_ledger_ok E L' \<and> srl_config L' = srl_config L
     \<and> (\<exists>g. srl_binding L' = (srl_binding L)\<lparr>sb_generation := g\<rparr>)
     \<and> sb_generation (srl_binding L) \<le> sb_generation (srl_binding L')
     \<and> (\<forall>oid p. bm_get (srl_operations L) oid = Some p \<longrightarrow>
          (\<exists>p'. bm_get (srl_operations L') oid = Some p'
             \<and> (p' = p \<or> sr_open (sop_result p) \<and> (\<exists>r. p' = p\<lparr>sop_result := Some r\<rparr>))))"

lemma sr_advances_refl: "sr_ledger_ok E L \<Longrightarrow> sr_advances E L L"
  by (auto simp: sr_advances_def intro: exI [of _ "sb_generation (srl_binding L)"])

lemma sr_advances_forwarding [simp]: "sr_advances E L (L'\<lparr>srl_forwarding := p\<rparr>) = sr_advances E L L'"
  by (simp add: sr_advances_def)

lemma sr_advances_with_start:
  assumes "sr_ledger_ok E L" and "start_ok (sr_codec_of E) (srl_binding L) m"
    and "canonical_request (sr_codec_of E) m = Inr digest"
    and "bm_get (srl_operations L) (sm_operation_id m) = None"
    and "bm_size (srl_operations L) < sr_operation_capacity (srl_config L)"
    and "\<And>r. result = Some r \<Longrightarrow> sr_result_ok (sr_codec_of E) (srl_binding (primed m L)) m r"
  shows "sr_advances E L (with_start digest m result (primed m L))"
proof -
  have "sr_ledger_ok E (with_start digest m result (primed m L))"
    by (rule with_start_ok) (use assms primed_ok(1) [OF assms(1,2)] in auto)
  with assms(4) primed_ok(2) [OF assms(1,2)] primed_binding [of m L] show ?thesis
    by (auto simp: sr_advances_def)
qed

lemma bare_reply_result_ok:
  assumes "start_ok C b m" and "ident_string 128 err" and "st \<in> {Rejected, Unknown}"
  shows "sr_result_ok C b' m (bare_reply m st err)"
proof -
  have "sm_observation m = None"
    using assms(1) by (auto simp: start_ok_def sr_validate_Inr sr_shape_ok_def validate_start_request_def checks)
  then show ?thesis using bare_reply_accepted [OF assms] by (simp add: sr_result_ok_def)
qed

lemma store_with_start:
  "set_sr_result (sm_operation_id m) r (with_start d m None L) = with_start d m (Some r) L"
  by (simp add: set_sr_result_def with_start_def)

lemma sr_advances_answered:
  assumes "sr_ledger_ok E L" and "start_ok (sr_codec_of E) (srl_binding L) m"
    and "canonical_request (sr_codec_of E) m = Inr digest"
    and "bm_get (srl_operations L) (sm_operation_id m) = None"
    and "bm_size (srl_operations L) < sr_operation_capacity (srl_config L)"
    and "accept_forwarded (sr_codec_of E) m r = Inr r"
  shows "sr_advances E L (advance_generation r (with_start digest m (Some r) (primed m L)))"
proof -
  let ?M = "with_start digest m None (primed m L)"
  have adv: "sr_advances E L ?M" using sr_advances_with_start [OF assms(1-5), of None] by simp
  have M: "sr_ledger_ok E ?M" "bm_get (srl_operations ?M) (sm_operation_id m) =
      Some \<lparr>sop_request_digest = digest, sop_request = m, sop_result = None\<rparr>"
    using adv by (simp_all add: sr_advances_def)
  note st = store_result_ok [OF M, simplified, OF assms(6), unfolded store_with_start]
  have "sb_generation (srl_binding L)
      \<le> sb_generation (srl_binding (advance_generation r (with_start digest m (Some r) (primed m L))))"
    using primed_ok(2) [OF assms(1,2)] st(2) by (auto intro: order_trans)
  moreover have "\<exists>g. srl_binding (advance_generation r (with_start digest m (Some r) (primed m L)))
      = (srl_binding L)\<lparr>sb_generation := g\<rparr>"
    using st(3) primed_binding [of m L] by auto
  ultimately show ?thesis using st(1) assms(4) by (auto simp: sr_advances_def)
qed

lemma move_forwarding:
  "with_start d m r (L\<lparr>srl_forwarding := p\<rparr>) = (with_start d m r L)\<lparr>srl_forwarding := p\<rparr>"
  "advance_generation s (L\<lparr>srl_forwarding := p\<rparr>) = (advance_generation s L)\<lparr>srl_forwarding := p\<rparr>"
  by (simp_all add: with_start_def advance_generation_def set_generation_def split: option.split)

lemma sr_advances_submit:
  assumes "submit_start_with_checkpoint E request checkpoint k L = (res, k', L')" and "sr_ledger_ok E L"
  shows "sr_advances E L L'"
  using assms(1)
proof (cases rule: submit_start_cases)
  case unchanged
  with assms(2) show ?thesis by (simp add: sr_advances_refl)
next
  case (stale digest c)
  show ?thesis unfolding stale(5)
    by (rule sr_advances_with_start [OF assms(2) stale(1-4)]) (use stale(1) in \<open>auto intro!: bare_reply_result_ok\<close>)
next
  case (unstored digest)
  with assms(2) primed_ok [OF assms(2) unstored(1)] primed_binding [of request L] show ?thesis
    by (auto simp: sr_advances_def)
next
  case (started digest k1 answer p)
  show ?thesis
  proof (cases "forward_outcome (sr_codec_of E) request answer")
    case (Inl e)
    with started sr_advances_with_start [OF assms(2) started(1-4), of None] show ?thesis by simp
  next
    case (Inr r)
    show ?thesis
      using started(8) Inr
        sr_advances_answered [OF assms(2) started(1-4) forward_outcome_accepted [OF Inr started(1)]]
      by (auto simp: move_forwarding)
  qed
qed

section \<open>Reconciliation\<close>

definition sr_read_only :: "('p, 'j) sr_env \<Rightarrow> 'p \<Rightarrow> 'p \<Rightarrow> bool" where
  "sr_read_only E p p' \<longleftrightarrow> p' = p \<or> (\<exists>q. p' = snd (read_seeded_run_receipt E p q))"

lemma accept_receipt_stored:
  assumes "sr_accept_receipt C original reconcile receipt = Inr r" and "start_ok C b original"
  shows "accept_forwarded C original (r\<lparr>sm_kind := StartResponse, sm_correlation_id := sm_correlation_id original\<rparr>)
    = Inr (r\<lparr>sm_kind := StartResponse, sm_correlation_id := sm_correlation_id original\<rparr>)"
proof -
  let ?s = "r\<lparr>sm_kind := StartResponse, sm_correlation_id := sm_correlation_id original\<rparr>"
  have r: "sr_common_ok C r" "sr_shape_ok r" "sm_kind r = ReconcileResponse"
    using assms(1) by (auto simp: sr_accept_receipt_def sr_validate_Inr checks split: if_splits)
  have "ident_string 128 (sm_correlation_id original)"
    using assms(2) by (simp add: start_ok_def sr_validate_Inr sr_common_ok_def)
  with r(1) have common: "sr_common_ok C ?s" by (simp add: sr_common_ok_def)
  have "sr_validate_result r = Inr ()" using r by (simp add: sr_shape_ok_def)
  then have shape: "sr_shape_ok ?s"
    by (auto simp: sr_shape_ok_def sr_validate_result_def no_evidence_def observation_context_matches_def checks
        split: option.splits sr_status.splits)
  have "sm_instance_id r = sm_instance_id original" "sm_session_id r = sm_session_id original"
      "sm_lease_id r = sm_lease_id original" "sm_lease_epoch r = sm_lease_epoch original"
      "sm_generation r = sm_generation original" "sm_operation_id r = sm_operation_id original"
      "sm_requested_seed r = sm_requested_seed original" "sm_run_mode r = sm_run_mode original"
      "sm_context_digest r = sm_context_digest original" "sm_selected_context r = sm_selected_context original"
    using assms(1) by (auto simp: sr_accept_receipt_def checks split: if_splits)
  moreover have "sr_validate C ?s = Inr ()" using common shape by (simp add: sr_validate_Inr)
  ultimately show ?thesis by (simp add: accept_forwarded_def)
qed

lemma sr_reconcile_cases:
  assumes "sr_reconcile E request L = (res, L')"
  obtains (unchanged) q where "sr_read_only E (srl_forwarding L) q" "L' = L\<lparr>srl_forwarding := q\<rparr>"
  | (settled) p q receipt r where "bm_get (srl_operations L) (sm_operation_id request) = Some p"
      "sr_open (sop_result p)" "sr_read_only E (srl_forwarding L) q"
      "sr_accept_receipt (sr_codec_of E) (sop_request p) request receipt = Inr r"
      "L' = (let stored = r\<lparr>sm_kind := StartResponse, sm_correlation_id := sm_correlation_id (sop_request p)\<rparr>
         in advance_generation stored (set_sr_result (sm_operation_id request) stored (L\<lparr>srl_forwarding := q\<rparr>)))"
proof -
  let ?q = "snd (read_seeded_run_receipt E (srl_forwarding L)
    \<lparr>srr_message = request, srr_operation_id = sm_operation_id request\<rparr>)"
  have ro: "sr_read_only E (srl_forwarding L) ?q" "sr_read_only E (srl_forwarding L) (srl_forwarding L)"
    by (auto simp: sr_read_only_def)
  consider "L' = L" | "L' = L\<lparr>srl_forwarding := ?q\<rparr>"
    | p receipt r where "bm_get (srl_operations L) (sm_operation_id request) = Some p" "sr_open (sop_result p)"
      "sr_accept_receipt (sr_codec_of E) (sop_request p) request receipt = Inr r"
      "L' = (let stored = r\<lparr>sm_kind := StartResponse, sm_correlation_id := sm_correlation_id (sop_request p)\<rparr>
         in advance_generation stored (set_sr_result (sm_operation_id request) stored (L\<lparr>srl_forwarding := ?q\<rparr>)))"
    using assms unfolding sr_reconcile_def
    by (fastforce simp: sr_open_def checks Let_def split: sum.splits prod.splits if_splits option.splits)
  then show thesis
    using ro unchanged settled by (cases; fastforce)
qed

lemma sr_advances_reconcile:
  assumes "sr_reconcile E request L = (res, L')" and "sr_ledger_ok E L"
  shows "sr_advances E L L' \<and> sr_read_only E (srl_forwarding L) (srl_forwarding L')"
  using assms(1)
proof (cases rule: sr_reconcile_cases)
  case (unchanged q)
  with assms(2) show ?thesis by (simp add: sr_advances_refl)
next
  case (settled p q receipt r)
  let ?L = "L\<lparr>srl_forwarding := q\<rparr>"
  have "start_ok (sr_codec_of E) (srl_binding L) (sop_request p)"
    using assms(2) settled(1) by (auto simp: sr_ledger_ok_def sr_operation_ok_def)
  note stored = accept_receipt_stored [OF settled(4) this]
  have "sr_ledger_ok E ?L" "bm_get (srl_operations ?L) (sm_operation_id request) = Some p"
    using assms(2) settled(1) by simp_all
  note st = store_result_ok [OF this stored]
  from settled(1-3,5) st show ?thesis by (auto simp: sr_advances_def Let_def)
qed

section \<open>Restoring\<close>

lemma sr_restore_result_sound:
  assumes "sr_restore_result C g m result = Inr r" and "start_ok C b m"
  shows "sr_result_ok C (b\<lparr>sb_generation := g\<rparr>) m r"
proof -
  have unknown: "sr_result_ok C (b\<lparr>sb_generation := g\<rparr>) m (bare_reply m Unknown ''restart_uncertain'')"
    using assms(2) by (intro bare_reply_result_ok) auto
  show ?thesis
  proof (cases "sr_unknown m ''restart_uncertain'' = Inr r")
    case True
    with unknown bare_replies(2) [OF assms(2)] show ?thesis by simp
  next
    case False
    with assms(1) have "result = Some r" "accept_forwarded C m r = Inr r"
        "\<not> (case sm_observation r of None \<Rightarrow> False | Some ob \<Rightarrow> g < sob_generation ob)"
      by (auto simp: sr_restore_result_def checks split: option.splits if_splits dest: accept_forwarded_Inr)
    then show ?thesis by (auto simp: sr_result_ok_def not_less)
  qed
qed

lemma sr_restore_loop_sound:
  assumes "sr_restore_loop C b g items acc = Inr m"
    and "\<And>oid p. bm_get acc oid = Some p \<Longrightarrow> sr_operation_ok C (b\<lparr>sb_generation := g\<rparr>) oid p"
  shows "(\<forall>oid p. bm_get m oid = Some p \<longrightarrow> sr_operation_ok C (b\<lparr>sb_generation := g\<rparr>) oid p)
    \<and> dom (bm_get m) = dom (bm_get acc) \<union> (\<lambda>i. sm_operation_id (spo_request i)) ` set items
    \<and> bm_size m = bm_size acc + length items"
  using assms
proof (induction items arbitrary: acc)
  case Nil
  then show ?case by auto
next
  case (Cons item items)
  let ?m = "spo_request item"
  obtain digest result where it: "start_ok C b ?m" "bm_get acc (sm_operation_id ?m) = None"
      "canonical_request C ?m = Inr digest" "sr_restore_result C g ?m (spo_result item) = Inr result"
      "sr_restore_loop C b g items (bm_insert (sm_operation_id ?m)
        \<lparr>sop_request_digest = digest, sop_request = ?m, sop_result = Some result\<rparr> acc) = Inr m"
    using Cons.prems(1) by (auto simp: checks validate_message_def start_ok_def)
  have "sr_operation_ok C (b\<lparr>sb_generation := g\<rparr>) (sm_operation_id ?m)
      \<lparr>sop_request_digest = digest, sop_request = ?m, sop_result = Some result\<rparr>"
    using it(1,3) sr_restore_result_sound [OF it(4,1)] by (simp add: sr_operation_ok_def)
  with Cons.prems(2) have "(\<forall>oid p. bm_get m oid = Some p \<longrightarrow> sr_operation_ok C (b\<lparr>sb_generation := g\<rparr>) oid p)
      \<and> dom (bm_get m) = dom (bm_get (bm_insert (sm_operation_id ?m)
          \<lparr>sop_request_digest = digest, sop_request = ?m, sop_result = Some result\<rparr> acc))
        \<union> (\<lambda>i. sm_operation_id (spo_request i)) ` set items
      \<and> bm_size m = bm_size (bm_insert (sm_operation_id ?m)
          \<lparr>sop_request_digest = digest, sop_request = ?m, sop_result = Some result\<rparr> acc) + length items"
    by (intro Cons.IH [OF it(5)]) (auto split: if_splits)
  then show ?case using it(2) by (auto simp: dom_def bm_size_insert split: if_splits)
qed

definition sr_stored_ids :: "sr_persisted_state option \<Rightarrow> string set" where
  "sr_stored_ids stored = (case stored of None \<Rightarrow> {}
     | Some s \<Rightarrow> (\<lambda>i. sm_operation_id (spo_request i)) ` set (sps_operations s))"

text \<open>Whatever state a restore accepts, the ledger that comes out meets the invariant.\<close>

lemma sr_restore_sound:
  assumes "sr_restore_state E s L = (Inr (), L')"
  shows "sr_ledger_ok E L'" and "dom (bm_get (srl_operations L')) = sr_stored_ids (Some s)"
    and "srl_config L' = srl_config L" and "srl_forwarding L' = srl_forwarding L"
proof -
  let ?b = "sps_binding s"
  obtain m where b: "sr_binding_ok ?b" "sb_instance_id ?b = sb_instance_id (srl_binding L)"
      "sb_session_id ?b = sb_session_id (srl_binding L)" "sb_lease_id ?b = sb_lease_id (srl_binding L)"
      "sb_lease_epoch ?b = sb_lease_epoch (srl_binding L)"
      "length (sps_operations s) \<le> sr_operation_capacity (srl_config L)"
    and m: "sr_restore_loop (sr_codec_of E) (srl_binding L) (sb_generation ?b) (sps_operations s) bm_empty = Inr m"
    and L': "L' = (set_generation (sb_generation ?b) L)\<lparr>srl_operations := m\<rparr>"
    using assms
    by (auto simp: sr_restore_state_def Let_def sr_binding_new_Inr sr_binding_ok_def not_less
        split: sum.splits if_splits)
  have ops: "\<forall>oid p. bm_get m oid = Some p \<longrightarrow>
        sr_operation_ok (sr_codec_of E) ((srl_binding L)\<lparr>sb_generation := sb_generation ?b\<rparr>) oid p"
      "dom (bm_get m) = (\<lambda>i. sm_operation_id (spo_request i)) ` set (sps_operations s)"
      "bm_size m = length (sps_operations s)"
    using sr_restore_loop_sound [OF m] by (simp_all add: dom_def)
  have "sr_binding_ok ((srl_binding L)\<lparr>sb_generation := sb_generation ?b\<rparr>)"
    using b(1-5) by (simp add: sr_binding_ok_def)
  with ops b(6) L' show "sr_ledger_ok E L'" "dom (bm_get (srl_operations L')) = sr_stored_ids (Some s)"
    "srl_config L' = srl_config L" "srl_forwarding L' = srl_forwarding L"
    by (simp_all add: sr_ledger_ok_def sr_stored_ids_def)
qed

text \<open>What becomes of an operation in a restart.\<close>

definition sr_restored :: "sr_operation \<Rightarrow> sr_operation" where
  "sr_restored p = p\<lparr>sop_result := Some (case sop_result p of
     None \<Rightarrow> bare_reply (sop_request p) Unknown ''restart_uncertain''
   | Some r \<Rightarrow> if sm_status r = Some Accepted then bare_reply (sop_request p) Unknown ''restart_uncertain'' else r)\<rparr>"

lemma sr_restored_result:
  "\<exists>r. sr_restored p = p\<lparr>sop_result := Some r\<rparr>
     \<and> (if sop_result p = None \<or> (\<exists>m. sop_result p = Some m \<and> sm_status m = Some Accepted)
        then sm_status r = Some Unknown \<and> sm_error_code r = Some ''restart_uncertain'' else sop_result p = Some r)"
proof (cases "sop_result p = None \<or> (\<exists>m. sop_result p = Some m \<and> sm_status m = Some Accepted)")
  case True
  then show ?thesis
    by (intro exI [of _ "bare_reply (sop_request p) Unknown ''restart_uncertain''"])
      (auto simp: sr_restored_def bare_reply_def)
next
  case False
  then show ?thesis by (auto simp: sr_restored_def)
qed

definition start_responses :: "'p sr_ledger \<Rightarrow> bool" where
  "start_responses L \<longleftrightarrow> (\<forall>oid p r. bm_get (srl_operations L) oid = Some p \<longrightarrow> sop_result p = Some r \<longrightarrow>
     sm_kind r = StartResponse)"

lemma sr_restore_result_complete:
  assumes "sr_operation_ok C b oid p" and "\<And>r. sop_result p = Some r \<Longrightarrow> sm_kind r = StartResponse"
  shows "\<exists>r. sr_restore_result C (sb_generation b) (sop_request p) (sop_result p) = Inr r
    \<and> p\<lparr>sop_result := Some r\<rparr> = sr_restored p"
proof (cases "sop_result p")
  case None
  with assms(1) show ?thesis
    by (auto simp: sr_restore_result_def sr_restored_def sr_operation_ok_def bare_replies(2))
next
  case (Some r)
  with assms have "accept_forwarded C (sop_request p) r = Inr r" "start_ok C b (sop_request p)"
      "\<not> (sm_kind r \<noteq> StartResponse \<or> (case sm_observation r of None \<Rightarrow> False | Some ob \<Rightarrow> sb_generation b < sob_generation ob))"
    by (auto simp: sr_operation_ok_def sr_result_ok_def not_less split: option.splits)
  then have "sr_restore_result C (sb_generation b) (sop_request p) (sop_result p) =
      (if sm_status r = Some Accepted then Inr (bare_reply (sop_request p) Unknown ''restart_uncertain'') else Inr r)"
    using Some by (simp add: sr_restore_result_def ensure_def bare_replies(2))
  with Some show ?thesis by (auto simp: sr_restored_def)
qed

lemma sr_restore_loop_complete:
  assumes "\<And>oid p. (oid, p) \<in> set xs \<Longrightarrow> sr_operation_ok C b oid p \<and> bm_get acc oid = None
      \<and> (\<forall>r. sop_result p = Some r \<longrightarrow> sm_kind r = StartResponse)"
    and "distinct (map fst xs)" and "b' = b\<lparr>sb_generation := g\<rparr>"
  shows "\<exists>m. sr_restore_loop C b' (sb_generation b)
      (map (\<lambda>(oid, p). \<lparr>spo_request = sop_request p, spo_result = sop_result p\<rparr>) xs) acc = Inr m
    \<and> (\<forall>oid. bm_get m oid = (case map_of xs oid of Some p \<Rightarrow> Some (sr_restored p) | None \<Rightarrow> bm_get acc oid))"
  using assms(1,2)
proof (induction xs arbitrary: acc)
  case Nil
  then show ?case by simp
next
  case (Cons x xs)
  obtain oid p where x: "x = (oid, p)" by (cases x)
  have p: "sr_operation_ok C b oid p" "bm_get acc oid = None" "\<And>r. sop_result p = Some r \<Longrightarrow> sm_kind r = StartResponse"
    using Cons.prems(1) [of oid p] x by auto
  obtain r where r: "sr_restore_result C (sb_generation b) (sop_request p) (sop_result p) = Inr r"
      "p\<lparr>sop_result := Some r\<rparr> = sr_restored p"
    using sr_restore_result_complete [OF p(1,3)] by auto
  have step: "sr_restore_loop C b' (sb_generation b)
      (map (\<lambda>(oid, p). \<lparr>spo_request = sop_request p, spo_result = sop_result p\<rparr>) (x # xs)) acc =
      sr_restore_loop C b' (sb_generation b)
      (map (\<lambda>(oid, p). \<lparr>spo_request = sop_request p, spo_result = sop_result p\<rparr>) xs) (bm_insert oid (sr_restored p) acc)"
    using p(1,2) r(1) x assms(3) unfolding r(2) [symmetric]
    by (cases p) (auto simp: sr_operation_ok_def start_ok_def validate_message_def binding_matches_def ensure_def)
  have "\<exists>m. sr_restore_loop C b' (sb_generation b)
      (map (\<lambda>(oid, p). \<lparr>spo_request = sop_request p, spo_result = sop_result p\<rparr>) xs) (bm_insert oid (sr_restored p) acc) = Inr m
    \<and> (\<forall>k. bm_get m k = (case map_of xs k of Some p \<Rightarrow> Some (sr_restored p)
         | None \<Rightarrow> bm_get (bm_insert oid (sr_restored p) acc) k))"
    using Cons.prems x by (intro Cons.IH) force+
  then obtain m where m: "sr_restore_loop C b' (sb_generation b)
      (map (\<lambda>(oid, p). \<lparr>spo_request = sop_request p, spo_result = sop_result p\<rparr>) xs) (bm_insert oid (sr_restored p) acc) = Inr m"
    "\<forall>k. bm_get m k = (case map_of xs k of Some p \<Rightarrow> Some (sr_restored p)
         | None \<Rightarrow> bm_get (bm_insert oid (sr_restored p) acc) k)" by blast
  have "map_of xs oid = None" using Cons.prems(2) x by (simp add: map_of_eq_None_iff)
  with m(2) have "\<forall>k. bm_get m k = (case map_of (x # xs) k of Some p \<Rightarrow> Some (sr_restored p) | None \<Rightarrow> bm_get acc k)"
    by (auto simp: x split: option.splits)
  with m(1) show ?case unfolding step by blast
qed

lemma sr_restore_complete:
  assumes "sr_ledger_ok E D" and "start_responses D" and "srl_config L = srl_config D"
    and "srl_binding L = (srl_binding D)\<lparr>sb_generation := g\<rparr>" and "g \<le> sb_generation (srl_binding D)"
  shows "\<exists>L'. sr_restore_state E (sr_persisted_state_of D) L = (Inr (), L')
    \<and> srl_binding L' = srl_binding D
    \<and> (\<forall>oid. bm_get (srl_operations L') oid = map_option sr_restored (bm_get (srl_operations D) oid))"
proof -
  let ?b = "srl_binding D"
  let ?xs = "bm_entries (srl_operations D)"
  have "\<exists>m. sr_restore_loop (sr_codec_of E) (srl_binding L) (sb_generation ?b)
      (map (\<lambda>(oid, p). \<lparr>spo_request = sop_request p, spo_result = sop_result p\<rparr>) ?xs) bm_empty = Inr m
    \<and> (\<forall>oid. bm_get m oid = (case map_of ?xs oid of Some p \<Rightarrow> Some (sr_restored p) | None \<Rightarrow> bm_get bm_empty oid))"
    using assms(1,2) bm.entries_distinct_keys [of "srl_operations D"]
    by (intro sr_restore_loop_complete [OF _ _ assms(4)])
      (auto simp: bm.entries_get sr_ledger_ok_def start_responses_def)
  then obtain m where m: "sr_restore_loop (sr_codec_of E) (srl_binding L) (sb_generation ?b)
      (map (\<lambda>(oid, p). \<lparr>spo_request = sop_request p, spo_result = sop_result p\<rparr>) ?xs) bm_empty = Inr m"
      "\<forall>oid. bm_get m oid = (case map_of ?xs oid of Some p \<Rightarrow> Some (sr_restored p) | None \<Rightarrow> bm_get bm_empty oid)"
    by blast
  have rest: "bm_get m oid = map_option sr_restored (bm_get (srl_operations D) oid)" for oid
    using spec [OF m(2), of oid] by (cases "map_of ?xs oid") (simp_all add: bm_get_map_of [of "srl_operations D"])
  have ops: "sps_operations (sr_persisted_state_of D) =
      map (\<lambda>(oid, p). \<lparr>spo_request = sop_request p, spo_result = sop_result p\<rparr>) ?xs"
    by (simp add: sr_persisted_state_of_def bm_values_def split_def)
  have new: "sr_binding_new (sb_instance_id ?b) (sb_session_id ?b) (sb_lease_id ?b) (sb_lease_epoch ?b)
      (sb_generation ?b) = Inr ?b"
    using assms(1) by (cases ?b) (simp add: sr_binding_new_Inr sr_ledger_ok_def)
  have "sps_binding (sr_persisted_state_of D) = ?b" by (simp add: sr_persisted_state_of_def)
  moreover have "length ?xs \<le> sr_operation_capacity (srl_config L)"
    using assms(1,3) by (simp add: sr_ledger_ok_def bm_size_def)
  ultimately have "sr_restore_state E (sr_persisted_state_of D) L =
      (Inr (), (set_generation (sb_generation ?b) L)\<lparr>srl_operations := m\<rparr>)"
    using m(1) assms(4,5) by (simp add: sr_restore_state_def Let_def new ops not_less not_le del: map_map)
  then show ?thesis using rest assms(4) by simp
qed

section \<open>The ledger with its checkpoint store\<close>

inductive sr_step :: "('p, 'j) sr_env \<Rightarrow> ('p, 'k) sr_checkpoint \<Rightarrow> 'p sr_ledger \<times> 'k \<Rightarrow> 'p sr_ledger \<times> 'k \<Rightarrow> bool"
  for E checkpoint where
  starts: "submit_start_with_checkpoint E request checkpoint k L = (r, k', L') \<Longrightarrow> sr_step E checkpoint (L, k) (L', k')"
| reconciles: "sr_reconcile E request L = (r, L') \<Longrightarrow> sr_step E checkpoint (L, k) (L', k)"

text \<open>
  A restart: a new ledger of the same configuration and identity, with any first generation, restores
  what the store holds; when that fails the gateway does not come up and no step is taken.
\<close>

definition sr_rebooted :: "u64 \<Rightarrow> 'p sr_ledger \<Rightarrow> 'p sr_ledger" where
  "sr_rebooted g L = (set_generation g L)\<lparr>srl_operations := bm_empty\<rparr>"

inductive sr_durable_step :: "('p, 'j) sr_env \<Rightarrow> ('p, 'k) sr_checkpoint \<Rightarrow> ('k \<Rightarrow> sr_persisted_state option)
    \<Rightarrow> 'p sr_ledger \<times> 'k \<Rightarrow> 'p sr_ledger \<times> 'k \<Rightarrow> bool" for E checkpoint disk where
  operates: "sr_step E checkpoint s t \<Longrightarrow> sr_durable_step E checkpoint disk s t"
| restarts_empty: "disk k = None \<Longrightarrow> g \<le> SEEDED_RUN_MAX_GENERATION \<Longrightarrow>
    sr_durable_step E checkpoint disk (L, k) (sr_rebooted g L, k)"
| restarts: "disk k = Some stored \<Longrightarrow> sr_restore_state E stored (sr_rebooted g L) = (Inr (), L') \<Longrightarrow>
    sr_durable_step E checkpoint disk (L, k) (L', k)"

definition sr_durable :: "('p, 'k) sr_checkpoint \<Rightarrow> ('k \<Rightarrow> sr_persisted_state option) \<Rightarrow> bool" where
  "sr_durable checkpoint disk \<longleftrightarrow> (\<forall>k L. case checkpoint k L of
     (Inr _, k') \<Rightarrow> disk k' = Some (sr_persisted_state_of L)
   | (Inl _, k') \<Rightarrow> disk k' = disk k \<or> disk k' = Some (sr_persisted_state_of L))"

lemma sr_durableD:
  assumes "sr_durable checkpoint disk" and "checkpoint k L = (c, k')"
  shows "disk k' = Some (sr_persisted_state_of L) \<or> is_err c \<and> disk k' = disk k"
  using assms by (cases c) (auto simp: sr_durable_def dest!: spec [of _ k] spec [of _ L])

text \<open>A port that also records the starts it was asked to forward.\<close>

definition sr_recording :: "('p, 'j) sr_env \<Rightarrow> ('p \<times> sr_message list, 'j) sr_env" where
  "sr_recording E = \<lparr>sr_codec_of = sr_codec_of E,
     forward_seeded_run = (\<lambda>(p, ms) m. case forward_seeded_run E p m of (a, p') \<Rightarrow> (a, (p', ms @ [m]))),
     read_seeded_run_receipt = (\<lambda>(p, ms) q. case read_seeded_run_receipt E p q of (a, p') \<Rightarrow> (a, (p', ms)))\<rparr>"

lemma sr_recording_read_only: "sr_read_only (sr_recording E) p p' \<Longrightarrow> snd p' = snd p"
  by (cases p) (auto simp: sr_read_only_def sr_recording_def split_def)

lemma sr_recording_forward: "forward_seeded_run (sr_recording E) p m = (a, p') \<Longrightarrow> snd p' = snd p @ [m]"
  by (cases p) (auto simp: sr_recording_def split: prod.splits)

definition started :: "('p \<times> sr_message list) sr_ledger \<Rightarrow> string list" where
  "started L = map sm_operation_id (snd (srl_forwarding L))"

lemma submit_start_log:
  assumes "submit_start_with_checkpoint (sr_recording E) request checkpoint k L = (res, k', L')"
  shows "snd (srl_forwarding L') = snd (srl_forwarding L) @
      (if may_start (sr_recording E) checkpoint k L request then [request] else [])"
  using assms
proof (cases rule: submit_start_cases)
  case (started digest k1 answer p)
  with sr_recording_forward [OF started(6)] show ?thesis by (auto split: sum.splits)
qed auto

lemma sr_stored_persisted:
  assumes "sr_ledger_ok E L"
  shows "sr_stored_ids (Some (sr_persisted_state_of L)) = dom (bm_get (srl_operations L))"
proof -
  have "oid \<in> sr_stored_ids (Some (sr_persisted_state_of L)) \<longleftrightarrow>
      (\<exists>oid' p. bm_get (srl_operations L) oid' = Some p \<and> sm_operation_id (sop_request p) = oid)" for oid
    unfolding sr_stored_ids_def sr_persisted_state_of_def
    by (simp add: image_iff Bex_def [of "set (bm_values _)"] set_bm_values) blast
  moreover have "sm_operation_id (sop_request p) = oid" if "bm_get (srl_operations L) oid = Some p" for oid p
    using assms that by (auto simp: sr_ledger_ok_def sr_operation_ok_def)
  ultimately show ?thesis by (intro set_eqI iffI) (metis domI, metis domD)
qed

definition sr_system_ok :: "('p, 'j) sr_env \<Rightarrow> ('p, 'k) sr_checkpoint \<Rightarrow> ('k \<Rightarrow> sr_persisted_state option)
    \<Rightarrow> 'p sr_ledger \<times> 'k \<Rightarrow> bool" where
  "sr_system_ok E checkpoint disk s \<longleftrightarrow> sr_durable checkpoint disk \<and> sr_ledger_ok E (fst s)"

definition sr_safe_ids :: "('k \<Rightarrow> sr_persisted_state option) \<Rightarrow> 'p sr_ledger \<times> 'k \<Rightarrow> string set" where
  "sr_safe_ids disk s = dom (bm_get (srl_operations (fst s))) \<inter> sr_stored_ids (disk (snd s))"

lemma sr_checkpoint_durable:
  assumes "sr_durable checkpoint disk" and "checkpoint k X = (c, k')" and "sr_ledger_ok E X"
  shows "sr_stored_ids (disk k') = dom (bm_get (srl_operations X)) \<or> is_err c \<and> sr_stored_ids (disk k') = sr_stored_ids (disk k)"
  using sr_durableD [OF assms(1,2)] sr_stored_persisted [OF assms(3)] by auto

lemma submit_start_durable:
  assumes "submit_start_with_checkpoint E request checkpoint k L = (res, k', L')"
    and "sr_ledger_ok E L" and "sr_durable checkpoint disk"
  shows "dom (bm_get (srl_operations L)) \<inter> sr_stored_ids (disk k) \<subseteq> sr_stored_ids (disk k')"
    and "may_start E checkpoint k L request \<Longrightarrow> sm_operation_id request \<notin> dom (bm_get (srl_operations L))
      \<and> sm_operation_id request \<in> dom (bm_get (srl_operations L')) \<inter> sr_stored_ids (disk k')"
proof -
  have ok: "sr_ledger_ok E L'" using sr_advances_submit [OF assms(1,2)] by (simp add: sr_advances_def)
  have "dom (bm_get (srl_operations L)) \<inter> sr_stored_ids (disk k) \<subseteq> sr_stored_ids (disk k')
    \<and> (may_start E checkpoint k L request \<longrightarrow> sm_operation_id request \<notin> dom (bm_get (srl_operations L))
      \<and> sm_operation_id request \<in> dom (bm_get (srl_operations L')) \<inter> sr_stored_ids (disk k'))"
    using assms(1)
  proof (cases rule: submit_start_cases)
    case unchanged
    then show ?thesis by simp
  next
    case (stale digest c)
    have "dom (bm_get (srl_operations L')) = insert (sm_operation_id request) (dom (bm_get (srl_operations L)))"
      unfolding stale(5) by (auto simp: dom_def)
    with sr_checkpoint_durable [OF assms(3) stale(6) ok] stale(7) show ?thesis by auto
  next
    case (unstored digest)
    let ?X = "with_start digest request None (primed request L)"
    have "sr_ledger_ok E ?X"
      using sr_advances_with_start [OF assms(2) unstored(1-4), of None] by (simp add: sr_advances_def)
    moreover have "dom (bm_get (srl_operations ?X)) = insert (sm_operation_id request) (dom (bm_get (srl_operations L)))"
      by (auto simp: dom_def)
    ultimately show ?thesis using sr_checkpoint_durable [OF assms(3) unstored(5)] unstored(7) by auto
  next
    case (started digest k1 answer p)
    let ?X = "with_start digest request None (primed request L)"
    have X: "sr_ledger_ok E ?X" "dom (bm_get (srl_operations ?X)) = insert (sm_operation_id request) (dom (bm_get (srl_operations L)))"
      using sr_advances_with_start [OF assms(2) started(1-4), of None] by (auto simp: sr_advances_def dom_def)
    then have k1: "sr_stored_ids (disk k1) = insert (sm_operation_id request) (dom (bm_get (srl_operations L)))"
      using sr_checkpoint_durable [OF assms(3) started(5)] by auto
    have "dom (bm_get (srl_operations L')) = insert (sm_operation_id request) (dom (bm_get (srl_operations L)))
        \<and> sr_stored_ids (disk k') = insert (sm_operation_id request) (dom (bm_get (srl_operations L)))"
    proof (cases "forward_outcome (sr_codec_of E) request answer")
      case (Inl e)
      with started(8) k1 X(2) show ?thesis by simp
    next
      case (Inr r)
      with started(8) obtain c where L': "L' = advance_generation r
             (with_start digest request (Some r) ((primed request L)\<lparr>srl_forwarding := p\<rparr>))" "checkpoint k1 L' = (c, k')"
        by auto
      then have "dom (bm_get (srl_operations L')) = insert (sm_operation_id request) (dom (bm_get (srl_operations L)))"
        by (auto simp: dom_def)
      with sr_checkpoint_durable [OF assms(3) L'(2) ok] k1 show ?thesis by auto
    qed
    with started(3) show ?thesis by (auto simp: domIff)
  qed
  then show "dom (bm_get (srl_operations L)) \<inter> sr_stored_ids (disk k) \<subseteq> sr_stored_ids (disk k')"
    and "may_start E checkpoint k L request \<Longrightarrow> sm_operation_id request \<notin> dom (bm_get (srl_operations L))
      \<and> sm_operation_id request \<in> dom (bm_get (srl_operations L')) \<inter> sr_stored_ids (disk k')"
    by blast+
qed

lemma sr_step_advances:
  assumes "sr_step E checkpoint s t" and "sr_ledger_ok E (fst s)"
  shows "sr_advances E (fst s) (fst t)"
  using assms by cases (auto dest: sr_advances_submit sr_advances_reconcile)

lemma sr_advances_dom: "sr_advances E L L' \<Longrightarrow> dom (bm_get (srl_operations L)) \<subseteq> dom (bm_get (srl_operations L'))"
  by (fastforce simp: sr_advances_def dom_def)

lemma sr_durable_step_ok:
  assumes "sr_durable_step (sr_recording E) checkpoint disk s t" and "sr_system_ok (sr_recording E) checkpoint disk s"
  shows "sr_system_ok (sr_recording E) checkpoint disk t \<and> sr_safe_ids disk s \<subseteq> sr_safe_ids disk t
    \<and> (started (fst t) = started (fst s) \<or> (\<exists>oid. started (fst t) = started (fst s) @ [oid]
         \<and> oid \<notin> sr_safe_ids disk s \<and> oid \<in> sr_safe_ids disk t))"
  using assms(1)
proof cases
  case operates
  have ok: "sr_ledger_ok (sr_recording E) (fst s)" "sr_durable checkpoint disk"
    using assms(2) by (simp_all add: sr_system_ok_def)
  have adv: "sr_advances (sr_recording E) (fst s) (fst t)" using operates ok(1) by (rule sr_step_advances)
  from operates show ?thesis
  proof cases
    case (starts request k L r k' L')
    have "sr_ledger_ok (sr_recording E) L" using ok(1) starts by simp
    note d = submit_start_durable [OF starts(3) this ok(2)]
    show ?thesis
      using d submit_start_log [OF starts(3)] adv ok(2) sr_advances_dom [OF adv] starts(1,2)
      by (cases "may_start (sr_recording E) checkpoint k L request")
        (auto simp: sr_system_ok_def sr_safe_ids_def started_def sr_advances_def)
  next
    case (reconciles request L r L' k)
    have "sr_ledger_ok (sr_recording E) L" using ok(1) reconciles by simp
    from sr_recording_read_only [OF conjunct2 [OF sr_advances_reconcile [OF reconciles(3) this]]]
    show ?thesis
      using adv ok(2) sr_advances_dom [OF adv] reconciles(1,2)
      by (auto simp: sr_system_ok_def sr_safe_ids_def started_def sr_advances_def)
  qed
next
  case (restarts_empty k g L)
  with assms(2) show ?thesis
    by (auto simp: sr_system_ok_def sr_safe_ids_def sr_stored_ids_def started_def sr_rebooted_def sr_ledger_ok_def
        sr_binding_ok_def)
next
  case (restarts k stored g L L')
  note snd = sr_restore_sound [OF restarts(4)]
  from assms(2) restarts snd show ?thesis
    by (auto simp: sr_system_ok_def sr_safe_ids_def started_def sr_rebooted_def)
qed

interpretation sr_dispatch: at_most_once "sr_durable_step (sr_recording E) checkpoint disk"
  "sr_system_ok (sr_recording E) checkpoint disk" "\<lambda>s. started (fst s)" "sr_safe_ids disk"
  for E checkpoint disk
  by unfold_locales (auto dest: sr_durable_step_ok)

interpretation sr_run: step_monotone "sr_step E checkpoint" "\<lambda>s. sr_ledger_ok E (fst s)"
  "\<lambda>s. sb_generation (srl_binding (fst s))" for E checkpoint
  by unfold_locales (auto dest!: sr_step_advances simp: sr_advances_def)

definition sr_final :: "('p, 'j) sr_env \<Rightarrow> string \<Rightarrow> sr_operation \<Rightarrow> 'p sr_ledger \<Rightarrow> bool" where
  "sr_final E oid p L \<longleftrightarrow> sr_ledger_ok E L \<and> bm_get (srl_operations L) oid = Some p \<and> \<not> sr_open (sop_result p)"

lemma sr_final_step: "sr_step E checkpoint s t \<Longrightarrow> sr_final E oid p (fst s) \<Longrightarrow> sr_final E oid p (fst t)"
  using sr_step_advances [of E checkpoint s t] unfolding sr_final_def sr_advances_def by (metis option.inject)

interpretation sr_final_run: step_invariant "sr_step E checkpoint" "\<lambda>s. sr_final E oid p (fst s)"
  for E checkpoint oid p
  by unfold_locales (rule sr_final_step)

interpretation sr_config_run: step_invariant "sr_step E checkpoint"
  "\<lambda>s. sr_ledger_ok E (fst s) \<and> srl_config (fst s) = config" for E checkpoint config
  by unfold_locales (auto dest!: sr_step_advances simp: sr_advances_def)

text \<open>
  A ledger under all its public operations: starts, reconciliations and the restore of any persisted
  state, genuine or not.
\<close>

inductive sr_open_step :: "('p, 'j) sr_env \<Rightarrow> ('p, 'k) sr_checkpoint \<Rightarrow> 'p sr_ledger \<times> 'k \<Rightarrow> 'p sr_ledger \<times> 'k \<Rightarrow> bool"
  for E checkpoint where
  runs: "sr_step E checkpoint s t \<Longrightarrow> sr_open_step E checkpoint s t"
| restores: "sr_restore_state E stored L = (r, L') \<Longrightarrow> sr_open_step E checkpoint (L, k) (L', k)"

lemma sr_restore_keeps:
  assumes "sr_restore_state E stored L = (r, L')" and "sr_ledger_ok E L"
  shows "sr_ledger_ok E L' \<and> srl_config L' = srl_config L"
proof (cases r)
  case (Inr u)
  with assms(1) have "sr_restore_state E stored L = (Inr (), L')" by simp
  from sr_restore_sound(1,3) [OF this] show ?thesis by simp
next
  case (Inl e)
  with assms show ?thesis by (auto simp: sr_restore_state_def Let_def split: if_splits sum.splits)
qed

interpretation sr_open_run: step_invariant "sr_open_step E checkpoint"
  "\<lambda>s. sr_ledger_ok E (fst s) \<and> srl_config (fst s) = config" for E checkpoint config
  by unfold_locales (auto elim!: sr_open_step.cases dest!: sr_step_advances sr_restore_keeps simp: sr_advances_def)

text \<open>A restore accepts only start responses as results.\<close>

lemma sr_restore_loop_kinds:
  assumes "sr_restore_loop C b g items acc = Inr m" and "item \<in> set items" and "spo_result item = Some r"
  shows "sm_kind r = StartResponse"
  using assms by (induction items arbitrary: acc) (auto simp: checks sr_restore_result_def)

lemma sr_restore_needs_start_responses:
  assumes "\<not> start_responses D"
  shows "is_err (fst (sr_restore_state E (sr_persisted_state_of D) L))"
proof -
  obtain oid p r where p: "bm_get (srl_operations D) oid = Some p" "sop_result p = Some r" "sm_kind r \<noteq> StartResponse"
    using assms by (auto simp: start_responses_def)
  have "p \<in> set (bm_values (srl_operations D))" using p(1) bm_get_map_of [of "srl_operations D"]
    by (force simp: bm_values_def dest: map_of_SomeD)
  then have "\<lparr>spo_request = sop_request p, spo_result = Some r\<rparr> \<in> set (sps_operations (sr_persisted_state_of D))"
    using p(2) by (force simp: sr_persisted_state_of_def)
  with sr_restore_loop_kinds [of _ _ _ "sps_operations (sr_persisted_state_of D)"] p(3) show ?thesis
    by (fastforce simp: sr_restore_state_def Let_def split: sum.splits)
qed

text \<open>An operation without a result keeps none until a restart.\<close>

definition sr_pending :: "string \<Rightarrow> 'p sr_ledger \<Rightarrow> bool" where
  "sr_pending oid L \<longleftrightarrow> (\<exists>p. bm_get (srl_operations L) oid = Some p \<and> sop_result p = None)"

lemma sr_pending_errors:
  assumes "sr_pending (sm_operation_id m) L"
  shows "is_err (fst (submit_start_with_checkpoint E m checkpoint k L)) \<and> is_err (fst (sr_reconcile E m L))"
  using assms by (auto simp: sr_pending_def submit_start_with_checkpoint_def sr_reconcile_def checks split: sum.splits)

lemma sr_pending_step:
  assumes "sr_step E checkpoint s t" and "sr_pending oid (fst s)"
  shows "sr_pending oid (fst t)"
  using assms(1)
proof cases
  case (starts request k L r k' L')
  from starts(3) show ?thesis
  proof (cases rule: submit_start_cases)
    case (started digest k1 answer p)
    then show ?thesis using starts assms(2)
      by (auto simp: sr_pending_def with_start_def split: sum.splits)
  qed (use starts assms(2) in \<open>auto simp: sr_pending_def with_start_def\<close>)
next
  case (reconciles request L r L' k)
  from reconciles(3) show ?thesis
    using reconciles assms(2)
    by (auto simp: sr_pending_def sr_reconcile_def checks Let_def split: sum.splits if_splits prod.splits option.splits)
qed

interpretation sr_pending_run: step_invariant "sr_step E checkpoint" "\<lambda>s. sr_pending oid (fst s)"
  for E checkpoint oid
  by unfold_locales (rule sr_pending_step)

text \<open>
  What was retained as an operation's answer stays, unless it was open and a reconciliation replaced
  it by a receipt, which is stored as a start response.
\<close>

definition sr_answer_kept :: "string \<Rightarrow> sr_message \<Rightarrow> 'p sr_ledger \<Rightarrow> bool" where
  "sr_answer_kept oid answer L \<longleftrightarrow> (\<exists>p r. bm_get (srl_operations L) oid = Some p \<and> sop_result p = Some r
     \<and> (r = answer \<or> sm_status answer \<in> {Some Accepted, Some Unknown} \<and> sm_kind r = StartResponse))"

lemma sr_answer_kept_step:
  assumes "sr_step E checkpoint s t" and "sr_answer_kept oid answer (fst s)"
  shows "sr_answer_kept oid answer (fst t)"
  using assms(1)
proof cases
  case (starts request k L r k' L')
  from starts(3) show ?thesis
  proof (cases rule: submit_start_cases)
    case (started digest k1 a p)
    then show ?thesis using starts assms(2)
      by (auto simp: sr_answer_kept_def with_start_def split: sum.splits)
  qed (use starts assms(2) in \<open>auto simp: sr_answer_kept_def with_start_def\<close>)
next
  case (reconciles request L r L' k)
  from reconciles(3) show ?thesis
    using reconciles assms(2)
    by (auto simp: sr_answer_kept_def sr_reconcile_def checks Let_def split: sum.splits if_splits prod.splits option.splits)
qed

interpretation sr_answer_run: step_invariant "sr_step E checkpoint" "\<lambda>s. sr_answer_kept oid answer (fst s)"
  for E checkpoint oid answer
  by unfold_locales (rule sr_answer_kept_step)

end
