(* ===== verification/Seeded_Run_Properties.thy ===== *)
theory Seeded_Run_Properties
  imports Seeded_Run_Recovery
begin

text \<open>
  The properties of the seeded-run ledger, and a small concrete deployment at which their hypotheses
  hold.
\<close>

section \<open>A concrete deployment\<close>

text \<open>A codec whose digest is always 32 zero bytes, and a host that answers as told.\<close>

definition demo_codec :: "unit sr_codec" where
  "demo_codec = \<lparr>message_to_vec = (\<lambda>m. Inr [ucast (sm_generation m)]), digest_input_to_vec = (\<lambda>_. Inr []),
     sha256_digest = (\<lambda>_. replicate 32 0)\<rparr>"

definition demo_host :: "(sr_message \<Rightarrow> sr_transport_fault + sr_message) \<Rightarrow> (unit, unit) sr_env" where
  "demo_host answer = \<lparr>sr_codec_of = demo_codec, forward_seeded_run = (\<lambda>p m. (answer m, p)),
     read_seeded_run_receipt = (\<lambda>p q. (Inr None, p))\<rparr>"

definition demo_digest :: string where
  "demo_digest = concat (replicate 32 ''00'')"

definition demo_selection :: sr_selection_context where
  "demo_selection = \<lparr>ctx_context_id = ''c'', ctx_game_mode = Standard, ctx_character = Ironclad, ctx_ascension = 0,
     ctx_modifiers = [], ctx_acts = [''a''], ctx_selection_policy = ''p'',
     ctx_profile_baseline = \<lparr>base_kind = Fresh, base_identity = ''b'', base_digest = demo_digest\<rparr>,
     ctx_save_policy = Disabled,
     ctx_compatibility = \<lparr>compat_game = \<lparr>idd_identity = ''g'', idd_digest = demo_digest\<rparr>,
       compat_mod = \<lparr>idd_identity = ''m'', idd_digest = demo_digest\<rparr>\<rparr>,
     ctx_context_digest = demo_digest\<rparr>"

definition demo_start :: sr_message where
  "demo_start = start_request_with_context sr_provenance_default
     \<lparr>cx_correlation_id = ''c1'', cx_instance_id = ''i'', cx_session_id = ''s'', cx_lease_id = ''l'',
      cx_lease_epoch = 1, cx_generation = 3\<rparr> ''op'' ''SEED'' SeededTraining demo_selection"

definition demo_seeded :: "(unit \<times> sr_message list) sr_ledger" where
  "demo_seeded = \<lparr>srl_config = \<lparr>sr_operation_capacity = 2\<rparr>,
     srl_binding = \<lparr>sb_instance_id = ''i'', sb_session_id = ''s'', sb_lease_id = ''l'', sb_lease_epoch = 1,
       sb_generation = 0\<rparr>, srl_forwarding = ((), []), srl_operations = bm_empty\<rparr>"

definition demo_store :: "('p, sr_persisted_state option) sr_checkpoint" where
  "demo_store k L = (Inr (), Some (sr_persisted_state_of L))"

lemma demo_digest_ok [simp]: "sha256_text demo_digest"
  by (auto simp: demo_digest_def sha256_text_def list_all_iff hex_byte_def ascii_digit_def length_concat
      sum_list_replicate)

lemma char_of_48: "char_of (48 :: nat) = CHR ''0''"
  by (simp add: char_of_def bit_iff_odd)

lemma demo_canonical [simp]: "canonical_digest demo_codec ctx = Inr demo_digest"
  by (simp add: canonical_digest_def demo_codec_def sha256_hex_def demo_digest_def hex_digit_def char_of_48)

lemma demo_selection_digest [simp]: "ctx_context_digest demo_selection = demo_digest"
  by (simp add: demo_selection_def)

lemmas ident_class_defs = ident_string_def ident_byte_def ascii_alphanumeric_def ascii_digit_def

lemma demo_selection_ok [simp]: "selection_context_validate demo_codec demo_selection = Inr ()"
  by (simp add: selection_context_validate_def demo_selection_def validate_context_text_def ensure_def
      SEEDED_RUN_MAX_CONTEXT_ID_BYTES_def SEEDED_RUN_MAX_CONTEXT_TEXT_BYTES_def SEEDED_RUN_MAX_MODIFIERS_def
      SEEDED_RUN_MAX_ACTS_def ident_class_defs repeated_act_def profile_baseline_validate_def is_context_digest_def
      identity_digest_validate_def)

lemma demo_start_ok: "start_ok demo_codec (srl_binding demo_seeded) demo_start"
  by (simp add: start_ok_def sr_validate_Inr sr_common_ok_def sr_shape_ok_def demo_start_def demo_seeded_def
      start_request_with_context_def start_request_def sr_base_def binding_matches_def validate_start_request_def
      selected_context_check_def SEEDED_RUN_MAX_GENERATION_def validate_seed_def SEEDED_RUN_MAX_SEED_BYTES_def
      sr_is_digest_def ident_class_defs ensure_def)

lemma demo_seeded_new:
  "sr_ledger_new \<lparr>sr_operation_capacity = 2\<rparr> (srl_binding demo_seeded) ((), []) = Inr demo_seeded"
  by (simp add: sr_ledger_new_def demo_seeded_def)

lemma demo_seeded_binding: "sr_binding_ok (srl_binding demo_seeded)"
  by (simp add: sr_binding_ok_def demo_seeded_def ident_class_defs SEEDED_RUN_MAX_GENERATION_def)

lemma sr_ledger_new_ok:
  assumes "sr_ledger_new config b p = Inr L" and "sr_binding_ok b"
  shows "sr_ledger_ok E L" and "srl_forwarding L = p" and "srl_config L = config"
  using assms by (auto simp: sr_ledger_new_def sr_ledger_ok_def split: if_splits)

lemma demo_seeded_ok: "sr_ledger_ok E demo_seeded"
  using demo_seeded_new demo_seeded_binding by (rule sr_ledger_new_ok(1))

lemma demo_start_simps [simp]:
  "sm_operation_id demo_start = ''op''" "sm_generation demo_start = 3" "sm_kind demo_start = StartRequest"
  by (simp_all add: demo_start_def start_request_with_context_def start_request_def sr_base_def)

lemma demo_may_start: "may_start (sr_recording (demo_host f)) demo_store None demo_seeded demo_start"
  using demo_start_ok
  by (simp add: may_start_def sr_recording_def demo_host_def canonical_request_def demo_codec_def primed_def
      demo_store_def) (simp add: demo_seeded_def)

text \<open>The demo host's answers: a timeout, or the settled result under the given message kind.\<close>

definition demo_run_started :: "sr_message_kind \<Rightarrow> sr_message \<Rightarrow> sr_message" where
  "demo_run_started kind m = m\<lparr>sm_kind := kind, sm_status := Some Settled, sm_canonical_seed := Some ''SEED'',
     sm_observation := Some \<lparr>sob_run_started = True, sob_host_ready = True, sob_generation = 4,
       sob_canonical_seed = ''SEED'', sob_selected_context_digest = Some demo_digest, sob_phase_before = ''menu'',
       sob_phase_after = ''run'', sob_compatibility_identity = ''v1''\<rparr>,
     sm_effect_witness := Some \<lparr>wit_kind = SEEDED_RUN_EFFECT_KIND, wit_generation = 4, wit_canonical_seed = ''SEED''\<rparr>\<rparr>"

lemma demo_run_started_accepted:
  assumes "kind \<in> {StartResponse, ReconcileResponse}"
  shows "accept_forwarded demo_codec demo_start (demo_run_started kind demo_start) = Inr (demo_run_started kind demo_start)"
proof -
  have start: "sr_common_ok demo_codec demo_start" "sm_selected_context demo_start = Some demo_selection"
      "sm_requested_seed demo_start = Some ''SEED''" "sm_run_mode demo_start = Some SeededTraining"
      "sm_error_code demo_start = None"
    using demo_start_ok
    by (simp_all add: start_ok_def sr_validate_Inr demo_start_def start_request_with_context_def start_request_def sr_base_def)
  have "sr_common_ok demo_codec (demo_run_started kind demo_start)"
    using start(1) unfolding sr_common_ok_def demo_run_started_def selected_context_check_def
    by (simp add: start sr_observation_validate_def sr_effect_witness_validate_def ensure_def validate_seed_def
        SEEDED_RUN_MAX_SEED_BYTES_def SEEDED_RUN_MAX_GENERATION_def sr_is_digest_def ident_class_defs checks)
  moreover have "sr_shape_ok (demo_run_started kind demo_start)"
    using assms start
    by (auto simp: sr_shape_ok_def demo_run_started_def sr_validate_result_def observation_context_matches_def ensure_def)
  ultimately have "sr_validate demo_codec (demo_run_started kind demo_start) = Inr ()" by (simp add: sr_validate_Inr)
  with assms show ?thesis
    by (simp add: accept_forwarded_def) (auto simp: demo_run_started_def)
qed

section \<open>At most one start\<close>

text \<open>
  C21. Every seeded-run operation is forwarded to the host at most once, whatever the host answers
  and however starts, reconciliations and gateway restarts are interleaved, if the checkpoint store
  keeps what it acknowledged. Failed checkpoints, which may or may not have reached the disk, are
  included.
\<close>

theorem seeded_run_at_most_once:
  assumes "sr_binding_ok b" and "sr_ledger_new config b (p, []) = Inr L0" and "sr_durable checkpoint disk"
    and "(sr_durable_step (sr_recording E) checkpoint disk)\<^sup>*\<^sup>* (L0, k0) (L, k)"
  shows "distinct (map sm_operation_id (snd (srl_forwarding L)))"
proof -
  note L0 = sr_ledger_new_ok [OF assms(2,1)]
  have "sr_system_ok (sr_recording E) checkpoint disk (L0, k0)" using L0(1) assms(3) by (simp add: sr_system_ok_def)
  from sr_dispatch.run_distinct [OF assms(4) this] L0(2) show ?thesis by (simp add: started_def)
qed

theorem seeded_run_at_most_once_witness:
  "case submit_start_with_checkpoint (sr_recording (demo_host (\<lambda>m. Inl Timeout))) demo_start demo_store None demo_seeded of
     (res, k, L) \<Rightarrow> distinct (map sm_operation_id (snd (srl_forwarding L))) \<and> snd (srl_forwarding L) = [demo_start]"
proof -
  let ?E = "demo_host (\<lambda>m. Inl Timeout)"
  obtain res k L where run: "submit_start_with_checkpoint (sr_recording ?E) demo_start demo_store None demo_seeded = (res, k, L)"
    by (rule prod_cases3)
  have "sr_durable demo_store (\<lambda>k. k)" by (simp add: sr_durable_def demo_store_def)
  moreover have "(sr_durable_step (sr_recording ?E) demo_store (\<lambda>k. k))\<^sup>*\<^sup>* (demo_seeded, None) (L, k)"
    by (rule r_into_rtranclp, rule sr_durable_step.operates, rule sr_step.starts [OF run])
  ultimately have "distinct (map sm_operation_id (snd (srl_forwarding L)))"
    by (rule seeded_run_at_most_once [OF demo_seeded_binding demo_seeded_new])
  with submit_start_log [OF run] demo_may_start run show ?thesis by (simp add: demo_seeded_def)
qed

section \<open>Exactly when a start is forwarded, and what is answered\<close>

text \<open>Every successful reply is retained for its operation.\<close>

lemma submit_reply_retained:
  assumes "submit_start_with_checkpoint E request checkpoint k L = (res, k', L')" and "res = Inr r"
  shows "\<exists>p x. bm_get (srl_operations L') (sm_operation_id request) = Some p
    \<and> sop_result p = Some x \<and> r = x\<lparr>sm_correlation_id := sm_correlation_id request\<rparr>"
  using assms(1)
proof (cases rule: submit_start_cases)
  case unchanged
  with assms(2) show ?thesis by (simp add: replay_for_request_def)
next
  case (stale digest c)
  with assms(2) show ?thesis by (auto simp: bare_reply_def with_start_def split: if_splits)
next
  case (unstored digest)
  with assms(2) show ?thesis by simp
next
  case (started digest k1 answer p)
  then obtain x where x: "forward_outcome (sr_codec_of E) request answer = Inr x" "r = x"
      "bm_get (srl_operations L') (sm_operation_id request)
         = Some \<lparr>sop_request_digest = digest, sop_request = request, sop_result = Some x\<rparr>"
    using assms(2) by (auto simp: with_start_def split: sum.splits if_splits)
  moreover have "sm_correlation_id x = sm_correlation_id request"
    using forward_outcome_accepted [OF x(1) started(1)] by (rule accept_forwarded_valid(7))
  ultimately show ?thesis by simp
qed

text \<open>
  C22. A start is forwarded exactly when the request is a valid start for this ledger's identity, its
  operation is new and fits the capacity, its generation is the ledger's (which the first operation
  of an empty ledger may raise), and the in-flight record was stored first; it is then forwarded
  once, unchanged. Every successful reply is the result retained for the operation, under the
  request's own correlation.
\<close>

theorem seeded_run_dispatch_exact:
  assumes "sr_ledger_ok (sr_recording E) L"
    and "submit_start_with_checkpoint (sr_recording E) request checkpoint k L = (res, k', L')"
  shows "snd (srl_forwarding L') = snd (srl_forwarding L) @
      (if may_start (sr_recording E) checkpoint k L request then [request] else [])
    \<and> (\<forall>r. res = Inr r \<longrightarrow> (\<exists>p x. bm_get (srl_operations L') (sm_operation_id request) = Some p
         \<and> sop_result p = Some x \<and> r = x\<lparr>sm_correlation_id := sm_correlation_id request\<rparr>))"
proof -
  from submit_start_log [OF assms(2)] submit_reply_retained [OF assms(2)] show ?thesis by blast
qed

theorem seeded_run_dispatch_exact_witness:
  "case submit_start_with_checkpoint (sr_recording (demo_host (\<lambda>m. Inl Timeout))) demo_start demo_store None demo_seeded of
     (res, k, L) \<Rightarrow> snd (srl_forwarding L) = [demo_start]"
proof -
  let ?E = "demo_host (\<lambda>m. Inl Timeout)"
  obtain res k L where run: "submit_start_with_checkpoint (sr_recording ?E) demo_start demo_store None demo_seeded = (res, k, L)"
    by (rule prod_cases3)
  from seeded_run_dispatch_exact [OF demo_seeded_ok run] demo_may_start run show ?thesis by (simp add: demo_seeded_def)
qed

section \<open>Settled runs, replays and finality\<close>

text \<open>A submission of the demo start that the host answers with an acceptable response.\<close>

definition demo_answered :: "sr_message \<Rightarrow> (unit \<times> sr_message list) sr_ledger" where
  "demo_answered r = advance_generation r (with_start [3] demo_start (Some r)
     ((primed demo_start demo_seeded)\<lparr>srl_forwarding := ((), [demo_start])\<rparr>))"

lemma demo_codec_of [simp]: "sr_codec_of (sr_recording (demo_host f)) = demo_codec"
  by (simp add: sr_recording_def demo_host_def)

lemma demo_canonical_request [simp]: "canonical_request demo_codec demo_start = Inr [3]"
  by (simp add: canonical_request_def demo_codec_def)

lemma demo_vec: "message_to_vec demo_codec m = Inr [ucast (sm_generation m)]"
  by (simp add: demo_codec_def)

lemma demo_submit_answered:
  assumes "f demo_start = Inr r" and "accept_forwarded demo_codec demo_start r = Inr r"
  shows "submit_start_with_checkpoint (sr_recording (demo_host f)) demo_start demo_store None demo_seeded
    = (Inr r, Some (sr_persisted_state_of (demo_answered r)), demo_answered r)"
proof -
  obtain res k L where run: "submit_start_with_checkpoint (sr_recording (demo_host f)) demo_start demo_store None demo_seeded
      = (res, k, L)"
    by (rule prod_cases3)
  then show ?thesis
  proof (cases rule: submit_start_cases)
    case (started digest k1 answer p)
    then have "p = ((), [demo_start])" "answer = Inr r"
      using assms(1) by (auto simp: sr_recording_def demo_host_def demo_seeded_def)
    with started assms(2) run show ?thesis
      by (auto simp: forward_outcome_def demo_answered_def demo_store_def)
  qed (use demo_may_start [of f] in simp_all)
qed

lemma demo_answered_ok:
  assumes "accept_forwarded demo_codec demo_start r = Inr r"
  shows "sr_ledger_ok (sr_recording (demo_host (\<lambda>_. Inr r))) (demo_answered r)"
  using sr_advances_submit [OF demo_submit_answered [of "\<lambda>_. Inr r" r, OF refl assms]
      demo_seeded_ok [of "sr_recording (demo_host (\<lambda>_. Inr r))"]]
  by (simp add: sr_advances_def)

lemma demo_answered_get [simp]:
  "bm_get (srl_operations (demo_answered r)) ''op'' =
     Some \<lparr>sop_request_digest = [3], sop_request = demo_start, sop_result = Some r\<rparr>"
  by (simp add: demo_answered_def with_start_def)

text \<open>
  C23. A run counts as started only on evidence. In every state that a ledger created with a validated
  binding reaches by starts, reconciliations and restores of arbitrary persisted states (genuine, stale or forged), a settled
  result carries the observation that the run started and the host is ready, at a generation later
  than the one the request was admitted at and not later than the ledger's; canonical seed, observed
  seed and witnessed seed are one, the witness is for exactly that generation, and the observed
  selection digest is the requested selection's. The number of retained operations stays within the
  capacity.
\<close>

theorem seeded_run_settled_evidence:
  assumes "sr_binding_ok b" and "sr_ledger_new config b p = Inr L0"
    and "(sr_open_step E checkpoint)\<^sup>*\<^sup>* (L0, k0) (L, k)"
  shows "bm_size (srl_operations L) \<le> sr_operation_capacity config
    \<and> (\<forall>oid q r. bm_get (srl_operations L) oid = Some q \<longrightarrow> sop_result q = Some r \<longrightarrow> sm_status r = Some Settled \<longrightarrow>
         (\<exists>seed ob w ctx. sm_canonical_seed r = Some seed \<and> sm_observation r = Some ob \<and> sm_effect_witness r = Some w
            \<and> sm_selected_context (sop_request q) = Some ctx
            \<and> sob_run_started ob \<and> sob_host_ready ob \<and> sob_canonical_seed ob = seed \<and> wit_canonical_seed w = seed
            \<and> wit_kind w = SEEDED_RUN_EFFECT_KIND \<and> wit_generation w = sob_generation ob
            \<and> sob_selected_context_digest ob = Some (ctx_context_digest ctx)
            \<and> sm_generation (sop_request q) < sob_generation ob
            \<and> sob_generation ob \<le> sb_generation (srl_binding L)))"
proof -
  note L0 = sr_ledger_new_ok [OF assms(2,1)]
  have "sr_ledger_ok E L" "srl_config L = config"
    using sr_open_run.run_keeps [OF assms(3), of config] L0(1) [of E] L0(3) by simp_all
  moreover have "\<exists>seed ob w ctx. sm_canonical_seed r = Some seed \<and> sm_observation r = Some ob
      \<and> sm_effect_witness r = Some w \<and> sm_selected_context (sop_request q) = Some ctx
      \<and> sob_run_started ob \<and> sob_host_ready ob \<and> sob_canonical_seed ob = seed \<and> wit_canonical_seed w = seed
      \<and> wit_kind w = SEEDED_RUN_EFFECT_KIND \<and> wit_generation w = sob_generation ob
      \<and> sob_selected_context_digest ob = Some (ctx_context_digest ctx)
      \<and> sm_generation (sop_request q) < sob_generation ob \<and> sob_generation ob \<le> sb_generation (srl_binding L)"
    if "bm_get (srl_operations L) oid = Some q" "sop_result q = Some r" "sm_status r = Some Settled" for oid q r
  proof -
    have r: "sr_result_ok (sr_codec_of E) (srl_binding L) (sop_request q) r"
      using \<open>sr_ledger_ok E L\<close> that by (auto simp: sr_ledger_ok_def sr_operation_ok_def)
    with settled_evidence [of "sr_codec_of E" "sop_request q" r r] that(3) show ?thesis
      by (fastforce simp: sr_result_ok_def)
  qed
  ultimately show ?thesis by (auto simp: sr_ledger_ok_def)
qed

theorem seeded_run_settled_evidence_witness:
  "let r = demo_run_started StartResponse demo_start in
   \<exists>ob. sm_observation r = Some ob \<and> sob_run_started ob \<and> sob_generation ob \<le> sb_generation (srl_binding (demo_answered r))"
proof -
  let ?r = "demo_run_started StartResponse demo_start"
  have "(sr_open_step (sr_recording (demo_host (\<lambda>_. Inr ?r))) demo_store)\<^sup>*\<^sup>* (demo_seeded, None)
      (demo_answered ?r, Some (sr_persisted_state_of (demo_answered ?r)))"
    by (rule r_into_rtranclp, rule sr_open_step.runs, rule sr_step.starts)
      (rule demo_submit_answered, simp_all add: demo_run_started_accepted)
  from seeded_run_settled_evidence [OF demo_seeded_binding demo_seeded_new this, THEN conjunct2,
      THEN spec [of _ "''op''"]]
  show ?thesis by (auto simp: Let_def demo_run_started_def [of _ demo_start])
qed

text \<open>
  A resubmission never starts a second run. For an operation already retained with a result, a
  valid start of the ledger's identity gets that result under its own correlation if its canonical
  encoding, which leaves the correlation out, is that of the retained request, and
  \<open>OperationConflict\<close> otherwise; ledger, port and store are untouched.
\<close>

theorem seeded_run_replay_or_conflict:
  assumes "sr_ledger_ok E L" and "start_ok (sr_codec_of E) (srl_binding L) request"
    and "bm_get (srl_operations L) (sm_operation_id request) = Some p" and "sop_result p = Some r"
    and "message_to_vec (sr_codec_of E) (request\<lparr>sm_correlation_id := []\<rparr>) = Inr bytes"
  shows "submit_start_with_checkpoint E request checkpoint k L =
    (if message_to_vec (sr_codec_of E) ((sop_request p)\<lparr>sm_correlation_id := []\<rparr>) = Inr bytes
     then Inr (r\<lparr>sm_correlation_id := sm_correlation_id request\<rparr>) else Inl OperationConflict, k, L)"
proof -
  have p: "canonical_request (sr_codec_of E) (sop_request p) = Inr (sop_request_digest p)"
    using assms(1,3) by (auto simp: sr_ledger_ok_def sr_operation_ok_def)
  then have "message_to_vec (sr_codec_of E) ((sop_request p)\<lparr>sm_correlation_id := []\<rparr>) = Inr (sop_request_digest p)"
    by (auto simp: canonical_request_def checks)
  moreover have "admit_start (sr_codec_of E) L request = Inr bytes"
    using assms(2,5) by (simp add: admit_start_Inr canonical_request_def)
  ultimately show ?thesis
    using assms(3,4) by (simp add: submit_start_with_checkpoint_def replay_for_request_def)
qed

theorem seeded_run_replay_or_conflict_witness:
  "let r = demo_run_started StartResponse demo_start in
   submit_start_with_checkpoint (sr_recording (demo_host (\<lambda>_. Inr r))) (demo_start\<lparr>sm_correlation_id := ''c2''\<rparr>)
     demo_store None (demo_answered r) = (Inr (r\<lparr>sm_correlation_id := ''c2''\<rparr>), None, demo_answered r)"
proof -
  let ?r = "demo_run_started StartResponse demo_start"
  let ?E = "sr_recording (demo_host (\<lambda>_. Inr ?r))"
  have ok: "sr_ledger_ok ?E (demo_answered ?r)" by (rule demo_answered_ok) (simp add: demo_run_started_accepted)
  then have "start_ok demo_codec (srl_binding (demo_answered ?r)) demo_start"
    by (auto simp: sr_ledger_ok_def sr_operation_ok_def dest!: spec [of _ "''op''"])
  then have "start_ok demo_codec (srl_binding (demo_answered ?r)) (demo_start\<lparr>sm_correlation_id := ''c2''\<rparr>)"
    by (auto simp: start_ok_def sr_validate_Inr sr_common_ok_def sr_shape_ok_def binding_matches_def
        validate_start_request_def ident_class_defs)
  with seeded_run_replay_or_conflict [OF ok, of "demo_start\<lparr>sm_correlation_id := ''c2''\<rparr>"
      "\<lparr>sop_request_digest = [3], sop_request = demo_start, sop_result = Some ?r\<rparr>" ?r "[3]" demo_store None]
  show ?thesis by (simp add: demo_vec)
qed

text \<open>
  C25. While a ledger runs, its generation never goes back, and an operation that is settled,
  rejected or cancelled keeps its request and its result through every further start and
  reconciliation, whatever the host and the store answer.
\<close>

theorem seeded_run_results_final:
  assumes "sr_ledger_ok E L" and "(sr_step E checkpoint)\<^sup>*\<^sup>* (L, k) (L', k')"
  shows "sb_generation (srl_binding L) \<le> sb_generation (srl_binding L')
    \<and> (\<forall>oid p r. bm_get (srl_operations L) oid = Some p \<longrightarrow> sop_result p = Some r \<longrightarrow>
         sm_status r \<in> {Some Settled, Some Rejected, Some Cancelled} \<longrightarrow> bm_get (srl_operations L') oid = Some p)"
proof -
  have "bm_get (srl_operations L') oid = Some p"
    if "bm_get (srl_operations L) oid = Some p" "sop_result p = Some r"
      "sm_status r \<in> {Some Settled, Some Rejected, Some Cancelled}" for oid p r
    using sr_final_run.run_keeps [OF assms(2), of oid p] that assms(1) by (auto simp: sr_final_def sr_open_def)
  moreover have "sb_generation (srl_binding L) \<le> sb_generation (srl_binding L')"
    using sr_run.run_level [OF assms(2)] assms(1) by simp
  ultimately show ?thesis by blast
qed

theorem seeded_run_results_final_witness:
  "let r = demo_run_started StartResponse demo_start in
   case sr_reconcile (sr_recording (demo_host (\<lambda>_. Inr r))) demo_start (demo_answered r) of
     (res, L') \<Rightarrow> bm_get (srl_operations L') ''op'' = bm_get (srl_operations (demo_answered r)) ''op''"
proof -
  let ?r = "demo_run_started StartResponse demo_start"
  let ?E = "sr_recording (demo_host (\<lambda>_. Inr ?r))"
  obtain res L' where run: "sr_reconcile ?E demo_start (demo_answered ?r) = (res, L')" by fastforce
  have "sr_ledger_ok ?E (demo_answered ?r)" by (rule demo_answered_ok) (simp add: demo_run_started_accepted)
  moreover have "(sr_step ?E demo_store)\<^sup>*\<^sup>* (demo_answered ?r, None) (L', None)"
    by (rule r_into_rtranclp, rule sr_step.reconciles [OF run])
  ultimately have "bm_get (srl_operations L') ''op'' = bm_get (srl_operations (demo_answered ?r)) ''op''"
    by (auto dest!: seeded_run_results_final [THEN conjunct2, THEN spec [of _ "''op''"]] simp: demo_run_started_def [of _ demo_start])
  with run show ?thesis by (simp add: Let_def)
qed

section \<open>Restart\<close>

text \<open>
  C26. A new ledger of the same configuration and identity restores the state an earlier one
  persisted at any moment, in-flight operations included, as long as every retained result is a start
  response and the new ledger's generation is not ahead of the persisted one. Requests and digests
  come back as they were; a result comes back unchanged, except that an operation without result or
  merely accepted becomes \<open>unknown\<close> with \<open>restart_uncertain\<close>. The invariant holds again and the
  port is not touched. A new ledger created at a later generation refuses the state with
  \<open>InvalidBinding\<close> and stays empty as it was.
\<close>

theorem seeded_run_restore_roundtrip:
  assumes "sr_ledger_ok E D" and "start_responses D"
  shows "if sb_generation (srl_binding D) < g
    then sr_restore_state E (sr_persisted_state_of D) (sr_rebooted g D) = (Inl InvalidBinding, sr_rebooted g D)
    else \<exists>L'. sr_restore_state E (sr_persisted_state_of D) (sr_rebooted g D) = (Inr (), L')
    \<and> sr_ledger_ok E L' \<and> srl_binding L' = srl_binding D \<and> srl_forwarding L' = srl_forwarding D
    \<and> (\<forall>oid. case bm_get (srl_operations D) oid of
         None \<Rightarrow> bm_get (srl_operations L') oid = None
       | Some p \<Rightarrow> \<exists>r. bm_get (srl_operations L') oid = Some (p\<lparr>sop_result := Some r\<rparr>)
           \<and> (if sop_result p = None \<or> (\<exists>m. sop_result p = Some m \<and> sm_status m = Some Accepted)
              then sm_status r = Some Unknown \<and> sm_error_code r = Some ''restart_uncertain''
              else sop_result p = Some r))"
proof (cases "sb_generation (srl_binding D) < g")
  case True
  then show ?thesis
    by (simp add: sr_restore_state_def Let_def sr_persisted_state_of_def sr_rebooted_def sr_binding_new_Inr
        split: sum.split)
next
  case False
  obtain L' where L': "sr_restore_state E (sr_persisted_state_of D) (sr_rebooted g D) = (Inr (), L')"
      "srl_binding L' = srl_binding D"
      "\<forall>oid. bm_get (srl_operations L') oid = map_option sr_restored (bm_get (srl_operations D) oid)"
    using sr_restore_complete [OF assms, of "sr_rebooted g D" g] False by (auto simp: sr_rebooted_def not_less)
  have "case bm_get (srl_operations D) oid of
         None \<Rightarrow> bm_get (srl_operations L') oid = None
       | Some p \<Rightarrow> \<exists>r. bm_get (srl_operations L') oid = Some (p\<lparr>sop_result := Some r\<rparr>)
           \<and> (if sop_result p = None \<or> (\<exists>m. sop_result p = Some m \<and> sm_status m = Some Accepted)
              then sm_status r = Some Unknown \<and> sm_error_code r = Some ''restart_uncertain''
              else sop_result p = Some r)" for oid
    using L'(3) sr_restored_result by (cases "bm_get (srl_operations D) oid") (simp_all only: option.case option.map option.inject simp_thms)
  with False L' sr_restore_sound [OF L'(1)] show ?thesis by (simp add: sr_rebooted_def)
qed

theorem seeded_run_restore_roundtrip_witness:
  "let r = demo_run_started StartResponse demo_start; E = sr_recording (demo_host (\<lambda>_. Inr r)) in
   fst (sr_restore_state E (sr_persisted_state_of (demo_answered r)) (sr_rebooted 0 (demo_answered r))) = Inr ()"
proof -
  let ?r = "demo_run_started StartResponse demo_start"
  have "sr_ledger_ok (sr_recording (demo_host (\<lambda>_. Inr ?r))) (demo_answered ?r)"
    by (rule demo_answered_ok) (simp add: demo_run_started_accepted)
  moreover have "start_responses (demo_answered ?r)"
    by (auto simp: start_responses_def demo_answered_def with_start_def demo_seeded_def demo_run_started_def [of _ demo_start]
        split: if_splits)
  ultimately show ?thesis using seeded_run_restore_roundtrip [of _ "demo_answered ?r" 0] by fastforce
qed

text \<open>
  C27. A forwarded start that the host answers with a valid message of kind \<open>reconcile_response\<close> makes the
  ledger unrestorable. The answer is accepted: it is retained as the operation's result, and returned
  unless the checkpoint after it fails. In every state the ledger reaches afterwards by starts and
  reconciliations, no ledger restores the persisted state, unless the answer was merely accepted or
  unknown and a reconciliation has since replaced it by a result of kind \<open>start_response\<close>; with a
  settled, rejected or cancelled answer the restore fails for good.
\<close>

theorem seeded_run_reconcile_answer_unrestorable:
  assumes "may_start E checkpoint k L request"
    and "forward_seeded_run E (srl_forwarding L) request = (Inr answer, p)"
    and "\<not> is_err (accept_forwarded (sr_codec_of E) request answer)" and "sm_kind answer = ReconcileResponse"
    and "submit_start_with_checkpoint E request checkpoint k L = (res, k1, L1)"
    and "(sr_step E checkpoint)\<^sup>*\<^sup>* (L1, k1) (L2, k2)"
  shows "map_option sop_result (bm_get (srl_operations L1) (sm_operation_id request)) = Some (Some answer)
    \<and> (\<exists>c k0. checkpoint k0 L1 = (c, k1) \<and> res = (if is_err c then Inl PersistenceFailed else Inr answer))
    \<and> (is_err (fst (sr_restore_state E (sr_persisted_state_of L2) N))
       \<or> sm_status answer \<in> {Some Accepted, Some Unknown}
         \<and> (\<exists>q r. bm_get (srl_operations L2) (sm_operation_id request) = Some q \<and> sop_result q = Some r
              \<and> sm_kind r = StartResponse))"
proof -
  have accepted: "accept_forwarded (sr_codec_of E) request answer = Inr answer"
    using assms(3) by (cases "accept_forwarded (sr_codec_of E) request answer") (auto dest: accept_forwarded_Inr)
  from assms(5) have L1: "map_option sop_result (bm_get (srl_operations L1) (sm_operation_id request)) = Some (Some answer)
    \<and> (\<exists>c k0. checkpoint k0 L1 = (c, k1) \<and> res = (if is_err c then Inl PersistenceFailed else Inr answer))"
  proof (cases rule: submit_start_cases)
    case (started digest k0 answer' p')
    from started(6) assms(2) have "answer' = Inr answer" by simp
    with started accepted show ?thesis by (auto simp: forward_outcome_def with_start_def)
  qed (use assms(1) in simp_all)
  then have "sr_answer_kept (sm_operation_id request) answer L1" by (auto simp: sr_answer_kept_def)
  then have "sr_answer_kept (sm_operation_id request) answer L2"
    using sr_answer_run.run_keeps [OF assms(6)] by simp
  then obtain q r where q: "bm_get (srl_operations L2) (sm_operation_id request) = Some q" "sop_result q = Some r"
      "r = answer \<or> sm_status answer \<in> {Some Accepted, Some Unknown} \<and> sm_kind r = StartResponse"
    by (auto simp: sr_answer_kept_def)
  have "is_err (fst (sr_restore_state E (sr_persisted_state_of L2) N))" if "r = answer"
    using q(1,2) assms(4) that by (intro sr_restore_needs_start_responses) (force simp: start_responses_def)
  with L1 q show ?thesis by blast
qed

theorem seeded_run_reconcile_answer_unrestorable_witness:
  "let r = demo_run_started ReconcileResponse demo_start; E = sr_recording (demo_host (\<lambda>_. Inr r)) in
   case submit_start_with_checkpoint E demo_start demo_store None demo_seeded of (res, k, L) \<Rightarrow>
     res = Inr r \<and> is_err (fst (sr_restore_state E (the k) (sr_rebooted 0 L)))"
proof -
  let ?r = "demo_run_started ReconcileResponse demo_start"
  let ?E = "sr_recording (demo_host (\<lambda>_. Inr ?r))"
  note run = demo_submit_answered [of "\<lambda>_. Inr ?r" ?r, OF refl demo_run_started_accepted]
  have "forward_seeded_run ?E (srl_forwarding demo_seeded) demo_start = (Inr ?r, ((), [demo_start]))"
    by (simp add: sr_recording_def demo_host_def demo_seeded_def)
  moreover have "\<not> is_err (accept_forwarded (sr_codec_of ?E) demo_start ?r)"
    by (simp add: sr_recording_def demo_host_def demo_run_started_accepted)
  moreover have "sm_kind ?r = ReconcileResponse" "sm_status ?r = Some Settled" by (simp_all add: demo_run_started_def)
  ultimately show ?thesis
    using seeded_run_reconcile_answer_unrestorable [OF demo_may_start _ _ _ run rtranclp.rtrancl_refl,
        where N = "sr_rebooted 0 (demo_answered ?r)"] run
    by (simp add: Let_def)
qed

text \<open>
  C28. A start answered with an invalid message stays in progress for good: the submission fails
  with \<open>InvalidResponse\<close> and nothing is retained as its result, so in every later state of this
  ledger a resubmission and a reconciliation of the operation both fail, although the run may have
  started on the host. Only a restart moves the operation on.
\<close>

theorem seeded_run_invalid_answer_stuck:
  assumes "may_start E checkpoint k L request"
    and "forward_seeded_run E (srl_forwarding L) request = (Inr answer, p)"
    and "is_err (accept_forwarded (sr_codec_of E) request answer)"
    and "submit_start_with_checkpoint E request checkpoint k L = (res, k1, L1)"
    and "(sr_step E checkpoint)\<^sup>*\<^sup>* (L1, k1) (L2, k2)"
    and "sm_operation_id again = sm_operation_id request"
  shows "res = Inl InvalidResponse \<and> is_err (fst (submit_start_with_checkpoint E again checkpoint k2 L2))
    \<and> is_err (fst (sr_reconcile E again L2))"
proof -
  have res: "res = Inl InvalidResponse \<and> sr_pending (sm_operation_id request) L1"
    using assms(4)
  proof (cases rule: submit_start_cases)
    case (started digest k1 answer' p')
    from started(6) assms(2) have "answer' = Inr answer" by simp
    then have "forward_outcome (sr_codec_of E) request answer' = Inl InvalidResponse"
      using accept_forwarded_err [OF assms(3)] by (simp add: forward_outcome_def)
    with started show ?thesis by (simp add: sr_pending_def with_start_def)
  qed (use assms(1) in simp_all)
  then have "sr_pending (sm_operation_id again) L2"
    using sr_pending_run.run_keeps [OF assms(5), of "sm_operation_id request"] assms(6) by simp
  with res show ?thesis by (simp add: sr_pending_errors)
qed

theorem seeded_run_invalid_answer_stuck_witness:
  "let E = sr_recording (demo_host Inr) in
   case submit_start_with_checkpoint E demo_start demo_store None demo_seeded of (res, k, L) \<Rightarrow>
     res = Inl InvalidResponse \<and> is_err (fst (submit_start_with_checkpoint E demo_start demo_store k L))"
proof -
  let ?E = "sr_recording (demo_host Inr)"
  obtain res k L where run: "submit_start_with_checkpoint ?E demo_start demo_store None demo_seeded = (res, k, L)"
    by (rule prod_cases3)
  have "forward_seeded_run ?E (srl_forwarding demo_seeded) demo_start = (Inr demo_start, ((), [demo_start]))"
    by (simp add: sr_recording_def demo_host_def demo_seeded_def)
  moreover have "is_err (accept_forwarded (sr_codec_of ?E) demo_start demo_start)"
    by (cases "sr_validate demo_codec demo_start") (simp_all add: accept_forwarded_def)
  ultimately show ?thesis
    using seeded_run_invalid_answer_stuck [OF demo_may_start _ _ run rtranclp.rtrancl_refl refl] run
    by (simp add: Let_def)
qed

end
