(* ===== verification/Process_Profile.thy ===== *)
theory Process_Profile
  imports Control_Plane
begin

text \<open>
  Launch profiles and process identities: \<open>process_profile.rs\<close>, \<open>process_identity.rs\<close>. A launch
  profile is resolved by the server from an opaque id; the catalog \<open>approved_launch_profiles\<close> is
  bounded and never holds an invalid or a second profile of one id. A process identity is what the
  process port reports of a started process; \<open>matches_profile\<close> is the exact comparison every
  effect on a process depends on. The locale \<open>profile_catalog\<close> is what the lifecycle coordinator
  relies on.
\<close>

section \<open>Profiles\<close>

record executable_identity =
  exe_install_id :: u64
  exe_executable_id :: u64
  exe_image_id :: u64

type_synonym user_data_config = u64

record process_policy =
  pol_max_descendants :: nat
  pol_start_timeout_millis :: u64
  pol_stop_timeout_millis :: u64

record launch_profile =
  prof_id :: launch_profile_id
  prof_executable :: executable_identity
  prof_user_data :: user_data_config
  prof_policy :: process_policy

datatype launch_profile_error =
    InvalidId
  | DuplicateId
  | ProfileNotFound
  | InvalidExecutableIdentity
  | InvalidUserData
  | InvalidPolicy
  | ProfileCapacityExceeded

definition MAX_PROFILE_DESCENDANTS :: nat where "MAX_PROFILE_DESCENDANTS = 64"

definition MAX_START_TIMEOUT_MILLIS :: u64 where "MAX_START_TIMEOUT_MILLIS = 60000"

definition MAX_STOP_TIMEOUT_MILLIS :: u64 where "MAX_STOP_TIMEOUT_MILLIS = 60000"

definition launch_profile_id_try_new :: "u64 \<Rightarrow> launch_profile_error + launch_profile_id" where
  "launch_profile_id_try_new v = (if v = 0 then Inl InvalidId else Inr v)"

definition executable_is_valid :: "executable_identity \<Rightarrow> bool" where
  "executable_is_valid e \<longleftrightarrow> exe_install_id e \<noteq> 0 \<and> exe_executable_id e \<noteq> 0 \<and> exe_image_id e \<noteq> 0"

definition executable_try_new :: "u64 \<Rightarrow> u64 \<Rightarrow> u64 \<Rightarrow> launch_profile_error + executable_identity" where
  "executable_try_new install executable img =
     (if install = 0 \<or> executable = 0 \<or> img = 0 then Inl InvalidExecutableIdentity
      else Inr \<lparr>exe_install_id = install, exe_executable_id = executable, exe_image_id = img\<rparr>)"

definition user_data_is_valid :: "user_data_config \<Rightarrow> bool" where
  "user_data_is_valid n \<longleftrightarrow> n \<noteq> 0"

definition user_data_try_new :: "u64 \<Rightarrow> launch_profile_error + user_data_config" where
  "user_data_try_new n = (if n = 0 then Inl InvalidUserData else Inr n)"

definition policy_is_valid :: "process_policy \<Rightarrow> bool" where
  "policy_is_valid p \<longleftrightarrow> 0 < pol_max_descendants p \<and> pol_max_descendants p \<le> MAX_PROFILE_DESCENDANTS
     \<and> 0 < pol_start_timeout_millis p \<and> pol_start_timeout_millis p \<le> MAX_START_TIMEOUT_MILLIS
     \<and> 0 < pol_stop_timeout_millis p \<and> pol_stop_timeout_millis p \<le> MAX_STOP_TIMEOUT_MILLIS"

definition policy_try_new :: "nat \<Rightarrow> u64 \<Rightarrow> u64 \<Rightarrow> launch_profile_error + process_policy" where
  "policy_try_new descendants start stop =
     (if descendants = 0 \<or> MAX_PROFILE_DESCENDANTS < descendants then Inl InvalidPolicy
      else if start = 0 \<or> MAX_START_TIMEOUT_MILLIS < start then Inl InvalidPolicy
      else if stop = 0 \<or> MAX_STOP_TIMEOUT_MILLIS < stop then Inl InvalidPolicy
      else Inr \<lparr>pol_max_descendants = descendants, pol_start_timeout_millis = start,
                pol_stop_timeout_millis = stop\<rparr>)"

definition profile_check :: "launch_profile \<Rightarrow> launch_profile_error + unit" where
  "profile_check p =
     (if prof_id p = 0 then Inl InvalidId
      else if \<not> executable_is_valid (prof_executable p) then Inl InvalidExecutableIdentity
      else if \<not> user_data_is_valid (prof_user_data p) then Inl InvalidUserData
      else if \<not> policy_is_valid (prof_policy p) then Inl InvalidPolicy
      else Inr ())"

definition profile_try_new :: "launch_profile_id \<Rightarrow> executable_identity \<Rightarrow> user_data_config \<Rightarrow> process_policy
    \<Rightarrow> launch_profile_error + launch_profile" where
  "profile_try_new i e u p =
     (let profile = \<lparr>prof_id = i, prof_executable = e, prof_user_data = u, prof_policy = p\<rparr>
      in and_then (profile_check profile) (\<lambda>_. Inr profile))"

section \<open>The catalog\<close>

record approved_launch_profiles =
  cat_profiles :: "(launch_profile_id, launch_profile) bmap"
  cat_capacity :: nat

definition catalog_new :: "nat \<Rightarrow> approved_launch_profiles" where
  "catalog_new capacity = \<lparr>cat_profiles = bm_empty, cat_capacity = capacity\<rparr>"

definition catalog_try_new :: "nat \<Rightarrow> launch_profile_error + approved_launch_profiles" where
  "catalog_try_new capacity = (if capacity = 0 then Inl ProfileCapacityExceeded else Inr (catalog_new capacity))"

definition catalog_insert :: "launch_profile \<Rightarrow> approved_launch_profiles
    \<Rightarrow> (launch_profile_error + unit) \<times> approved_launch_profiles" where
  "catalog_insert p cat =
     (case profile_check p of
        Inl e \<Rightarrow> (Inl e, cat)
      | Inr _ \<Rightarrow>
          if cat_capacity cat \<le> bm_size (cat_profiles cat) \<and> \<not> bm_has (cat_profiles cat) (prof_id p)
          then (Inl ProfileCapacityExceeded, cat)
          else if bm_has (cat_profiles cat) (prof_id p) then (Inl DuplicateId, cat)
          else (Inr (), cat\<lparr>cat_profiles := bm_insert (prof_id p) p (cat_profiles cat)\<rparr>))"

definition resolve :: "approved_launch_profiles \<Rightarrow> launch_profile_id \<Rightarrow> launch_profile_error + launch_profile" where
  "resolve cat i = ok_or (bm_get (cat_profiles cat) i) ProfileNotFound"

definition catalog_ok :: "approved_launch_profiles \<Rightarrow> bool" where
  "catalog_ok cat \<longleftrightarrow> bm_size (cat_profiles cat) \<le> cat_capacity cat
     \<and> (\<forall>i p. bm_get (cat_profiles cat) i = Some p \<longrightarrow> prof_id p = i \<and> profile_check p = Inr ())"

lemma profile_check_Inr [checks]:
  "profile_check p = Inr u \<longleftrightarrow> prof_id p \<noteq> 0 \<and> executable_is_valid (prof_executable p)
     \<and> user_data_is_valid (prof_user_data p) \<and> policy_is_valid (prof_policy p)"
  by (auto simp: profile_check_def)

lemma catalog_new_ok [simp]: "catalog_ok (catalog_new n)"
  by (simp add: catalog_ok_def catalog_new_def)

lemma catalog_insert_ok: "catalog_ok cat \<Longrightarrow> catalog_ok (snd (catalog_insert p cat))"
  by (auto simp: catalog_insert_def catalog_ok_def bm_size_insert split: sum.splits)

lemma catalog_insert_keeps:
  "resolve cat i = Inr q \<Longrightarrow> resolve (snd (catalog_insert p cat)) i = Inr q"
  by (auto simp: catalog_insert_def resolve_def split: sum.splits)

text \<open>What the coordinator relies on: an id stands for one valid profile of that id.\<close>

locale profile_catalog =
  fixes lookup :: "launch_profile_id \<Rightarrow> launch_profile_error + launch_profile"
  assumes lookup_id: "lookup i = Inr p \<Longrightarrow> prof_id p = i"
    and lookup_valid: "lookup i = Inr p \<Longrightarrow> profile_check p = Inr ()"
begin

lemma lookup_prof_id: "lookup i = Inr p \<Longrightarrow> lookup (prof_id p) = Inr p"
  using lookup_id by auto

lemma lookup_nonzero: "lookup i = Inr p \<Longrightarrow> i \<noteq> 0"
  using lookup_id lookup_valid by (auto simp: checks)

lemma lookup_same_id: "lookup i = Inr p \<Longrightarrow> lookup j = Inr q \<Longrightarrow> prof_id p = prof_id q \<Longrightarrow> p = q"
  using lookup_id by auto

end

lemma catalog_profiles: "catalog_ok cat \<Longrightarrow> profile_catalog (resolve cat)"
  by unfold_locales (auto simp: catalog_ok_def resolve_def)

text \<open>Every catalog built by \<open>new\<close> and insertions.\<close>

fun catalog_of :: "nat \<Rightarrow> launch_profile list \<Rightarrow> approved_launch_profiles" where
  "catalog_of n [] = catalog_new n"
| "catalog_of n (p # ps) = snd (catalog_insert p (catalog_of n ps))"

lemma catalog_of_ok [simp]: "catalog_ok (catalog_of n ps)"
  by (induction ps) (auto intro: catalog_insert_ok)

interpretation catalog: profile_catalog "resolve (catalog_of n ps)" for n ps
  by (rule catalog_profiles) simp

section \<open>Process identities\<close>

record process_identity =
  pid_instance_id :: instance_id
  pid_process :: process_handle
  pid_pid :: u64
  pid_birth_id :: u64
  pid_executable :: "executable_identity option"
  pid_user_data :: "user_data_config option"

definition process_identity_new :: "instance_id \<Rightarrow> process_handle \<Rightarrow> u64 \<Rightarrow> u64 \<Rightarrow> executable_identity
    \<Rightarrow> user_data_config \<Rightarrow> process_identity" where
  "process_identity_new i h p b e u = \<lparr>pid_instance_id = i, pid_process = h, pid_pid = p, pid_birth_id = b,
     pid_executable = Some e, pid_user_data = Some u\<rparr>"

definition process_identity_legacy :: "process_handle \<Rightarrow> process_identity" where
  "process_identity_legacy h = \<lparr>pid_instance_id = 0, pid_process = h, pid_pid = h, pid_birth_id = 0,
     pid_executable = None, pid_user_data = None\<rparr>"

definition matches_profile :: "process_identity \<Rightarrow> instance_id \<Rightarrow> launch_profile \<Rightarrow> bool" where
  "matches_profile d i p \<longleftrightarrow> pid_process d \<noteq> 0 \<and> pid_pid d \<noteq> 0 \<and> pid_birth_id d \<noteq> 0 \<and> pid_instance_id d = i
     \<and> pid_executable d = Some (prof_executable p) \<and> pid_user_data d = Some (prof_user_data p)"

record process_launch =
  launch_identity :: process_identity

definition launch_spec_for_profile :: "instance_id \<Rightarrow> launch_profile_id \<Rightarrow> launch_spec" where
  "launch_spec_for_profile i p = \<lparr>spec_instance_id = i, spec_profile_id = Some p\<rparr>"

record process_descendant_identity =
  des_instance_id :: instance_id
  des_pid :: u64
  des_birth_id :: u64
  des_executable :: executable_identity
  des_user_data :: user_data_config

definition descendant_matches_profile :: "process_descendant_identity \<Rightarrow> instance_id \<Rightarrow> launch_profile \<Rightarrow> bool" where
  "descendant_matches_profile d i p \<longleftrightarrow> des_pid d \<noteq> 0 \<and> des_birth_id d \<noteq> 0 \<and> des_instance_id d = i
     \<and> des_executable d = prof_executable p \<and> des_user_data d = prof_user_data p"

text \<open>The identity a legacy port reports is never taken for an approved one.\<close>

lemma legacy_never_matches: "\<not> matches_profile (process_identity_legacy h) i p"
  by (simp add: matches_profile_def process_identity_legacy_def)

section \<open>A sample profile\<close>

definition demo_profile :: launch_profile where
  "demo_profile = \<lparr>prof_id = 3, prof_executable = \<lparr>exe_install_id = 1, exe_executable_id = 2, exe_image_id = 3\<rparr>,
     prof_user_data = 4, prof_policy = \<lparr>pol_max_descendants = 1, pol_start_timeout_millis = 5, pol_stop_timeout_millis = 5\<rparr>\<rparr>"

definition demo_identity :: "instance_id \<Rightarrow> process_identity" where
  "demo_identity i = process_identity_new i 40 41 42 (prof_executable demo_profile) (prof_user_data demo_profile)"

definition demo_catalog :: approved_launch_profiles where
  "demo_catalog = catalog_of 1 [demo_profile]"

lemma demo_resolve [simp]: "resolve demo_catalog 3 = Inr demo_profile"
  by (simp add: demo_catalog_def resolve_def catalog_insert_def catalog_new_def demo_profile_def profile_check_def
      executable_is_valid_def user_data_is_valid_def policy_is_valid_def MAX_PROFILE_DESCENDANTS_def
      MAX_START_TIMEOUT_MILLIS_def MAX_STOP_TIMEOUT_MILLIS_def ok_or_def)

lemma prof_id_demo [simp]: "prof_id demo_profile = 3"
  by (simp add: demo_profile_def)

end
