(* ===== verification/Process_Store.thy ===== *)
theory Process_Store
  imports Process_Profile "HOL-Library.Product_Lexorder"
begin

text \<open>
  Lifecycle operations and their store: \<open>process_store.rs\<close>, \<open>process_ownership.rs\<close>,
  \<open>process_store_memory.rs\<close>, the orders of \<open>process_lifecycle_order.rs\<close> and the generation keys of
  \<open>process_operation_generation.rs\<close>. A record key is the pair of instance and operation, in the
  order the source derives. The store trait is the record \<open>lifecycle_store\<close> of state-passing
  functions; \<open>memory_store\<close> is the in-memory implementation with its failure switches. The locale
  \<open>mirrored_store\<close> states what the coordinator relies on: the store holds exactly what it
  acknowledged.
\<close>

section \<open>Operations\<close>

datatype lifecycle_action =
    LaunchNew launch_profile_id
  | AttachExisting process_identity
  | Stop stop_mode
  | Restart launch_profile_id

datatype lifecycle_operation_state =
    IntentRecorded
  | OpStarting
  | Started
  | Attached
  | OpStopping
  | Restarting
  | OpStopped
  | OpFailed
  | Blocked
  | OpRejected
  | OpUnknown

definition is_active :: "lifecycle_operation_state \<Rightarrow> bool" where
  "is_active s \<longleftrightarrow> s \<in> {IntentRecorded, OpStarting, Started, Attached, OpStopping, Restarting, Blocked, OpUnknown}"

definition lifecycle_state_of :: "lifecycle_operation_state \<Rightarrow> lifecycle_state" where
  "lifecycle_state_of s = (case s of
     IntentRecorded \<Rightarrow> lifecycle_state.Starting | OpStarting \<Rightarrow> lifecycle_state.Starting
   | Restarting \<Rightarrow> lifecycle_state.Starting
   | Started \<Rightarrow> lifecycle_state.Starting | Attached \<Rightarrow> lifecycle_state.Starting
   | OpStopping \<Rightarrow> lifecycle_state.Stopping
   | OpStopped \<Rightarrow> lifecycle_state.Stopped
   | OpFailed \<Rightarrow> lifecycle_state.Failed | Blocked \<Rightarrow> lifecycle_state.Failed | OpRejected \<Rightarrow> lifecycle_state.Failed
   | OpUnknown \<Rightarrow> lifecycle_state.Unknown)"

datatype lifecycle_failure =
    FailCapacityExceeded
  | FailInstanceBusy
  | FailUnownedAttach
  | FailIdentityMismatch
  | FailForeignDescendant
  | FailProcess process_fault
  | FailStaleAuthorityEpoch
  | FailStore
  | FailInvalidState lifecycle_state

record lifecycle_operation =
  lop_operation_id :: operation_id
  lop_instance_id :: instance_id
  lop_lease :: lease_proof
  lop_sequence :: u64
  lop_request_epoch :: authority_epoch
  lop_authority_epoch :: authority_epoch
  lop_action :: lifecycle_action
  lop_state :: lifecycle_operation_state
  lop_process :: "process_identity option"
  lop_failure :: "lifecycle_failure option"

definition lifecycle_operation_new :: "operation_id \<Rightarrow> instance_id \<Rightarrow> lease_proof \<Rightarrow> authority_epoch
    \<Rightarrow> lifecycle_action \<Rightarrow> lifecycle_operation" where
  "lifecycle_operation_new oid i tok epoch action = \<lparr>lop_operation_id = oid, lop_instance_id = i, lop_lease = tok,
     lop_sequence = 0, lop_request_epoch = epoch, lop_authority_epoch = epoch, lop_action = action,
     lop_state = IntentRecorded, lop_process = None, lop_failure = None\<rparr>"

definition set_state :: "lifecycle_operation_state \<Rightarrow> process_identity option \<Rightarrow> lifecycle_failure option
    \<Rightarrow> lifecycle_operation \<Rightarrow> lifecycle_operation" where
  "set_state st proc fail p = p\<lparr>lop_state := st, lop_process := proc, lop_failure := fail\<rparr>"

type_synonym record_key = "instance_id \<times> operation_id"

abbreviation op_key :: "lifecycle_operation \<Rightarrow> record_key" where
  "op_key p \<equiv> (lop_instance_id p, lop_operation_id p)"

record lifecycle_ownership =
  own_instance_id :: instance_id
  own_operation_id :: operation_id
  own_sequence :: u64
  own_profile_id :: launch_profile_id
  own_process :: "process_identity option"

section \<open>Orders\<close>

definition operation_order :: "lifecycle_operation \<Rightarrow> nat \<times> u64 \<times> u64" where
  "operation_order p = (if lop_sequence p = 0 then (0, lop_operation_id p, 0)
     else (1, lop_sequence p, lop_operation_id p))"

definition owner_order :: "lifecycle_ownership \<Rightarrow> nat \<times> u64 \<times> u64" where
  "owner_order w = (if own_sequence w = 0 then (0, own_operation_id w, 0)
     else (1, own_sequence w, own_operation_id w))"

text \<open>\<open>Iterator::max_by_key\<close>: the last of the elements whose key is largest.\<close>

fun max_by_key :: "('a \<Rightarrow> 'k::linorder) \<Rightarrow> 'a list \<Rightarrow> 'a option" where
  "max_by_key f [] = None"
| "max_by_key f (x # xs) = (case max_by_key f xs of None \<Rightarrow> Some x | Some y \<Rightarrow> if f y < f x then Some x else Some y)"

lemma max_by_key_None [simp]: "max_by_key f xs = None \<longleftrightarrow> xs = []"
  by (cases xs) (auto split: option.split)

lemma max_by_key_Some:
  "max_by_key f xs = Some x \<Longrightarrow> x \<in> set xs \<and> (\<forall>y \<in> set xs. f y \<le> f x)"
  by (induction xs arbitrary: x) (fastforce split: option.splits if_splits)+

lemma max_by_key_unique:
  assumes "x \<in> set xs" and "\<And>y. y \<in> set xs \<Longrightarrow> y \<noteq> x \<Longrightarrow> f y < f x"
  shows "max_by_key f xs = Some x"
proof (cases "max_by_key f xs")
  case None
  with assms(1) show ?thesis by simp
next
  case (Some y)
  from max_by_key_Some [OF this] assms have "y = x" by (metis leD)
  with Some show ?thesis by simp
qed

section \<open>Generation keys (process_operation_generation.rs)\<close>

datatype generation_kind = GenLaunchNew | RestartReplacement

record process_operation_generation =
  gen_instance_id :: instance_id
  gen_operation_id :: operation_id
  gen_sequence :: u64
  gen_request_epoch :: authority_epoch
  gen_authority_epoch :: authority_epoch
  gen_profile_id :: launch_profile_id
  gen_kind :: generation_kind

datatype generation_start_error = GenUnsupported | GenProcess process_fault

datatype generation_recovery = Found process_identity | Indeterminate

definition permits_restart_recovery :: "lifecycle_operation \<Rightarrow> authority_epoch \<Rightarrow> bool" where
  "permits_restart_recovery p current \<longleftrightarrow> lop_sequence p \<noteq> 0 \<and> lop_authority_epoch p = current
     \<and> lop_request_epoch p \<noteq> lop_authority_epoch p"

definition for_operation :: "lifecycle_operation \<Rightarrow> launch_profile \<Rightarrow> generation_kind
    \<Rightarrow> process_operation_generation option" where
  "for_operation p profile kind =
     (case (case (kind, lop_action p) of
              (GenLaunchNew, LaunchNew i) \<Rightarrow> Some i
            | (RestartReplacement, Restart i) \<Rightarrow> Some i
            | _ \<Rightarrow> None) of
        None \<Rightarrow> None
      | Some i \<Rightarrow>
          if lop_sequence p = 0 \<or> prof_id profile \<noteq> i then None
          else if \<not> (case kind of
                       GenLaunchNew \<Rightarrow> lop_state p \<in> {OpStarting, OpUnknown}
                     | RestartReplacement \<Rightarrow> lop_state p \<in> {Restarting, OpUnknown}) then None
          else if kind = RestartReplacement \<and> lop_request_epoch p = lop_authority_epoch p then None
          else Some \<lparr>gen_instance_id = lop_instance_id p, gen_operation_id = lop_operation_id p,
                 gen_sequence = lop_sequence p, gen_request_epoch = lop_request_epoch p,
                 gen_authority_epoch = lop_authority_epoch p, gen_profile_id = i, gen_kind = kind\<rparr>)"

lemma for_operation_Some:
  assumes "for_operation p profile kind = Some g"
  shows "gen_kind g = kind" and "gen_instance_id g = lop_instance_id p" and "gen_operation_id g = lop_operation_id p"
    and "gen_sequence g = lop_sequence p" and "lop_sequence p \<noteq> 0" and "gen_profile_id g = prof_id profile"
    and "lop_action p = (case kind of GenLaunchNew \<Rightarrow> LaunchNew (prof_id profile)
           | RestartReplacement \<Rightarrow> Restart (prof_id profile))"
  using assms
  by (auto simp: for_operation_def split: option.splits generation_kind.splits lifecycle_action.splits if_splits)

section \<open>The store interface\<close>

datatype lifecycle_store_error = Database | Serialization | StoreNotFound | Conflict | StoreUnsupported

record 's lifecycle_store =
  store_insert :: "lifecycle_operation \<Rightarrow> 's \<Rightarrow> (lifecycle_store_error + unit) \<times> 's"
  store_update :: "lifecycle_operation \<Rightarrow> 's \<Rightarrow> (lifecycle_store_error + unit) \<times> 's"
  store_list :: "'s \<Rightarrow> lifecycle_store_error + lifecycle_operation list"
  store_count :: "'s \<Rightarrow> lifecycle_store_error + nat"
  store_list_ownership :: "'s \<Rightarrow> lifecycle_store_error + lifecycle_ownership list"
  store_set_ownership :: "lifecycle_ownership \<Rightarrow> 's \<Rightarrow> (lifecycle_store_error + unit) \<times> 's"
  store_clear_ownership_if :: "lifecycle_ownership \<Rightarrow> 's \<Rightarrow> (lifecycle_store_error + unit) \<times> 's"
  store_get :: "record_key \<Rightarrow> 's \<Rightarrow> lifecycle_store_error + lifecycle_operation option"
  store_clear_ownership :: "instance_id \<Rightarrow> 's \<Rightarrow> (lifecycle_store_error + unit) \<times> 's"

text \<open>The trait's default methods, for a store that keeps operation records only.\<close>

definition record_only_store :: "(lifecycle_operation \<Rightarrow> 's \<Rightarrow> (lifecycle_store_error + unit) \<times> 's)
    \<Rightarrow> (lifecycle_operation \<Rightarrow> 's \<Rightarrow> (lifecycle_store_error + unit) \<times> 's)
    \<Rightarrow> ('s \<Rightarrow> lifecycle_store_error + lifecycle_operation list)
    \<Rightarrow> (record_key \<Rightarrow> 's \<Rightarrow> lifecycle_store_error + lifecycle_operation option) \<Rightarrow> 's lifecycle_store" where
  "record_only_store ins upd records get = \<lparr>
     store_insert = ins, store_update = upd, store_list = records,
     store_count = (\<lambda>s. case records s of Inl e \<Rightarrow> Inl e | Inr rs \<Rightarrow> Inr (length rs)),
     store_list_ownership = (\<lambda>_. Inr []),
     store_set_ownership = (\<lambda>_ s. (Inl StoreUnsupported, s)),
     store_clear_ownership_if = (\<lambda>_ s. (Inl StoreUnsupported, s)),
     store_get = get,
     store_clear_ownership = (\<lambda>_ s. (Inl StoreUnsupported, s))\<rparr>"

section \<open>The in-memory store\<close>

record memory_store =
  mem_records :: "(record_key, lifecycle_operation) bmap"
  mem_ownership :: "(instance_id, lifecycle_ownership) bmap"
  mem_fail_insert :: bool
  mem_fail_update :: bool
  mem_fail_update_after :: "nat option"

definition memory_store_new :: memory_store where
  "memory_store_new = \<lparr>mem_records = bm_empty, mem_ownership = bm_empty, mem_fail_insert = False,
     mem_fail_update = False, mem_fail_update_after = None\<rparr>"

definition ownership_precedes :: "lifecycle_ownership \<Rightarrow> lifecycle_ownership \<Rightarrow> bool" where
  "ownership_precedes current candidate =
     (if own_sequence current = 0 \<and> own_sequence candidate = 0
      then own_operation_id current < own_operation_id candidate
      else if own_sequence current = 0 then True
      else if own_sequence candidate = 0 then False
      else own_sequence current < own_sequence candidate)"

definition memory_admits :: "lifecycle_operation \<Rightarrow> memory_store \<Rightarrow> bool" where
  "memory_admits p m =
     (let latest = max_by_key operation_order (filter (\<lambda>c. lop_instance_id c = lop_instance_id p
            \<and> lop_state c \<noteq> OpRejected) (bm_values (mem_records m)));
          has_in_flight = (case latest of None \<Rightarrow> False
            | Some c \<Rightarrow> lop_state c \<in> {IntentRecorded, OpStarting, OpStopping, Restarting});
          has_active = (case latest of None \<Rightarrow> False | Some c \<Rightarrow> is_active (lop_state c));
          launch = (case lop_action p of LaunchNew _ \<Rightarrow> True | _ \<Rightarrow> False)
      in \<not> (has_in_flight \<or> (launch \<and> (has_active \<or> bm_has (mem_ownership m) (lop_instance_id p)))))"

definition memory_insert :: "lifecycle_operation \<Rightarrow> memory_store \<Rightarrow> (lifecycle_store_error + unit) \<times> memory_store" where
  "memory_insert p m =
     (if mem_fail_insert m then (Inl Database, m)
      else if bm_has (mem_records m) (op_key p) then (Inl Conflict, m)
      else if is_active (lop_state p) \<and> \<not> memory_admits p m then (Inl Conflict, m)
      else (Inr (), m\<lparr>mem_records := bm_insert (op_key p) p (mem_records m)\<rparr>))"

definition memory_update :: "lifecycle_operation \<Rightarrow> memory_store \<Rightarrow> (lifecycle_store_error + unit) \<times> memory_store" where
  "memory_update p m =
     (if mem_fail_update m \<or> mem_fail_update_after m = Some 0 then (Inl Database, m)
      else
        let m1 = m\<lparr>mem_fail_update_after := map_option (\<lambda>n. n - 1) (mem_fail_update_after m)\<rparr> in
        if \<not> bm_has (mem_records m1) (op_key p) then (Inl StoreNotFound, m1)
        else (Inr (), m1\<lparr>mem_records := bm_insert (op_key p) p (mem_records m1)\<rparr>))"

definition memory_set_ownership :: "lifecycle_ownership \<Rightarrow> memory_store
    \<Rightarrow> (lifecycle_store_error + unit) \<times> memory_store" where
  "memory_set_ownership w m =
     (case bm_get (mem_records m) (own_instance_id w, own_operation_id w) of
        None \<Rightarrow> (Inl Conflict, m)
      | Some p \<Rightarrow>
          if \<not> is_active (lop_state p) then (Inl Conflict, m)
          else if (case bm_get (mem_ownership m) (own_instance_id w) of
                     None \<Rightarrow> False
                   | Some current \<Rightarrow>
                       if own_operation_id current \<noteq> own_operation_id w
                       then (case lop_action p of LaunchNew _ \<Rightarrow> True | _ \<Rightarrow> False)
                         \<or> \<not> is_active (lop_state p) \<or> \<not> ownership_precedes current w
                       else own_sequence w < own_sequence current)
          then (Inl Conflict, m)
          else (Inr (), m\<lparr>mem_ownership := bm_insert (own_instance_id w) w (mem_ownership m)\<rparr>))"

definition memory_clear_ownership_if :: "lifecycle_ownership \<Rightarrow> memory_store
    \<Rightarrow> (lifecycle_store_error + unit) \<times> memory_store" where
  "memory_clear_ownership_if w m =
     (case bm_get (mem_ownership m) (own_instance_id w) of
        None \<Rightarrow> (Inr (), m)
      | Some current \<Rightarrow>
          if current = w then (Inr (), m\<lparr>mem_ownership := bm_remove (own_instance_id w) (mem_ownership m)\<rparr>)
          else (Inl Conflict, m))"

definition memory_get :: "record_key \<Rightarrow> memory_store \<Rightarrow> lifecycle_store_error + lifecycle_operation option" where
  "memory_get k m = Inr (bm_get (mem_records m) k)"

definition memory_clear_ownership :: "instance_id \<Rightarrow> memory_store \<Rightarrow> (lifecycle_store_error + unit) \<times> memory_store" where
  "memory_clear_ownership i m = (Inr (), m\<lparr>mem_ownership := bm_remove i (mem_ownership m)\<rparr>)"

definition set_fail_insert :: "bool \<Rightarrow> memory_store \<Rightarrow> memory_store" where
  "set_fail_insert v m = m\<lparr>mem_fail_insert := v\<rparr>"

definition set_fail_update :: "bool \<Rightarrow> memory_store \<Rightarrow> memory_store" where
  "set_fail_update v m = m\<lparr>mem_fail_update := v\<rparr>"

definition set_fail_update_after :: "nat option \<Rightarrow> memory_store \<Rightarrow> memory_store" where
  "set_fail_update_after n m = m\<lparr>mem_fail_update_after := n\<rparr>"

definition memory_lifecycle_store :: "memory_store lifecycle_store" where
  "memory_lifecycle_store = \<lparr>
     store_insert = memory_insert, store_update = memory_update,
     store_list = (\<lambda>m. Inr (bm_values (mem_records m))),
     store_count = (\<lambda>m. Inr (bm_size (mem_records m))),
     store_list_ownership = (\<lambda>m. Inr (bm_values (mem_ownership m))),
     store_set_ownership = memory_set_ownership, store_clear_ownership_if = memory_clear_ownership_if,
     store_get = memory_get, store_clear_ownership = memory_clear_ownership\<rparr>"

section \<open>What the coordinator relies on\<close>

text \<open>
  \<open>held\<close> are the records the store holds, \<open>owners\<close> the ownership rows. A successful mutation stores
  exactly the value given under its own key; a failed one changes neither.
\<close>

locale mirrored_store =
  fixes st :: "'s lifecycle_store" and held :: "'s \<Rightarrow> (record_key, lifecycle_operation) bmap"
    and owners :: "'s \<Rightarrow> (instance_id, lifecycle_ownership) bmap"
  assumes insert_ok: "store_insert st p s = (Inr (), s') \<Longrightarrow>
      held s' = bm_insert (op_key p) p (held s) \<and> owners s' = owners s"
    and update_ok: "store_update st p s = (Inr (), s') \<Longrightarrow>
      held s' = bm_insert (op_key p) p (held s) \<and> owners s' = owners s"
    and set_ok: "store_set_ownership st w s = (Inr (), s') \<Longrightarrow>
      held s' = held s \<and> owners s' = bm_insert (own_instance_id w) w (owners s)"
    and clear_ok: "store_clear_ownership_if st w s = (Inr (), s') \<Longrightarrow>
      held s' = held s \<and> owners s' = bm_remove (own_instance_id w) (owners s)"
    and insert_err: "store_insert st p s = (Inl e, s') \<Longrightarrow> held s' = held s \<and> owners s' = owners s"
    and update_err: "store_update st p s = (Inl e, s') \<Longrightarrow> held s' = held s \<and> owners s' = owners s"
    and set_err: "store_set_ownership st w s = (Inl e, s') \<Longrightarrow> held s' = held s \<and> owners s' = owners s"
    and clear_err: "store_clear_ownership_if st w s = (Inl e, s') \<Longrightarrow> held s' = held s \<and> owners s' = owners s"
    and get_ok: "store_get st k s = Inr (bm_get (held s) k)"
    and list_ok: "store_list st s = Inr (bm_values (held s))"
    and count_ok: "store_count st s = Inr (bm_size (held s))"
    and list_ownership_ok: "store_list_ownership st s = Inr (bm_values (owners s))"

lemma memory_clear_absent: "bm_get m k = None \<Longrightarrow> bm_remove k m = m"
  by (rule bm.ext) auto

interpretation memory: mirrored_store memory_lifecycle_store mem_records mem_ownership
proof unfold_locales
  fix p w s s' e
  show "store_insert memory_lifecycle_store p s = (Inr (), s') \<Longrightarrow>
      mem_records s' = bm_insert (op_key p) p (mem_records s) \<and> mem_ownership s' = mem_ownership s"
    by (auto simp: memory_lifecycle_store_def memory_insert_def split: if_splits)
  show "store_insert memory_lifecycle_store p s = (Inl e, s') \<Longrightarrow>
      mem_records s' = mem_records s \<and> mem_ownership s' = mem_ownership s"
    by (auto simp: memory_lifecycle_store_def memory_insert_def split: if_splits)
  show "store_update memory_lifecycle_store p s = (Inr (), s') \<Longrightarrow>
      mem_records s' = bm_insert (op_key p) p (mem_records s) \<and> mem_ownership s' = mem_ownership s"
    by (auto simp: memory_lifecycle_store_def memory_update_def Let_def split: if_splits)
  show "store_update memory_lifecycle_store p s = (Inl e, s') \<Longrightarrow>
      mem_records s' = mem_records s \<and> mem_ownership s' = mem_ownership s"
    by (auto simp: memory_lifecycle_store_def memory_update_def Let_def split: if_splits)
  show "store_set_ownership memory_lifecycle_store w s = (Inr (), s') \<Longrightarrow>
      mem_records s' = mem_records s \<and> mem_ownership s' = bm_insert (own_instance_id w) w (mem_ownership s)"
    by (auto simp: memory_lifecycle_store_def memory_set_ownership_def split: if_splits option.splits)
  show "store_set_ownership memory_lifecycle_store w s = (Inl e, s') \<Longrightarrow>
      mem_records s' = mem_records s \<and> mem_ownership s' = mem_ownership s"
    by (auto simp: memory_lifecycle_store_def memory_set_ownership_def split: if_splits option.splits)
  show "store_clear_ownership_if memory_lifecycle_store w s = (Inr (), s') \<Longrightarrow>
      mem_records s' = mem_records s \<and> mem_ownership s' = bm_remove (own_instance_id w) (mem_ownership s)"
    by (auto simp: memory_lifecycle_store_def memory_clear_ownership_if_def memory_clear_absent
        split: if_splits option.splits)
  show "store_clear_ownership_if memory_lifecycle_store w s = (Inl e, s') \<Longrightarrow>
      mem_records s' = mem_records s \<and> mem_ownership s' = mem_ownership s"
    by (auto simp: memory_lifecycle_store_def memory_clear_ownership_if_def split: if_splits option.splits)
qed (simp_all add: memory_lifecycle_store_def memory_get_def)

end
