(* ===== verification/Gateway_Effects.thy ===== *)
theory Gateway_Effects
  imports Gateway_Prelude
begin

text \<open>
  Stateful computations for components whose methods call each other: an effect maps the state to a
  result and the next state. \<open>and_try\<close> is the source's \<open>?\<close> (an error ends the method, with the state
  reached so far), \<open>and_use\<close> binds the result of a call whatever it is. \<open>triple\<close> is partial
  correctness with one postcondition for success and one for an error return; effects are total, so
  it speaks about every run.
\<close>

definition and_try :: "('s \<Rightarrow> ('e + 'a) \<times> 's) \<Rightarrow> ('a \<Rightarrow> 's \<Rightarrow> ('e + 'b) \<times> 's) \<Rightarrow> 's \<Rightarrow> ('e + 'b) \<times> 's" where
  "and_try m f s = (case m s of (Inl e, t) \<Rightarrow> (Inl e, t) | (Inr a, t) \<Rightarrow> f a t)"

definition and_use :: "('s \<Rightarrow> 'a \<times> 's) \<Rightarrow> ('a \<Rightarrow> 's \<Rightarrow> 'b \<times> 's) \<Rightarrow> 's \<Rightarrow> 'b \<times> 's" where
  "and_use m f s = (case m s of (a, t) \<Rightarrow> f a t)"

text \<open>The error conversion of \<open>?\<close> and \<open>map_err\<close>, and a pure fallible value.\<close>

definition lift_err :: "('e \<Rightarrow> 'f) \<Rightarrow> ('s \<Rightarrow> ('e + 'a) \<times> 's) \<Rightarrow> 's \<Rightarrow> ('f + 'a) \<times> 's" where
  "lift_err g m s = (case m s of (r, t) \<Rightarrow> (map_err g r, t))"

definition pure :: "'r \<Rightarrow> 's \<Rightarrow> 'r \<times> 's" where
  "pure r s = (r, s)"

lemma pure_simp [simp]: "pure r s = (r, s)"
  by (simp add: pure_def)

lemma and_try_pure [simp]:
  "and_try (pure (Inl e)) f = pure (Inl e)" "and_try (pure (Inr a)) f = f a"
  by (auto simp: and_try_def)

lemma and_use_pure [simp]: "and_use (pure a) f = f a"
  by (rule ext) (simp add: and_use_def)

lemma and_try_assoc: "and_try (and_try m f) g = and_try m (\<lambda>a. and_try (f a) g)"
  by (rule ext) (simp add: and_try_def split: prod.split sum.split)

definition triple :: "('s \<Rightarrow> bool) \<Rightarrow> ('s \<Rightarrow> ('e + 'a) \<times> 's) \<Rightarrow> ('a \<Rightarrow> 's \<Rightarrow> bool) \<Rightarrow> ('s \<Rightarrow> bool) \<Rightarrow> bool" where
  "triple P m Q R \<longleftrightarrow> (\<forall>s. P s \<longrightarrow> (case m s of (Inl _, t) \<Rightarrow> R t | (Inr a, t) \<Rightarrow> Q a t))"

text \<open>Postcondition of a call whose result is inspected by the caller.\<close>

definition yields :: "('s \<Rightarrow> bool) \<Rightarrow> ('s \<Rightarrow> 'a \<times> 's) \<Rightarrow> ('a \<Rightarrow> 's \<Rightarrow> bool) \<Rightarrow> bool" where
  "yields P m Q \<longleftrightarrow> (\<forall>s. P s \<longrightarrow> Q (fst (m s)) (snd (m s)))"

lemma yieldsI: "(\<And>s a t. P s \<Longrightarrow> m s = (a, t) \<Longrightarrow> Q a t) \<Longrightarrow> yields P m Q"
  by (simp add: yields_def)

lemma yieldsD: "yields P m Q \<Longrightarrow> P s \<Longrightarrow> m s = (a, t) \<Longrightarrow> Q a t"
  by (auto simp: yields_def)

lemma tripleI:
  assumes "\<And>s e t. P s \<Longrightarrow> m s = (Inl e, t) \<Longrightarrow> R t" and "\<And>s a t. P s \<Longrightarrow> m s = (Inr a, t) \<Longrightarrow> Q a t"
  shows "triple P m Q R"
  using assms by (auto simp: triple_def split: sum.split)

lemma tripleD_Inr: "triple P m Q R \<Longrightarrow> P s \<Longrightarrow> m s = (Inr a, t) \<Longrightarrow> Q a t"
  unfolding triple_def by (drule spec [of _ s]) simp

lemma tripleD_Inl: "triple P m Q R \<Longrightarrow> P s \<Longrightarrow> m s = (Inl e, t) \<Longrightarrow> R t"
  unfolding triple_def by (drule spec [of _ s]) simp

lemma and_try_cases:
  assumes "and_try m f s = (r, t)"
  obtains e where "m s = (Inl e, t)" "r = Inl e" | a u where "m s = (Inr a, u)" "f a u = (r, t)"
  using assms by (cases "m s"; cases "fst (m s)") (auto simp: and_try_def)

lemma and_use_cases:
  assumes "and_use m f s = (r, t)"
  obtains a u where "m s = (a, u)" "f a u = (r, t)"
  using assms by (cases "m s") (auto simp: and_use_def)

lemma lift_err_cases:
  assumes "lift_err g m s = (r, t)"
  obtains e where "m s = (Inl e, t)" "r = Inl (g e)" | a where "m s = (Inr a, t)" "r = Inr a"
  using assms by (cases "m s"; cases "fst (m s)") (auto simp: lift_err_def)

lemma triple_try:
  assumes "triple P m Q R" and "\<And>a. triple (Q a) (f a) Q' R"
  shows "triple P (and_try m f) Q' R"
proof (rule tripleI)
  fix s e t assume "P s" "and_try m f s = (Inl e, t)"
  from this(2) show "R t"
    by (cases rule: and_try_cases) (use assms \<open>P s\<close> in \<open>auto dest: tripleD_Inl tripleD_Inr\<close>)
next
  fix s a t assume "P s" "and_try m f s = (Inr a, t)"
  from this(2) show "Q' a t"
    by (cases rule: and_try_cases) (use assms \<open>P s\<close> in \<open>auto dest: tripleD_Inr\<close>)
qed

lemma triple_use:
  assumes "yields P m Q" and "\<And>a. triple (Q a) (f a) Q' R"
  shows "triple P (and_use m f) Q' R"
  by (rule tripleI; erule and_use_cases) (use assms in \<open>auto dest!: yieldsD dest: tripleD_Inl tripleD_Inr\<close>)

lemma yields_use:
  assumes "yields P m Q" and "\<And>a. yields (Q a) (f a) Q'"
  shows "yields P (and_use m f) Q'"
  by (rule yieldsI; erule and_use_cases) (use assms in \<open>auto dest: yieldsD\<close>)

lemma triple_lift_err: "triple P m Q R \<Longrightarrow> triple P (lift_err g m) Q R"
  by (rule tripleI; erule lift_err_cases) (auto dest: tripleD_Inl tripleD_Inr)

lemma triple_pure:
  assumes "\<And>e s. r = Inl e \<Longrightarrow> P s \<Longrightarrow> R s" and "\<And>a s. r = Inr a \<Longrightarrow> P s \<Longrightarrow> Q a s"
  shows "triple P (pure r) Q R"
  by (rule tripleI) (use assms in auto)

lemma triple_weaken:
  assumes "triple P m Q R" and "\<And>s. P' s \<Longrightarrow> P s" and "\<And>a s. Q a s \<Longrightarrow> Q' a s" and "\<And>s. R s \<Longrightarrow> R' s"
  shows "triple P' m Q' R'"
  by (rule tripleI)
    (auto intro: assms(3) assms(4) tripleD_Inl [OF assms(1) assms(2)] tripleD_Inr [OF assms(1) assms(2)])

text \<open>Rules for a computation that has to end in a state invariant.\<close>

lemma yields_try:
  assumes "triple P m (\<lambda>_. Q) R" and "\<And>a. yields Q (f a) (\<lambda>_. R)"
  shows "yields P (and_try m f) (\<lambda>_. R)"
  by (rule yieldsI; erule and_try_cases) (use assms in \<open>auto dest: tripleD_Inl tripleD_Inr yieldsD\<close>)

lemma yields_run: "yields P m (\<lambda>_. R) \<Longrightarrow> P s \<Longrightarrow> R (snd (m s))"
  by (simp add: yields_def)

lemma yields_runI: "(\<And>s. P s \<Longrightarrow> R (snd (m s))) \<Longrightarrow> yields P m (\<lambda>_. R)"
  by (simp add: yields_def)

lemma yields_pure: "(\<And>s. P s \<Longrightarrow> Q r s) \<Longrightarrow> yields P (pure r) Q"
  by (simp add: yields_def)

lemma yields_pre: "yields P m Q \<Longrightarrow> (\<And>s. P' s \<Longrightarrow> P s) \<Longrightarrow> yields P' m Q"
  by (simp add: yields_def)

lemma yields_if: "(c \<Longrightarrow> yields P a Q) \<Longrightarrow> (\<not> c \<Longrightarrow> yields P b Q) \<Longrightarrow> yields P (if c then a else b) Q"
  by simp

lemma yields_case_sum:
  "(\<And>x. r = Inl x \<Longrightarrow> yields P (f x) Q) \<Longrightarrow> (\<And>y. r = Inr y \<Longrightarrow> yields P (g y) Q) \<Longrightarrow> yields P (case_sum f g r) Q"
  by (cases r) simp_all

lemma yields_case_option:
  "(r = None \<Longrightarrow> yields P f Q) \<Longrightarrow> (\<And>y. r = Some y \<Longrightarrow> yields P (g y) Q) \<Longrightarrow> yields P (case_option f g r) Q"
  by (cases r) simp_all

lemma yields_let: "yields P (f x) Q \<Longrightarrow> yields P (Let x f) Q"
  by simp

lemmas yields_structure = yields_if yields_case_sum yields_case_option yields_let

end
