(* ===== verification/Process_Lifecycle.thy ===== *)
theory Process_Lifecycle
  imports Process_Store Gateway_Effects
begin

text \<open>
  The process lifecycle coordinator: \<open>process_lifecycle.rs\<close> and its submodules
  (\<open>_types\<close>, \<open>_operations\<close>, \<open>_actions\<close>, \<open>_failures\<close>, \<open>_namespace\<close>, \<open>_order\<close>, \<open>_ownership\<close>,
  \<open>_recovery\<close>, \<open>_recovery_actions\<close>, \<open>_restart_recovery\<close>, \<open>_verification\<close>). Every method of
  \<open>ProcessLifecycle\<close> is an effect on the coordinator's state, which holds the states of the injected
  clock, process port, record store and lease decision. Port calls return their result as a value
  where the source matches on it, and end the method where it uses \<open>?\<close>.
\<close>

section \<open>Types (process_lifecycle_types.rs)\<close>

record process_lifecycle_config =
  plc_max_processes :: nat
  plc_max_records :: nat

datatype lifecycle_error =
    LeaseNotBound
  | Fence fence_failure
  | StaleAuthorityEpoch
  | AuthorityExhausted
  | CapacityExceeded
  | InstanceBusy
  | UserDataNamespaceBusy
  | InstanceNotFound
  | OperationConflict
  | OperationNotFound
  | UnownedAttach
  | IdentityMismatch
  | ForeignDescendant
  | Process process_fault
  | Profile launch_profile_error
  | Store lifecycle_store_error
  | InvalidState lifecycle_state

definition DEFAULT_MAX_RECORDS :: nat where "DEFAULT_MAX_RECORDS = 1024"

definition lifecycle_config_try_new :: "nat \<Rightarrow> nat \<Rightarrow> lifecycle_error + process_lifecycle_config" where
  "lifecycle_config_try_new processes records =
     (if processes = 0 \<or> records = 0 then Inl CapacityExceeded
      else Inr \<lparr>plc_max_processes = processes, plc_max_records = records\<rparr>)"

record lifecycle_request =
  lrq_operation_id :: operation_id
  lrq_instance_id :: instance_id
  lrq_lease :: lease_proof
  lrq_authority_epoch :: authority_epoch
  lrq_action :: lifecycle_action

text \<open>\<open>launch_new\<close>, \<open>attach_existing\<close>, \<open>stop\<close> and \<open>restart\<close> differ in the action only.\<close>

definition lifecycle_request_new :: "operation_id \<Rightarrow> lease_proof \<Rightarrow> authority_epoch \<Rightarrow> lifecycle_action
    \<Rightarrow> lifecycle_request" where
  "lifecycle_request_new oid tok epoch action = \<lparr>lrq_operation_id = oid, lrq_instance_id = proof_instance_id tok,
     lrq_lease = tok, lrq_authority_epoch = epoch, lrq_action = action\<rparr>"

record lifecycle_response =
  lrs_operation_id :: operation_id
  lrs_instance_id :: instance_id
  lrs_state :: lifecycle_state
  lrs_operation_state :: lifecycle_operation_state
  lrs_process :: "process_identity option"
  lrs_authority_epoch :: authority_epoch
  lrs_failure :: "lifecycle_failure option"

definition lifecycle_response_new :: "lifecycle_operation \<Rightarrow> lifecycle_state \<Rightarrow> lifecycle_response" where
  "lifecycle_response_new p st = \<lparr>lrs_operation_id = lop_operation_id p, lrs_instance_id = lop_instance_id p,
     lrs_state = st, lrs_operation_state = lop_state p, lrs_process = lop_process p,
     lrs_authority_epoch = lop_authority_epoch p, lrs_failure = lop_failure p\<rparr>"

definition failure_error :: "lifecycle_failure \<Rightarrow> lifecycle_error" where
  "failure_error f = (case f of
     FailCapacityExceeded \<Rightarrow> CapacityExceeded
   | FailInstanceBusy \<Rightarrow> InstanceBusy
   | FailUnownedAttach \<Rightarrow> UnownedAttach
   | FailIdentityMismatch \<Rightarrow> IdentityMismatch
   | FailForeignDescendant \<Rightarrow> ForeignDescendant
   | FailProcess fault \<Rightarrow> Process fault
   | FailStaleAuthorityEpoch \<Rightarrow> StaleAuthorityEpoch
   | FailStore \<Rightarrow> Store Database
   | FailInvalidState st \<Rightarrow> InvalidState st)"

section \<open>Ports and state\<close>

record ('c, 'p, 's, 'f) lifecycle_env =
  lc_now :: "'c \<Rightarrow> tick \<times> 'c"
  lc_check_fence :: "'f \<Rightarrow> lease option \<Rightarrow> instance_id \<Rightarrow> lease_proof \<Rightarrow> tick \<Rightarrow> (fence_failure + unit) \<times> 'f"
  lc_start_generation :: "'p \<Rightarrow> process_operation_generation \<Rightarrow> launch_spec \<Rightarrow> launch_profile
    \<Rightarrow> (generation_start_error + process_launch) \<times> 'p"
  lc_inspect :: "'p \<Rightarrow> process_handle \<Rightarrow> (process_fault + process_state) \<times> 'p"
  lc_inspect_identity :: "'p \<Rightarrow> process_handle \<Rightarrow> (process_fault + process_identity) \<times> 'p"
  lc_descendants :: "'p \<Rightarrow> process_handle \<Rightarrow> (process_fault + process_descendant_identity list) \<times> 'p"
  lc_stop :: "'p \<Rightarrow> process_handle \<Rightarrow> stop_mode \<Rightarrow> (process_fault + unit) \<times> 'p"
  lc_recover_generation :: "'p \<Rightarrow> process_operation_generation \<Rightarrow> launch_profile
    \<Rightarrow> (process_fault + generation_recovery) \<times> 'p"
  lc_store :: "'s lifecycle_store"

record ('c, 'p, 's, 'f) process_lifecycle =
  plc_config :: process_lifecycle_config
  plc_profiles :: approved_launch_profiles
  plc_clock :: 'c
  plc_process :: 'p
  plc_store :: 's
  plc_fence :: 'f
  plc_leases :: "(instance_id, lease) bmap"
  plc_authority :: "(instance_id, authority_epoch) bmap"
  plc_records :: "(record_key, lifecycle_operation) bmap"
  plc_ownership :: "(instance_id, lifecycle_ownership) bmap"
  plc_owned :: "(instance_id, process_identity) bmap"
  plc_next_sequence :: u64

text \<open>The calls of the process port on the coordinator's port state.\<close>

definition on_process :: "('p \<Rightarrow> 'r \<times> 'p) \<Rightarrow> ('c, 'p, 's, 'f) process_lifecycle \<Rightarrow> 'r \<times> ('c, 'p, 's, 'f) process_lifecycle" where
  "on_process call s = (case call (plc_process s) of (r, p) \<Rightarrow> (r, s\<lparr>plc_process := p\<rparr>))"

definition call_start_generation where
  "call_start_generation E g spec profile = on_process (\<lambda>p. lc_start_generation E p g spec profile)"

definition call_inspect where
  "call_inspect E h = on_process (\<lambda>p. lc_inspect E p h)"

definition call_inspect_identity where
  "call_inspect_identity E h = on_process (\<lambda>p. lc_inspect_identity E p h)"

definition call_descendants where
  "call_descendants E h = on_process (\<lambda>p. lc_descendants E p h)"

definition call_stop where
  "call_stop E h mode = on_process (\<lambda>p. lc_stop E p h mode)"

definition call_recover_generation where
  "call_recover_generation E g profile = on_process (\<lambda>p. lc_recover_generation E p g profile)"

section \<open>Authority and persistence (process_lifecycle.rs)\<close>

definition bind_lease :: "lease \<Rightarrow> ('c, 'p, 's, 'f) process_lifecycle
    \<Rightarrow> (lifecycle_error + unit) \<times> ('c, 'p, 's, 'f) process_lifecycle" where
  "bind_lease l s =
     (let i = lease_instance_id l in
      if (case bm_get (plc_leases s) i of None \<Rightarrow> False | Some current \<Rightarrow> lease_proof_of current \<noteq> lease_proof_of l)
      then (Inl IdentityMismatch, s)
      else (Inr (), s\<lparr>plc_leases := bm_insert i l (plc_leases s),
             plc_authority := (if bm_has (plc_authority s) i then plc_authority s
                               else bm_insert i 1 (plc_authority s))\<rparr>))"

definition bind_attached_lease :: "lease_proof \<Rightarrow> tick \<Rightarrow> ('c, 'p, 's, 'f) process_lifecycle
    \<Rightarrow> (lifecycle_error + unit) \<times> ('c, 'p, 's, 'f) process_lifecycle" where
  "bind_attached_lease tok expires_at = bind_lease \<lparr>lease_instance_id = proof_instance_id tok,
     lease_caller_id = proof_caller_id tok, lease_session_id = proof_session_id tok,
     lease_lease_id = proof_lease_id tok, lease_epoch = proof_epoch tok, lease_expires_at = expires_at\<rparr>"

definition current_authority_epoch :: "('c, 'p, 's, 'f) process_lifecycle \<Rightarrow> instance_id \<Rightarrow> authority_epoch" where
  "current_authority_epoch s i = (case bm_get (plc_authority s) i of Some e \<Rightarrow> e | None \<Rightarrow> 1)"

definition set_authority_epoch :: "instance_id \<Rightarrow> authority_epoch \<Rightarrow> ('c, 'p, 's, 'f) process_lifecycle
    \<Rightarrow> ('c, 'p, 's, 'f) process_lifecycle" where
  "set_authority_epoch i e s = s\<lparr>plc_authority := bm_insert i e (plc_authority s)\<rparr>"

definition authenticate :: "('c, 'p, 's, 'f) lifecycle_env \<Rightarrow> instance_id \<Rightarrow> lease_proof \<Rightarrow> authority_epoch
    \<Rightarrow> ('c, 'p, 's, 'f) process_lifecycle \<Rightarrow> (lifecycle_error + unit) \<times> ('c, 'p, 's, 'f) process_lifecycle" where
  "authenticate E i tok epoch s =
     (case bm_get (plc_leases s) i of
        None \<Rightarrow> (Inl LeaseNotBound, s)
      | Some l \<Rightarrow>
          (case lc_now E (plc_clock s) of (t, c) \<Rightarrow>
           case lc_check_fence E (plc_fence s) (Some l) i tok t of (r, f) \<Rightarrow>
             let s1 = s\<lparr>plc_clock := c, plc_fence := f\<rparr> in
             case r of
               Inl e \<Rightarrow> (Inl (Fence e), s1)
             | Inr _ \<Rightarrow> (if current_authority_epoch s1 i \<noteq> epoch then Inl StaleAuthorityEpoch else Inr (), s1)))"

definition persist_insert :: "('c, 'p, 's, 'f) lifecycle_env \<Rightarrow> lifecycle_operation
    \<Rightarrow> ('c, 'p, 's, 'f) process_lifecycle \<Rightarrow> (lifecycle_error + unit) \<times> ('c, 'p, 's, 'f) process_lifecycle" where
  "persist_insert E p s =
     (if \<not> bm_has (plc_records s) (op_key p) \<and> plc_max_records (plc_config s) \<le> bm_size (plc_records s)
      then (Inl CapacityExceeded, s)
      else case store_insert (lc_store E) p (plc_store s) of
        (Inl e, st) \<Rightarrow> (Inl (Store e), s\<lparr>plc_store := st\<rparr>)
      | (Inr _, st) \<Rightarrow> (Inr (), s\<lparr>plc_store := st, plc_records := bm_insert (op_key p) p (plc_records s)\<rparr>))"

definition persist_update :: "('c, 'p, 's, 'f) lifecycle_env \<Rightarrow> lifecycle_operation
    \<Rightarrow> ('c, 'p, 's, 'f) process_lifecycle \<Rightarrow> (lifecycle_error + unit) \<times> ('c, 'p, 's, 'f) process_lifecycle" where
  "persist_update E p s =
     (case store_update (lc_store E) p (plc_store s) of
        (Inl e, st) \<Rightarrow> (Inl (Store e), s\<lparr>plc_store := st\<rparr>)
      | (Inr _, st) \<Rightarrow> (Inr (), s\<lparr>plc_store := st, plc_records := bm_insert (op_key p) p (plc_records s)\<rparr>))"

section \<open>Records and ownership (process_lifecycle_ownership.rs, process_lifecycle_order.rs)\<close>

definition records_of :: "('c, 'p, 's, 'f) process_lifecycle \<Rightarrow> instance_id \<Rightarrow> lifecycle_operation list" where
  "records_of s i = filter (\<lambda>p. lop_instance_id p = i) (bm_values (plc_records s))"

definition lease_matches :: "('c, 'p, 's, 'f) process_lifecycle \<Rightarrow> lifecycle_operation \<Rightarrow> bool" where
  "lease_matches s p = (case bm_get (plc_leases s) (lop_instance_id p) of
     None \<Rightarrow> False | Some l \<Rightarrow> lease_proof_of l = lop_lease p)"

definition operation_can_update_owner :: "('c, 'p, 's, 'f) process_lifecycle \<Rightarrow> lifecycle_operation \<Rightarrow> bool" where
  "operation_can_update_owner s p = (case bm_get (plc_ownership s) (lop_instance_id p) of
     None \<Rightarrow> True | Some w \<Rightarrow> owner_order w \<le> operation_order p)"

definition operation_is_current :: "('c, 'p, 's, 'f) process_lifecycle \<Rightarrow> lifecycle_operation \<Rightarrow> bool" where
  "operation_is_current s p =
     (case max_by_key (\<lambda>c. if lop_sequence p = 0 \<or> lop_sequence c = 0 then (0, lop_operation_id c, 0)
              else operation_order c)
            (filter (\<lambda>c. lop_state c \<noteq> OpRejected) (records_of s (lop_instance_id p))) of
        None \<Rightarrow> True
      | Some latest \<Rightarrow> lop_operation_id p = lop_operation_id latest
          \<and> (lop_sequence p = 0 \<or> lop_sequence latest = 0 \<or> operation_order latest \<le> operation_order p))"

definition authoritative_operation :: "('c, 'p, 's, 'f) process_lifecycle \<Rightarrow> instance_id \<Rightarrow> lifecycle_operation option" where
  "authoritative_operation s i = (case bm_get (plc_ownership s) i of
     None \<Rightarrow> None | Some w \<Rightarrow> bm_get (plc_records s) (i, own_operation_id w))"

definition latest_record :: "('c, 'p, 's, 'f) process_lifecycle \<Rightarrow> instance_id \<Rightarrow> lifecycle_operation option" where
  "latest_record s i = max_by_key operation_order (records_of s i)"

definition latest_authoritative_record :: "('c, 'p, 's, 'f) process_lifecycle \<Rightarrow> instance_id
    \<Rightarrow> lifecycle_operation option" where
  "latest_authoritative_record s i =
     max_by_key operation_order (filter (\<lambda>p. lop_state p \<noteq> OpRejected) (records_of s i))"

definition only_if :: "('a \<Rightarrow> bool) \<Rightarrow> 'a option \<Rightarrow> 'a option" where
  "only_if P x = (case x of None \<Rightarrow> None | Some a \<Rightarrow> if P a then Some a else None)"

definition latest_authorized_excluding :: "('c, 'p, 's, 'f) process_lifecycle \<Rightarrow> instance_id
    \<Rightarrow> operation_id option \<Rightarrow> lifecycle_operation option" where
  "latest_authorized_excluding s i excluded =
     (let usable = (\<lambda>p. is_active (lop_state p) \<and> lop_process p \<noteq> None \<and> lease_matches s p) in
      if bm_has (plc_ownership s) i
      then only_if (\<lambda>p. Some (lop_operation_id p) \<noteq> excluded \<and> usable p) (authoritative_operation s i)
      else case latest_authoritative_record s i of
        None \<Rightarrow> None
      | Some latest \<Rightarrow>
          if Some (lop_operation_id latest) \<noteq> excluded then only_if usable (Some latest)
          else max_by_key operation_order
            (filter (\<lambda>p. Some (lop_operation_id p) \<noteq> excluded \<and> usable p) (records_of s i)))"

definition latest_authorized :: "('c, 'p, 's, 'f) process_lifecycle \<Rightarrow> instance_id \<Rightarrow> lifecycle_operation option" where
  "latest_authorized s i = latest_authorized_excluding s i None"

definition active_operation :: "('c, 'p, 's, 'f) process_lifecycle \<Rightarrow> instance_id \<Rightarrow> lifecycle_operation option" where
  "active_operation s i =
     (case only_if (\<lambda>p. is_active (lop_state p)) (authoritative_operation s i) of
        Some p \<Rightarrow> Some p
      | None \<Rightarrow> only_if (\<lambda>p. is_active (lop_state p)) (latest_authoritative_record s i))"

definition active_instance :: "('c, 'p, 's, 'f) process_lifecycle \<Rightarrow> instance_id \<Rightarrow> bool" where
  "active_instance s i = (case latest_authoritative_record s i of None \<Rightarrow> False | Some p \<Rightarrow> is_active (lop_state p))"

definition occupied_count :: "('c, 'p, 's, 'f) process_lifecycle \<Rightarrow> nat" where
  "occupied_count s = card (set (bm_keys (plc_ownership s))
     \<union> {i \<in> lop_instance_id ` set (bm_values (plc_records s)). active_instance s i})"

definition issue_sequence :: "('c, 'p, 's, 'f) process_lifecycle
    \<Rightarrow> (lifecycle_error + u64) \<times> ('c, 'p, 's, 'f) process_lifecycle" where
  "issue_sequence s = (case checked_add_u64 (plc_next_sequence s) 1 of
     None \<Rightarrow> (Inl AuthorityExhausted, s)
   | Some n \<Rightarrow> (Inr n, s\<lparr>plc_next_sequence := n\<rparr>))"

definition persist_ownership :: "('c, 'p, 's, 'f) lifecycle_env \<Rightarrow> lifecycle_ownership
    \<Rightarrow> ('c, 'p, 's, 'f) process_lifecycle \<Rightarrow> (lifecycle_error + unit) \<times> ('c, 'p, 's, 'f) process_lifecycle" where
  "persist_ownership E w s =
     (case store_set_ownership (lc_store E) w (plc_store s) of
        (Inl e, st) \<Rightarrow> (Inl (Store e), s\<lparr>plc_store := st\<rparr>)
      | (Inr _, st) \<Rightarrow>
          (Inr (), s\<lparr>plc_store := st, plc_next_sequence := max (plc_next_sequence s) (own_sequence w),
             plc_owned := (case own_process w of
                Some d \<Rightarrow> bm_insert (own_instance_id w) d (plc_owned s)
              | None \<Rightarrow> bm_remove (own_instance_id w) (plc_owned s)),
             plc_ownership := bm_insert (own_instance_id w) w (plc_ownership s)\<rparr>))"

definition owner_row :: "lifecycle_operation \<Rightarrow> launch_profile_id \<Rightarrow> process_identity option \<Rightarrow> lifecycle_ownership" where
  "owner_row p profile_id proc = \<lparr>own_instance_id = lop_instance_id p, own_operation_id = lop_operation_id p,
     own_sequence = lop_sequence p, own_profile_id = profile_id, own_process = proc\<rparr>"

definition reserve_ownership :: "('c, 'p, 's, 'f) lifecycle_env \<Rightarrow> lifecycle_operation \<Rightarrow> launch_profile_id
    \<Rightarrow> ('c, 'p, 's, 'f) process_lifecycle \<Rightarrow> (lifecycle_error + unit) \<times> ('c, 'p, 's, 'f) process_lifecycle" where
  "reserve_ownership E p profile_id s =
     (if \<not> operation_can_update_owner s p then (Inr (), s)
      else persist_ownership E (owner_row p profile_id (lop_process p)) s)"

definition set_owned :: "('c, 'p, 's, 'f) lifecycle_env \<Rightarrow> lifecycle_operation \<Rightarrow> launch_profile_id \<Rightarrow> process_identity
    \<Rightarrow> ('c, 'p, 's, 'f) process_lifecycle \<Rightarrow> (lifecycle_error + unit) \<times> ('c, 'p, 's, 'f) process_lifecycle" where
  "set_owned E p profile_id d s =
     (if \<not> operation_can_update_owner s p then (Inr (), s)
      else persist_ownership E (owner_row p profile_id (Some d)) s)"

definition set_owner_process_for_operation :: "('c, 'p, 's, 'f) lifecycle_env \<Rightarrow> lifecycle_operation
    \<Rightarrow> process_identity option
    \<Rightarrow> ('c, 'p, 's, 'f) process_lifecycle \<Rightarrow> (lifecycle_error + unit) \<times> ('c, 'p, 's, 'f) process_lifecycle" where
  "set_owner_process_for_operation E p proc s =
     (if \<not> operation_can_update_owner s p then (Inr (), s)
      else case bm_get (plc_ownership s) (lop_instance_id p) of
        None \<Rightarrow> (Inr (), s)
      | Some current \<Rightarrow> persist_ownership E (current\<lparr>own_process := proc\<rparr>) s)"

definition clear_owned :: "('c, 'p, 's, 'f) lifecycle_env \<Rightarrow> instance_id
    \<Rightarrow> ('c, 'p, 's, 'f) process_lifecycle \<Rightarrow> (lifecycle_error + unit) \<times> ('c, 'p, 's, 'f) process_lifecycle" where
  "clear_owned E i s =
     (case bm_get (plc_ownership s) i of
        None \<Rightarrow> (Inr (), s\<lparr>plc_owned := bm_remove i (plc_owned s)\<rparr>)
      | Some current \<Rightarrow>
          (case store_clear_ownership_if (lc_store E) current (plc_store s) of
             (Inl e, st) \<Rightarrow> (Inl (Store e), s\<lparr>plc_store := st\<rparr>)
           | (Inr _, st) \<Rightarrow> (Inr (), s\<lparr>plc_store := st, plc_ownership := bm_remove i (plc_ownership s),
                plc_owned := bm_remove i (plc_owned s)\<rparr>)))"

definition clear_owned_for :: "('c, 'p, 's, 'f) lifecycle_env \<Rightarrow> lifecycle_operation
    \<Rightarrow> ('c, 'p, 's, 'f) process_lifecycle \<Rightarrow> (lifecycle_error + unit) \<times> ('c, 'p, 's, 'f) process_lifecycle" where
  "clear_owned_for E p s =
     (if \<not> operation_can_update_owner s p then (Inr (), s) else clear_owned E (lop_instance_id p) s)"

end
