(* ===== verification/Process_Lifecycle_Actions.thy ===== *)
theory Process_Lifecycle_Actions
  imports Process_Lifecycle
begin

text \<open>
  The actions of the process lifecycle coordinator: verification of a process against its retained
  identity, failure handling, launch, attach, stop and restart, reconciliation of interrupted
  operations, admission of a request, and start-up from the store.
\<close>

section \<open>Profiles and verification (process_lifecycle_verification.rs)\<close>

fun find_map :: "('a \<Rightarrow> 'b option) \<Rightarrow> 'a list \<Rightarrow> 'b option" where
  "find_map f [] = None"
| "find_map f (x # xs) = (case f x of None \<Rightarrow> find_map f xs | Some y \<Rightarrow> Some y)"

definition resolve_profile :: "('c, 'p, 's, 'f) process_lifecycle \<Rightarrow> launch_profile_id \<Rightarrow> lifecycle_error + launch_profile" where
  "resolve_profile s i = map_err Profile (resolve (plc_profiles s) i)"

definition action_profile :: "lifecycle_action \<Rightarrow> launch_profile_id option" where
  "action_profile a = (case a of LaunchNew i \<Rightarrow> Some i | Restart i \<Rightarrow> Some i | AttachExisting _ \<Rightarrow> None | Stop _ \<Rightarrow> None)"

definition profile_for_operation :: "('c, 'p, 's, 'f) process_lifecycle \<Rightarrow> lifecycle_operation
    \<Rightarrow> lifecycle_error + launch_profile" where
  "profile_for_operation s p =
     (case bm_get (plc_ownership s) (lop_instance_id p) of
        Some w \<Rightarrow> resolve_profile s (own_profile_id w)
      | None \<Rightarrow>
          (case action_profile (lop_action p) of
             Some i \<Rightarrow> resolve_profile s i
           | None \<Rightarrow> ok_or (find_map (\<lambda>c. case action_profile (lop_action c) of
                        None \<Rightarrow> None
                      | Some i \<Rightarrow> (case resolve (plc_profiles s) i of Inl _ \<Rightarrow> None | Inr profile \<Rightarrow> Some profile))
                    (rev (filter (\<lambda>c. lop_process c \<noteq> None \<and> is_active (lop_state c))
                       (records_of s (lop_instance_id p))))) InstanceNotFound))"

definition profile_id_for_record :: "('c, 'p, 's, 'f) process_lifecycle \<Rightarrow> lifecycle_operation
    \<Rightarrow> launch_profile_id option" where
  "profile_id_for_record s p =
     (case action_profile (lop_action p) of
        Some i \<Rightarrow> Some i
      | None \<Rightarrow>
          (case lop_process p of
             None \<Rightarrow> None
           | Some d \<Rightarrow>
               (case max_by_key (\<lambda>c. (lop_sequence c, lop_operation_id c))
                  (filter (\<lambda>c. lop_process c = Some d \<and> lop_state c \<noteq> OpRejected
                      \<and> action_profile (lop_action c) \<noteq> None) (records_of s (lop_instance_id p))) of
                  None \<Rightarrow> None
                | Some c \<Rightarrow> action_profile (lop_action c))))"

definition verify_descendants :: "('c, 'p, 's, 'f) lifecycle_env \<Rightarrow> process_identity \<Rightarrow> launch_profile
    \<Rightarrow> ('c, 'p, 's, 'f) process_lifecycle \<Rightarrow> (lifecycle_failure + unit) \<times> ('c, 'p, 's, 'f) process_lifecycle" where
  "verify_descendants E expected profile =
     and_try (lift_err FailProcess (call_descendants E (pid_process expected))) (\<lambda>ds.
       if pol_max_descendants (prof_policy profile) < length ds then pure (Inl FailForeignDescendant)
       else if \<exists>d \<in> set ds. \<not> descendant_matches_profile d (pid_instance_id expected) profile
       then pure (Inl FailForeignDescendant)
       else pure (Inr ()))"

definition verify_process :: "('c, 'p, 's, 'f) lifecycle_env \<Rightarrow> process_identity \<Rightarrow> launch_profile
    \<Rightarrow> ('c, 'p, 's, 'f) process_lifecycle \<Rightarrow> (lifecycle_error + unit) \<times> ('c, 'p, 's, 'f) process_lifecycle" where
  "verify_process E expected profile =
     (if \<not> matches_profile expected (pid_instance_id expected) profile then pure (Inl IdentityMismatch)
      else and_try (lift_err Process (call_inspect_identity E (pid_process expected))) (\<lambda>actual.
        if actual \<noteq> expected then pure (Inl IdentityMismatch)
        else and_use (call_inspect E (pid_process expected)) (\<lambda>r. case r of
            Inr (Exited _) \<Rightarrow> pure (Inl (Process InspectionFailed))
          | Inl fault \<Rightarrow> pure (Inl (Process fault))
          | Inr Running \<Rightarrow> lift_err (\<lambda>failure. case failure of
                FailProcess fault \<Rightarrow> Process fault
              | FailForeignDescendant \<Rightarrow> ForeignDescendant
              | _ \<Rightarrow> IdentityMismatch) (verify_descendants E expected profile))))"

definition verify_started_identity :: "('c, 'p, 's, 'f) lifecycle_env \<Rightarrow> process_identity \<Rightarrow> launch_profile
    \<Rightarrow> ('c, 'p, 's, 'f) process_lifecycle \<Rightarrow> (lifecycle_failure + unit) \<times> ('c, 'p, 's, 'f) process_lifecycle" where
  "verify_started_identity E expected profile =
     and_try (lift_err FailProcess (call_inspect_identity E (pid_process expected))) (\<lambda>actual.
       if actual \<noteq> expected then pure (Inl FailIdentityMismatch)
       else if \<not> matches_profile expected (pid_instance_id expected) profile then pure (Inl FailIdentityMismatch)
       else and_try (lift_err FailProcess (call_inspect E (pid_process expected))) (\<lambda>st.
         if st \<noteq> Running then pure (Inl (FailProcess InspectionFailed))
         else verify_descendants E expected profile))"

definition confirm_exited_without_descendants :: "('c, 'p, 's, 'f) lifecycle_env \<Rightarrow> process_identity
    \<Rightarrow> ('c, 'p, 's, 'f) process_lifecycle \<Rightarrow> bool \<times> ('c, 'p, 's, 'f) process_lifecycle" where
  "confirm_exited_without_descendants E expected =
     and_use (call_inspect_identity E (pid_process expected)) (\<lambda>actual.
       if actual \<noteq> Inr expected then pure False
       else and_use (call_inspect E (pid_process expected)) (\<lambda>st.
         case st of
           Inr (Exited _) \<Rightarrow> and_use (call_descendants E (pid_process expected)) (\<lambda>ds. pure (ds = Inr []))
         | _ \<Rightarrow> pure False))"

section \<open>Failures (process_lifecycle_failures.rs)\<close>

definition block_operation :: "('c, 'p, 's, 'f) lifecycle_env \<Rightarrow> lifecycle_operation \<Rightarrow> lifecycle_failure
    \<Rightarrow> ('c, 'p, 's, 'f) process_lifecycle \<Rightarrow> (lifecycle_error + lifecycle_response) \<times> ('c, 'p, 's, 'f) process_lifecycle" where
  "block_operation E p failure s =
     (let st = (case failure of FailProcess _ \<Rightarrow> Blocked | _ \<Rightarrow> OpRejected);
          clear_owner = (st = OpRejected \<and> (case bm_get (plc_ownership s) (lop_instance_id p) of
             None \<Rightarrow> False | Some w \<Rightarrow> own_operation_id w = lop_operation_id p));
          q = set_state st (lop_process p) (Some failure) p
      in and_try (persist_update E q) (\<lambda>_.
           and_try (if clear_owner then clear_owned_for E q else pure (Inr ())) (\<lambda>_.
             pure (Inl (failure_error failure)))) s)"

definition block_operation_with_process where
  "block_operation_with_process E p fault = block_operation E p (FailProcess fault)"

definition block_cleanup :: "('c, 'p, 's, 'f) lifecycle_env \<Rightarrow> lifecycle_operation \<Rightarrow> lifecycle_failure
    \<Rightarrow> ('c, 'p, 's, 'f) process_lifecycle \<Rightarrow> (lifecycle_error + lifecycle_response) \<times> ('c, 'p, 's, 'f) process_lifecycle" where
  "block_cleanup E p failure =
     (let q = set_state Blocked (lop_process p) (Some failure) p in
      and_try (set_owner_process_for_operation E q (lop_process q)) (\<lambda>_.
      and_try (persist_update E q) (\<lambda>_. pure (Inl (failure_error failure)))))"

definition block_cleanup_lifecycle_error :: "('c, 'p, 's, 'f) lifecycle_env \<Rightarrow> lifecycle_operation \<Rightarrow> lifecycle_error
    \<Rightarrow> ('c, 'p, 's, 'f) process_lifecycle \<Rightarrow> (lifecycle_error + lifecycle_response) \<times> ('c, 'p, 's, 'f) process_lifecycle" where
  "block_cleanup_lifecycle_error E p e = (case e of
     ForeignDescendant \<Rightarrow> block_cleanup E p FailForeignDescendant
   | IdentityMismatch \<Rightarrow> block_cleanup E p FailIdentityMismatch
   | Process fault \<Rightarrow> block_cleanup E p (FailProcess fault)
   | other \<Rightarrow> pure (Inl other))"

text \<open>The identity \<open>process_failure\<close> asks the port for after an ambiguous start fault.\<close>

definition recover_failed_start :: "('c, 'p, 's, 'f) lifecycle_env \<Rightarrow> lifecycle_operation
    \<Rightarrow> ('c, 'p, 's, 'f) process_lifecycle \<Rightarrow> process_identity option \<times> ('c, 'p, 's, 'f) process_lifecycle" where
  "recover_failed_start E p s =
     (case (case lop_action p of
              LaunchNew i \<Rightarrow> Some (i, GenLaunchNew)
            | Restart i \<Rightarrow> Some (i, RestartReplacement)
            | AttachExisting _ \<Rightarrow> None | Stop _ \<Rightarrow> None) of
        None \<Rightarrow> pure None s
      | Some (i, kind) \<Rightarrow>
          (case resolve (plc_profiles s) i of
             Inl _ \<Rightarrow> pure None s
           | Inr profile \<Rightarrow>
               (case for_operation p profile kind of
                  None \<Rightarrow> pure None s
                | Some g \<Rightarrow> and_use (call_recover_generation E g profile) (\<lambda>r. pure (case r of
                      Inr (Found d) \<Rightarrow> (if pid_instance_id d = lop_instance_id p then Some d else None)
                    | _ \<Rightarrow> None)) s)))"

definition process_failure :: "('c, 'p, 's, 'f) lifecycle_env \<Rightarrow> lifecycle_operation \<Rightarrow> process_fault
    \<Rightarrow> ('c, 'p, 's, 'f) process_lifecycle \<Rightarrow> (lifecycle_error + lifecycle_response) \<times> ('c, 'p, 's, 'f) process_lifecycle" where
  "process_failure E p fault =
     (if lop_process p = None then
        if fault \<notin> {StartRejected, ProfileRequired, ProfileNotApproved} then
          and_use (recover_failed_start E p) (\<lambda>recovered.
            let unknown = set_state OpUnknown recovered (Some (FailProcess fault)) p in
            and_try (persist_update E unknown) (\<lambda>_.
            and_try (set_owner_process_for_operation E unknown recovered) (\<lambda>_.
            pure (Inl (Process fault)))))
        else
          let failed = set_state OpFailed None (Some (FailProcess fault)) p in
          and_try (persist_update E failed) (\<lambda>_.
          and_try (clear_owned_for E failed) (\<lambda>_.
          pure (Inl (Process fault))))
      else block_operation_with_process E p fault)"

definition unknown_operation :: "('c, 'p, 's, 'f) lifecycle_env \<Rightarrow> lifecycle_operation \<Rightarrow> process_identity option
    \<Rightarrow> lifecycle_failure option
    \<Rightarrow> ('c, 'p, 's, 'f) process_lifecycle \<Rightarrow> (lifecycle_error + lifecycle_response) \<times> ('c, 'p, 's, 'f) process_lifecycle" where
  "unknown_operation E p proc failure =
     (let q = set_state OpUnknown proc failure p in
      and_try (persist_update E q) (\<lambda>_. pure (Inr (lifecycle_response_new q lifecycle_state.Unknown))))"

section \<open>Starting and stopping (process_lifecycle_actions.rs)\<close>

definition finish_start_failure :: "('c, 'p, 's, 'f) lifecycle_env \<Rightarrow> lifecycle_operation \<Rightarrow> lifecycle_failure
    \<Rightarrow> ('c, 'p, 's, 'f) process_lifecycle \<Rightarrow> (lifecycle_error + lifecycle_response) \<times> ('c, 'p, 's, 'f) process_lifecycle" where
  "finish_start_failure E p failure =
     (case lop_process p of
        None \<Rightarrow> block_operation E p failure
      | Some d \<Rightarrow>
          let q = set_state OpStarting (Some d) (Some failure) p in
          and_use (call_stop E (pid_process d) Force) (\<lambda>r. case r of
              Inl fault \<Rightarrow> block_cleanup E q (FailProcess fault)
            | Inr _ \<Rightarrow> and_use (call_descendants E (pid_process d)) (\<lambda>ds. case ds of
                  Inl fault \<Rightarrow> block_cleanup E q (FailProcess fault)
                | Inr descendants \<Rightarrow>
                    if descendants \<noteq> [] then block_cleanup E q FailForeignDescendant
                    else block_operation E q failure)))"

definition finish_start :: "('c, 'p, 's, 'f) lifecycle_env \<Rightarrow> lifecycle_operation \<Rightarrow> process_launch \<Rightarrow> launch_profile
    \<Rightarrow> lifecycle_operation_state
    \<Rightarrow> ('c, 'p, 's, 'f) process_lifecycle \<Rightarrow> (lifecycle_error + lifecycle_response) \<times> ('c, 'p, 's, 'f) process_lifecycle" where
  "finish_start E p launch profile st =
     (let d = launch_identity launch in
      if \<not> matches_profile d (lop_instance_id p) profile
      then finish_start_failure E (set_state OpStarting (Some d) (Some FailIdentityMismatch) p) FailIdentityMismatch
      else and_use (verify_started_identity E d profile) (\<lambda>r. case r of
          Inl failure \<Rightarrow> finish_start_failure E (set_state OpStarting (Some d) (Some failure) p) failure
        | Inr _ \<Rightarrow>
            let q = set_state st (Some d) None p in
            and_try (persist_update E q) (\<lambda>_.
            and_try (set_owned E q (prof_id profile) d) (\<lambda>_.
            pure (Inr (lifecycle_response_new q lifecycle_state.Starting))))))"

definition start_process :: "('c, 'p, 's, 'f) lifecycle_env \<Rightarrow> lifecycle_operation \<Rightarrow> process_operation_generation
    \<Rightarrow> launch_spec \<Rightarrow> launch_profile
    \<Rightarrow> ('c, 'p, 's, 'f) process_lifecycle \<Rightarrow> (lifecycle_error + lifecycle_response) \<times> ('c, 'p, 's, 'f) process_lifecycle" where
  "start_process E p g spec profile =
     and_use (call_start_generation E g spec profile) (\<lambda>r.
       case r of
         Inr launch \<Rightarrow> finish_start E p launch profile Started
       | Inl GenUnsupported \<Rightarrow> process_failure E p ProfileRequired
       | Inl (GenProcess fault) \<Rightarrow> process_failure E p fault)"

definition execute_launch :: "('c, 'p, 's, 'f) lifecycle_env \<Rightarrow> lifecycle_operation \<Rightarrow> launch_profile_id
    \<Rightarrow> ('c, 'p, 's, 'f) process_lifecycle \<Rightarrow> (lifecycle_error + lifecycle_response) \<times> ('c, 'p, 's, 'f) process_lifecycle" where
  "execute_launch E p profile_id s =
     and_try (pure (resolve_profile s profile_id)) (\<lambda>profile.
       let q = set_state OpStarting None None p in
       and_try (persist_update E q) (\<lambda>_.
         case for_operation q profile GenLaunchNew of
           None \<Rightarrow> unknown_operation E q None None
         | Some g \<Rightarrow> start_process E q g (launch_spec_for_profile (lop_instance_id q) profile_id) profile)) s"

definition finish_stop :: "('c, 'p, 's, 'f) lifecycle_env \<Rightarrow> lifecycle_operation \<Rightarrow> process_identity \<Rightarrow> stop_mode
    \<Rightarrow> ('c, 'p, 's, 'f) process_lifecycle \<Rightarrow> (lifecycle_error + lifecycle_response) \<times> ('c, 'p, 's, 'f) process_lifecycle" where
  "finish_stop E p d mode =
     and_use (call_stop E (pid_process d) mode) (\<lambda>r. case r of
         Inl fault \<Rightarrow> block_operation_with_process E p fault
       | Inr _ \<Rightarrow> and_use (call_descendants E (pid_process d)) (\<lambda>ds. case ds of
             Inl fault \<Rightarrow> block_operation_with_process E p fault
           | Inr descendants \<Rightarrow>
               if descendants \<noteq> [] then block_cleanup E p FailForeignDescendant
               else
                 let q = set_state OpStopped None None p in
                 and_try (persist_update E q) (\<lambda>_.
                 and_try (clear_owned_for E q) (\<lambda>_.
                 pure (Inr (lifecycle_response_new q lifecycle_state.Stopped))))))"

definition execute_attach :: "('c, 'p, 's, 'f) lifecycle_env \<Rightarrow> lifecycle_operation \<Rightarrow> process_identity
    \<Rightarrow> ('c, 'p, 's, 'f) process_lifecycle \<Rightarrow> (lifecycle_error + lifecycle_response) \<times> ('c, 'p, 's, 'f) process_lifecycle" where
  "execute_attach E p d s =
     (case latest_authorized_excluding s (lop_instance_id p) (Some (lop_operation_id p)) of
        None \<Rightarrow> block_operation E p FailUnownedAttach s
      | Some previous \<Rightarrow>
          (case lop_process previous of
             None \<Rightarrow> block_operation E p FailUnownedAttach s
           | Some expected \<Rightarrow>
               if expected \<noteq> d then block_operation E p FailIdentityMismatch s
               else and_try (pure (profile_for_operation s previous)) (\<lambda>profile.
                 let q = set_state Attached (Some d) None p in
                 and_try (persist_update E q) (\<lambda>_.
                 and_use (verify_process E d profile) (\<lambda>r. case r of
                     Inl e \<Rightarrow> block_cleanup_lifecycle_error E q e
                   | Inr _ \<Rightarrow>
                       and_try (set_owned E q (prof_id profile) d) (\<lambda>_.
                       and_try (persist_update E q) (\<lambda>_.
                       pure (Inr (lifecycle_response_new q lifecycle_state.Starting))))))) s))"

definition execute_stop :: "('c, 'p, 's, 'f) lifecycle_env \<Rightarrow> lifecycle_operation \<Rightarrow> stop_mode
    \<Rightarrow> ('c, 'p, 's, 'f) process_lifecycle \<Rightarrow> (lifecycle_error + lifecycle_response) \<times> ('c, 'p, 's, 'f) process_lifecycle" where
  "execute_stop E p mode s =
     (case latest_authorized_excluding s (lop_instance_id p) (Some (lop_operation_id p)) of
        None \<Rightarrow> block_operation E p FailInstanceBusy s
      | Some previous \<Rightarrow>
          (case lop_process previous of
             None \<Rightarrow> block_operation E p FailIdentityMismatch s
           | Some d \<Rightarrow>
               and_try (pure (profile_for_operation s previous)) (\<lambda>profile.
                 let q = set_state OpStopping (Some d) None p in
                 and_try (persist_update E q) (\<lambda>_.
                 and_use (verify_process E d profile) (\<lambda>r. case r of
                     Inl e \<Rightarrow> block_cleanup_lifecycle_error E q e
                   | Inr _ \<Rightarrow> finish_stop E q d mode))) s))"

section \<open>Reconciliation (process_lifecycle_recovery.rs, process_lifecycle_recovery_actions.rs)\<close>

definition verify_record :: "('c, 'p, 's, 'f) lifecycle_env \<Rightarrow> lifecycle_operation
    \<Rightarrow> ('c, 'p, 's, 'f) process_lifecycle \<Rightarrow> (lifecycle_error + lifecycle_response) \<times> ('c, 'p, 's, 'f) process_lifecycle" where
  "verify_record E p s =
     (case lop_process p of
        None \<Rightarrow> (Inl IdentityMismatch, s)
      | Some d \<Rightarrow>
          and_try (pure (profile_for_operation s p)) (\<lambda>profile.
            and_use (verify_started_identity E d profile) (\<lambda>r. case r of
                Inl failure \<Rightarrow>
                  let inspection_failure = (failure = FailProcess InspectionFailed) in
                  and_use (if inspection_failure then confirm_exited_without_descendants E d else pure False) (\<lambda>confirmed.
                    let st = (if confirmed then OpFailed else if inspection_failure then OpUnknown else Blocked);
                        failed = set_state st (Some d) (Some failure) p
                    in and_try (persist_update E failed) (\<lambda>_.
                       and_try (if confirmed then clear_owned_for E failed
                                else if failure \<noteq> FailIdentityMismatch
                                then set_owner_process_for_operation E failed (Some d)
                                else pure (Inr ())) (\<lambda>_.
                       pure (Inl (failure_error failure)))))
              | Inr _ \<Rightarrow>
                  let unknown = (lop_state p = OpUnknown);
                      q = (if unknown
                           then set_state (case lop_action p of AttachExisting _ \<Rightarrow> Attached | _ \<Rightarrow> Started) (Some d) None p
                           else p)
                  in and_try (if unknown then persist_update E q else pure (Inr ())) (\<lambda>_.
                     and_try (set_owned E q (prof_id profile) d) (\<lambda>_.
                     pure (Inr (lifecycle_response_new q (lifecycle_state_of (lop_state q)))))))) s)"

definition finish_recovered :: "('c, 'p, 's, 'f) lifecycle_env \<Rightarrow> lifecycle_operation \<Rightarrow> process_launch \<Rightarrow> launch_profile
    \<Rightarrow> ('c, 'p, 's, 'f) process_lifecycle \<Rightarrow> (lifecycle_error + lifecycle_response) \<times> ('c, 'p, 's, 'f) process_lifecycle" where
  "finish_recovered E p launch profile =
     (let d = launch_identity launch in
      if \<not> matches_profile d (lop_instance_id p) profile
      then block_cleanup E (set_state OpStarting (Some d) (Some FailIdentityMismatch) p) FailIdentityMismatch
      else and_use (verify_started_identity E d profile) (\<lambda>r. case r of
          Inl failure \<Rightarrow> block_cleanup E (set_state OpStarting (Some d) (Some failure) p) failure
        | Inr _ \<Rightarrow>
            let q = set_state Started (Some d) None p in
            and_try (persist_update E q) (\<lambda>_.
            and_try (set_owned E q (prof_id profile) d) (\<lambda>_.
            pure (Inr (lifecycle_response_new q lifecycle_state.Starting))))))"

definition reconcile_stopping :: "('c, 'p, 's, 'f) lifecycle_env \<Rightarrow> lifecycle_operation
    \<Rightarrow> ('c, 'p, 's, 'f) process_lifecycle \<Rightarrow> (lifecycle_error + lifecycle_response) \<times> ('c, 'p, 's, 'f) process_lifecycle" where
  "reconcile_stopping E p s =
     (case lop_process p of
        None \<Rightarrow> unknown_operation E p None None s
      | Some d \<Rightarrow>
          and_try (pure (profile_for_operation s p)) (\<lambda>profile.
            and_use (call_inspect_identity E (pid_process d)) (\<lambda>r. case r of
                Inl fault \<Rightarrow> unknown_operation E p (Some d) (Some (FailProcess fault))
              | Inr actual \<Rightarrow>
                  if actual \<noteq> d \<or> \<not> matches_profile d (pid_instance_id d) profile then
                    let q = set_state Blocked (Some d) (Some FailIdentityMismatch) p in
                    and_try (persist_update E q) (\<lambda>_. pure (Inr (lifecycle_response_new q lifecycle_state.Unknown)))
                  else and_use (call_inspect E (pid_process d)) (\<lambda>st. case st of
                      Inr (Exited _) \<Rightarrow> and_use (call_descendants E (pid_process d)) (\<lambda>ds. case ds of
                          Inl fault \<Rightarrow> unknown_operation E p (Some d) (Some (FailProcess fault))
                        | Inr descendants \<Rightarrow>
                            if descendants \<noteq> [] then
                              let q = set_state Blocked (Some d) (Some FailForeignDescendant) p in
                              and_try (persist_update E q) (\<lambda>_. pure (Inr (lifecycle_response_new q lifecycle_state.Failed)))
                            else
                              let q = set_state OpStopped None None p in
                              and_try (persist_update E q) (\<lambda>_.
                              and_try (clear_owned_for E q) (\<lambda>_.
                              pure (Inr (lifecycle_response_new q lifecycle_state.Stopped)))))
                    | Inr Running \<Rightarrow> and_use (verify_process E d profile) (\<lambda>v. case v of
                          Inl e \<Rightarrow> block_cleanup_lifecycle_error E p e
                        | Inr _ \<Rightarrow> finish_stop E p d (case lop_action p of Stop mode \<Rightarrow> mode | _ \<Rightarrow> Force))
                    | Inl fault \<Rightarrow> unknown_operation E p (Some d) (Some (FailProcess fault))))) s)"

definition reconcile_stop_intent :: "('c, 'p, 's, 'f) lifecycle_env \<Rightarrow> lifecycle_operation
    \<Rightarrow> ('c, 'p, 's, 'f) process_lifecycle \<Rightarrow> (lifecycle_error + lifecycle_response) \<times> ('c, 'p, 's, 'f) process_lifecycle" where
  "reconcile_stop_intent E p s =
     (case latest_authorized_excluding s (lop_instance_id p) (Some (lop_operation_id p)) of
        None \<Rightarrow> block_operation E p FailInstanceBusy s
      | Some previous \<Rightarrow>
          (case lop_process previous of
             None \<Rightarrow> block_operation E p FailIdentityMismatch s
           | Some d \<Rightarrow>
               and_try (pure (profile_for_operation s previous)) (\<lambda>_.
                 let q = set_state OpStopping (Some d) (lop_failure p) p in
                 and_try (persist_update E q) (\<lambda>_. reconcile_stopping E q)) s))"

definition finish_failed_launch_cleanup :: "('c, 'p, 's, 'f) lifecycle_env \<Rightarrow> lifecycle_operation \<Rightarrow> process_identity
    \<Rightarrow> ('c, 'p, 's, 'f) process_lifecycle \<Rightarrow> (lifecycle_error + lifecycle_response) \<times> ('c, 'p, 's, 'f) process_lifecycle" where
  "finish_failed_launch_cleanup E p d =
     and_use (call_descendants E (pid_process d)) (\<lambda>ds. case ds of
         Inl fault \<Rightarrow> block_cleanup E p (FailProcess fault)
       | Inr descendants \<Rightarrow>
           if descendants \<noteq> [] then block_cleanup E p FailForeignDescendant
           else
             let q = set_state OpFailed None (Some FailIdentityMismatch) p in
             and_try (persist_update E q) (\<lambda>_.
             and_try (clear_owned_for E q) (\<lambda>_.
             pure (Inr (lifecycle_response_new q lifecycle_state.Failed)))))"

definition reconcile_retained_cleanup :: "('c, 'p, 's, 'f) lifecycle_env \<Rightarrow> lifecycle_operation \<Rightarrow> process_identity
    \<Rightarrow> ('c, 'p, 's, 'f) process_lifecycle \<Rightarrow> (lifecycle_error + lifecycle_response) \<times> ('c, 'p, 's, 'f) process_lifecycle" where
  "reconcile_retained_cleanup E p d =
     and_use (call_inspect_identity E (pid_process d)) (\<lambda>r. case r of
         Inl fault \<Rightarrow> unknown_operation E p (Some d) (Some (FailProcess fault))
       | Inr actual \<Rightarrow>
           if actual \<noteq> d then
             let q = set_state Blocked (Some d) (Some FailIdentityMismatch) p in
             and_try (persist_update E q) (\<lambda>_.
             and_try (set_owner_process_for_operation E q (lop_process q)) (\<lambda>_.
             pure (Inl IdentityMismatch)))
           else (\<lambda>s. and_try (pure (profile_for_operation s p)) (\<lambda>profile.
             and_use (call_descendants E (pid_process d)) (\<lambda>ds. case ds of
                 Inl fault \<Rightarrow> block_cleanup E p (FailProcess fault)
               | Inr descendants \<Rightarrow>
                   if pol_max_descendants (prof_policy profile) < length descendants
                      \<or> (\<exists>c \<in> set descendants. \<not> descendant_matches_profile c (lop_instance_id p) profile)
                   then block_cleanup E p FailForeignDescendant
                   else and_use (call_inspect E (pid_process d)) (\<lambda>st. case st of
                       Inr (Exited _) \<Rightarrow> finish_failed_launch_cleanup E p d
                     | Inr Running \<Rightarrow> and_use (call_stop E (pid_process d) Force) (\<lambda>stopped. case stopped of
                           Inl fault \<Rightarrow> block_cleanup E p (FailProcess fault)
                         | Inr _ \<Rightarrow> finish_failed_launch_cleanup E p d)
                     | Inl fault \<Rightarrow> unknown_operation E p (Some d) (Some (FailProcess fault))))) s))"

definition reconcile_launch :: "('c, 'p, 's, 'f) lifecycle_env \<Rightarrow> lifecycle_operation
    \<Rightarrow> ('c, 'p, 's, 'f) process_lifecycle \<Rightarrow> (lifecycle_error + lifecycle_response) \<times> ('c, 'p, 's, 'f) process_lifecycle" where
  "reconcile_launch E p s =
     and_try (pure (profile_for_operation s p)) (\<lambda>profile.
       case lop_process p of
         Some d \<Rightarrow>
           if \<not> matches_profile d (lop_instance_id p) profile then reconcile_retained_cleanup E p d
           else verify_record E p
       | None \<Rightarrow>
           (case for_operation p profile GenLaunchNew of
              None \<Rightarrow> unknown_operation E p None None
            | Some g \<Rightarrow> and_use (call_recover_generation E g profile) (\<lambda>r. case r of
                  Inr (Found d) \<Rightarrow> finish_recovered E p \<lparr>launch_identity = d\<rparr> profile
                | Inr Indeterminate \<Rightarrow> unknown_operation E p None None
                | Inl fault \<Rightarrow> unknown_operation E p None (Some (FailProcess fault))))) s"

section \<open>Restart (process_lifecycle_recovery_actions.rs, process_lifecycle_restart_recovery.rs)\<close>

definition begin_restart :: "('c, 'p, 's, 'f) lifecycle_env \<Rightarrow> lifecycle_operation \<Rightarrow> process_identity
    \<Rightarrow> ('c, 'p, 's, 'f) process_lifecycle \<Rightarrow> (lifecycle_error + lifecycle_operation) \<times> ('c, 'p, 's, 'f) process_lifecycle" where
  "begin_restart E p d s =
     (let i = lop_instance_id p;
          current = current_authority_epoch s i;
          rotate = (lop_request_epoch p = lop_authority_epoch p)
      in if lop_authority_epoch p \<noteq> current then (Inl StaleAuthorityEpoch, s)
         else case (if rotate then authority_epoch_next current else Some current) of
           None \<Rightarrow> (Inl AuthorityExhausted, s)
         | Some e \<Rightarrow>
             let s1 = (if rotate then set_authority_epoch i e s else s);
                 q = set_state Restarting (Some d) (lop_failure p)
                       (if rotate then p\<lparr>lop_authority_epoch := e\<rparr> else p)
             in case persist_update E q s1 of
                  (Inl err, s2) \<Rightarrow> (Inl err, if rotate then set_authority_epoch i current s2 else s2)
                | (Inr _, s2) \<Rightarrow>
                    (case lop_action q of
                       Restart profile_id \<Rightarrow>
                         and_try (reserve_ownership E q profile_id) (\<lambda>_. pure (Inr q)) s2
                     | _ \<Rightarrow> (Inl IdentityMismatch, s2)))"

definition finish_restart :: "('c, 'p, 's, 'f) lifecycle_env \<Rightarrow> lifecycle_operation \<Rightarrow> launch_profile
    \<Rightarrow> ('c, 'p, 's, 'f) process_lifecycle \<Rightarrow> (lifecycle_error + lifecycle_response) \<times> ('c, 'p, 's, 'f) process_lifecycle" where
  "finish_restart E p profile =
     (case lop_process p of
        None \<Rightarrow> pure (Inl IdentityMismatch)
      | Some d \<Rightarrow>
          if \<not> matches_profile d (lop_instance_id p) profile then reconcile_retained_cleanup E p d
          else and_use (call_inspect_identity E (pid_process d)) (\<lambda>r. case r of
              Inl fault \<Rightarrow> process_failure E p fault
            | Inr actual \<Rightarrow>
                if actual \<noteq> d then block_cleanup E p FailIdentityMismatch
                else and_use (call_inspect E (pid_process d)) (\<lambda>st. case st of
                    Inl fault \<Rightarrow> process_failure E p fault
                  | Inr state \<Rightarrow>
                      and_use (if state = Running then verify_process E d profile else pure (Inr ())) (\<lambda>v. case v of
                          Inl e \<Rightarrow> block_cleanup_lifecycle_error E p e
                        | Inr _ \<Rightarrow>
                            and_use (if state = Running then call_stop E (pid_process d) Force else pure (Inr ())) (\<lambda>stopped.
                              case stopped of
                                Inl fault \<Rightarrow> block_operation_with_process E p fault
                              | Inr _ \<Rightarrow>
                                  and_use (call_descendants E (pid_process d)) (\<lambda>ds. case ds of
                                      Inl fault \<Rightarrow> process_failure E p fault
                                    | Inr descendants \<Rightarrow>
                                        if descendants \<noteq> [] then block_cleanup E p FailForeignDescendant
                                        else
                                          let q = set_state Restarting None None p in
                                          and_try (persist_update E q) (\<lambda>_.
                                          and_try (reserve_ownership E q (prof_id profile)) (\<lambda>_.
                                            case for_operation q profile RestartReplacement of
                                              None \<Rightarrow> unknown_operation E q None None
                                            | Some g \<Rightarrow> start_process E q g
                                                (launch_spec_for_profile (lop_instance_id q) (prof_id profile)) profile))))))))"

definition prepare_restart_recovery :: "('c, 'p, 's, 'f) lifecycle_env \<Rightarrow> lifecycle_operation \<Rightarrow> launch_profile
    \<Rightarrow> ('c, 'p, 's, 'f) process_lifecycle \<Rightarrow> (lifecycle_error + lifecycle_operation) \<times> ('c, 'p, 's, 'f) process_lifecycle" where
  "prepare_restart_recovery E p profile s =
     (case lop_process p of
        None \<Rightarrow> (Inl IdentityMismatch, s)
      | Some d \<Rightarrow>
          if lop_request_epoch p = lop_authority_epoch p then begin_restart E p d s
          else if lop_authority_epoch p \<noteq> current_authority_epoch s (lop_instance_id p)
          then (Inl StaleAuthorityEpoch, s)
          else and_try (reserve_ownership E p (prof_id profile)) (\<lambda>_. pure (Inr p)) s)"

definition reconcile_restart :: "('c, 'p, 's, 'f) lifecycle_env \<Rightarrow> lifecycle_operation
    \<Rightarrow> ('c, 'p, 's, 'f) process_lifecycle \<Rightarrow> (lifecycle_error + lifecycle_response) \<times> ('c, 'p, 's, 'f) process_lifecycle" where
  "reconcile_restart E p s =
     (if lop_process p = None then
        if \<not> permits_restart_recovery p (current_authority_epoch s (lop_instance_id p))
        then unknown_operation E p None None s
        else and_try (pure (profile_for_operation s p)) (\<lambda>profile.
          case for_operation p profile RestartReplacement of
            None \<Rightarrow> unknown_operation E p None None
          | Some g \<Rightarrow> and_use (call_recover_generation E g profile) (\<lambda>r. case r of
                Inr (Found d) \<Rightarrow> finish_recovered E p \<lparr>launch_identity = d\<rparr> profile
              | Inr Indeterminate \<Rightarrow> unknown_operation E p None None
              | Inl fault \<Rightarrow> unknown_operation E p None (Some (FailProcess fault)))) s
      else and_try (pure (profile_for_operation s p)) (\<lambda>profile.
        and_try (prepare_restart_recovery E p profile) (\<lambda>q. finish_restart E q profile)) s)"

definition reconcile_restart_intent :: "('c, 'p, 's, 'f) lifecycle_env \<Rightarrow> lifecycle_operation \<Rightarrow> launch_profile_id
    \<Rightarrow> ('c, 'p, 's, 'f) process_lifecycle \<Rightarrow> (lifecycle_error + lifecycle_response) \<times> ('c, 'p, 's, 'f) process_lifecycle" where
  "reconcile_restart_intent E p profile_id s =
     (case latest_authorized_excluding s (lop_instance_id p) (Some (lop_operation_id p)) of
        None \<Rightarrow> block_operation E p FailIdentityMismatch s
      | Some previous \<Rightarrow>
          (case lop_process previous of
             None \<Rightarrow> block_operation E p FailIdentityMismatch s
           | Some d \<Rightarrow>
               and_try (pure (resolve_profile s profile_id)) (\<lambda>profile.
               and_try (pure (profile_for_operation s previous)) (\<lambda>previous_profile.
                 if previous_profile \<noteq> profile \<or> \<not> matches_profile d (lop_instance_id p) profile
                 then block_operation E p FailIdentityMismatch
                 else and_try (begin_restart E p d) (\<lambda>q. reconcile_restart E q))) s))"

definition execute_restart :: "('c, 'p, 's, 'f) lifecycle_env \<Rightarrow> lifecycle_operation \<Rightarrow> launch_profile_id
    \<Rightarrow> ('c, 'p, 's, 'f) process_lifecycle \<Rightarrow> (lifecycle_error + lifecycle_response) \<times> ('c, 'p, 's, 'f) process_lifecycle" where
  "execute_restart E p profile_id s =
     (case latest_authorized_excluding s (lop_instance_id p) (Some (lop_operation_id p)) of
        None \<Rightarrow> block_operation E p FailIdentityMismatch s
      | Some previous \<Rightarrow>
          (case lop_process previous of
             None \<Rightarrow> block_operation E p FailIdentityMismatch s
           | Some d \<Rightarrow>
               and_try (pure (resolve_profile s profile_id)) (\<lambda>profile.
               and_try (pure (profile_for_operation s previous)) (\<lambda>previous_profile.
                 let q = set_state Restarting (Some d) None p in
                 and_try (persist_update E q) (\<lambda>_.
                   if profile \<noteq> previous_profile then block_operation E q FailIdentityMismatch
                   else and_use (verify_process E d profile) (\<lambda>r. case r of
                       Inl e \<Rightarrow> block_cleanup_lifecycle_error E q e
                     | Inr _ \<Rightarrow> and_try (begin_restart E q d) (\<lambda>restarting. finish_restart E restarting profile))))) s))"

section \<open>Dispatch (process_lifecycle_recovery.rs, process_lifecycle_operations.rs)\<close>

definition retained_response :: "lifecycle_operation \<Rightarrow> 's \<Rightarrow> (lifecycle_error + lifecycle_response) \<times> 's" where
  "retained_response p = pure (Inr (lifecycle_response_new p (lifecycle_state_of (lop_state p))))"

definition reconcile_record :: "('c, 'p, 's, 'f) lifecycle_env \<Rightarrow> lifecycle_operation
    \<Rightarrow> ('c, 'p, 's, 'f) process_lifecycle \<Rightarrow> (lifecycle_error + lifecycle_response) \<times> ('c, 'p, 's, 'f) process_lifecycle" where
  "reconcile_record E p s =
     (if is_active (lop_state p) \<and> \<not> operation_is_current s p then block_operation E p FailInstanceBusy s
      else (case lop_state p of
          IntentRecorded \<Rightarrow> (case lop_action p of
              LaunchNew _ \<Rightarrow> reconcile_launch E p
            | AttachExisting d \<Rightarrow> execute_attach E p d
            | Stop _ \<Rightarrow> reconcile_stop_intent E p
            | Restart profile_id \<Rightarrow> reconcile_restart_intent E p profile_id)
        | OpStarting \<Rightarrow> (case lop_action p of
              LaunchNew _ \<Rightarrow> reconcile_launch E p
            | AttachExisting d \<Rightarrow> execute_attach E p d
            | Stop _ \<Rightarrow> reconcile_stop_intent E p
            | Restart profile_id \<Rightarrow> reconcile_restart_intent E p profile_id)
        | OpUnknown \<Rightarrow> (case lop_action p of
              LaunchNew _ \<Rightarrow> reconcile_launch E p
            | AttachExisting d \<Rightarrow> execute_attach E p d
            | Stop _ \<Rightarrow> (if lop_process p \<noteq> None then reconcile_stopping E p
                else pure (Inr (lifecycle_response_new p lifecycle_state.Unknown)))
            | Restart _ \<Rightarrow> reconcile_restart E p)
        | Started \<Rightarrow> verify_record E p
        | Attached \<Rightarrow> verify_record E p
        | OpStopping \<Rightarrow> reconcile_stopping E p
        | Restarting \<Rightarrow> reconcile_restart E p
        | Blocked \<Rightarrow> (case lop_action p of
              Restart _ \<Rightarrow> reconcile_restart E p
            | LaunchNew _ \<Rightarrow> (if lop_process p \<noteq> None then reconcile_launch E p else retained_response p)
            | Stop _ \<Rightarrow> (if lop_process p \<noteq> None then reconcile_stopping E p else retained_response p)
            | AttachExisting _ \<Rightarrow> retained_response p)
        | OpStopped \<Rightarrow> retained_response p
        | OpFailed \<Rightarrow> retained_response p
        | OpRejected \<Rightarrow> retained_response p) s)"

definition replay :: "('c, 'p, 's, 'f) lifecycle_env \<Rightarrow> lifecycle_operation
    \<Rightarrow> ('c, 'p, 's, 'f) process_lifecycle \<Rightarrow> (lifecycle_error + lifecycle_response) \<times> ('c, 'p, 's, 'f) process_lifecycle" where
  "replay E p s =
     (if is_active (lop_state p) \<and> \<not> operation_is_current s p then
        if lop_state p \<in> {Started, Attached} then retained_response p s
        else block_operation E p FailInstanceBusy s
      else if lop_state p \<in> {Started, Attached} then verify_record E p s
      else if lop_state p \<in> {OpStopped, OpFailed, OpRejected} then retained_response p s
      else reconcile_record E p s)"

definition same_request :: "lifecycle_operation \<Rightarrow> lifecycle_request \<Rightarrow> bool" where
  "same_request p r \<longleftrightarrow> lop_instance_id p = lrq_instance_id r \<and> lop_lease p = lrq_lease r
     \<and> lop_request_epoch p = lrq_authority_epoch r \<and> lop_action p = lrq_action r"

definition validate_action :: "('c, 'p, 's, 'f) process_lifecycle \<Rightarrow> instance_id \<Rightarrow> lifecycle_action
    \<Rightarrow> lifecycle_error + unit" where
  "validate_action s i a = (case a of
     LaunchNew profile_id \<Rightarrow> and_then (resolve_profile s profile_id) (\<lambda>_. Inr ())
   | Restart profile_id \<Rightarrow> and_then (resolve_profile s profile_id) (\<lambda>_. Inr ())
   | AttachExisting d \<Rightarrow> ensure (pid_instance_id d = i) IdentityMismatch
   | Stop _ \<Rightarrow> Inr ())"

definition ensure_profile_namespace_available :: "('c, 'p, 's, 'f) process_lifecycle \<Rightarrow> instance_id \<Rightarrow> launch_profile_id
    \<Rightarrow> lifecycle_error + unit" where
  "ensure_profile_namespace_available s i profile_id =
     and_then (resolve_profile s profile_id) (\<lambda>profile.
       let same_namespace = (\<lambda>other. case resolve (plc_profiles s) other of
             Inr existing \<Rightarrow> prof_user_data existing = prof_user_data profile | Inl _ \<Rightarrow> True) in
       if \<exists>w \<in> set (bm_values (plc_ownership s)). own_instance_id w \<noteq> i \<and> same_namespace (own_profile_id w)
       then Inl UserDataNamespaceBusy
       else if \<exists>p \<in> set (bm_values (plc_records s)).
            \<not> (lop_instance_id p = i \<or> bm_has (plc_ownership s) (lop_instance_id p) \<or> \<not> is_active (lop_state p))
            \<and> (case latest_authoritative_record s (lop_instance_id p) of
                 None \<Rightarrow> False
               | Some latest \<Rightarrow> lop_operation_id latest = lop_operation_id p
                   \<and> (case profile_id_for_record s p of None \<Rightarrow> True | Some existing \<Rightarrow> same_namespace existing))
       then Inl UserDataNamespaceBusy
       else Inr ())"

definition reserve_action :: "('c, 'p, 's, 'f) process_lifecycle \<Rightarrow> instance_id \<Rightarrow> lifecycle_action
    \<Rightarrow> lifecycle_error + unit" where
  "reserve_action s i a = (case a of
     LaunchNew profile_id \<Rightarrow>
       and_then (ensure (\<not> (bm_has (plc_ownership s) i \<or> active_operation s i \<noteq> None)) InstanceBusy) (\<lambda>_.
       and_then (ensure (occupied_count s < plc_max_processes (plc_config s)) CapacityExceeded) (\<lambda>_.
       ensure_profile_namespace_available s i profile_id))
   | AttachExisting d \<Rightarrow>
       (case latest_authorized s i of
          None \<Rightarrow> Inl UnownedAttach
        | Some previous \<Rightarrow>
            and_then (ensure (lop_process previous = Some d) IdentityMismatch) (\<lambda>_.
            ensure (lop_state previous \<in> {Started, Attached}) InstanceBusy))
   | Stop _ \<Rightarrow>
       (case latest_authorized s i of
          None \<Rightarrow> Inl InstanceNotFound
        | Some previous \<Rightarrow> ensure (lop_state previous \<in> {Started, Attached, Blocked}) InstanceBusy)
   | Restart profile_id \<Rightarrow>
       (case latest_authorized s i of
          None \<Rightarrow> Inl InstanceNotFound
        | Some previous \<Rightarrow>
            and_then (ensure (lop_state previous \<in> {Started, Attached, Blocked}) InstanceBusy) (\<lambda>_.
            ensure_profile_namespace_available s i profile_id)))"

definition execute :: "('c, 'p, 's, 'f) lifecycle_env \<Rightarrow> lifecycle_operation
    \<Rightarrow> ('c, 'p, 's, 'f) process_lifecycle \<Rightarrow> (lifecycle_error + lifecycle_response) \<times> ('c, 'p, 's, 'f) process_lifecycle" where
  "execute E p = (case lop_action p of
     LaunchNew profile_id \<Rightarrow> execute_launch E p profile_id
   | AttachExisting d \<Rightarrow> execute_attach E p d
   | Stop mode \<Rightarrow> execute_stop E p mode
   | Restart profile_id \<Rightarrow> execute_restart E p profile_id)"

definition admit_operation :: "('c, 'p, 's, 'f) lifecycle_env \<Rightarrow> lifecycle_request
    \<Rightarrow> ('c, 'p, 's, 'f) process_lifecycle \<Rightarrow> (lifecycle_error + lifecycle_response) \<times> ('c, 'p, 's, 'f) process_lifecycle" where
  "admit_operation E r s =
     and_try (pure (validate_action s (lrq_instance_id r) (lrq_action r))) (\<lambda>_.
     and_try (pure (reserve_action s (lrq_instance_id r) (lrq_action r))) (\<lambda>_.
     and_try issue_sequence (\<lambda>n.
       let p = (lifecycle_operation_new (lrq_operation_id r) (lrq_instance_id r) (lrq_lease r)
                  (lrq_authority_epoch r) (lrq_action r))\<lparr>lop_sequence := n\<rparr> in
       and_try (persist_insert E p) (\<lambda>_.
       and_try (case lop_action p of LaunchNew profile_id \<Rightarrow> reserve_ownership E p profile_id | _ \<Rightarrow> pure (Inr ())) (\<lambda>_.
       execute E p))))) s"

definition apply_request :: "('c, 'p, 's, 'f) lifecycle_env \<Rightarrow> lifecycle_request
    \<Rightarrow> ('c, 'p, 's, 'f) process_lifecycle \<Rightarrow> (lifecycle_error + lifecycle_response) \<times> ('c, 'p, 's, 'f) process_lifecycle" where
  "apply_request E r =
     and_try (authenticate E (lrq_instance_id r) (lrq_lease r) (lrq_authority_epoch r)) (\<lambda>_ s.
       case bm_get (plc_records s) (lrq_instance_id r, lrq_operation_id r) of
         Some p \<Rightarrow> (if \<not> same_request p r then (Inl OperationConflict, s) else replay E p s)
       | None \<Rightarrow> admit_operation E r s)"

definition reconcile_operation :: "('c, 'p, 's, 'f) lifecycle_env \<Rightarrow> lease_proof \<Rightarrow> authority_epoch \<Rightarrow> operation_id
    \<Rightarrow> ('c, 'p, 's, 'f) process_lifecycle \<Rightarrow> (lifecycle_error + lifecycle_response) \<times> ('c, 'p, 's, 'f) process_lifecycle" where
  "reconcile_operation E tok epoch oid =
     and_try (authenticate E (proof_instance_id tok) tok epoch) (\<lambda>_ s.
       case bm_get (plc_records s) (proof_instance_id tok, oid) of
         None \<Rightarrow> (Inl OperationNotFound, s)
       | Some p \<Rightarrow>
           if lop_lease p \<noteq> tok then (Inl (Fence WrongLease), s)
           else if lop_authority_epoch p \<noteq> epoch then (Inl StaleAuthorityEpoch, s)
           else reconcile_record E p s)"

section \<open>Start-up (process_lifecycle.rs, process_lifecycle_ownership.rs)\<close>

text \<open>The loop of \<open>new\<close> over the persisted operations.\<close>

fun load_operations :: "lifecycle_operation list
    \<Rightarrow> (instance_id, authority_epoch) bmap \<times> u64 \<times> (record_key, lifecycle_operation) bmap
    \<Rightarrow> (instance_id, authority_epoch) bmap \<times> u64 \<times> (record_key, lifecycle_operation) bmap" where
  "load_operations [] acc = acc"
| "load_operations (p # ps) (authority, next_sequence, records) =
     load_operations ps
       (bm_insert (lop_instance_id p) (case bm_get authority (lop_instance_id p) of
            None \<Rightarrow> lop_authority_epoch p
          | Some e \<Rightarrow> if e < lop_authority_epoch p then lop_authority_epoch p else e) authority,
        max next_sequence (lop_sequence p),
        bm_insert (op_key p) p records)"

fun load_ownership :: "lifecycle_ownership list \<Rightarrow> (instance_id, lifecycle_ownership) bmap
    \<Rightarrow> (instance_id, lifecycle_ownership) bmap" where
  "load_ownership [] acc = acc"
| "load_ownership (w # ws) acc = load_ownership ws (bm_insert (own_instance_id w) w acc)"

text \<open>The three loops of \<open>bootstrap_ownership\<close>: stale rows, the mirror of identities, missing rows.\<close>

fun clear_stale_owners :: "('c, 'p, 's, 'f) lifecycle_env \<Rightarrow> lifecycle_ownership list
    \<Rightarrow> ('c, 'p, 's, 'f) process_lifecycle \<Rightarrow> (lifecycle_error + unit) \<times> ('c, 'p, 's, 'f) process_lifecycle" where
  "clear_stale_owners E [] s = (Inr (), s)"
| "clear_stale_owners E (w # ws) s =
     (case store_clear_ownership_if (lc_store E) w (plc_store s) of
        (Inl e, st) \<Rightarrow> (Inl (Store e), s\<lparr>plc_store := st\<rparr>)
      | (Inr _, st) \<Rightarrow> clear_stale_owners E ws (s\<lparr>plc_store := st,
          plc_ownership := bm_remove (own_instance_id w) (plc_ownership s),
          plc_owned := bm_remove (own_instance_id w) (plc_owned s)\<rparr>))"

fun mirror_owned :: "lifecycle_ownership list \<Rightarrow> (instance_id, process_identity) bmap \<Rightarrow> (instance_id, process_identity) bmap" where
  "mirror_owned [] acc = acc"
| "mirror_owned (w # ws) acc = mirror_owned ws (case own_process w of
     None \<Rightarrow> acc | Some d \<Rightarrow> bm_insert (own_instance_id w) d acc)"

fun persist_candidates :: "('c, 'p, 's, 'f) lifecycle_env \<Rightarrow> lifecycle_ownership list
    \<Rightarrow> ('c, 'p, 's, 'f) process_lifecycle \<Rightarrow> (lifecycle_error + unit) \<times> ('c, 'p, 's, 'f) process_lifecycle" where
  "persist_candidates E [] s = (Inr (), s)"
| "persist_candidates E (w # ws) s = and_try (persist_ownership E w) (\<lambda>_. persist_candidates E ws) s"

definition ownership_candidate :: "('c, 'p, 's, 'f) process_lifecycle \<Rightarrow> instance_id \<Rightarrow> lifecycle_ownership option" where
  "ownership_candidate s i =
     (if bm_has (plc_ownership s) i then None
      else case latest_authoritative_record s i of
        None \<Rightarrow> None
      | Some p \<Rightarrow>
          if \<not> is_active (lop_state p) then None
          else map_option (\<lambda>profile_id. owner_row p profile_id (lop_process p)) (profile_id_for_record s p))"

definition record_instances :: "('c, 'p, 's, 'f) process_lifecycle \<Rightarrow> instance_id list" where
  "record_instances s = sort (remdups (map lop_instance_id (bm_values (plc_records s))))"

definition stale_owner :: "('c, 'p, 's, 'f) process_lifecycle \<Rightarrow> lifecycle_ownership \<Rightarrow> bool" where
  "stale_owner s w = (case latest_record s (own_instance_id w) of
     None \<Rightarrow> False
   | Some latest \<Rightarrow> lop_state latest \<in> {OpStopped, OpFailed} \<and> owner_order w \<le> operation_order latest)"

definition bootstrap_ownership :: "('c, 'p, 's, 'f) lifecycle_env
    \<Rightarrow> ('c, 'p, 's, 'f) process_lifecycle \<Rightarrow> (lifecycle_error + unit) \<times> ('c, 'p, 's, 'f) process_lifecycle" where
  "bootstrap_ownership E s =
     (if plc_max_processes (plc_config s) < bm_size (plc_ownership s) then (Inl CapacityExceeded, s)
      else
        let owners = bm_values (plc_ownership s);
            s1 = s\<lparr>plc_next_sequence := fold (\<lambda>w. max (own_sequence w)) owners (plc_next_sequence s)\<rparr> in
        if \<exists>w \<in> set owners. (case own_process w of None \<Rightarrow> False | Some d \<Rightarrow> pid_instance_id d \<noteq> own_instance_id w)
        then (Inl (Store Serialization), s1)
        else and_try (clear_stale_owners E (filter (stale_owner s1) owners)) (\<lambda>_ s2.
          let s3 = s2\<lparr>plc_owned := mirror_owned (bm_values (plc_ownership s2)) (plc_owned s2)\<rparr> in
          persist_candidates E (List.map_filter (ownership_candidate s3) (record_instances s3)) s3) s1)"

text \<open>
  The result of \<open>new\<close>, with the state in which it leaves the store: a start that fails has consumed
  the coordinator, but not what it wrote.
\<close>

definition lifecycle_new :: "('c, 'p, 's, 'f) lifecycle_env \<Rightarrow> process_lifecycle_config \<Rightarrow> approved_launch_profiles
    \<Rightarrow> 'c \<Rightarrow> 'p \<Rightarrow> 's \<Rightarrow> 'f \<Rightarrow> (lifecycle_error + ('c, 'p, 's, 'f) process_lifecycle) \<times> 's" where
  "lifecycle_new E config profiles c p st f =
     (if plc_max_processes config = 0 \<or> plc_max_records config = 0 then (Inl CapacityExceeded, st)
      else if cat_capacity profiles = 0 then (Inl (Profile ProfileCapacityExceeded), st)
      else case
        and_then (map_err Store (store_count (lc_store E) st)) (\<lambda>count.
        and_then (ensure (count \<le> plc_max_records config) CapacityExceeded) (\<lambda>_.
        and_then (map_err Store (store_list (lc_store E) st)) (\<lambda>persisted.
        and_then (map_err Store (store_list_ownership (lc_store E) st)) (\<lambda>rows. Inr (persisted, rows))))) of
        Inl e \<Rightarrow> (Inl e, st)
      | Inr (persisted, rows) \<Rightarrow>
          (case load_operations persisted (bm_empty, 0, bm_empty) of (authority, next_sequence, records) \<Rightarrow>
           case bootstrap_ownership E \<lparr>plc_config = config, plc_profiles = profiles, plc_clock = c, plc_process = p,
              plc_store = st, plc_fence = f, plc_leases = bm_empty, plc_authority = authority, plc_records = records,
              plc_ownership = load_ownership rows bm_empty, plc_owned = bm_empty, plc_next_sequence = next_sequence\<rparr> of
            (Inl e, s) \<Rightarrow> (Inl e, plc_store s)
          | (Inr _, s) \<Rightarrow> (Inr s, plc_store s)))"

end
