(* ===== verification/Process_Lifecycle_Logic.thy ===== *)
theory Process_Lifecycle_Logic
  imports Process_Lifecycle_Actions
begin

text \<open>
  A program logic for the lifecycle coordinator. Nearly every method works on one operation: it calls
  the process port, updates the operation's record and moves the ownership row of its instance. The
  locale \<open>lifecycle_logic\<close> states, for an invariant \<open>I\<close> and a predicate \<open>C p\<close> that holds while
  operation \<open>p\<close> is being worked on, what each primitive effect has to keep; inside it every method
  from \<open>block_operation\<close> to \<open>replay\<close> is shown, once, to end in \<open>I\<close>. \<open>J h\<close> is the evidence a stop of
  handle \<open>h\<close> needs, \<open>S g\<close> says which generations may be started.
\<close>

section \<open>The identity of an operation\<close>

definition same_origin :: "lifecycle_operation \<Rightarrow> lifecycle_operation \<Rightarrow> bool" where
  "same_origin p q \<longleftrightarrow> op_key p = op_key q \<and> lop_lease p = lop_lease q \<and> lop_sequence p = lop_sequence q
     \<and> lop_request_epoch p = lop_request_epoch q \<and> lop_authority_epoch p = lop_authority_epoch q
     \<and> lop_action p = lop_action q"

lemma same_origin_refl [simp]: "same_origin p p"
  by (simp add: same_origin_def)

lemma same_origin_sym: "same_origin p q \<Longrightarrow> same_origin q p"
  by (simp add: same_origin_def)

lemma set_state_simps [simp]:
  "lop_operation_id (set_state st d f p) = lop_operation_id p"
  "lop_instance_id (set_state st d f p) = lop_instance_id p"
  "lop_lease (set_state st d f p) = lop_lease p"
  "lop_sequence (set_state st d f p) = lop_sequence p"
  "lop_request_epoch (set_state st d f p) = lop_request_epoch p"
  "lop_authority_epoch (set_state st d f p) = lop_authority_epoch p"
  "lop_action (set_state st d f p) = lop_action p"
  "lop_state (set_state st d f p) = st"
  "lop_process (set_state st d f p) = d"
  "lop_failure (set_state st d f p) = f"
  by (simp_all add: set_state_def)

lemma same_origin_set_state [simp]:
  "same_origin (set_state st d f p) q = same_origin p q" "same_origin p (set_state st d f q) = same_origin p q"
  by (simp_all add: same_origin_def)

lemma is_active_simps [simp]:
  "is_active IntentRecorded" "is_active OpStarting" "is_active Started" "is_active Attached" "is_active OpStopping"
  "is_active Restarting" "is_active Blocked" "is_active OpUnknown"
  "\<not> is_active OpStopped" "\<not> is_active OpFailed" "\<not> is_active OpRejected"
  by (simp_all add: is_active_def)

section \<open>Primitive effects\<close>

text \<open>A read-only call of the process port.\<close>

definition observed :: "('c, 'p, 's, 'f) lifecycle_env \<Rightarrow> ('c, 'p, 's, 'f) process_lifecycle
    \<Rightarrow> ('c, 'p, 's, 'f) process_lifecycle \<Rightarrow> bool" where
  "observed E s t \<longleftrightarrow> (\<exists>h. t = snd (call_inspect E h s)) \<or> (\<exists>h. t = snd (call_inspect_identity E h s))
     \<or> (\<exists>h. t = snd (call_descendants E h s)) \<or> (\<exists>g profile. t = snd (call_recover_generation E g profile s))"

lemma on_process_only:
  "\<exists>p. snd (on_process call s) = s\<lparr>plc_process := p\<rparr>"
  by (auto simp: on_process_def split: prod.split)

lemma observed_only: "observed E s t \<Longrightarrow> \<exists>p. t = s\<lparr>plc_process := p\<rparr>"
  unfolding observed_def call_inspect_def call_inspect_identity_def call_descendants_def call_recover_generation_def
  by (elim disjE exE; hypsubst; rule on_process_only)

lemma persist_update_process: "persist_update E p s = (r, t) \<Longrightarrow> plc_process t = plc_process s"
  by (auto simp: persist_update_def split: prod.splits sum.splits)

lemma persist_ownership_process: "persist_ownership E w s = (r, t) \<Longrightarrow> plc_process t = plc_process s"
  by (auto simp: persist_ownership_def split: prod.splits sum.splits)

lemma reserve_ownership_process: "reserve_ownership E p i s = (r, t) \<Longrightarrow> plc_process t = plc_process s"
  by (auto simp: reserve_ownership_def persist_ownership_process split: if_splits)

text \<open>The branches of \<open>begin_restart\<close>.\<close>

definition restarting :: "lifecycle_operation \<Rightarrow> process_identity \<Rightarrow> authority_epoch \<Rightarrow> lifecycle_operation" where
  "restarting p d e = set_state Restarting (Some d) (lop_failure p) (p\<lparr>lop_authority_epoch := e\<rparr>)"

definition rotates :: "lifecycle_operation \<Rightarrow> bool" where
  "rotates p \<longleftrightarrow> lop_request_epoch p = lop_authority_epoch p"

definition fenced :: "lifecycle_operation \<Rightarrow> authority_epoch \<Rightarrow> ('c, 'p, 's, 'f) process_lifecycle
    \<Rightarrow> ('c, 'p, 's, 'f) process_lifecycle" where
  "fenced p e s = (if rotates p then set_authority_epoch (lop_instance_id p) e s else s)"

lemma begin_restart_cases:
  assumes "begin_restart E p d s = (r, t)"
  obtains (refused) e where "r = Inl e" "t = s"
  | (unsaved) e err u where "lop_authority_epoch p = current_authority_epoch s (lop_instance_id p)"
      "if rotates p then authority_epoch_next (lop_authority_epoch p) = Some e else e = lop_authority_epoch p"
      "persist_update E (restarting p d e) (fenced p e s) = (Inl err, u)"
      "r = Inl err" "t = fenced p (lop_authority_epoch p) u"
  | (saved) e u where "lop_authority_epoch p = current_authority_epoch s (lop_instance_id p)"
      "if rotates p then authority_epoch_next (lop_authority_epoch p) = Some e else e = lop_authority_epoch p"
      "persist_update E (restarting p d e) (fenced p e s) = (Inr (), u)"
      "\<And>i. lop_action p \<noteq> Restart i" "r = Inl IdentityMismatch" "t = u"
  | (begun) e u i where "lop_authority_epoch p = current_authority_epoch s (lop_instance_id p)"
      "if rotates p then authority_epoch_next (lop_authority_epoch p) = Some e else e = lop_authority_epoch p"
      "persist_update E (restarting p d e) (fenced p e s) = (Inr (), u)"
      "lop_action p = Restart i"
      "and_try (reserve_ownership E (restarting p d e) i) (\<lambda>_. pure (Inr (restarting p d e))) u = (r, t)"
proof (cases "lop_authority_epoch p = current_authority_epoch s (lop_instance_id p)")
  case False
  with assms show thesis by (intro refused) (auto simp: begin_restart_def Let_def)
next
  case True
  note run = assms [unfolded begin_restart_def Let_def, folded rotates_def]
  show thesis
  proof (cases "if rotates p then authority_epoch_next (lop_authority_epoch p) else Some (lop_authority_epoch p)")
    case None
    with run True show thesis by (intro refused) (auto split: if_splits)
  next
    case (Some e)
    have e: "if rotates p then authority_epoch_next (lop_authority_epoch p) = Some e else e = lop_authority_epoch p"
      using Some by (auto split: if_splits)
    have q: "set_state Restarting (Some d) (lop_failure p) (if rotates p then p\<lparr>lop_authority_epoch := e\<rparr> else p)
        = restarting p d e"
      using e by (simp add: restarting_def)
    obtain w u where upd: "persist_update E (restarting p d e) (fenced p e s) = (w, u)" by fastforce
    note run' = run [folded True, unfolded Some option.case q, folded fenced_def, unfolded upd prod.case]
    show thesis
    proof (cases w)
      case (Inl err)
      with run' True show thesis by (intro unsaved [OF True e upd [unfolded Inl]]) (auto simp: fenced_def)
    next
      case (Inr x)
      show thesis
      proof (cases "\<exists>i. lop_action p = Restart i")
        case True
        then obtain i where "lop_action p = Restart i" by blast
        with run' Inr show thesis
          by (intro begun [OF \<open>lop_authority_epoch p = _\<close> e upd [unfolded Inr, simplified]]) (auto simp: restarting_def)
      next
        case False
        with run' Inr show thesis
          by (intro saved [OF \<open>lop_authority_epoch p = _\<close> e upd [unfolded Inr, simplified]])
            (auto simp: restarting_def split: lifecycle_action.splits)
      qed
    qed
  qed
qed

section \<open>The logic\<close>

locale lifecycle_logic =
  fixes E :: "('c, 'p, 's, 'f) lifecycle_env" and I :: "('c, 'p, 's, 'f) process_lifecycle \<Rightarrow> bool"
    and C :: "lifecycle_operation \<Rightarrow> ('c, 'p, 's, 'f) process_lifecycle \<Rightarrow> bool"
    and J :: "process_handle \<Rightarrow> 'p \<Rightarrow> bool" and S :: "process_operation_generation \<Rightarrow> bool"
  assumes C_I: "C p s \<Longrightarrow> I s"
    and C_origin: "C p s \<Longrightarrow> same_origin p q \<Longrightarrow> C q s"
    and observe: "C p s \<Longrightarrow> observed E s t \<Longrightarrow> C p t"
    and observe_J: "J h (plc_process s) \<Longrightarrow> observed E s t \<Longrightarrow> J h (plc_process t)"
    and inspect_J: "C p s \<Longrightarrow> call_inspect_identity E (pid_process d) s = (Inr d, t) \<Longrightarrow> J (pid_process d) (plc_process t)"
    and stop: "C p s \<Longrightarrow> J h (plc_process s) \<Longrightarrow> call_stop E h mode s = (stopped, t) \<Longrightarrow> C p t"
    and start: "C p s \<Longrightarrow> S g \<Longrightarrow> call_start_generation E g spec profile s = (launched, t) \<Longrightarrow> C p t"
    and start_J: "C p s \<Longrightarrow> S g \<Longrightarrow> call_start_generation E g spec profile s = (Inr l, t) \<Longrightarrow>
      J (pid_process (launch_identity l)) (plc_process t)"
    and replacement: "gen_kind g = RestartReplacement \<Longrightarrow> S g"
    and update: "C p s \<Longrightarrow> is_active (lop_state p) \<Longrightarrow> persist_update E p s = (Inr (), t) \<Longrightarrow> C p t"
    and update_I: "C p s \<Longrightarrow> persist_update E p s = (r, t) \<Longrightarrow> I t"
    and own: "C p s \<Longrightarrow> w = owner_row p i proc \<or> (\<exists>w0. bm_get (plc_ownership s) (lop_instance_id p) = Some w0
        \<and> w = w0\<lparr>own_process := proc\<rparr>) \<Longrightarrow> persist_ownership E w s = (Inr (), t) \<Longrightarrow> C p t"
    and own_I: "C p s \<Longrightarrow> persist_ownership E w s = (Inl e, t) \<Longrightarrow> I t"
    and clear_I: "I s \<Longrightarrow> clear_owned E i s = (r, t) \<Longrightarrow> I t"
    and begin_C: "C p s \<Longrightarrow> begin_restart E p d s = (Inr q, t) \<Longrightarrow> C q t"
    and begin_I: "C p s \<Longrightarrow> begin_restart E p d s = (Inl e, t) \<Longrightarrow> I t"
begin

definition ctx :: "lifecycle_operation \<Rightarrow> process_handle set \<Rightarrow> ('c, 'p, 's, 'f) process_lifecycle \<Rightarrow> bool" where
  "ctx p H s \<longleftrightarrow> C p s \<and> (\<forall>h \<in> H. J h (plc_process s))"

lemma ctx_I: "ctx p H s \<Longrightarrow> I s"
  by (auto simp: ctx_def intro: C_I)

lemma ctx_origin: "same_origin p q \<Longrightarrow> ctx p H s \<Longrightarrow> ctx q H s"
  by (auto simp: ctx_def intro: C_origin)

lemma ctx_set_state [simp]: "ctx (set_state st d f p) H = ctx p H"
  by (rule ext, rule iffI; erule ctx_origin [rotated]) simp_all

lemma ctx_weaken: "ctx p (insert h H) s \<Longrightarrow> ctx p H s"
  by (simp add: ctx_def)

lemma ctx_observed: "ctx p H s \<Longrightarrow> observed E s t \<Longrightarrow> ctx p H t"
  by (auto simp: ctx_def intro: observe observe_J)

lemma observed_calls:
  "observed E s (snd (call_inspect E h s))" "observed E s (snd (call_inspect_identity E h s))"
  "observed E s (snd (call_descendants E h s))" "observed E s (snd (call_recover_generation E g profile s))"
  by (auto simp: observed_def)

lemmas ctx_calls = observed_calls [THEN ctx_observed [rotated]]

lemma ctx_results:
  "call_inspect E h s = (r1, t) \<Longrightarrow> ctx p H s \<Longrightarrow> ctx p H t"
  "call_inspect_identity E h s = (r2, t) \<Longrightarrow> ctx p H s \<Longrightarrow> ctx p H t"
  "call_descendants E h s = (r3, t) \<Longrightarrow> ctx p H s \<Longrightarrow> ctx p H t"
  "call_recover_generation E g profile s = (r4, t) \<Longrightarrow> ctx p H s \<Longrightarrow> ctx p H t"
  using ctx_calls(1) [of p H s h] ctx_calls(2) [of p H s h] ctx_calls(3) [of p H s h] ctx_calls(4) [of p H s g profile]
  by simp_all

text \<open>Calls of the process port whose result the method inspects.\<close>

lemma use_calls:
  "(\<And>r. yields (ctx p H) (f r) (\<lambda>_. I)) \<Longrightarrow> yields (ctx p H) (and_use (call_inspect E h) f) (\<lambda>_. I)"
  "(\<And>r. yields (ctx p H) (f' r) (\<lambda>_. I)) \<Longrightarrow> yields (ctx p H) (and_use (call_descendants E h) f') (\<lambda>_. I)"
  "(\<And>r. yields (ctx p H) (f'' r) (\<lambda>_. I)) \<Longrightarrow> yields (ctx p H) (and_use (call_recover_generation E g profile) f'') (\<lambda>_. I)"
  by (rule yields_use [where Q = "\<lambda>_. ctx p H"]; simp add: yields_def ctx_calls)+

lemma yields_identity:
  "yields (ctx p H) (call_inspect_identity E (pid_process d))
     (\<lambda>r. ctx p (if r = Inr d then insert (pid_process d) H else H))"
proof (rule yieldsI)
  fix s r t assume s: "ctx p H s" "call_inspect_identity E (pid_process d) s = (r, t)"
  have "ctx p H t" using ctx_calls(2) [OF s(1), of "pid_process d"] s(2) by simp
  moreover have "J (pid_process d) (plc_process t)" if "r = Inr d"
    using s that inspect_J [of p s d t] by (simp add: ctx_def)
  ultimately show "ctx p (if r = Inr d then insert (pid_process d) H else H) t" by (simp add: ctx_def)
qed

lemma use_identity:
  assumes "\<And>r. r \<noteq> Inr d \<Longrightarrow> yields (ctx p H) (f r) (\<lambda>_. I)"
    and "yields (ctx p (insert (pid_process d) H)) (f (Inr d)) (\<lambda>_. I)"
  shows "yields (ctx p H) (and_use (call_inspect_identity E (pid_process d)) f) (\<lambda>_. I)"
  by (rule yields_use [OF yields_identity]) (use assms in auto)

lemma use_stop:
  assumes "h \<in> H" and "\<And>r. yields (ctx p {}) (f r) (\<lambda>_. I)"
  shows "yields (ctx p H) (and_use (call_stop E h mode) f) (\<lambda>_. I)"
  by (rule yields_use [where Q = "\<lambda>_. ctx p {}"], rule yieldsI)
    (use assms in \<open>auto simp: ctx_def intro: stop\<close>)

text \<open>Record and ownership updates.\<close>

lemma triple_update:
  assumes "is_active (lop_state q)" and "same_origin p q"
  shows "triple (ctx p H) (persist_update E q) (\<lambda>_. ctx p H) I"
proof (rule tripleI)
  fix s e t assume "ctx p H s" "persist_update E q s = (Inl e, t)"
  then show "I t" using C_origin [of p s q] assms by (auto simp: ctx_def intro: update_I)
next
  fix s and a :: unit and t assume s: "ctx p H s" "persist_update E q s = (Inr a, t)"
  then have "C q t" using C_origin [of p s q] assms by (auto simp: ctx_def intro: update)
  moreover have "plc_process t = plc_process s" using s(2) by (rule persist_update_process)
  ultimately show "ctx p H t" using s(1) C_origin [of q t p] same_origin_sym [OF assms(2)] by (simp add: ctx_def)
qed

lemma triple_update_end: "same_origin p q \<Longrightarrow> triple (ctx p H) (persist_update E q) (\<lambda>_. I) I"
  by (rule tripleI) (auto simp: ctx_def intro: update_I C_origin)

lemma triple_own:
  assumes "same_origin p q"
    and "\<And>s. ctx p H s \<Longrightarrow> w = owner_row q i proc \<or> (\<exists>w0. bm_get (plc_ownership s) (lop_instance_id q) = Some w0
        \<and> w = w0\<lparr>own_process := proc\<rparr>)"
  shows "triple (ctx p H) (persist_ownership E w) (\<lambda>_. ctx p H) I"
proof (rule tripleI)
  fix s e t assume "ctx p H s" "persist_ownership E w s = (Inl e, t)"
  then show "I t" by (auto simp: ctx_def intro: own_I)
next
  fix s and a :: unit and t assume s: "ctx p H s" "persist_ownership E w s = (Inr a, t)"
  have "C q s" using s(1) assms(1) C_origin [of p s q] by (simp add: ctx_def)
  then have "C q t" using own [OF _ assms(2) [OF s(1)]] s(2) by simp
  moreover have "plc_process t = plc_process s" using s(2) by (rule persist_ownership_process)
  ultimately show "ctx p H t" using s(1) C_origin [of q t p] same_origin_sym [OF assms(1)] by (simp add: ctx_def)
qed

lemma triple_reserve: "same_origin p q \<Longrightarrow> triple (ctx p H) (reserve_ownership E q i) (\<lambda>_. ctx p H) I"
  by (rule tripleI)
    (auto simp: reserve_ownership_def split: if_splits dest: tripleD_Inl [OF triple_own] tripleD_Inr [OF triple_own])

lemma triple_set_owned: "same_origin p q \<Longrightarrow> triple (ctx p H) (set_owned E q i d) (\<lambda>_. ctx p H) I"
  by (rule tripleI)
    (auto simp: set_owned_def split: if_splits dest: tripleD_Inl [OF triple_own] tripleD_Inr [OF triple_own])

lemma triple_owner_process:
  assumes "same_origin p q"
  shows "triple (ctx p H) (set_owner_process_for_operation E q proc) (\<lambda>_. ctx p H) I"
proof -
  have own: "triple (\<lambda>s. ctx p H s \<and> bm_get (plc_ownership s) (lop_instance_id q) = Some w0)
      (persist_ownership E (w0\<lparr>own_process := proc\<rparr>)) (\<lambda>_. ctx p H) I" for w0
  proof (rule tripleI)
    fix s e t assume "ctx p H s \<and> bm_get (plc_ownership s) (lop_instance_id q) = Some w0"
      "persist_ownership E (w0\<lparr>own_process := proc\<rparr>) s = (Inl e, t)"
    then show "I t" by (auto simp: ctx_def intro: own_I)
  next
    fix s and a :: unit and t
    assume s: "ctx p H s \<and> bm_get (plc_ownership s) (lop_instance_id q) = Some w0"
      "persist_ownership E (w0\<lparr>own_process := proc\<rparr>) s = (Inr a, t)"
    have "lop_instance_id p = lop_instance_id q" using assms by (simp add: same_origin_def)
    with s have "C p t" using own [of p s "w0\<lparr>own_process := proc\<rparr>" undefined proc t] by (simp add: ctx_def)
    then show "ctx p H t" using s persist_ownership_process [OF s(2)] by (simp add: ctx_def)
  qed
  show ?thesis
    by (rule tripleI)
      (auto simp: set_owner_process_for_operation_def split: if_splits option.splits
        intro: tripleD_Inl [OF own] tripleD_Inr [OF own])
qed

lemma triple_begin: "triple (ctx p H) (begin_restart E p d) (\<lambda>q. ctx q {}) I"
  by (rule tripleI) (auto simp: ctx_def intro: begin_C begin_I)

text \<open>What a method does after one of these.\<close>

lemma end_pure: "yields (ctx p H) (pure r) (\<lambda>_. I)" "yields I (pure r) (\<lambda>_. I)"
  by (simp_all add: yields_def ctx_I)

lemma try_clear: "(\<And>u. yields I (f u) (\<lambda>_. I)) \<Longrightarrow> yields I (and_try (clear_owned_for E q) f) (\<lambda>_. I)"
  by (rule yields_try [where Q = I], rule tripleI) (auto simp: clear_owned_for_def intro: clear_I split: if_splits)

lemma try_terminal:
  assumes "st \<in> {OpStopped, OpFailed, OpRejected}" and "\<And>u. yields I (f u) (\<lambda>_. I)"
  shows "yields (ctx p H) (and_try (persist_update E (set_state st a b p)) f) (\<lambda>_. I)"
  by (rule yields_try [OF triple_update_end]) (use assms in simp_all)

lemma try_update:
  assumes "is_active st" and "\<And>u. yields (ctx p H) (f u) (\<lambda>_. I)"
  shows "yields (ctx p H) (and_try (persist_update E (set_state st a b p)) f) (\<lambda>_. I)"
  by (rule yields_try [OF triple_update]) (use assms in simp_all)

lemma try_ownership:
  assumes "\<And>u. yields (ctx p H) (f u) (\<lambda>_. I)" and "same_origin p q"
  shows "yields (ctx p H) (and_try (reserve_ownership E q i) f) (\<lambda>_. I)"
    "yields (ctx p H) (and_try (set_owned E q i d) f) (\<lambda>_. I)"
    "yields (ctx p H) (and_try (set_owner_process_for_operation E q proc) f) (\<lambda>_. I)"
  using assms by (auto intro: yields_try triple_reserve triple_set_owned triple_owner_process)

lemma try_begin:
  "(\<And>q. yields (ctx q {}) (f q) (\<lambda>_. I)) \<Longrightarrow> yields (ctx p H) (and_try (begin_restart E p d) f) (\<lambda>_. I)"
  by (rule yieldsI; erule and_try_cases) (auto dest: tripleD_Inl [OF triple_begin] tripleD_Inr [OF triple_begin] yieldsD)

lemma try_pure: "(\<And>a. r = Inr a \<Longrightarrow> yields (ctx p H) (f a) (\<lambda>_. I)) \<Longrightarrow> yields (ctx p H) (and_try (pure r) f) (\<lambda>_. I)"
  by (cases r) (simp_all add: end_pure)

lemma try_lookup:
  assumes "\<And>a. yields (ctx p H) (f a) (\<lambda>_. I)"
  shows "yields (ctx p H) (\<lambda>s. and_try (pure (g s)) f s) (\<lambda>_. I)"
proof (rule yields_runI)
  fix s assume "ctx p H s"
  with yields_run [OF try_pure [OF assms, where r = "g s"]] show "I (snd (and_try (pure (g s)) f s))" by simp
qed

lemma try_lookups:
  assumes "\<And>a b. yields (ctx p H) (f a b) (\<lambda>_. I)"
  shows "yields (ctx p H) (\<lambda>s. and_try (pure (g s)) (\<lambda>a. and_try (pure (h s)) (f a)) s) (\<lambda>_. I)"
proof (rule yields_runI)
  fix s assume "ctx p H s"
  moreover have "yields (ctx p H) (and_try (pure (g s)) (\<lambda>a. and_try (pure (h s)) (f a))) (\<lambda>_. I)"
    by (intro try_pure assms)
  ultimately show "I (snd (and_try (pure (g s)) (\<lambda>a. and_try (pure (h s)) (f a)) s))" by (simp add: yields_def)
qed

lemmas plain = yields_structure try_pure end_pure

section \<open>Methods\<close>

lemma block_operation: "yields (ctx p H) (block_operation E p failure) (\<lambda>_. I)"
proof (rule yields_runI)
  fix s assume s: "ctx p H s"
  have "yields (ctx p H) (and_try (persist_update E (set_state st (lop_process p) (Some failure) p))
      (\<lambda>_. and_try (if clear then clear_owned_for E (set_state st (lop_process p) (Some failure) p) else pure (Inr ()))
        (\<lambda>_. pure (Inl e)))) (\<lambda>_. I)" for st clear and e :: lifecycle_error
    by (rule yields_try [OF triple_update_end], simp, cases clear) (simp_all add: try_clear end_pure del: pure_simp)
  from yields_run [OF this s] show "I (snd (block_operation E p failure s))" unfolding block_operation_def Let_def .
qed

lemma block_with_process: "yields (ctx p H) (block_operation_with_process E p fault) (\<lambda>_. I)"
  by (simp add: block_operation_with_process_def block_operation)

lemma block_cleanup: "yields (ctx p H) (block_cleanup E p failure) (\<lambda>_. I)"
  unfolding block_cleanup_def Let_def by (intro try_ownership try_update plain) simp_all

lemma block_cleanup_error: "yields (ctx p H) (block_cleanup_lifecycle_error E p e) (\<lambda>_. I)"
  by (cases e) (simp_all add: block_cleanup_lifecycle_error_def block_cleanup end_pure)

lemma unknown: "yields (ctx p H) (unknown_operation E p proc failure) (\<lambda>_. I)"
  unfolding unknown_operation_def Let_def by (intro try_update plain) simp_all

lemma yields_recover: "yields (ctx p H) (recover_failed_start E p) (\<lambda>_. ctx p H)"
  by (rule yieldsI)
    (auto simp: recover_failed_start_def and_use_def intro: ctx_results(4) split: option.splits sum.splits prod.splits)

lemma process_failure: "yields (ctx p H) (process_failure E p fault) (\<lambda>_. I)"
  unfolding process_failure_def Let_def
  by (intro yields_if yields_use [OF yields_recover] try_update try_ownership try_terminal try_clear block_with_process
      end_pure) simp_all

lemma finish_start_failure:
  assumes "\<And>d. lop_process p = Some d \<Longrightarrow> pid_process d \<in> H"
  shows "yields (ctx p H) (finish_start_failure E p failure) (\<lambda>_. I)"
  unfolding finish_start_failure_def Let_def
  by (intro yields_structure use_stop use_calls block_operation block_cleanup
      block_cleanup [of "set_state OpStarting _ _ p", simplified] block_operation [of "set_state OpStarting _ _ p", simplified])
    (use assms in simp_all)

lemma yields_verify_descendants: "yields (ctx p H) (verify_descendants E d profile) (\<lambda>_. ctx p H)"
  by (rule yieldsI)
    (auto simp: verify_descendants_def and_try_def lift_err_def intro: ctx_results(3) split: prod.splits sum.splits if_splits)

lemma yields_verify_process:
  "yields (ctx p H) (verify_process E d profile) (\<lambda>r. ctx p (if r = Inr () then insert (pid_process d) H else H))"
proof (rule yieldsI)
  fix s r t assume s: "ctx p H s" "verify_process E d profile s = (r, t)"
  show "ctx p (if r = Inr () then insert (pid_process d) H else H) t"
  proof (cases "matches_profile d (pid_instance_id d) profile")
    case False
    with s show ?thesis by (auto simp: verify_process_def)
  next
    case True
    obtain x u where u: "call_inspect_identity E (pid_process d) s = (x, u)" by fastforce
    have xu: "ctx p (if x = Inr d then insert (pid_process d) H else H) u"
      using yieldsD [OF yields_identity s(1) u] .
    then have u_ctx: "ctx p H u" by (auto intro: ctx_weaken split: if_splits)
    show ?thesis
    proof (cases "x = Inr d")
      case False
      with s(2) True u u_ctx show ?thesis
        by (auto simp: verify_process_def and_try_def lift_err_def split: sum.splits if_splits)
    next
      case x: True
      obtain y v where v: "call_inspect E (pid_process d) u = (y, v)" by fastforce
      have v_ctx: "ctx p (insert (pid_process d) H) v" using ctx_calls(1) [of p _ u "pid_process d"] xu x v by auto
      then have w_ctx: "ctx p (insert (pid_process d) H) (snd (verify_descendants E d profile v))"
        using yields_verify_descendants by (auto simp: yields_def)
      from s(2) True u x v v_ctx w_ctx show ?thesis
        by (auto simp: verify_process_def and_try_def and_use_def lift_err_def dest: ctx_weaken
            split: sum.splits process_state.splits prod.splits)
    qed
  qed
qed

lemma use_verify_process:
  assumes "\<And>e. yields (ctx p H) (f (Inl e)) (\<lambda>_. I)" and "yields (ctx p (insert (pid_process d) H)) (f (Inr ())) (\<lambda>_. I)"
  shows "yields (ctx p H) (and_use (verify_process E d profile) f) (\<lambda>_. I)"
  by (rule yields_use [OF yields_verify_process]) (use assms in \<open>auto split: sum.split\<close>, metis old.unit.exhaust sum.exhaust)

lemma yields_verify_started: "yields (ctx p H) (verify_started_identity E d profile) (\<lambda>_. ctx p H)"
proof (rule yieldsI)
  fix s r t assume "ctx p H s" "verify_started_identity E d profile s = (r, t)"
  then show "ctx p H t"
    by (auto simp: verify_started_identity_def lift_err_def elim!: and_try_cases split: prod.splits if_splits;
        blast intro: ctx_results yieldsD [OF yields_verify_descendants])
qed

lemma yields_confirm: "yields (ctx p H) (confirm_exited_without_descendants E d) (\<lambda>_. ctx p H)"
  by (rule yieldsI)
    (auto simp: confirm_exited_without_descendants_def and_use_def
      split: prod.splits if_splits sum.splits process_state.splits; blast intro: ctx_results)

lemma use_verify_started:
  "(\<And>r. yields (ctx p H) (f r) (\<lambda>_. I)) \<Longrightarrow> yields (ctx p H) (and_use (verify_started_identity E d profile) f) (\<lambda>_. I)"
  by (rule yields_use [OF yields_verify_started])

lemma finish_start:
  assumes "pid_process (launch_identity launch) \<in> H" and "is_active st"
  shows "yields (ctx p H) (finish_start E p launch profile st) (\<lambda>_. I)"
proof -
  have fail: "yields (ctx p H) (finish_start_failure E (set_state OpStarting (Some (launch_identity launch)) f p) failure) (\<lambda>_. I)"
    for f failure
    using finish_start_failure [of "set_state OpStarting (Some (launch_identity launch)) f p" H failure] assms(1) by simp
  show ?thesis
    unfolding finish_start_def Let_def
    by (intro yields_structure use_verify_started try_update try_ownership end_pure fail) (use assms in simp_all)
qed

lemma start_process:
  assumes "S g"
  shows "yields (ctx p H) (start_process E p g spec profile) (\<lambda>_. I)"
  unfolding start_process_def
proof (rule yields_use [where Q = "\<lambda>r. ctx p (case r of Inl _ \<Rightarrow> {} | Inr l \<Rightarrow> {pid_process (launch_identity l)})"])
  show "yields (ctx p H) (call_start_generation E g spec profile)
      (\<lambda>r. ctx p (case r of Inl _ \<Rightarrow> {} | Inr l \<Rightarrow> {pid_process (launch_identity l)}))"
    by (rule yieldsI) (use assms in \<open>auto simp: ctx_def intro: start start_J split: sum.split\<close>)
next
  fix r :: "generation_start_error + process_launch"
  show "yields (ctx p (case r of Inl _ \<Rightarrow> {} | Inr l \<Rightarrow> {pid_process (launch_identity l)}))
      (case r of Inr launch \<Rightarrow> finish_start E p launch profile Started
         | Inl GenUnsupported \<Rightarrow> process_failure E p ProfileRequired
         | Inl (GenProcess fault) \<Rightarrow> process_failure E p fault) (\<lambda>_. I)"
    by (auto intro: finish_start process_failure split: sum.split generation_start_error.split)
qed

lemma finish_stop:
  assumes "pid_process d \<in> H"
  shows "yields (ctx p H) (finish_stop E p d mode) (\<lambda>_. I)"
  unfolding finish_stop_def Let_def
  by (intro use_stop [OF assms] yields_structure use_calls block_with_process block_cleanup try_terminal try_clear end_pure) simp

lemma run: "ctx p H s \<Longrightarrow> yields (ctx p H) m (\<lambda>_. I) \<Longrightarrow> I (snd (m s))"
  by (simp add: yields_def)

lemmas finals = block_operation block_with_process block_cleanup block_cleanup_error unknown process_failure

lemma verify_record: "yields (ctx p H) (verify_record E p) (\<lambda>_. I)"
proof (rule yields_runI)
  fix s assume s: "ctx p H s"
  show "I (snd (verify_record E p s))"
  proof (cases "lop_process p")
    case None
    with s show ?thesis by (simp add: verify_record_def ctx_I)
  next
    case (Some d)
    let ?q = "\<lambda>insp confirmed failure.
      set_state (if confirmed then OpFailed else if insp then OpUnknown else Blocked) (Some d) (Some failure) p"
    let ?finish = "\<lambda>insp failure (e :: lifecycle_error) confirmed.
      and_try (persist_update E (?q insp confirmed failure)) (\<lambda>_.
      and_try (if confirmed then clear_owned_for E (?q insp confirmed failure)
               else if failure \<noteq> FailIdentityMismatch
               then set_owner_process_for_operation E (?q insp confirmed failure) (Some d)
               else pure (Inr ())) (\<lambda>_. pure (Inl e)))"
    have finish: "yields (ctx p H) (?finish insp failure e confirmed) (\<lambda>_. I)" for insp failure e confirmed
    proof (cases confirmed)
      case True
      then show ?thesis by (simp del: pure_simp) (intro try_terminal try_clear end_pure, simp)
    next
      case False
      then show ?thesis
        by (simp del: pure_simp split del: if_split, cases "failure = FailIdentityMismatch";
            simp del: pure_simp split del: if_split)
          (intro try_update try_ownership end_pure; simp)+
    qed
    have confirm: "yields (ctx p H) (if insp then confirm_exited_without_descendants E d else pure False) (\<lambda>_. ctx p H)" for insp
      by (simp add: yields_confirm) (simp add: yields_def)
    have failed: "yields (ctx p H)
        (and_use (if insp then confirm_exited_without_descendants E d else pure False) (?finish insp failure e)) (\<lambda>_. I)"
      for insp failure e
      by (rule yields_use [OF confirm finish])
    have ok: "yields (ctx p H) (and_try (if u then persist_update E (if u then set_state st (Some d) None p else p) else pure (Inr ()))
       (\<lambda>_. and_try (set_owned E (if u then set_state st (Some d) None p else p) i d) (\<lambda>_. pure r))) (\<lambda>_. I)"
      if "is_active st" for u st i and r :: "lifecycle_error + lifecycle_response"
      by (cases u; simp del: pure_simp) (intro try_update try_ownership end_pure; simp add: that)+
    show ?thesis unfolding verify_record_def Some option.case Let_def
      by (rule run [OF s], intro try_pure use_verify_started yields_case_sum failed ok)
        (simp split: lifecycle_action.split)
  qed
qed

lemma finish_recovered: "yields (ctx p H) (finish_recovered E p launch profile) (\<lambda>_. I)"
  unfolding finish_recovered_def Let_def
  by (intro yields_structure use_verify_started try_update try_ownership end_pure
      block_cleanup [of "set_state OpStarting _ _ p", simplified]) simp_all

lemma reconcile_stopping: "yields (ctx p H) (reconcile_stopping E p) (\<lambda>_. I)"
proof (rule yields_runI)
  fix s assume s: "ctx p H s"
  show "I (snd (reconcile_stopping E p s))"
  proof (cases "lop_process p")
    case None
    show ?thesis unfolding reconcile_stopping_def None option.case by (rule yields_run [OF unknown s])
  next
    case (Some d)
    have running: "yields (ctx p (insert (pid_process d) H)) (case st of Exited x \<Rightarrow> f x | Running \<Rightarrow> g) (\<lambda>_. I)"
      if "\<And>x. yields (ctx p (insert (pid_process d) H)) (f x) (\<lambda>_. I)" "yields (ctx p (insert (pid_process d) H)) g (\<lambda>_. I)"
      for st f and g :: "('c, 'p, 's, 'f) process_lifecycle \<Rightarrow> (lifecycle_error + lifecycle_response) \<times> ('c, 'p, 's, 'f) process_lifecycle"
      using that by (cases st) simp_all
    show ?thesis unfolding reconcile_stopping_def Some option.case Let_def
      by (rule run [OF s], intro try_pure use_identity yields_case_sum)
        (intro yields_structure finals try_terminal try_update try_clear end_pure use_calls running use_verify_process finish_stop;
          simp)+
  qed
qed

lemma reconcile_stop_intent: "yields (ctx p H) (reconcile_stop_intent E p) (\<lambda>_. I)"
proof (rule yields_runI)
  fix s assume s: "ctx p H s"
  have "yields (ctx p H) (and_try (persist_update E (set_state OpStopping (Some d) f p))
      (\<lambda>_. reconcile_stopping E (set_state OpStopping (Some d) f p))) (\<lambda>_. I)" for d f
    by (intro try_update) (simp_all add: reconcile_stopping [of "set_state OpStopping _ _ p", simplified])
  then show "I (snd (reconcile_stop_intent E p s))"
    unfolding reconcile_stop_intent_def Let_def
    by (auto simp del: pure_simp intro!: run [OF s] block_operation try_lookup split: option.split)
qed

lemma finish_failed_launch_cleanup: "yields (ctx p H) (finish_failed_launch_cleanup E p d) (\<lambda>_. I)"
  unfolding finish_failed_launch_cleanup_def Let_def
  by (intro use_calls yields_structure block_cleanup try_terminal try_clear end_pure) simp

lemma yields_case_state:
  "yields P g Q \<Longrightarrow> (\<And>x. yields P (f x) Q) \<Longrightarrow> yields P (case st of Running \<Rightarrow> g | Exited x \<Rightarrow> f x) Q"
  by (cases st) simp_all

lemma reconcile_retained_cleanup: "yields (ctx p H) (reconcile_retained_cleanup E p d) (\<lambda>_. I)"
proof -
  let ?H = "insert (pid_process d) H"
  have inspected: "yields (ctx p ?H) (and_use (call_inspect E (pid_process d)) (\<lambda>st. case st of
        Inr (Exited _) \<Rightarrow> finish_failed_launch_cleanup E p d
      | Inr Running \<Rightarrow> and_use (call_stop E (pid_process d) Force) (\<lambda>stopped. case stopped of
            Inl fault \<Rightarrow> block_cleanup E p (FailProcess fault)
          | Inr _ \<Rightarrow> finish_failed_launch_cleanup E p d)
      | Inl fault \<Rightarrow> unknown_operation E p (Some d) (Some (FailProcess fault)))) (\<lambda>_. I)"
    by (intro use_calls yields_case_sum yields_case_state finals finish_failed_launch_cleanup use_stop) simp_all
  have drift: "yields (ctx p H) (and_try (persist_update E (set_state Blocked (Some d) f p)) (\<lambda>_.
      and_try (set_owner_process_for_operation E (set_state Blocked (Some d) f p) proc) (\<lambda>_. pure r))) (\<lambda>_. I)"
    for f proc and r :: "lifecycle_error + lifecycle_response"
    by (intro try_update try_ownership end_pure) simp_all
  show ?thesis
    unfolding reconcile_retained_cleanup_def Let_def
  proof (rule use_identity, goal_cases)
    case (1 r)
    then show ?case by (cases r) (auto simp del: pure_simp intro: unknown drift)
  next
    case 2
    show ?case
      unfolding sum.case refl simp_thms if_False
      by (intro try_lookup use_calls yields_structure finals inspected)
  qed
qed

lemma reconcile_launch: "yields (ctx p H) (reconcile_launch E p) (\<lambda>_. I)"
proof -
  have found: "yields (ctx p H) (case r of Found d \<Rightarrow> finish_recovered E p \<lparr>launch_identity = d\<rparr> profile
      | Indeterminate \<Rightarrow> unknown_operation E p None None) (\<lambda>_. I)" for r profile
    by (cases r) (simp_all add: finish_recovered unknown)
  show ?thesis
    unfolding reconcile_launch_def [abs_def]
    by (intro try_lookup yields_structure reconcile_retained_cleanup verify_record unknown use_calls found)
qed

lemma finish_restart: "yields (ctx p H) (finish_restart E p profile) (\<lambda>_. I)"
proof -
  have start: "yields (ctx p {}) (case for_operation (set_state Restarting None None p) profile RestartReplacement of
        None \<Rightarrow> unknown_operation E (set_state Restarting None None p) None None
      | Some g \<Rightarrow> start_process E (set_state Restarting None None p) g spec profile) (\<lambda>_. I)" for spec
    using unknown [of "set_state Restarting None None p" "{}"] start_process [of _ "set_state Restarting None None p" "{}"]
      replacement [OF for_operation_Some(1)]
    by (auto split: option.split)
  have stopped: "yields (ctx p {})
      (case stopped of
         Inl fault \<Rightarrow> block_operation_with_process E p fault
       | Inr _ \<Rightarrow> and_use (call_descendants E (pid_process d)) (\<lambda>ds. case ds of
             Inl fault \<Rightarrow> process_failure E p fault
           | Inr descendants \<Rightarrow>
               if descendants \<noteq> [] then block_cleanup E p FailForeignDescendant
               else and_try (persist_update E (set_state Restarting None None p)) (\<lambda>_.
                 and_try (reserve_ownership E (set_state Restarting None None p) (prof_id profile)) (\<lambda>_.
                 case for_operation (set_state Restarting None None p) profile RestartReplacement of
                   None \<Rightarrow> unknown_operation E (set_state Restarting None None p) None None
                 | Some g \<Rightarrow> start_process E (set_state Restarting None None p) g spec profile)))) (\<lambda>_. I)"
    for stopped :: "process_fault + unit" and d spec
    by (intro yields_case_sum finals use_calls yields_if try_update try_ownership start) simp_all
  have weak: "yields (ctx p {}) m (\<lambda>_. I) \<Longrightarrow> yields (ctx p G) m (\<lambda>_. I)" for m G
    by (erule yields_pre) (simp add: ctx_def)
  have state: "yields (ctx p (insert (pid_process d) H))
      (and_use (if st = Running then verify_process E d profile else pure (Inr ())) (\<lambda>v. case v of
          Inl e \<Rightarrow> block_cleanup_lifecycle_error E p e
        | Inr _ \<Rightarrow> and_use (if st = Running then call_stop E (pid_process d) Force else pure (Inr ())) f)) (\<lambda>_. I)"
    if "\<And>r. yields (ctx p {}) (f r) (\<lambda>_. I)" for st f d
  proof (cases "st = Running")
    case True
    then show ?thesis using that
      by simp (intro use_verify_process yields_case_sum finals use_stop; simp)
  next
    case False
    then show ?thesis using weak [OF that] by (simp del: pure_simp)
  qed
  show ?thesis
  proof (cases "lop_process p")
    case None
    then show ?thesis unfolding finish_restart_def by (simp del: pure_simp add: end_pure)
  next
    case (Some d)
    show ?thesis
      unfolding finish_restart_def Let_def Some option.case
    proof (intro yields_if reconcile_retained_cleanup use_identity, goal_cases)
      case (1 r)
      then show ?case by (cases r) (auto simp: process_failure block_cleanup)
    next
      case 2
      show ?case
        unfolding sum.case refl simp_thms if_False
        by (rule use_calls, rule yields_case_sum, rule process_failure, rule state, rule stopped)
    qed
  qed
qed

lemma reconcile_restart: "yields (ctx p H) (reconcile_restart E p) (\<lambda>_. I)"
proof -
  have found: "yields (ctx p H) (case r of Found d \<Rightarrow> finish_recovered E p \<lparr>launch_identity = d\<rparr> profile
      | Indeterminate \<Rightarrow> unknown_operation E p None None) (\<lambda>_. I)" for r profile
    by (cases r) (simp_all add: finish_recovered unknown)
  have prepare: "yields (ctx p H) (and_try (prepare_restart_recovery E p profile) (\<lambda>q. finish_restart E q profile)) (\<lambda>_. I)"
    for profile
  proof (rule yields_runI)
    fix s assume s: "ctx p H s"
    have again: "I (snd (and_try (begin_restart E p d) (\<lambda>q. finish_restart E q profile) s))" for d
      by (rule run [OF s]) (intro try_begin finish_restart)
    have "yields (ctx p H) (and_try (and_try (reserve_ownership E p (prof_id profile)) (\<lambda>_. pure (Inr p)))
        (\<lambda>q. finish_restart E q profile)) (\<lambda>_. I)"
      unfolding and_try_assoc by (simp del: pure_simp) (intro try_ownership finish_restart; simp)
    from run [OF s this] again s
    show "I (snd (and_try (prepare_restart_recovery E p profile) (\<lambda>q. finish_restart E q profile) s))"
      by (auto simp: and_try_def prepare_restart_recovery_def ctx_I split: option.split)
  qed
  have pending: "yields (ctx p H) (and_try (pure r) (\<lambda>profile.
      and_try (prepare_restart_recovery E p profile) (\<lambda>q. finish_restart E q profile))) (\<lambda>_. I)" for r
    by (intro try_pure prepare)
  have lost: "yields (ctx p H) (and_try (pure r) (\<lambda>profile. case for_operation p profile RestartReplacement of
        None \<Rightarrow> unknown_operation E p None None
      | Some g \<Rightarrow> and_use (call_recover_generation E g profile) (\<lambda>r. case r of
            Inr (Found d) \<Rightarrow> finish_recovered E p \<lparr>launch_identity = d\<rparr> profile
          | Inr Indeterminate \<Rightarrow> unknown_operation E p None None
          | Inl fault \<Rightarrow> unknown_operation E p None (Some (FailProcess fault))))) (\<lambda>_. I)" for r
    by (intro try_pure yields_structure unknown use_calls found)
  show ?thesis
  proof (rule yields_runI)
    fix s assume s: "ctx p H s"
    show "I (snd (reconcile_restart E p s))"
      unfolding reconcile_restart_def
      using run [OF s lost] run [OF s pending] run [OF s unknown] by (auto simp del: pure_simp)
  qed
qed

text \<open>Methods that start from the latest authorized operation.\<close>

lemma with_previous:
  assumes "\<And>previous d. lop_process previous = Some d \<Longrightarrow> yields (ctx p H) (g previous d) (\<lambda>_. I)"
  shows "yields (ctx p H) (\<lambda>s. case latest_authorized_excluding s i x of
      None \<Rightarrow> block_operation E p f1 s
    | Some previous \<Rightarrow> (case lop_process previous of None \<Rightarrow> block_operation E p f2 s | Some d \<Rightarrow> g previous d s)) (\<lambda>_. I)"
proof (rule yields_runI)
  fix s assume "ctx p H s"
  then show "I (snd (case latest_authorized_excluding s i x of
      None \<Rightarrow> block_operation E p f1 s
    | Some previous \<Rightarrow> (case lop_process previous of None \<Rightarrow> block_operation E p f2 s | Some d \<Rightarrow> g previous d s)))"
    using run [OF _ block_operation] run [OF _ assms] by (auto split: option.split)
qed

lemma reconcile_restart_intent: "yields (ctx p H) (reconcile_restart_intent E p profile_id) (\<lambda>_. I)"
  unfolding reconcile_restart_intent_def [abs_def]
  by (rule with_previous) (intro try_lookups yields_if block_operation try_begin reconcile_restart)

lemma execute_attach: "yields (ctx p H) (execute_attach E p d) (\<lambda>_. I)"
proof -
  have attach: "yields (ctx p H) (and_try (persist_update E (set_state Attached (Some d) None p)) (\<lambda>_.
      and_use (verify_process E d profile) (\<lambda>r. case r of
          Inl e \<Rightarrow> block_cleanup_lifecycle_error E (set_state Attached (Some d) None p) e
        | Inr _ \<Rightarrow>
            and_try (set_owned E (set_state Attached (Some d) None p) (prof_id profile) d) (\<lambda>_.
            and_try (persist_update E (set_state Attached (Some d) None p)) (\<lambda>_.
            pure r'))))) (\<lambda>_. I)" for profile and r' :: "lifecycle_error + lifecycle_response"
    by (intro try_update use_verify_process yields_case_sum try_ownership end_pure
        block_cleanup_error [of "set_state Attached _ _ p", simplified]) simp_all
  show ?thesis
  proof (rule yields_runI)
    fix s assume s: "ctx p H s"
    show "I (snd (execute_attach E p d s))"
      unfolding execute_attach_def Let_def
      by (auto simp del: pure_simp intro!: run [OF s] block_operation try_lookup attach split: option.split)
  qed
qed

lemma execute_stop: "yields (ctx p H) (execute_stop E p mode) (\<lambda>_. I)"
  unfolding execute_stop_def [abs_def] Let_def
  by (rule with_previous)
    (intro try_lookup try_update use_verify_process yields_case_sum
      block_cleanup_error [of "set_state OpStopping _ _ p", simplified] finish_stop [of _ _ "set_state OpStopping _ _ p", simplified];
     simp)

lemma execute_restart: "yields (ctx p H) (execute_restart E p profile_id) (\<lambda>_. I)"
  unfolding execute_restart_def [abs_def] Let_def
  by (rule with_previous)
    (intro try_lookups try_update yields_if use_verify_process yields_case_sum try_begin finish_restart
      block_operation [of "set_state Restarting _ _ p", simplified]
      block_cleanup_error [of "set_state Restarting _ _ p", simplified]
      try_begin [of _ "set_state Restarting _ _ p", simplified]; simp)

lemma execute_launch:
  assumes "\<And>g. gen_kind g = GenLaunchNew \<Longrightarrow> S g"
  shows "yields (ctx p H) (execute_launch E p profile_id) (\<lambda>_. I)"
proof -
  have "yields (ctx p H) (and_try (persist_update E (set_state OpStarting None None p)) (\<lambda>_.
      case for_operation (set_state OpStarting None None p) profile GenLaunchNew of
        None \<Rightarrow> unknown_operation E (set_state OpStarting None None p) None None
      | Some g \<Rightarrow> start_process E (set_state OpStarting None None p) g spec profile)) (\<lambda>_. I)" for profile spec
    using unknown [of "set_state OpStarting None None p" H] start_process [of _ "set_state OpStarting None None p" H]
      assms [OF for_operation_Some(1)]
    by (intro try_update) (auto split: option.split)
  then show ?thesis
    unfolding execute_launch_def [abs_def] Let_def by (intro try_lookup) simp
qed

lemma execute_other:
  assumes "\<And>i. lop_action p \<noteq> LaunchNew i"
  shows "yields (ctx p H) (execute E p) (\<lambda>_. I)"
proof (cases "lop_action p")
  case (LaunchNew i)
  with assms show ?thesis by blast
qed (simp_all add: execute_def execute_attach execute_stop execute_restart)

end

text \<open>
  Where work on a retained operation may begin: an active, current record is in context; an active
  one that is no longer current may still be rejected.
\<close>

locale lifecycle_replay = lifecycle_logic +
  assumes enter: "I s \<Longrightarrow> bm_get (plc_records s) (op_key p) = Some p \<Longrightarrow> is_active (lop_state p) \<Longrightarrow>
      operation_is_current s p \<Longrightarrow> C p s"
    and reject: "I s \<Longrightarrow> bm_get (plc_records s) (op_key p) = Some p \<Longrightarrow> is_active (lop_state p) \<Longrightarrow>
      persist_update E (set_state OpRejected (lop_process p) f p) s = (res, t) \<Longrightarrow> I t"
begin

lemma ctx_enter: "I s \<Longrightarrow> bm_get (plc_records s) (op_key p) = Some p \<Longrightarrow> is_active (lop_state p) \<Longrightarrow>
    operation_is_current s p \<Longrightarrow> ctx p {} s"
  by (simp add: ctx_def enter)

lemma reject_stale:
  assumes "I s" and "bm_get (plc_records s) (op_key p) = Some p" and "is_active (lop_state p)"
  shows "I (snd (block_operation E p FailInstanceBusy s))"
proof -
  let ?q = "set_state OpRejected (lop_process p) (Some FailInstanceBusy) p"
  obtain r t where upd: "persist_update E ?q s = (r, t)" by fastforce
  then have t: "I t" using reject assms by blast
  have "yields I (and_try (if clear then clear_owned_for E ?q else pure (Inr ())) (\<lambda>_. pure e)) (\<lambda>_. I)"
    for clear and e :: "lifecycle_error + lifecycle_response"
    by (cases clear) (simp_all add: try_clear end_pure del: pure_simp)
  from yields_run [OF this t] upd t show ?thesis
    unfolding block_operation_def Let_def and_try_def [of "persist_update E _"] lifecycle_failure.case
    by (cases r) (simp_all only: prod.case sum.case snd_conv old.unit.case)
qed

lemma reconcile_record:
  assumes "I s" and "bm_get (plc_records s) (op_key p) = Some p"
  shows "I (snd (reconcile_record E p s))"
proof (cases "is_active (lop_state p)")
  case False
  with assms(1) show ?thesis
    by (cases "lop_state p") (simp_all add: reconcile_record_def retained_response_def)
next
  case active: True
  show ?thesis
  proof (cases "operation_is_current s p")
    case False
    with reject_stale [OF assms active] active show ?thesis by (simp add: reconcile_record_def)
  next
    case True
    note s = ctx_enter [OF assms active True]
    note work = run [OF s reconcile_launch] run [OF s execute_attach] run [OF s reconcile_stop_intent]
      run [OF s reconcile_restart_intent] run [OF s reconcile_stopping] run [OF s reconcile_restart]
      run [OF s verify_record]
    show ?thesis using True assms(1) work
      by (cases "lop_state p"; cases "lop_action p") (simp_all add: reconcile_record_def retained_response_def)
  qed
qed

lemma replay:
  assumes "I s" and "bm_get (plc_records s) (op_key p) = Some p"
  shows "I (snd (replay E p s))"
proof (cases "is_active (lop_state p) \<and> operation_is_current s p")
  case True
  then show ?thesis
    using run [OF ctx_enter [OF assms] verify_record] reconcile_record [OF assms] assms(1)
    by (auto simp: replay_def retained_response_def)
next
  case False
  then show ?thesis
    using reject_stale [OF assms] reconcile_record [OF assms] assms(1)
    by (auto simp: replay_def retained_response_def is_active_def)
qed

end

end
