(* ===== verification/Process_Lifecycle_Safety.thy ===== *)
theory Process_Lifecycle_Safety
  imports Process_Lifecycle_Logic
begin

text \<open>
  The process port with a log of what it was asked, the coordinator's view of its store, and the
  launches a coordinator makes: instances of the logic for the lifecycle coordinator.
\<close>

section \<open>The port's log\<close>

datatype port_event =
    StartedGeneration process_operation_generation "process_identity option"
  | InspectedIdentity process_handle "process_identity option"
  | StoppedHandle process_handle stop_mode

definition ok_value :: "'e + 'a \<Rightarrow> 'a option" where
  "ok_value r = (case r of Inl _ \<Rightarrow> None | Inr a \<Rightarrow> Some a)"

definition lc_recording :: "('c, 'p, 's, 'f) lifecycle_env \<Rightarrow> ('c, 'p \<times> port_event list, 's, 'f) lifecycle_env" where
  "lc_recording E = \<lparr>lc_now = lc_now E, lc_check_fence = lc_check_fence E,
     lc_start_generation = (\<lambda>(p, log) g spec profile. case lc_start_generation E p g spec profile of
        (r, p') \<Rightarrow> (r, p', log @ [StartedGeneration g (map_option launch_identity (ok_value r))])),
     lc_inspect = (\<lambda>(p, log) h. case lc_inspect E p h of (r, p') \<Rightarrow> (r, p', log)),
     lc_inspect_identity = (\<lambda>(p, log) h. case lc_inspect_identity E p h of
        (r, p') \<Rightarrow> (r, p', log @ [InspectedIdentity h (ok_value r)])),
     lc_descendants = (\<lambda>(p, log) h. case lc_descendants E p h of (r, p') \<Rightarrow> (r, p', log)),
     lc_stop = (\<lambda>(p, log) h mode. case lc_stop E p h mode of (r, p') \<Rightarrow> (r, p', log @ [StoppedHandle h mode])),
     lc_recover_generation = (\<lambda>(p, log) g profile. case lc_recover_generation E p g profile of
        (r, p') \<Rightarrow> (r, p', log)),
     lc_store = lc_store E\<rparr>"

lemma lc_recording_store [simp]: "lc_store (lc_recording E) = lc_store E"
  by (simp add: lc_recording_def)

definition port_log :: "('c, 'p \<times> port_event list, 's, 'f) process_lifecycle \<Rightarrow> port_event list" where
  "port_log s = snd (plc_process s)"

text \<open>The launches in a log, by instance and operation.\<close>

definition launch_key :: "port_event \<Rightarrow> record_key option" where
  "launch_key e = (case e of StartedGeneration g _ \<Rightarrow>
     (if gen_kind g = GenLaunchNew then Some (gen_instance_id g, gen_operation_id g) else None) | _ \<Rightarrow> None)"

definition launches :: "('c, 'p \<times> port_event list, 's, 'f) process_lifecycle \<Rightarrow> record_key list" where
  "launches s = List.map_filter launch_key (port_log s)"

lemmas recording_calls = on_process_def lc_recording_def call_inspect_def call_inspect_identity_def call_descendants_def
  call_recover_generation_def call_stop_def call_start_generation_def

lemma recording_start:
  "call_start_generation (lc_recording E) g spec profile s = (r, t) \<Longrightarrow>
     port_log t = port_log s @ [StartedGeneration g (map_option launch_identity (ok_value r))]"
  by (auto simp: recording_calls port_log_def split: prod.splits)

lemma recording_stop:
  "call_stop (lc_recording E) h mode s = (r, t) \<Longrightarrow> port_log t = port_log s @ [StoppedHandle h mode]"
  by (auto simp: recording_calls port_log_def split: prod.splits)

lemma recording_identity:
  "call_inspect_identity (lc_recording E) h s = (r, t) \<Longrightarrow> port_log t = port_log s @ [InspectedIdentity h (ok_value r)]"
  by (auto simp: recording_calls port_log_def split: prod.splits)

lemma recording_observed:
  assumes "observed (lc_recording E) s t"
  shows "port_log t = port_log s \<or> (\<exists>h r. port_log t = port_log s @ [InspectedIdentity h r])"
  using assms by (auto simp: observed_def recording_calls port_log_def split: prod.splits)

lemma port_log_cong: "plc_process t = plc_process s \<Longrightarrow> port_log t = port_log s"
  by (simp add: port_log_def)

lemma launches_snoc: "port_log t = port_log s @ [e] \<Longrightarrow> launches t = launches s @ (case launch_key e of None \<Rightarrow> [] | Some k \<Rightarrow> [k])"
  by (simp add: launches_def List.map_filter_def split: option.split)

lemma launches_cong: "port_log t = port_log s \<Longrightarrow> launches t = launches s"
  by (simp add: launches_def)

lemma launches_observed: "observed (lc_recording E) s t \<Longrightarrow> launches t = launches s"
  by (drule recording_observed) (auto simp: launch_key_def dest: launches_cong launches_snoc)

section \<open>What a coordinator shares with its store\<close>

definition mirrors :: "('s \<Rightarrow> (record_key, lifecycle_operation) bmap) \<Rightarrow> ('s \<Rightarrow> (instance_id, lifecycle_ownership) bmap)
    \<Rightarrow> ('c, 'p, 's, 'f) process_lifecycle \<Rightarrow> bool" where
  "mirrors held owners s \<longleftrightarrow> held (plc_store s) = plc_records s \<and> owners (plc_store s) = plc_ownership s
     \<and> (\<forall>k p. bm_get (plc_records s) k = Some p \<longrightarrow> op_key p = k)
     \<and> (\<forall>i w. bm_get (plc_ownership s) i = Some w \<longrightarrow> own_instance_id w = i)"

lemma set_authority_epoch_simps [simp]:
  "plc_records (set_authority_epoch i e s) = plc_records s" "plc_ownership (set_authority_epoch i e s) = plc_ownership s"
  "plc_store (set_authority_epoch i e s) = plc_store s" "plc_process (set_authority_epoch i e s) = plc_process s"
  "plc_config (set_authority_epoch i e s) = plc_config s" "plc_profiles (set_authority_epoch i e s) = plc_profiles s"
  "plc_leases (set_authority_epoch i e s) = plc_leases s" "plc_next_sequence (set_authority_epoch i e s) = plc_next_sequence s"
  by (simp_all add: set_authority_epoch_def)

lemma fenced_simps [simp]:
  "plc_records (fenced p e s) = plc_records s" "plc_ownership (fenced p e s) = plc_ownership s"
  "plc_store (fenced p e s) = plc_store s" "plc_process (fenced p e s) = plc_process s"
  "plc_config (fenced p e s) = plc_config s" "plc_profiles (fenced p e s) = plc_profiles s"
  "plc_leases (fenced p e s) = plc_leases s" "plc_next_sequence (fenced p e s) = plc_next_sequence s"
  by (simp_all add: fenced_def)

lemma mirrors_fenced [simp]: "mirrors held owners (fenced p e s) = mirrors held owners s"
  by (simp add: mirrors_def)

lemma mirrors_process [simp]: "mirrors held owners (s\<lparr>plc_process := x\<rparr>) = mirrors held owners s"
  by (simp add: mirrors_def)

context mirrored_store
begin

lemma mirrors_update:
  assumes "mirrors held owners s" and "lc_store E = st" and "persist_update E p s = (r, t)"
  shows "mirrors held owners t" and "dom (bm_get (plc_records s)) \<subseteq> dom (bm_get (plc_records t))"
proof -
  obtain x u where x: "store_update st p (plc_store s) = (x, u)" by fastforce
  show "mirrors held owners t"
    using assms x update_ok [of p "plc_store s" u] update_err [of p "plc_store s" _ u]
    by (cases x) (auto simp: persist_update_def mirrors_def split: if_splits)
  show "dom (bm_get (plc_records s)) \<subseteq> dom (bm_get (plc_records t))"
    using assms x by (cases x) (auto simp: persist_update_def)
qed

lemma mirrors_insert:
  assumes "mirrors held owners s" and "lc_store E = st" and "persist_insert E p s = (r, t)"
  shows "mirrors held owners t"
proof -
  obtain x u where x: "store_insert st p (plc_store s) = (x, u)" by fastforce
  show ?thesis
    using assms x insert_ok [of p "plc_store s" u] insert_err [of p "plc_store s" _ u]
    by (cases x) (auto simp: persist_insert_def mirrors_def split: if_splits)
qed

lemma mirrors_own:
  assumes "mirrors held owners s" and "lc_store E = st" and "persist_ownership E w s = (r, t)"
  shows "mirrors held owners t" and "plc_records t = plc_records s"
proof -
  obtain x u where x: "store_set_ownership st w (plc_store s) = (x, u)" by fastforce
  show "mirrors held owners t"
    using assms x set_ok [of w "plc_store s" u] set_err [of w "plc_store s" _ u]
    by (cases x) (auto simp: persist_ownership_def mirrors_def split: if_splits)
  show "plc_records t = plc_records s" using assms x by (cases x) (auto simp: persist_ownership_def)
qed

lemma mirrors_clear:
  assumes "mirrors held owners s" and "lc_store E = st" and "clear_owned E i s = (r, t)"
  shows "mirrors held owners t" and "plc_records t = plc_records s"
proof -
  have "mirrors held owners t \<and> plc_records t = plc_records s"
  proof (cases "bm_get (plc_ownership s) i")
    case None
    with assms show ?thesis by (auto simp: clear_owned_def mirrors_def)
  next
    case (Some w)
    then have i: "own_instance_id w = i" using assms(1) by (simp add: mirrors_def)
    obtain x u where x: "store_clear_ownership_if st w (plc_store s) = (x, u)" by fastforce
    show ?thesis
      using assms Some i x clear_ok [of w "plc_store s" u] clear_err [of w "plc_store s" _ u]
      by (cases x) (auto simp: clear_owned_def mirrors_def split: if_splits)
  qed
  then show "mirrors held owners t" and "plc_records t = plc_records s" by simp_all
qed

lemma mirrors_begin:
  assumes "mirrors held owners s" and "lc_store E = st" and "begin_restart E p d s = (r, t)"
  shows "mirrors held owners t \<and> dom (bm_get (plc_records s)) \<subseteq> dom (bm_get (plc_records t)) \<and> plc_process t = plc_process s"
  using assms(3)
proof (cases rule: begin_restart_cases)
  case (refused e)
  with assms(1) show ?thesis by simp
next
  case (unsaved e err u)
  with mirrors_update [of "fenced p e s" E] assms(1,2) persist_update_process [OF unsaved(3)] show ?thesis by simp
next
  case (saved e u)
  with mirrors_update [of "fenced p e s" E] assms(1,2) persist_update_process [OF saved(3)] show ?thesis by simp
next
  case (begun e u i)
  have u: "mirrors held owners u" "dom (bm_get (plc_records s)) \<subseteq> dom (bm_get (plc_records u))" "plc_process u = plc_process s"
    using mirrors_update [OF _ assms(2) begun(3)] assms(1) persist_update_process [OF begun(3)] by simp_all
  obtain x v where x: "reserve_ownership E (restarting p d e) i u = (x, v)" by fastforce
  then have "mirrors held owners v" "plc_records v = plc_records u" "plc_process v = plc_process u"
    using u(1) mirrors_own [OF u(1) assms(2)] reserve_ownership_process [OF x]
    by (auto simp: reserve_ownership_def split: if_splits)
  moreover have "t = v" using begun(5) x by (auto simp: and_try_def split: sum.splits)
  ultimately show ?thesis using u by simp
qed

end

section \<open>Methods other than a launch start nothing new\<close>

definition quiet :: "('s \<Rightarrow> (record_key, lifecycle_operation) bmap) \<Rightarrow> ('s \<Rightarrow> (instance_id, lifecycle_ownership) bmap)
    \<Rightarrow> record_key set \<Rightarrow> record_key list \<Rightarrow> ('c, 'p \<times> port_event list, 's, 'f) process_lifecycle \<Rightarrow> bool" where
  "quiet held owners K L s \<longleftrightarrow> mirrors held owners s \<and> launches s = L \<and> K \<subseteq> dom (bm_get (plc_records s))"

lemma launches_process: "plc_process t = plc_process s \<Longrightarrow> launches t = launches s"
  by (simp add: launches_def port_log_def)

lemma call_only_process:
  "call_stop E h mode s = (r, t) \<Longrightarrow> \<exists>x. t = s\<lparr>plc_process := x\<rparr>"
  "call_start_generation E g spec profile s = (r', t) \<Longrightarrow> \<exists>x. t = s\<lparr>plc_process := x\<rparr>"
  by (auto simp: call_stop_def call_start_generation_def on_process_def split: prod.splits)

lemma persist_insert_keys:
  "persist_insert E p u = (x, v) \<Longrightarrow> plc_process v = plc_process u
    \<and> dom (bm_get (plc_records u)) \<subseteq> dom (bm_get (plc_records v)) \<and> (x = Inr () \<longrightarrow> op_key p \<in> dom (bm_get (plc_records v)))"
  by (auto simp: persist_insert_def split: if_splits prod.splits sum.splits)

lemma clear_owned_process: "clear_owned E i s = (r, t) \<Longrightarrow> plc_process t = plc_process s"
  by (auto simp: clear_owned_def split: option.splits prod.splits sum.splits)

context mirrored_store
begin

lemma quiet_records:
  assumes "quiet held owners K L s" and "lc_store E = st"
  shows "persist_update E p s = (r, t) \<Longrightarrow> quiet held owners K L t"
    and "persist_ownership E w s = (r, t) \<Longrightarrow> quiet held owners K L t"
    and "clear_owned E i s = (r, t) \<Longrightarrow> quiet held owners K L t"
    and "begin_restart E p d s = (r', t) \<Longrightarrow> quiet held owners K L t"
proof -
  note s = assms(1) [unfolded quiet_def]
  show "persist_update E p s = (r, t) \<Longrightarrow> quiet held owners K L t"
    using s mirrors_update [OF _ assms(2)] launches_process [OF persist_update_process] unfolding quiet_def by blast
  show "persist_ownership E w s = (r, t) \<Longrightarrow> quiet held owners K L t"
    using s mirrors_own [OF _ assms(2)] launches_process [OF persist_ownership_process] unfolding quiet_def by metis
  show "clear_owned E i s = (r, t) \<Longrightarrow> quiet held owners K L t"
    using s mirrors_clear [OF _ assms(2)] launches_process [OF clear_owned_process] unfolding quiet_def by metis
  show "begin_restart E p d s = (r', t) \<Longrightarrow> quiet held owners K L t"
    using s mirrors_begin [OF _ assms(2), of s p d r' t] launches_process [of t s] unfolding quiet_def by blast
qed

lemma quiet_port:
  assumes "quiet held owners K L s"
  shows "observed (lc_recording E) s t \<Longrightarrow> quiet held owners K L t"
    and "call_stop (lc_recording E) h mode s = (r, t) \<Longrightarrow> quiet held owners K L t"
    and "gen_kind g = RestartReplacement \<Longrightarrow> call_start_generation (lc_recording E) g spec profile s = (r', t) \<Longrightarrow>
      quiet held owners K L t"
proof -
  show "observed (lc_recording E) s t \<Longrightarrow> quiet held owners K L t"
    using assms observed_only [of "lc_recording E" s t] launches_observed [of E s t] by (auto simp: quiet_def)
  show "call_stop (lc_recording E) h mode s = (r, t) \<Longrightarrow> quiet held owners K L t"
    using assms call_only_process(1) [of "lc_recording E" h mode s r t] launches_snoc [OF recording_stop, of E h mode s r t]
    by (auto simp: quiet_def launch_key_def)
  show "gen_kind g = RestartReplacement \<Longrightarrow> call_start_generation (lc_recording E) g spec profile s = (r', t) \<Longrightarrow>
      quiet held owners K L t"
    using assms call_only_process(2) [of "lc_recording E" g spec profile s r' t]
      launches_snoc [OF recording_start, of E g spec profile s r' t]
    by (auto simp: quiet_def launch_key_def)
qed

lemma quiet_logic:
  assumes "lc_store E = st"
  shows "lifecycle_replay (lc_recording E) (quiet held owners K L) (\<lambda>_. quiet held owners K L) (\<lambda>_ _. True)
    (\<lambda>g. gen_kind g = RestartReplacement)"
  by unfold_locales (auto intro: quiet_port quiet_records [where E = "lc_recording E"] simp: assms)

lemma quiet_work:
  assumes "lc_store E = st"
  shows "yields (quiet held owners K L) (finish_start (lc_recording E) p l profile Started) (\<lambda>_. quiet held owners K L)"
    and "yields (quiet held owners K L) (process_failure (lc_recording E) p fault) (\<lambda>_. quiet held owners K L)"
    and "yields (quiet held owners K L) (unknown_operation (lc_recording E) p proc fail) (\<lambda>_. quiet held owners K L)"
    and "(\<And>i. lop_action p \<noteq> LaunchNew i) \<Longrightarrow>
      yields (quiet held owners K L) (execute (lc_recording E) p) (\<lambda>_. quiet held owners K L)"
proof -
  note lg = quiet_logic [OF assms, THEN lifecycle_replay.axioms(1), of K L]
  note ctx = lifecycle_logic.ctx_def [OF lg] yields_def
  show "yields (quiet held owners K L) (finish_start (lc_recording E) p l profile Started) (\<lambda>_. quiet held owners K L)"
    using lifecycle_logic.finish_start [OF lg, of l UNIV Started p profile] by (simp add: ctx)
  show "yields (quiet held owners K L) (process_failure (lc_recording E) p fault) (\<lambda>_. quiet held owners K L)"
    using lifecycle_logic.process_failure [OF lg, of p UNIV fault] by (simp add: ctx)
  show "yields (quiet held owners K L) (unknown_operation (lc_recording E) p proc fail) (\<lambda>_. quiet held owners K L)"
    using lifecycle_logic.unknown [OF lg, of p UNIV proc fail] by (simp add: ctx)
  show "(\<And>i. lop_action p \<noteq> LaunchNew i) \<Longrightarrow>
      yields (quiet held owners K L) (execute (lc_recording E) p) (\<lambda>_. quiet held owners K L)"
    using lifecycle_logic.execute_other [OF lg, of p UNIV] by (simp add: ctx)
qed

lemma start_launch:
  assumes "lc_store E = st" and "quiet held owners K L s" and "gen_kind g = GenLaunchNew"
  shows "quiet held owners K (L @ [(gen_instance_id g, gen_operation_id g)]) (snd (start_process (lc_recording E) p g spec profile s))"
proof -
  obtain r u where u: "call_start_generation (lc_recording E) g spec profile s = (r, u)" by fastforce
  have "quiet held owners K (L @ [(gen_instance_id g, gen_operation_id g)]) u"
    using assms call_only_process(2) [OF u] launches_snoc [OF recording_start [OF u]] by (auto simp: quiet_def launch_key_def)
  then show ?thesis
    using u quiet_work(1,2) [OF assms(1), of K "L @ [(gen_instance_id g, gen_operation_id g)]"]
    by (auto simp: start_process_def and_use_def yields_def split: sum.split generation_start_error.split)
qed

lemma execute_launches:
  assumes "lc_store E = st" and "quiet held owners K L s"
  shows "\<exists>L'. quiet held owners K L' (snd (execute (lc_recording E) p s)) \<and> (L' = L \<or> L' = L @ [op_key p])"
proof (cases "\<exists>i. lop_action p = LaunchNew i")
  case False
  with assms show ?thesis using quiet_work(4) [OF assms(1), of p K L] by (auto simp: yields_def)
next
  case True
  then obtain i where i: "lop_action p = LaunchNew i" by blast
  let ?q = "set_state OpStarting None None p"
  obtain x u where u: "persist_update (lc_recording E) ?q s = (x, u)" by fastforce
  have qu: "quiet held owners K L u" using quiet_records(1) [OF assms(2) _ u] assms(1) by simp
  show ?thesis
  proof (cases "resolve_profile s i")
    case (Inl e)
    then show ?thesis using i assms(2) by (auto simp: execute_def execute_launch_def)
  next
    case (Inr profile)
    show ?thesis
    proof (cases x)
      case (Inl e)
      then show ?thesis using i Inr u qu by (auto simp: execute_def execute_launch_def Let_def and_try_def [of "persist_update _ _"])
    next
      case x: (Inr a)
      show ?thesis
      proof (cases "for_operation ?q profile GenLaunchNew")
        case None
        then show ?thesis using i Inr u x qu quiet_work(3) [OF assms(1), of K L ?q None None]
          by (auto simp: execute_def execute_launch_def Let_def and_try_def [of "persist_update _ _"] yields_def)
      next
        case (Some g)
        note g = for_operation_Some [OF Some]
        show ?thesis using i Inr u x Some start_launch [OF assms(1) qu g(1)] g(2,3)
          by (intro exI [of _ "L @ [op_key p]"]) (auto simp: execute_def execute_launch_def Let_def and_try_def [of "persist_update _ _"])
      qed
    qed
  qed
qed

lemma admit_launches:
  assumes "lc_store E = st" and "quiet held owners K L s"
    and "bm_get (plc_records s) (lrq_instance_id r, lrq_operation_id r) = None"
  shows "\<exists>K' L'. quiet held owners K' L' (snd (admit_operation (lc_recording E) r s)) \<and> K \<subseteq> K'
    \<and> (L' = L \<or> L' = L @ [(lrq_instance_id r, lrq_operation_id r)] \<and> (lrq_instance_id r, lrq_operation_id r) \<in> K')"
proof (cases "\<exists>n. validate_action s (lrq_instance_id r) (lrq_action r) = Inr () \<and>
    reserve_action s (lrq_instance_id r) (lrq_action r) = Inr () \<and> fst (issue_sequence s) = Inr n")
  case False
  have "quiet held owners K L (snd (issue_sequence s))"
    using assms(2) by (auto simp: issue_sequence_def quiet_def mirrors_def launches_def port_log_def split: option.split)
  with False assms(2) show ?thesis
    by (intro exI [of _ K] exI [of _ L]) (auto simp: admit_operation_def and_try_def split: sum.split prod.split)
next
  case True
  then obtain n u where n: "validate_action s (lrq_instance_id r) (lrq_action r) = Inr ()"
      "reserve_action s (lrq_instance_id r) (lrq_action r) = Inr ()" "issue_sequence s = (Inr n, u)"
    by (metis prod.collapse)
  let ?p = "(lifecycle_operation_new (lrq_operation_id r) (lrq_instance_id r) (lrq_lease r)
                  (lrq_authority_epoch r) (lrq_action r))\<lparr>lop_sequence := n\<rparr>"
  let ?k = "(lrq_instance_id r, lrq_operation_id r)"
  have key: "op_key ?p = ?k" by (simp add: lifecycle_operation_new_def)
  have u: "quiet held owners K L u"
    using assms(2) n(3) by (auto simp: issue_sequence_def quiet_def mirrors_def launches_def port_log_def split: option.splits)
  obtain x v where v: "persist_insert (lc_recording E) ?p u = (x, v)" by fastforce
  have mv: "mirrors held owners v" using mirrors_insert [OF _ _ v] u assms(1) by (simp add: quiet_def)
  have rec: "plc_process v = plc_process u \<and> dom (bm_get (plc_records u)) \<subseteq> dom (bm_get (plc_records v))
      \<and> (x = Inr () \<longrightarrow> ?k \<in> dom (bm_get (plc_records v)))"
    using persist_insert_keys [OF v] unfolding key .
  then have kv: "K \<subseteq> dom (bm_get (plc_records v))" using u unfolding quiet_def by blast
  show ?thesis
  proof (cases x)
    case (Inl e)
    have "quiet held owners K L v"
      using mv kv rec u launches_process [of v u] by (simp add: quiet_def)
    with n v Inl show ?thesis by (auto simp: admit_operation_def and_try_def Let_def)
  next
    case (Inr a)
    have qv: "quiet held owners (insert ?k K) L v"
      using mv kv rec u launches_process [of v u] Inr by (simp add: quiet_def)
    obtain y w where w: "(case lop_action ?p of LaunchNew i \<Rightarrow> reserve_ownership (lc_recording E) ?p i | _ \<Rightarrow> pure (Inr ())) v = (y, w)"
      by fastforce
    have qw: "quiet held owners (insert ?k K) L w"
      using w qv quiet_records(2) [OF qv, of "lc_recording E"] assms(1)
      by (auto simp: reserve_ownership_def split: lifecycle_action.splits if_splits)
    obtain L' where L': "quiet held owners (insert ?k K) L' (snd (execute (lc_recording E) ?p w))" "L' = L \<or> L' = L @ [?k]"
      using execute_launches [OF assms(1) qw, of ?p] key by auto
    have run: "admit_operation (lc_recording E) r s = (case y of Inl e \<Rightarrow> (Inl e, w) | Inr _ \<Rightarrow> execute (lc_recording E) ?p w)"
      using n v w Inr by (simp add: admit_operation_def and_try_def Let_def split: sum.split)
    show ?thesis
    proof (cases y)
      case (Inl e)
      with run qw show ?thesis by (intro exI [of _ "insert ?k K"] exI [of _ L]) auto
    next
      case (Inr b)
      with run L' show ?thesis by (intro exI [of _ "insert ?k K"] exI [of _ L']) auto
    qed
  qed
qed

end

lemma authenticate_only: "authenticate E i tok epoch s = (r, t) \<Longrightarrow> \<exists>c f. t = s\<lparr>plc_clock := c, plc_fence := f\<rparr>"
proof -
  have "\<exists>c f. s = s\<lparr>plc_clock := c, plc_fence := f\<rparr>" by (intro exI [of _ "plc_clock s"] exI [of _ "plc_fence s"]) simp
  then show "authenticate E i tok epoch s = (r, t) \<Longrightarrow> \<exists>c f. t = s\<lparr>plc_clock := c, plc_fence := f\<rparr>"
    by (auto simp: authenticate_def Let_def split: option.splits prod.splits sum.splits)
qed

lemma quiet_clock [simp]: "quiet held owners K L (s\<lparr>plc_clock := c, plc_fence := f\<rparr>) = quiet held owners K L s"
  by (simp add: quiet_def mirrors_def launches_def port_log_def)

context mirrored_store
begin

lemma apply_launches:
  assumes "lc_store E = st" and "quiet held owners K L s" and "apply_request (lc_recording E) r s = (res, t)"
  shows "\<exists>K' L'. quiet held owners K' L' t \<and> K \<subseteq> K' \<and> (L' = L \<or> L' = L @ [(lrq_instance_id r, lrq_operation_id r)]
      \<and> (lrq_instance_id r, lrq_operation_id r) \<in> K' \<and> (lrq_instance_id r, lrq_operation_id r) \<notin> dom (bm_get (plc_records s)))"
  using assms(3) [unfolded apply_request_def]
proof (cases rule: and_try_cases)
  case (1 e)
  with authenticate_only [OF 1(1)] assms(2) show ?thesis by (intro exI [of _ K] exI [of _ L]) auto
next
  case (2 a u)
  obtain c f where u: "u = s\<lparr>plc_clock := c, plc_fence := f\<rparr>" using authenticate_only [OF 2(1)] by blast
  with assms(2) have qu: "quiet held owners K L u" by simp
  show ?thesis
  proof (cases "bm_get (plc_records u) (lrq_instance_id r, lrq_operation_id r)")
    case None
    with 2(2) have "t = snd (admit_operation (lc_recording E) r u)" by simp
    with admit_launches [OF assms(1) qu None] None u show ?thesis by auto
  next
    case (Some p)
    then have "op_key p = (lrq_instance_id r, lrq_operation_id r)" using qu by (simp add: quiet_def mirrors_def)
    with lifecycle_replay.replay [OF quiet_logic [OF assms(1)] qu, of p] Some 2(2) qu show ?thesis
      by (auto split: if_splits)
  qed
qed

lemma reconcile_launches:
  assumes "lc_store E = st" and "quiet held owners K L s" and "reconcile_operation (lc_recording E) tok epoch oid s = (res, t)"
  shows "quiet held owners K L t"
  using assms(3) [unfolded reconcile_operation_def]
proof (cases rule: and_try_cases)
  case (1 e)
  with authenticate_only [OF 1(1)] assms(2) show ?thesis by auto
next
  case (2 a u)
  obtain c f where u: "u = s\<lparr>plc_clock := c, plc_fence := f\<rparr>" using authenticate_only [OF 2(1)] by blast
  with assms(2) have qu: "quiet held owners K L u" by simp
  show ?thesis
  proof (cases "bm_get (plc_records u) (proof_instance_id tok, oid)")
    case None
    with 2(2) qu show ?thesis by simp
  next
    case (Some p)
    then have "op_key p = (proof_instance_id tok, oid)" using qu by (simp add: quiet_def mirrors_def)
    with lifecycle_replay.reconcile_record [OF quiet_logic [OF assms(1)] qu, of p] Some 2(2) qu show ?thesis
      by (auto split: if_splits)
  qed
qed

end

end
