(* ===== verification/Process_Lifecycle_Steps.thy ===== *)
theory Process_Lifecycle_Steps
  imports Process_Lifecycle_Safety
begin

text \<open>
  Runs of a lifecycle coordinator: start-up from the store gives back the records and ownership
  rows the store holds, and the step relation \<open>lc_step\<close> interleaves requests, reconciliations,
  lease bindings, the passing of time and gateway restarts.
\<close>

section \<open>Start-up\<close>

lemma get_fold_insert:
  assumes "distinct (map key xs)"
  shows "bm_get (fold (\<lambda>v. bm_insert (key v) v) xs m) k = (case map_of (map (\<lambda>v. (key v, v)) xs) k of
     None \<Rightarrow> bm_get m k | Some v \<Rightarrow> Some v)"
  using assms
  by (induction xs arbitrary: m) (auto split: option.splits dest!: map_of_SomeD)

definition keyed :: "('v \<Rightarrow> 'k::linorder) \<Rightarrow> ('k, 'v) bmap \<Rightarrow> bool" where
  "keyed key m \<longleftrightarrow> (\<forall>k v. bm_get m k = Some v \<longrightarrow> key v = k)"

lemma fold_insert_values:
  assumes "keyed key m"
  shows "fold (\<lambda>v. bm_insert (key v) v) (bm_values m) bm_empty = m"
proof (rule bm.ext)
  fix k
  have e: "map (\<lambda>v. (key v, v)) (bm_values m) = bm_entries m"
    using assms by (auto simp: bm_values_def keyed_def bm.entries_get intro!: map_idI)
  have "map key (bm_values m) = map fst (map (\<lambda>v. (key v, v)) (bm_values m))" by simp
  also have "\<dots> = bm_keys m" by (simp only: e bm_keys_def)
  finally have d: "distinct (map key (bm_values m))" by simp
  show "bm_get (fold (\<lambda>v. bm_insert (key v) v) (bm_values m) bm_empty) k = bm_get m k"
    by (simp only: get_fold_insert [OF d] e bm_get_map_of [symmetric]) (simp split: option.split)
qed

lemma load_operations_records:
  "snd (snd (load_operations ps acc)) = fold (\<lambda>p. bm_insert (op_key p) p) ps (snd (snd acc))"
  by (induction ps acc rule: load_operations.induct) auto

lemma load_ownership_fold: "load_ownership ws acc = fold (\<lambda>w. bm_insert (own_instance_id w) w) ws acc"
  by (induction ws acc rule: load_ownership.induct) auto

text \<open>What no part of start-up changes, beyond the ownership rows and their mirror.\<close>

definition bootstrapped :: "('c, 'p, 's, 'f) process_lifecycle \<Rightarrow> ('c, 'p, 's, 'f) process_lifecycle \<Rightarrow> bool" where
  "bootstrapped s t \<longleftrightarrow> plc_records t = plc_records s \<and> plc_process t = plc_process s \<and> plc_authority t = plc_authority s
     \<and> plc_leases t = plc_leases s \<and> plc_config t = plc_config s \<and> plc_profiles t = plc_profiles s
     \<and> plc_next_sequence s \<le> plc_next_sequence t"

lemma bootstrapped_trans: "bootstrapped s t \<Longrightarrow> bootstrapped t u \<Longrightarrow> bootstrapped s u"
  by (auto simp: bootstrapped_def)

lemma bootstrapped_refl [simp]: "bootstrapped s s"
  by (simp add: bootstrapped_def)

text \<open>The coordinator as \<open>new\<close> builds it from the rows the store holds.\<close>

definition loaded :: "('s \<Rightarrow> (record_key, lifecycle_operation) bmap) \<Rightarrow> ('s \<Rightarrow> (instance_id, lifecycle_ownership) bmap)
    \<Rightarrow> process_lifecycle_config \<Rightarrow> approved_launch_profiles \<Rightarrow> 'c \<Rightarrow> 'p \<Rightarrow> 's \<Rightarrow> 'f \<Rightarrow> ('c, 'p, 's, 'f) process_lifecycle" where
  "loaded held owners config profiles c p st f =
     \<lparr>plc_config = config, plc_profiles = profiles, plc_clock = c, plc_process = p, plc_store = st, plc_fence = f,
       plc_leases = bm_empty, plc_authority = fst (load_operations (bm_values (held st)) (bm_empty, 0, bm_empty)),
       plc_records = held st, plc_ownership = owners st, plc_owned = bm_empty,
       plc_next_sequence = fst (snd (load_operations (bm_values (held st)) (bm_empty, 0, bm_empty)))\<rparr>"

context mirrored_store
begin

lemma clear_stale_mirrors:
  assumes "clear_stale_owners E ws s = (r, t)" and "mirrors held owners s" and "lc_store E = st"
  shows "mirrors held owners t \<and> bootstrapped s t"
  using assms
proof (induction ws arbitrary: s)
  case (Cons w ws)
  obtain x u where x: "store_clear_ownership_if st w (plc_store s) = (x, u)" by fastforce
  let ?s1 = "s\<lparr>plc_store := u, plc_ownership := bm_remove (own_instance_id w) (plc_ownership s),
          plc_owned := bm_remove (own_instance_id w) (plc_owned s)\<rparr>"
  show ?case
  proof (cases x)
    case (Inl e)
    with Cons.prems x clear_err [of w "plc_store s" e u] show ?thesis by (auto simp: mirrors_def bootstrapped_def)
  next
    case (Inr a)
    with Cons.prems x have rest: "clear_stale_owners E ws ?s1 = (r, t)" by simp
    have "mirrors held owners ?s1" using Cons.prems(2) x Inr clear_ok [of w "plc_store s" u] by (simp add: mirrors_def)
    from Cons.IH [OF rest this Cons.prems(3)] show ?thesis by (auto simp: bootstrapped_def)
  qed
qed simp

lemma persist_ownership_bootstrapped: "persist_ownership E w s = (r, t) \<Longrightarrow> bootstrapped s t"
  by (auto simp: persist_ownership_def bootstrapped_def split: prod.splits sum.splits)

lemma persist_candidates_mirrors:
  assumes "persist_candidates E ws s = (r, t)" and "mirrors held owners s" and "lc_store E = st"
  shows "mirrors held owners t \<and> bootstrapped s t"
  using assms
proof (induction ws arbitrary: s)
  case (Cons w ws)
  from Cons.prems(1) [unfolded persist_candidates.simps] show ?case
  proof (cases rule: and_try_cases)
    case (1 e)
    with mirrors_own(1) [OF Cons.prems(2,3) 1(1)] persist_ownership_bootstrapped [OF 1(1)] show ?thesis by simp
  next
    case (2 a u)
    have "mirrors held owners u" using mirrors_own(1) [OF Cons.prems(2,3) 2(1)] .
    from Cons.IH [OF 2(2) this Cons.prems(3)] persist_ownership_bootstrapped [OF 2(1)] show ?thesis
      by (auto intro: bootstrapped_trans)
  qed
qed simp

lemma fold_max_ge: "(n::u64) \<le> fold (\<lambda>w. max (f w)) ws n"
  by (induction ws arbitrary: n) (auto intro: order_trans [OF max.cobounded2])

lemma bootstrap_mirrors:
  assumes "bootstrap_ownership E s = (r, t)" and "mirrors held owners s" and "lc_store E = st"
  shows "mirrors held owners t \<and> bootstrapped s t"
proof -
  let ?s1 = "s\<lparr>plc_next_sequence := fold (\<lambda>w. max (own_sequence w)) (bm_values (plc_ownership s)) (plc_next_sequence s)\<rparr>"
  have s1: "mirrors held owners ?s1" "bootstrapped s ?s1"
    using assms(2) by (simp_all add: mirrors_def bootstrapped_def fold_max_ge)
  consider "t = s" | "t = ?s1"
    | "and_try (clear_stale_owners E (filter (stale_owner ?s1) (bm_values (plc_ownership s)))) (\<lambda>_ s2.
          let s3 = s2\<lparr>plc_owned := mirror_owned (bm_values (plc_ownership s2)) (plc_owned s2)\<rparr> in
          persist_candidates E (List.map_filter (ownership_candidate s3) (record_instances s3)) s3) ?s1 = (r, t)"
    using assms(1) by (auto simp: bootstrap_ownership_def Let_def split: if_splits)
  then show ?thesis
  proof cases
    case 3
    then show ?thesis
    proof (cases rule: and_try_cases)
      case (1 e)
      from clear_stale_mirrors [OF 1(1) s1(1) assms(3)] s1(2) show ?thesis by (auto intro: bootstrapped_trans)
    next
      case (2 a u)
      let ?s3 = "u\<lparr>plc_owned := mirror_owned (bm_values (plc_ownership u)) (plc_owned u)\<rparr>"
      have u: "mirrors held owners u" "bootstrapped ?s1 u" using clear_stale_mirrors [OF 2(1) s1(1) assms(3)] by simp_all
      then have "mirrors held owners ?s3" "bootstrapped u ?s3" by (simp_all add: mirrors_def bootstrapped_def)
      with persist_candidates_mirrors [OF 2(2) [unfolded Let_def] _ assms(3)] u s1(2) show ?thesis
        by (blast intro: bootstrapped_trans)
    qed
  qed (use s1 assms(2) in simp_all)
qed

text \<open>A new coordinator holds what its store held.\<close>

lemma lifecycle_new_cases:
  assumes "lifecycle_new E config profiles c p s0 f = (x, s1)" and "lc_store E = st"
    and "keyed op_key (held s0)" and "keyed own_instance_id (owners s0)"
  obtains (refused) e where "x = Inl e" "s1 = s0"
  | (booted) r t where "bm_size (held s0) \<le> plc_max_records config"
      "bootstrap_ownership E (loaded held owners config profiles c p s0 f) = (r, t)"
      "x = (case r of Inl e \<Rightarrow> Inl e | Inr _ \<Rightarrow> Inr t)" "s1 = plc_store t"
proof -
  obtain authority n records where load: "load_operations (bm_values (held s0)) (bm_empty, 0, bm_empty) = (authority, n, records)"
    by (rule prod_cases3)
  have records: "records = held s0"
    using load load_operations_records [of "bm_values (held s0)" "(bm_empty, 0, bm_empty)"] fold_insert_values [OF assms(3)]
    by simp
  have rows: "load_ownership (bm_values (owners s0)) bm_empty = owners s0"
    using fold_insert_values [OF assms(4)] by (simp add: load_ownership_fold)
  obtain r t where boot: "bootstrap_ownership E (loaded held owners config profiles c p s0 f) = (r, t)" by fastforce
  show thesis
  proof (cases "plc_max_processes config = 0 \<or> plc_max_records config = 0 \<or> cat_capacity profiles = 0
      \<or> \<not> bm_size (held s0) \<le> plc_max_records config")
    case True
    with assms(1,2) have "\<exists>e. x = Inl e \<and> s1 = s0"
      by (auto simp: lifecycle_new_def count_ok map_err_def and_then_def ensure_def split: if_splits)
    then show thesis using refused by blast
  next
    case False
    then have "lifecycle_new E config profiles c p s0 f = (case r of Inl e \<Rightarrow> (Inl e, plc_store t) | Inr _ \<Rightarrow> (Inr t, plc_store t))"
      using assms(2) load records rows boot
      by (simp add: lifecycle_new_def list_ok count_ok list_ownership_ok map_err_def and_then_def ensure_def loaded_def)
    with False boot assms(1) show thesis by (intro booted) (auto split: sum.splits)
  qed
qed

lemma loaded_mirrors:
  "keyed op_key (held s0) \<Longrightarrow> keyed own_instance_id (owners s0) \<Longrightarrow>
     mirrors held owners (loaded held owners config profiles c p s0 f)"
  by (simp add: mirrors_def keyed_def loaded_def)

lemma lifecycle_new_mirrors:
  assumes "lifecycle_new E config profiles c p s0 f = (x, s1)" and "lc_store E = st"
    and "keyed op_key (held s0)" and "keyed own_instance_id (owners s0)"
  shows "held s1 = held s0" and "keyed own_instance_id (owners s1)"
    and "x = Inr t \<Longrightarrow> mirrors held owners t \<and> bootstrapped (loaded held owners config profiles c p s0 f) t"
proof -
  have all: "held s1 = held s0 \<and> keyed own_instance_id (owners s1) \<and>
      (\<forall>t. x = Inr t \<longrightarrow> mirrors held owners t \<and> bootstrapped (loaded held owners config profiles c p s0 f) t)"
    using assms
  proof (cases rule: lifecycle_new_cases)
    case refused
    with assms(4) show ?thesis by simp
  next
    case (booted r t)
    from bootstrap_mirrors [OF booted(2) loaded_mirrors [OF assms(3,4)] assms(2)] booted(3,4) show ?thesis
      by (auto simp: bootstrapped_def mirrors_def keyed_def loaded_def split: sum.splits)
  qed
  then show "held s1 = held s0" and "keyed own_instance_id (owners s1)"
    and "x = Inr t \<Longrightarrow> mirrors held owners t \<and> bootstrapped (loaded held owners config profiles c p s0 f) t"
    by simp_all
qed

end

section \<open>Steps\<close>

text \<open>
  A step of the system: a request, a reconciliation, a lease binding, a change of the world outside
  (time, the lease decision's state, the processes, but not the log of what the port was asked), or a
  restart from the store, possibly after starts that failed half-way.
\<close>

inductive failed_starts :: "('c, 'p, 's, 'f) lifecycle_env \<Rightarrow> 's \<Rightarrow> 's \<Rightarrow> bool" for E st where
  none: "failed_starts E st st"
| fails: "failed_starts E st u \<Longrightarrow> lifecycle_new E config profiles c p u f = (Inl e, v) \<Longrightarrow> failed_starts E st v"

inductive lc_step :: "('c, 'p, 's, 'f) lifecycle_env \<Rightarrow> ('c, 'p \<times> port_event list, 's, 'f) process_lifecycle
    \<Rightarrow> ('c, 'p \<times> port_event list, 's, 'f) process_lifecycle \<Rightarrow> bool"
  for E where
  applies: "apply_request (lc_recording E) r s = (res, t) \<Longrightarrow> lc_step E s t"
| reconciles: "reconcile_operation (lc_recording E) tok epoch oid s = (res, t) \<Longrightarrow> lc_step E s t"
| binds: "bind_lease l s = (res, t) \<Longrightarrow> lc_step E s t"
| passes: "lc_step E s (s\<lparr>plc_clock := c, plc_fence := f, plc_process := (p, port_log s)\<rparr>)"
| reboots: "failed_starts (lc_recording E) (plc_store s) st \<Longrightarrow>
    lifecycle_new (lc_recording E) config profiles c (p, port_log s) st f = (Inr t, st') \<Longrightarrow> lc_step E s t"

inductive_cases lc_stepE: "lc_step E s t"

lemma mirrors_keyed: "mirrors held owners s \<Longrightarrow> keyed op_key (held (plc_store s))"
  by (auto simp: mirrors_def keyed_def)

lemma bind_lease_only:
  "bind_lease l s = (r, t) \<Longrightarrow> plc_records t = plc_records s \<and> plc_ownership t = plc_ownership s \<and> plc_store t = plc_store s
     \<and> plc_process t = plc_process s \<and> plc_config t = plc_config s \<and> plc_next_sequence t = plc_next_sequence s"
  by (auto simp: bind_lease_def Let_def split: if_splits)

lemma mirrors_keyed_rows: "mirrors held owners s \<Longrightarrow> keyed own_instance_id (owners (plc_store s))"
  by (auto simp: mirrors_def keyed_def)

lemma failed_starts_hold:
  assumes "failed_starts E s0 s1" and "mirrored_store (lc_store E) held owners"
    and "keyed op_key (held s0)" and "keyed own_instance_id (owners s0)"
  shows "held s1 = held s0 \<and> keyed own_instance_id (owners s1)"
  using assms(1)
proof induction
  case none
  show ?case using assms(4) by simp
next
  case (fails u config profiles c p f e v)
  then show ?case using mirrored_store.lifecycle_new_mirrors(1,2) [OF assms(2) fails(2) refl] assms(3) by simp
qed

definition lc_system_ok :: "('s \<Rightarrow> (record_key, lifecycle_operation) bmap) \<Rightarrow> ('s \<Rightarrow> (instance_id, lifecycle_ownership) bmap)
    \<Rightarrow> ('c, 'p, 's, 'f) lifecycle_env \<Rightarrow> ('c, 'p \<times> port_event list, 's, 'f) process_lifecycle \<Rightarrow> bool" where
  "lc_system_ok held owners E s \<longleftrightarrow> mirrored_store (lc_store E) held owners \<and> mirrors held owners s"

lemma lc_step_launches:
  assumes "lc_step E s t" and "lc_system_ok held owners E s"
  shows "lc_system_ok held owners E t \<and> dom (bm_get (plc_records s)) \<subseteq> dom (bm_get (plc_records t))
    \<and> (launches t = launches s \<or> (\<exists>k. launches t = launches s @ [k] \<and> k \<notin> dom (bm_get (plc_records s))
         \<and> k \<in> dom (bm_get (plc_records t))))"
proof -
  have ms: "mirrored_store (lc_store E) held owners" and m: "mirrors held owners s"
    using assms(2) by (simp_all add: lc_system_ok_def)
  let ?K = "dom (bm_get (plc_records s))"
  have q: "quiet held owners ?K (launches s) s" using m by (simp add: quiet_def)
  from assms(1) show ?thesis
  proof cases
    case (applies r res)
    from mirrored_store.apply_launches [OF ms refl q applies] obtain K' L' where
      "quiet held owners K' L' t" "?K \<subseteq> K'" "L' = launches s \<or> L' = launches s @ [(lrq_instance_id r, lrq_operation_id r)]
      \<and> (lrq_instance_id r, lrq_operation_id r) \<in> K' \<and> (lrq_instance_id r, lrq_operation_id r) \<notin> ?K" by blast
    then show ?thesis using ms unfolding quiet_def lc_system_ok_def by blast
  next
    case (reconciles tok epoch oid res)
    from mirrored_store.reconcile_launches [OF ms refl q reconciles] ms show ?thesis
      by (simp add: quiet_def lc_system_ok_def)
  next
    case (binds l res)
    from bind_lease_only [OF this] m ms show ?thesis
      by (simp add: lc_system_ok_def mirrors_def launches_def port_log_def)
  next
    case (passes c f p)
    with m ms show ?thesis by (simp add: lc_system_ok_def mirrors_def launches_def port_log_def)
  next
    case (reboots st config profiles c p f st')
    have ms': "mirrored_store (lc_store (lc_recording E)) held owners" using ms by simp
    from failed_starts_hold [OF reboots(1) ms' mirrors_keyed [OF m] mirrors_keyed_rows [OF m]]
    have "held st = held (plc_store s)" "keyed own_instance_id (owners st)" by simp_all
    with mirrored_store.lifecycle_new_mirrors(3) [OF ms' reboots(2) refl] mirrors_keyed [OF m] m ms show ?thesis
      by (simp add: lc_system_ok_def mirrors_def launches_def port_log_def bootstrapped_def loaded_def)
  qed
qed

interpretation lc_dispatch: at_most_once "lc_step E" "lc_system_ok held owners E" launches
  "\<lambda>s. dom (bm_get (plc_records s))" for held owners E
  by unfold_locales (use lc_step_launches in blast)+

end
