(* ===== verification/Process_Lifecycle_Service.thy ===== *)
theory Process_Lifecycle_Service
  imports Process_Lifecycle_Steps
begin

text \<open>
  The logic of the coordinator carried through its two entry points, \<open>apply_request\<close> and
  \<open>reconcile_operation\<close>: the locale \<open>lifecycle_service\<close> adds what an admission must establish. Its
  first instance are the authority epochs: the epoch the coordinator accepts is the one its records
  name, so a restart neither loses a rotation nor revives an epoch that was rotated away.
\<close>

section \<open>Entry points\<close>

definition admitted :: "lifecycle_request \<Rightarrow> u64 \<Rightarrow> lifecycle_operation" where
  "admitted r n = (lifecycle_operation_new (lrq_operation_id r) (lrq_instance_id r) (lrq_lease r)
     (lrq_authority_epoch r) (lrq_action r))\<lparr>lop_sequence := n\<rparr>"

lemma admitted_simps [simp]:
  "lop_operation_id (admitted r n) = lrq_operation_id r" "lop_instance_id (admitted r n) = lrq_instance_id r"
  "lop_lease (admitted r n) = lrq_lease r" "lop_sequence (admitted r n) = n"
  "lop_request_epoch (admitted r n) = lrq_authority_epoch r" "lop_authority_epoch (admitted r n) = lrq_authority_epoch r"
  "lop_action (admitted r n) = lrq_action r" "lop_state (admitted r n) = IntentRecorded"
  "lop_process (admitted r n) = None" "lop_failure (admitted r n) = None"
  by (simp_all add: admitted_def lifecycle_operation_new_def)

text \<open>The requests \<open>admit_operation\<close> gives a sequence number.\<close>

definition admissible :: "lifecycle_request \<Rightarrow> ('c, 'p, 's, 'f) process_lifecycle \<Rightarrow> bool" where
  "admissible r s \<longleftrightarrow> current_authority_epoch s (lrq_instance_id r) = lrq_authority_epoch r
     \<and> bm_get (plc_records s) (lrq_instance_id r, lrq_operation_id r) = None
     \<and> validate_action s (lrq_instance_id r) (lrq_action r) = Inr ()
     \<and> reserve_action s (lrq_instance_id r) (lrq_action r) = Inr ()"

lemma authenticate_Inr:
  "authenticate E i tok epoch s = (Inr (), t) \<Longrightarrow> current_authority_epoch t i = epoch"
  by (auto simp: authenticate_def Let_def split: option.splits prod.splits sum.splits if_splits)

locale lifecycle_service = lifecycle_replay +
  assumes S_all: "S g"
    and I_keyed: "I s \<Longrightarrow> keyed op_key (plc_records s)"
    and I_clock: "I s \<Longrightarrow> I (s\<lparr>plc_clock := c, plc_fence := f\<rparr>)"
    and I_sequence: "I s \<Longrightarrow> issue_sequence s = (r1, t) \<Longrightarrow> I t"
    and admit_C: "I s \<Longrightarrow> admissible r s \<Longrightarrow> issue_sequence s = (Inr n, u) \<Longrightarrow>
      persist_insert E (admitted r n) u = (Inr (), t) \<Longrightarrow> C (admitted r n) t"
    and admit_I: "I s \<Longrightarrow> persist_insert E (admitted r n) s = (Inl e, t) \<Longrightarrow> I t"
begin

lemma execute: "ctx p H s \<Longrightarrow> I (snd (execute E p s))"
  using execute_other [of p H] execute_launch [of p H] S_all
  by (cases "lop_action p") (auto simp: execute_def yields_def)

lemma admit_operation:
  assumes "I s" and "current_authority_epoch s (lrq_instance_id r) = lrq_authority_epoch r"
    and "bm_get (plc_records s) (lrq_instance_id r, lrq_operation_id r) = None"
    and "admit_operation E r s = (res, t)"
  shows "I t"
proof (cases "admissible r s")
  case False
  with assms show ?thesis by (auto simp: admit_operation_def admissible_def and_try_def split: sum.splits)
next
  case True
  obtain x u where u: "issue_sequence s = (x, u)" by fastforce
  show ?thesis
  proof (cases x)
    case (Inl e)
    with assms True u I_sequence [OF assms(1) u] show ?thesis
      by (auto simp: admit_operation_def admissible_def and_try_def)
  next
    case (Inr n)
    obtain y v where v: "persist_insert E (admitted r n) u = (y, v)" by fastforce
    note run = assms(4) [unfolded admit_operation_def, folded admitted_def]
    show ?thesis
    proof (cases y)
      case (Inl e)
      with run True u v \<open>x = Inr n\<close> admit_I [OF I_sequence [OF assms(1) u]] show ?thesis
        by (auto simp: admissible_def and_try_def Let_def)
    next
      case y: (Inr b)
      have Cv: "ctx (admitted r n) {} v" using admit_C [OF assms(1) True] u v Inr y by (simp add: ctx_def)
      have tail: "and_try (case lop_action (admitted r n) of LaunchNew i \<Rightarrow> reserve_ownership E (admitted r n) i
            | _ \<Rightarrow> pure (Inr ())) (\<lambda>_. execute E (admitted r n)) v = (res, t)"
        using run True u v Inr y by (simp add: admissible_def and_try_def Let_def)
      from tail show ?thesis
      proof (cases rule: and_try_cases)
        case (1 e)
        with Cv show ?thesis
          using tripleD_Inl [OF triple_reserve [of "admitted r n" "admitted r n" "{}"] Cv]
          by (auto simp del: admitted_simps split: lifecycle_action.splits)
      next
        case (2 a w)
        have "ctx (admitted r n) {} w"
          using 2(1) Cv tripleD_Inr [OF triple_reserve [of "admitted r n" "admitted r n" "{}"] Cv]
          by (auto simp del: admitted_simps split: lifecycle_action.splits)
        from execute [OF this] 2(2) show ?thesis by simp
      qed
    qed
  qed
qed

lemma apply_request:
  assumes "I s" and "apply_request E r s = (res, t)"
  shows "I t"
  using assms(2) [unfolded apply_request_def]
proof (cases rule: and_try_cases)
  case (1 e)
  with authenticate_only [OF 1(1)] assms(1) show ?thesis by (auto intro: I_clock)
next
  case (2 a u)
  have u: "I u" using authenticate_only [OF 2(1)] assms(1) by (auto intro: I_clock)
  show ?thesis
  proof (cases "bm_get (plc_records u) (lrq_instance_id r, lrq_operation_id r)")
    case None
    have "current_authority_epoch u (lrq_instance_id r) = lrq_authority_epoch r" using 2(1) by (intro authenticate_Inr) simp
    from admit_operation [OF u this None] None 2(2) show ?thesis by simp
  next
    case (Some p)
    then have "op_key p = (lrq_instance_id r, lrq_operation_id r)" using I_keyed [OF u] by (simp add: keyed_def)
    with replay [OF u, of p] Some 2(2) u show ?thesis by (auto split: if_splits)
  qed
qed

lemma reconcile_operation:
  assumes "I s" and "reconcile_operation E tok epoch oid s = (res, t)"
  shows "I t"
  using assms(2) [unfolded reconcile_operation_def]
proof (cases rule: and_try_cases)
  case (1 e)
  with authenticate_only [OF 1(1)] assms(1) show ?thesis by (auto intro: I_clock)
next
  case (2 a u)
  have u: "I u" using authenticate_only [OF 2(1)] assms(1) by (auto intro: I_clock)
  show ?thesis
  proof (cases "bm_get (plc_records u) (proof_instance_id tok, oid)")
    case None
    with 2(2) u show ?thesis by simp
  next
    case (Some p)
    then have "op_key p = (proof_instance_id tok, oid)" using I_keyed [OF u] by (simp add: keyed_def)
    with reconcile_record [OF u, of p] Some 2(2) u show ?thesis by (auto split: if_splits)
  qed
qed

end

section \<open>Authority epochs\<close>

definition epochs_of :: "(record_key, lifecycle_operation) bmap \<Rightarrow> instance_id \<Rightarrow> authority_epoch list" where
  "epochs_of m i = map lop_authority_epoch (filter (\<lambda>p. lop_instance_id p = i) (bm_values m))"

definition recorded_epoch :: "(record_key, lifecycle_operation) bmap \<Rightarrow> instance_id \<Rightarrow> authority_epoch" where
  "recorded_epoch m i = (if epochs_of m i = [] then 1 else fold max (epochs_of m i) 0)"

lemma fold_max_Max: "fold max xs (n::'a::linorder) = Max (insert n (set xs))"
proof -
  have "max b a = (if b \<le> a then a else b)" for a b :: 'a by (simp add: max_def)
  show ?thesis
  proof (induction xs arbitrary: n)
    case (Cons x xs)
    have "Max (insert (max x n) (set xs)) = Max (insert n (insert x (set xs)))"
      by (cases "set xs = {}") (simp_all add: max.commute max.left_commute)
    with Cons show ?case by simp
  qed simp
qed

lemma Max_insert_replace:
  assumes "finite A" and "(a::'a::linorder) \<le> b"
  shows "Max (insert b A) = max (Max (insert a A)) b"
proof -
  have "max (max a m) b = max b m" for m using assms(2) by (auto simp: max_def)
  moreover have "max a b = b" using assms(2) by (simp add: max_def)
  ultimately show ?thesis using assms(1) by (cases "A = {}") simp_all
qed

lemma set_epochs_of: "keyed op_key m \<Longrightarrow> set (epochs_of m i) = {lop_authority_epoch p |oid p. bm_get m (i, oid) = Some p}"
  by (force simp: epochs_of_def set_bm_values keyed_def)

lemma recorded_epoch_Max:
  "recorded_epoch m i = (if set (epochs_of m i) = {} then 1 else Max (set (epochs_of m i)))"
  by (auto simp: recorded_epoch_def fold_max_Max)

lemma recorded_epoch_ge:
  assumes "keyed op_key m" and "bm_get m (i, oid) = Some p"
  shows "lop_authority_epoch p \<le> recorded_epoch m i"
proof -
  have "lop_authority_epoch p \<in> set (epochs_of m i)" using assms by (auto simp: set_epochs_of)
  then show ?thesis by (auto simp: recorded_epoch_Max)
qed

text \<open>A record replaced by one with an epoch at least as large, and a new record.\<close>

lemma epochs_insert:
  assumes "keyed op_key m"
  shows "set (epochs_of (bm_insert (op_key p) p m) i) =
     (if i = lop_instance_id p then insert (lop_authority_epoch p)
        {lop_authority_epoch q |oid q. bm_get m (i, oid) = Some q \<and> oid \<noteq> lop_operation_id p}
      else set (epochs_of m i))"
proof -
  have "keyed op_key (bm_insert (op_key p) p m)" using assms by (auto simp: keyed_def)
  then show ?thesis using assms by (auto simp: set_epochs_of)
qed

lemma recorded_epoch_update:
  assumes "keyed op_key m" and "bm_get m (op_key p) = Some p0" and "lop_authority_epoch p0 \<le> lop_authority_epoch p"
  shows "recorded_epoch (bm_insert (op_key p) p m) i =
    (if i = lop_instance_id p then max (recorded_epoch m i) (lop_authority_epoch p) else recorded_epoch m i)"
proof (cases "i = lop_instance_id p")
  case True
  let ?A = "{lop_authority_epoch q |oid q. bm_get m (i, oid) = Some q \<and> oid \<noteq> lop_operation_id p}"
  have old: "set (epochs_of m i) = insert (lop_authority_epoch p0) ?A"
    using assms(2) True by (auto simp: set_epochs_of [OF assms(1)]) (metis option.inject)
  have "?A \<subseteq> set (epochs_of m i)" unfolding old by (rule subset_insertI)
  then have fin: "finite ?A" by (rule finite_subset) simp
  have "Max (insert (lop_authority_epoch p) ?A) = max (Max (insert (lop_authority_epoch p0) ?A)) (lop_authority_epoch p)"
    using fin assms(3) by (rule Max_insert_replace)
  with True old epochs_insert [OF assms(1), of p i] show ?thesis by (simp add: recorded_epoch_Max)
next
  case False
  with epochs_insert [OF assms(1), of p i] show ?thesis by (simp add: recorded_epoch_Max)
qed

lemma recorded_epoch_fresh:
  assumes "keyed op_key m" and "bm_get m (op_key p) = None" and "lop_authority_epoch p = recorded_epoch m (lop_instance_id p)"
  shows "recorded_epoch (bm_insert (op_key p) p m) i = recorded_epoch m i"
proof (cases "i = lop_instance_id p")
  case True
  have "{lop_authority_epoch q |oid q. bm_get m (i, oid) = Some q \<and> oid \<noteq> lop_operation_id p} = set (epochs_of m i)"
    using assms(2) True by (auto simp: set_epochs_of [OF assms(1)]) (metis option.distinct(1))
  with True epochs_insert [OF assms(1), of p i] assms(3) show ?thesis
    by (cases "set (epochs_of m i) = {}") (auto simp: recorded_epoch_Max)
next
  case False
  with epochs_insert [OF assms(1), of p i] show ?thesis by (simp add: recorded_epoch_Max)
qed

text \<open>
  The invariant of the authority epochs, from a level \<open>L\<close> of one instance's epoch on, and what holds
  while an operation is worked on: its record exists, and its epoch lies between the recorded one and
  the current one.
\<close>

definition authority_ok :: "('c, 'p, 's, 'f) process_lifecycle \<Rightarrow> bool" where
  "authority_ok s \<longleftrightarrow> keyed op_key (plc_records s)
     \<and> (\<forall>i. current_authority_epoch s i = recorded_epoch (plc_records s) i)"

definition authority_from :: "instance_id \<Rightarrow> authority_epoch \<Rightarrow> ('c, 'p, 's, 'f) process_lifecycle \<Rightarrow> bool" where
  "authority_from i L s \<longleftrightarrow> authority_ok s \<and> L \<le> current_authority_epoch s i"

definition authority_work :: "instance_id \<Rightarrow> authority_epoch \<Rightarrow> lifecycle_operation
    \<Rightarrow> ('c, 'p, 's, 'f) process_lifecycle \<Rightarrow> bool" where
  "authority_work i L p s \<longleftrightarrow> authority_from i L s
     \<and> (\<exists>p0. bm_get (plc_records s) (op_key p) = Some p0 \<and> lop_authority_epoch p0 \<le> lop_authority_epoch p)
     \<and> lop_authority_epoch p \<le> current_authority_epoch s (lop_instance_id p)"

lemma current_cong: "plc_authority t = plc_authority s \<Longrightarrow> current_authority_epoch t i = current_authority_epoch s i"
  by (simp add: current_authority_epoch_def)

lemma authority_cong:
  assumes "plc_authority t = plc_authority s" and "plc_records t = plc_records s"
  shows "authority_from i L t = authority_from i L s" and "authority_work i L p t = authority_work i L p s"
  using current_cong [OF assms(1)] assms(2) by (simp_all add: authority_from_def authority_ok_def authority_work_def)

lemma authority_work_from: "authority_work i L p s \<Longrightarrow> authority_from i L s"
  by (simp add: authority_work_def)

lemma authority_frame:
  assumes "plc_authority t = plc_authority s \<and> plc_records t = plc_records s"
  shows "authority_from i L s \<Longrightarrow> authority_from i L t" and "authority_work i L p s \<Longrightarrow> authority_work i L p t"
  using authority_cong [of t s] assms by simp_all

lemma authority_update:
  assumes "authority_work i L p s" and "persist_update E p s = (r, t)"
  shows "authority_from i L t" and "r = Inr () \<Longrightarrow> authority_work i L p t"
proof -
  have "authority_from i L t \<and> (r = Inr () \<longrightarrow> authority_work i L p t)"
  proof (cases r)
    case (Inl e)
    with assms(2) have "plc_authority t = plc_authority s" "plc_records t = plc_records s"
      by (auto simp: persist_update_def split: prod.splits sum.splits)
    from authority_cong [OF this] assms(1) Inl show ?thesis by (simp add: authority_work_def)
  next
    case (Inr x)
    with assms(2) have t: "plc_authority t = plc_authority s" "plc_records t = bm_insert (op_key p) p (plc_records s)"
      by (auto simp: persist_update_def split: prod.splits sum.splits)
    obtain p0 where p0: "bm_get (plc_records s) (op_key p) = Some p0" "lop_authority_epoch p0 \<le> lop_authority_epoch p"
      using assms(1) by (auto simp: authority_work_def)
    have ok: "keyed op_key (plc_records s)" "lop_authority_epoch p \<le> recorded_epoch (plc_records s) (lop_instance_id p)"
      using assms(1) by (auto simp: authority_work_def authority_from_def authority_ok_def)
    have "recorded_epoch (plc_records t) j = recorded_epoch (plc_records s) j" for j
      using recorded_epoch_update [OF ok(1) p0, of j] ok(2) t(2) by (auto simp: max.absorb1)
    then show ?thesis using assms(1) t ok current_cong [OF t(1)]
      by (auto simp: authority_work_def authority_from_def authority_ok_def keyed_def)
  qed
  then show "authority_from i L t" and "r = Inr () \<Longrightarrow> authority_work i L p t" by simp_all
qed

lemma persist_ownership_authority:
  "persist_ownership E w s = (r, t) \<Longrightarrow> plc_authority t = plc_authority s \<and> plc_records t = plc_records s"
  "clear_owned E i s = (r, t) \<Longrightarrow> plc_authority t = plc_authority s \<and> plc_records t = plc_records s"
  "reserve_ownership E p i' s = (r, t) \<Longrightarrow> plc_authority t = plc_authority s \<and> plc_records t = plc_records s"
  by (auto simp: persist_ownership_def clear_owned_def reserve_ownership_def split: if_splits option.splits prod.splits sum.splits)

lemma set_epoch_current:
  "current_authority_epoch (set_authority_epoch i e s) j = (if j = i then e else current_authority_epoch s j)"
  by (simp add: current_authority_epoch_def set_authority_epoch_def)

lemma fenced_current:
  assumes "lop_authority_epoch p = current_authority_epoch s (lop_instance_id p)"
    and "if rotates p then authority_epoch_next (lop_authority_epoch p) = Some e else e = lop_authority_epoch p"
  shows "current_authority_epoch (fenced p e s) i = (if i = lop_instance_id p then e else current_authority_epoch s i)"
    and "lop_authority_epoch p \<le> e"
  using assms checked_add_u64_less [of "lop_authority_epoch p" e]
  by (auto simp: fenced_def set_epoch_current authority_epoch_next_def split: if_splits)

lemma fenced_back:
  assumes "lop_authority_epoch p = current_authority_epoch s (lop_instance_id p)"
    and "if rotates p then authority_epoch_next (lop_authority_epoch p) = Some e else e = lop_authority_epoch p"
    and "plc_authority u = plc_authority (fenced p e s)"
  shows "current_authority_epoch (fenced p (lop_authority_epoch p) u) j = current_authority_epoch s j"
  using assms current_cong [OF assms(3), of j] by (auto simp: fenced_def set_epoch_current)

lemma restarting_simps [simp]:
  "lop_operation_id (restarting p d e) = lop_operation_id p" "lop_instance_id (restarting p d e) = lop_instance_id p"
  "lop_authority_epoch (restarting p d e) = e" "lop_action (restarting p d e) = lop_action p"
  "lop_sequence (restarting p d e) = lop_sequence p" "lop_state (restarting p d e) = Restarting"
  "lop_request_epoch (restarting p d e) = lop_request_epoch p" "lop_lease (restarting p d e) = lop_lease p"
  by (simp_all add: restarting_def)

lemma authority_restarting:
  assumes "authority_work i L p s" and "lop_authority_epoch p = current_authority_epoch s (lop_instance_id p)"
    and "if rotates p then authority_epoch_next (lop_authority_epoch p) = Some e else e = lop_authority_epoch p"
    and "persist_update E (restarting p d e) (fenced p e s) = (Inr (), u)"
  shows "authority_work i L (restarting p d e) u"
proof -
  note cur = fenced_current [OF assms(2,3)]
  have u: "plc_authority u = plc_authority (fenced p e s)" "plc_records u = bm_insert (op_key p) (restarting p d e) (plc_records s)"
    using assms(4) by (auto simp: persist_update_def split: prod.splits sum.splits)
  obtain p0 where p0: "bm_get (plc_records s) (op_key p) = Some p0" "lop_authority_epoch p0 \<le> lop_authority_epoch p"
    using assms(1) by (auto simp: authority_work_def)
  have ok: "keyed op_key (plc_records s)" "\<And>j. recorded_epoch (plc_records s) j = current_authority_epoch s j"
    using assms(1) by (simp_all add: authority_work_def authority_from_def authority_ok_def)
  have "recorded_epoch (plc_records u) j = (if j = lop_instance_id p then e else current_authority_epoch s j)" for j
    using recorded_epoch_update [OF ok(1), of "restarting p d e" p0 j] p0 cur(2) ok(2) assms(2) u(2) by (auto simp: max.absorb2)
  then show ?thesis
    using assms(1,2) u cur ok(1) current_cong [OF u(1)]
    by (auto simp: authority_work_def authority_from_def authority_ok_def keyed_def)
qed

lemma authority_begin:
  assumes "authority_work i L p s" and "begin_restart E p d s = (r, t)"
  shows "authority_from i L t \<and> (\<forall>q. r = Inr q \<longrightarrow> authority_work i L q t)"
  using assms(2)
proof (cases rule: begin_restart_cases)
  case (refused e)
  with assms(1) show ?thesis by (simp add: authority_work_def)
next
  case (unsaved e err u)
  have u: "plc_authority u = plc_authority (fenced p e s)" "plc_records u = plc_records s"
    using unsaved(3) by (auto simp: persist_update_def split: prod.splits sum.splits)
  from fenced_back [OF unsaved(1,2) u(1)] u(2) assms(1) unsaved(4,5) show ?thesis
    by (auto simp: authority_work_def authority_from_def authority_ok_def)
next
  case (saved e u)
  from authority_restarting [OF assms(1) saved(1,2,3)] saved(5,6) show ?thesis by (simp add: authority_work_def)
next
  case (begun e u k)
  from begun(5) show ?thesis
  proof (cases rule: and_try_cases)
    case (1 x)
    with persist_ownership_authority(3) [OF 1(1)] authority_cong [of t u] authority_restarting [OF assms(1) begun(1,2,3)]
    show ?thesis by (simp add: authority_work_def)
  next
    case (2 a v)
    with persist_ownership_authority(3) [OF 2(1)] authority_cong [of v u] authority_restarting [OF assms(1) begun(1,2,3)]
    show ?thesis by (auto dest: authority_work_from)
  qed
qed

lemma call_authority:
  "observed E s t \<Longrightarrow> plc_authority t = plc_authority s \<and> plc_records t = plc_records s"
  "call_stop E h mode s = (r, t) \<Longrightarrow> plc_authority t = plc_authority s \<and> plc_records t = plc_records s"
  "call_start_generation E g spec profile s = (r', t) \<Longrightarrow> plc_authority t = plc_authority s \<and> plc_records t = plc_records s"
  by (auto dest: observed_only call_only_process)

lemma authority_enter:
  assumes "authority_from i L s" and "bm_get (plc_records s) (op_key p) = Some p"
  shows "authority_work i L p s"
  using assms recorded_epoch_ge [of "plc_records s" "lop_instance_id p" "lop_operation_id p" p]
  by (auto simp: authority_work_def authority_from_def authority_ok_def)

lemma issue_sequence_frame: "issue_sequence s = (r, t) \<Longrightarrow> plc_authority t = plc_authority s \<and> plc_records t = plc_records s"
  by (auto simp: issue_sequence_def split: option.splits)

lemma persist_insert_frame:
  "persist_insert E p s = (Inl e, t) \<Longrightarrow> plc_authority t = plc_authority s \<and> plc_records t = plc_records s"
  "persist_insert E p s = (Inr (), t) \<Longrightarrow> plc_authority t = plc_authority s
     \<and> plc_records t = bm_insert (op_key p) p (plc_records s)"
  by (auto simp: persist_insert_def split: if_splits prod.splits sum.splits)

lemma authority_admit:
  assumes "authority_from i L s" and "current_authority_epoch s (lrq_instance_id r) = lrq_authority_epoch r"
    and "bm_get (plc_records s) (lrq_instance_id r, lrq_operation_id r) = None"
    and "persist_insert E (admitted r n) s = (Inr (), t)"
  shows "authority_work i L (admitted r n) t"
proof -
  note t = persist_insert_frame(2) [OF assms(4)]
  have ok: "keyed op_key (plc_records s)" "\<And>j. recorded_epoch (plc_records s) j = current_authority_epoch s j"
    using assms(1) by (simp_all add: authority_from_def authority_ok_def)
  have "recorded_epoch (plc_records t) j = recorded_epoch (plc_records s) j" for j
    using recorded_epoch_fresh [OF ok(1), of "admitted r n" j] assms(2,3) ok(2) t by simp
  with assms(1,2) t ok current_cong [of t s] show ?thesis
    by (auto simp: authority_work_def authority_from_def authority_ok_def keyed_def)
qed

interpretation authority: lifecycle_service E "authority_from i L" "authority_work i L" "\<lambda>_ _. True" "\<lambda>_. True"
  for E :: "('c, 'p, 's, 'f) lifecycle_env" and i L
proof unfold_locales
  fix s t :: "('c, 'p, 's, 'f) process_lifecycle" and p q
  show "authority_work i L p s \<Longrightarrow> authority_from i L s" by (rule authority_work_from)
  show "authority_work i L p s \<Longrightarrow> same_origin p q \<Longrightarrow> authority_work i L q s"
    by (auto simp: authority_work_def same_origin_def)
  show "authority_work i L p s \<Longrightarrow> observed E s t \<Longrightarrow> authority_work i L p t"
    by (rule authority_frame(2) [OF call_authority(1)])
  show "authority_work i L p s \<Longrightarrow> call_stop E h mode s = (stopped, t) \<Longrightarrow> authority_work i L p t" for h mode stopped
    by (rule authority_frame(2) [OF call_authority(2)])
  show "authority_work i L p s \<Longrightarrow> call_start_generation E g spec profile s = (launched, t) \<Longrightarrow> authority_work i L p t"
    for g spec profile launched by (rule authority_frame(2) [OF call_authority(3)])
  show "authority_work i L p s \<Longrightarrow> persist_update E p s = (Inr (), t) \<Longrightarrow> authority_work i L p t"
    by (rule authority_update(2) [OF _ _ refl])
  show "authority_work i L p s \<Longrightarrow> persist_update E p s = (r, t) \<Longrightarrow> authority_from i L t" for r
    by (rule authority_update(1))
  show "authority_work i L p s \<Longrightarrow> persist_ownership E w s = (Inr (), t) \<Longrightarrow> authority_work i L p t" for w
    by (rule authority_frame(2) [OF persist_ownership_authority(1)])
  show "authority_work i L p s \<Longrightarrow> persist_ownership E w s = (Inl e, t) \<Longrightarrow> authority_from i L t" for w e
    by (rule authority_frame(1) [OF persist_ownership_authority(1) authority_work_from])
  show "authority_from i L s \<Longrightarrow> clear_owned E j s = (r, t) \<Longrightarrow> authority_from i L t" for j r
    by (rule authority_frame(1) [OF persist_ownership_authority(2)])
  show "authority_work i L p s \<Longrightarrow> begin_restart E p d s = (Inr q, t) \<Longrightarrow> authority_work i L q t" for d
    using authority_begin by blast
  show "authority_work i L p s \<Longrightarrow> begin_restart E p d s = (Inl e, t) \<Longrightarrow> authority_from i L t" for d e
    using authority_begin by blast
  show "authority_from i L s \<Longrightarrow> bm_get (plc_records s) (op_key p) = Some p \<Longrightarrow> authority_work i L p s"
    by (rule authority_enter)
  show "authority_from i L s \<Longrightarrow> bm_get (plc_records s) (op_key p) = Some p \<Longrightarrow>
      persist_update E (set_state OpRejected (lop_process p) f p) s = (res, t) \<Longrightarrow> authority_from i L t" for f res
    using authority_enter [of i L s p] authority_update(1) [of i L "set_state OpRejected (lop_process p) f p" s E res t]
    by (simp add: authority_work_def)
  show "authority_from i L s \<Longrightarrow> keyed op_key (plc_records s)" by (simp add: authority_from_def authority_ok_def)
  show "authority_from i L s \<Longrightarrow> authority_from i L (s\<lparr>plc_clock := c, plc_fence := f\<rparr>)" for c f
    by (erule authority_frame(1) [rotated]) simp
  show "authority_from i L s \<Longrightarrow> issue_sequence s = (r1, t) \<Longrightarrow> authority_from i L t" for r1
    by (rule authority_frame(1) [OF issue_sequence_frame])
  show "authority_from i L s \<Longrightarrow> persist_insert E (admitted r n) s = (Inl e, t) \<Longrightarrow> authority_from i L t" for r n e
    by (rule authority_frame(1) [OF persist_insert_frame(1)])
  show "authority_from i L s \<Longrightarrow> admissible r s \<Longrightarrow> issue_sequence s = (Inr n, u) \<Longrightarrow>
      persist_insert E (admitted r n) u = (Inr (), t) \<Longrightarrow> authority_work i L (admitted r n) t" for r n u
    using authority_admit [of i L u r E n t] authority_frame(1) [OF issue_sequence_frame, of s "Inr n" u i L]
      issue_sequence_frame [of s "Inr n" u] current_cong [of u s] by (simp add: admissible_def)
qed simp_all

end
