(* ===== verification/Process_Lifecycle_Authority.thy ===== *)
theory Process_Lifecycle_Authority
  imports Process_Lifecycle_Service
begin

text \<open>
  Authority epochs over whole runs: start-up restores the recorded epochs, and no step, restarts
  included, lowers the epoch of an instance.
\<close>

lemma load_operations_epoch:
  "bm_get (fst (load_operations ps (a, n, m))) i =
     (let es = map lop_authority_epoch (filter (\<lambda>p. lop_instance_id p = i) ps) in
      if es = [] then bm_get a i else Some (fold max es (case bm_get a i of None \<Rightarrow> 0 | Some e \<Rightarrow> e)))"
proof (induction ps arbitrary: a n m)
  case (Cons p ps)
  have "(if e < f then f else e) = max f e" for e f :: authority_epoch by (auto simp: max_def)
  then show ?case by (simp add: Cons Let_def split: option.split)
qed simp

lemma loaded_authority:
  assumes "keyed op_key (held st)"
  shows "authority_ok (loaded held owners config profiles c p st f)"
  using assms load_operations_epoch [of "bm_values (held st)" bm_empty 0 bm_empty]
  by (simp add: authority_ok_def loaded_def current_authority_epoch_def recorded_epoch_def epochs_of_def Let_def)

lemma bootstrapped_authority: "bootstrapped s t \<Longrightarrow> authority_from i L t = authority_from i L s"
  by (rule authority_cong) (simp_all add: bootstrapped_def)

lemma bind_lease_current: "bind_lease l s = (r, t) \<Longrightarrow> current_authority_epoch t i = current_authority_epoch s i"
  by (auto simp: bind_lease_def Let_def current_authority_epoch_def bm_has_def split: if_splits option.splits)

definition lc_authority :: "('s \<Rightarrow> (record_key, lifecycle_operation) bmap) \<Rightarrow> ('s \<Rightarrow> (instance_id, lifecycle_ownership) bmap)
    \<Rightarrow> ('c, 'p, 's, 'f) lifecycle_env \<Rightarrow> ('c, 'p \<times> port_event list, 's, 'f) process_lifecycle \<Rightarrow> bool" where
  "lc_authority held owners E s \<longleftrightarrow> lc_system_ok held owners E s \<and> authority_ok s"

lemma lc_step_authority:
  assumes "lc_step E s t" and "lc_system_ok held owners E s" and "authority_from i L s"
  shows "authority_from i L t"
  using assms(1)
proof cases
  case (applies r res)
  with assms(3) show ?thesis by (rule authority.apply_request)
next
  case (reconciles tok epoch oid res)
  with assms(3) show ?thesis by (rule authority.reconcile_operation)
next
  case (binds l res)
  from bind_lease_only [OF this] bind_lease_current [OF this] assms(3) show ?thesis
    by (auto simp: authority_from_def authority_ok_def)
next
  case (passes c f p)
  with assms(3) show ?thesis by (auto intro: authority_frame(1) [rotated])
next
  case (reboots st config profiles c p f st')
  have ms: "mirrored_store (lc_store (lc_recording E)) held owners" and m: "mirrors held owners s"
    using assms(2) by (simp_all add: lc_system_ok_def)
  note keys = mirrors_keyed [OF m] mirrors_keyed_rows [OF m]
  from failed_starts_hold [OF reboots(1) ms keys] keys
  have st: "held st = plc_records s" "keyed op_key (held st)" "keyed own_instance_id (owners st)"
    using m by (simp_all add: mirrors_def)
  have t: "bootstrapped (loaded held owners config profiles c (p, port_log s) st f) t"
    using mirrored_store.lifecycle_new_mirrors(3) [OF ms reboots(2) refl st(2,3)] by simp
  have "authority_from i L (loaded held owners config profiles c (p, port_log s) st f)"
    using loaded_authority [of held st owners config profiles c "(p, port_log s)" f] st assms(3)
    by (auto simp: authority_from_def authority_ok_def loaded_def)
  with bootstrapped_authority [OF t] show ?thesis by simp
qed

interpretation lc_epochs: step_monotone "lc_step E" "lc_authority held owners E" "\<lambda>s. current_authority_epoch s i"
  for E :: "('c, 'p, 's, 'f) lifecycle_env" and held owners i
proof unfold_locales
  fix s t :: "('c, 'p \<times> port_event list, 's, 'f) process_lifecycle"
  assume s: "lc_authority held owners E s" and step: "lc_step E s t"
  have *: "authority_from i (current_authority_epoch s i) s" using s by (simp add: lc_authority_def authority_from_def)
  from lc_step_authority [OF step _ *, of held owners] s have t: "authority_from i (current_authority_epoch s i) t"
    by (simp add: lc_authority_def)
  then show "current_authority_epoch s i \<le> current_authority_epoch t i" by (simp add: authority_from_def)
  from t lc_step_launches [OF step] s show "lc_authority held owners E t"
    by (auto simp: lc_authority_def authority_from_def)
qed

text \<open>A new coordinator satisfies the invariant.\<close>

lemma lifecycle_new_ok:
  assumes "mirrored_store (lc_store E) held owners" and "keyed op_key (held st)" and "keyed own_instance_id (owners st)"
    and "lifecycle_new (lc_recording E) config profiles c (p, log) st f = (Inr s, st')"
  shows "lc_authority held owners E s" and "port_log s = log" and "plc_records s = held st"
proof -
  have ms: "mirrored_store (lc_store (lc_recording E)) held owners" using assms(1) by simp
  note new = mirrored_store.lifecycle_new_mirrors(3) [OF ms assms(4) refl assms(2,3) refl]
  have "authority_ok s"
    using bootstrapped_authority [OF conjunct2 [OF new], of undefined 0] loaded_authority [of held st, OF assms(2)]
    by (simp add: authority_from_def)
  with new assms(1) show "lc_authority held owners E s" by (simp add: lc_authority_def lc_system_ok_def)
  from new show "port_log s = log" and "plc_records s = held st"
    by (simp_all add: bootstrapped_def loaded_def port_log_def)
qed

end
