(* ===== verification/Process_Lifecycle_Invariants.thy ===== *)
theory Process_Lifecycle_Invariants
  imports Process_Lifecycle_Authority
begin

text \<open>
  Three more instances of \<open>lifecycle_service\<close>, carried over whole runs: a terminal record never
  changes, a process is only stopped after the port confirmed its identity, and the records stay
  within the configured bound.
\<close>

section \<open>Frames of the primitive effects\<close>

lemma persist_update_Inl: "persist_update E p s = (Inl e, t) \<Longrightarrow> \<exists>x. t = s\<lparr>plc_store := x\<rparr>"
  by (auto simp: persist_update_def split: prod.splits sum.splits)

lemma persist_update_Inr:
  "persist_update E p s = (Inr (), t) \<Longrightarrow> \<exists>x. t = s\<lparr>plc_store := x, plc_records := bm_insert (op_key p) p (plc_records s)\<rparr>"
  by (auto simp: persist_update_def split: prod.splits sum.splits)

lemma persist_insert_Inr:
  "persist_insert E p s = (Inr (), t) \<Longrightarrow> \<exists>x. t = s\<lparr>plc_store := x, plc_records := bm_insert (op_key p) p (plc_records s)\<rparr>
     \<and> (bm_get (plc_records s) (op_key p) = None \<longrightarrow> bm_size (plc_records s) < plc_max_records (plc_config s))"
  by (auto simp: persist_insert_def bm_has_def split: if_splits prod.splits sum.splits)

text \<open>
  A predicate on the records, the configuration and the port that ownership and store bookkeeping
  leave alone, and that an update of a record in context keeps.
\<close>

definition same_view :: "('c, 'p, 's, 'f) process_lifecycle \<Rightarrow> ('c, 'p, 's, 'f) process_lifecycle \<Rightarrow> bool" where
  "same_view s t \<longleftrightarrow> plc_records t = plc_records s \<and> plc_config t = plc_config s \<and> plc_process t = plc_process s"

lemma same_view_own: "persist_ownership E w s = (r, t) \<Longrightarrow> same_view s t"
  by (auto simp: same_view_def persist_ownership_def split: prod.splits sum.splits)

lemma same_view_clear: "clear_owned E i s = (r, t) \<Longrightarrow> same_view s t"
  by (auto simp: same_view_def clear_owned_def split: option.splits prod.splits sum.splits)

lemma same_view_sequence: "issue_sequence s = (r, t) \<Longrightarrow> same_view s t"
  by (auto simp: same_view_def issue_sequence_def split: option.splits)

lemma same_view_update_Inl: "persist_update E p s = (Inl e, t) \<Longrightarrow> same_view s t"
  by (auto simp: same_view_def dest: persist_update_Inl)

lemma same_view_insert_Inl: "persist_insert E p s = (Inl e, t) \<Longrightarrow> same_view s t"
  by (auto simp: same_view_def persist_insert_def split: if_splits prod.splits sum.splits)

lemma same_view_trans: "same_view s t \<Longrightarrow> same_view t u \<Longrightarrow> same_view s u"
  by (simp add: same_view_def)

lemma same_view_fenced [simp]: "same_view s (fenced p e s)" "same_view s (s\<lparr>plc_clock := c, plc_fence := f\<rparr>)"
  by (simp_all add: same_view_def)

text \<open>A start of a restart updates the record in context, or leaves the view alone.\<close>

lemma begin_restart_view:
  assumes "begin_restart E p d s = (r, t)"
  shows "same_view s t \<and> is_err r \<or>
    (\<exists>e u. persist_update E (restarting p d e) (fenced p e s) = (Inr (), u) \<and> same_view u t
       \<and> (\<forall>q. r = Inr q \<longrightarrow> q = restarting p d e))"
  using assms
proof (cases rule: begin_restart_cases)
  case (refused e)
  then show ?thesis by (simp add: same_view_def is_err_def)
next
  case (unsaved e err u)
  have "same_view s t"
    using same_view_update_Inl [OF unsaved(3)] unsaved(5) by (simp add: same_view_def)
  then show ?thesis using unsaved(4) by (simp add: is_err_def)
next
  case (saved e u)
  then show ?thesis by (auto simp: same_view_def)
next
  case (begun e u i)
  from begun(5) have "same_view u t \<and> (\<forall>q. r = Inr q \<longrightarrow> q = restarting p d e)"
    by (cases rule: and_try_cases)
      (auto simp: reserve_ownership_def same_view_def dest!: same_view_own split: if_splits)
  with begun(3) show ?thesis by blast
qed

section \<open>A view invariant\<close>

text \<open>
  \<open>I\<close> depends on the view only, \<open>C p\<close> adds that the record of \<open>p\<close> may be updated.
\<close>

locale view_invariant =
  fixes E :: "('c, 'p, 's, 'f) lifecycle_env" and I :: "('c, 'p, 's, 'f) process_lifecycle \<Rightarrow> bool"
    and open_key :: "record_key \<Rightarrow> ('c, 'p, 's, 'f) process_lifecycle \<Rightarrow> bool"
    and J :: "process_handle \<Rightarrow> 'p \<Rightarrow> bool"
  assumes view_I: "I s \<Longrightarrow> same_view s t \<Longrightarrow> I t"
    and view_open: "open_key k s \<Longrightarrow> same_view s t \<Longrightarrow> open_key k t"
    and view_keyed: "I s \<Longrightarrow> keyed op_key (plc_records s)"
    and view_observe: "I s \<Longrightarrow> observed E s t \<Longrightarrow> I t" and open_observe: "open_key k s \<Longrightarrow> observed E s t \<Longrightarrow> open_key k t"
    and view_observe_J: "J h (plc_process s) \<Longrightarrow> observed E s t \<Longrightarrow> J h (plc_process t)"
    and view_inspect_J: "I s \<Longrightarrow> call_inspect_identity E (pid_process d) s = (Inr d, t) \<Longrightarrow> J (pid_process d) (plc_process t)"
    and view_stop: "I s \<Longrightarrow> J h (plc_process s) \<Longrightarrow> call_stop E h mode s = (x, t) \<Longrightarrow> I t"
    and open_stop: "open_key k s \<Longrightarrow> call_stop E h mode s = (x, t) \<Longrightarrow> open_key k t"
    and view_start: "I s \<Longrightarrow> call_start_generation E g spec profile s = (y, t) \<Longrightarrow> I t"
    and open_start: "open_key k s \<Longrightarrow> call_start_generation E g spec profile s = (y, t) \<Longrightarrow> open_key k t"
    and view_start_J: "I s \<Longrightarrow> call_start_generation E g spec profile s = (Inr l, t) \<Longrightarrow>
      J (pid_process (launch_identity l)) (plc_process t)"
    and view_update: "I s \<Longrightarrow> open_key (op_key p) s \<Longrightarrow>
      I (s\<lparr>plc_records := bm_insert (op_key p) p (plc_records s)\<rparr>)
      \<and> open_key (op_key p) (s\<lparr>plc_records := bm_insert (op_key p) p (plc_records s)\<rparr>)"
    and view_active: "I s \<Longrightarrow> bm_get (plc_records s) (op_key p) = Some p \<Longrightarrow> is_active (lop_state p) \<Longrightarrow> open_key (op_key p) s"
    and view_fresh: "I s \<Longrightarrow> bm_get (plc_records s) (op_key p) = None \<Longrightarrow> bm_size (plc_records s) < plc_max_records (plc_config s) \<Longrightarrow>
      I (s\<lparr>plc_records := bm_insert (op_key p) p (plc_records s)\<rparr>)
      \<and> open_key (op_key p) (s\<lparr>plc_records := bm_insert (op_key p) p (plc_records s)\<rparr>)"
begin

lemma update_open:
  assumes "I s" and "open_key (op_key p) s" and "persist_update E p s = (r, t)"
  shows "I t \<and> open_key (op_key p) t"
proof (cases r)
  case (Inl e)
  with assms same_view_update_Inl [of E p s e t] show ?thesis by (auto intro: view_I view_open)
next
  case (Inr a)
  with assms(3) obtain x where t: "t = s\<lparr>plc_store := x, plc_records := bm_insert (op_key p) p (plc_records s)\<rparr>"
    using persist_update_Inr [of E p s t] by auto
  have "same_view (s\<lparr>plc_records := bm_insert (op_key p) p (plc_records s)\<rparr>) t" by (simp add: t same_view_def)
  with view_update [OF assms(1,2)] show ?thesis by (auto intro: view_I view_open)
qed

lemma begin_open:
  assumes "I s" and "open_key (op_key p) s" and "begin_restart E p d s = (r, t)"
  shows "I t \<and> open_key (op_key p) t \<and> (\<forall>q. r = Inr q \<longrightarrow> op_key q = op_key p)"
  using begin_restart_view [OF assms(3)]
proof (elim disjE conjE exE)
  assume "same_view s t" and "is_err r"
  with assms(1,2) show ?thesis by (auto simp: is_err_def intro: view_I view_open)
next
  fix e u
  assume u: "persist_update E (restarting p d e) (fenced p e s) = (Inr (), u)" "same_view u t"
    and q: "\<forall>q. r = Inr q \<longrightarrow> q = restarting p d e"
  have "I (fenced p e s)" "open_key (op_key (restarting p d e)) (fenced p e s)"
    using view_I [OF assms(1) same_view_fenced(1), of p e] view_open [OF assms(2) same_view_fenced(1), of p e] by simp_all
  from update_open [OF this u(1)] have "I u" "open_key (op_key p) u" by simp_all
  note t = view_I [OF this(1) u(2)] view_open [OF this(2) u(2)]
  have "op_key q = op_key p" if "r = Inr q" for q
    using q [rule_format, OF that] by (simp only: restarting_simps)
  with t show ?thesis by blast
qed

end

sublocale view_invariant \<subseteq> lifecycle_service E I "\<lambda>p s. I s \<and> open_key (op_key p) s" J "\<lambda>_. True"
proof unfold_locales
  fix s t u :: "('c, 'p, 's, 'f) process_lifecycle" and p q
  show "I s \<and> open_key (op_key p) s \<Longrightarrow> same_origin p q \<Longrightarrow> I s \<and> open_key (op_key q) s"
    by (simp add: same_origin_def)
  show "I s \<and> open_key (op_key p) s \<Longrightarrow> observed E s t \<Longrightarrow> I t \<and> open_key (op_key p) t"
    using view_observe open_observe by blast
  show "J h (plc_process s) \<Longrightarrow> observed E s t \<Longrightarrow> J h (plc_process t)" for h by (rule view_observe_J)
  show "I s \<and> open_key (op_key p) s \<Longrightarrow> call_inspect_identity E (pid_process d) s = (Inr d, t) \<Longrightarrow>
      J (pid_process d) (plc_process t)" for d using view_inspect_J by blast
  show "I s \<and> open_key (op_key p) s \<Longrightarrow> J h (plc_process s) \<Longrightarrow> call_stop E h mode s = (x, t) \<Longrightarrow>
      I t \<and> open_key (op_key p) t" for h mode x using view_stop open_stop by blast
  show "I s \<and> open_key (op_key p) s \<Longrightarrow> call_start_generation E g spec profile s = (y, t) \<Longrightarrow>
      I t \<and> open_key (op_key p) t" for g spec profile y using view_start open_start by blast
  show "I s \<and> open_key (op_key p) s \<Longrightarrow> call_start_generation E g spec profile s = (Inr l, t) \<Longrightarrow>
      J (pid_process (launch_identity l)) (plc_process t)" for g spec profile l using view_start_J by blast
  show "I s \<and> open_key (op_key p) s \<Longrightarrow> persist_update E p s = (Inr (), t) \<Longrightarrow> I t \<and> open_key (op_key p) t"
    using update_open by blast
  show "I s \<and> open_key (op_key p) s \<Longrightarrow> persist_update E p s = (r, t) \<Longrightarrow> I t" for r using update_open by blast
  show "I s \<and> open_key (op_key p) s \<Longrightarrow> persist_ownership E w s = (Inr (), t) \<Longrightarrow> I t \<and> open_key (op_key p) t" for w
    using view_I view_open same_view_own by blast
  show "I s \<and> open_key (op_key p) s \<Longrightarrow> persist_ownership E w s = (Inl e, t) \<Longrightarrow> I t" for w e
    using view_I same_view_own by blast
  show "I s \<Longrightarrow> clear_owned E i s = (r, t) \<Longrightarrow> I t" for i r using view_I same_view_clear by blast
  show "I s \<and> open_key (op_key p) s \<Longrightarrow> begin_restart E p d s = (Inr q, t) \<Longrightarrow> I t \<and> open_key (op_key q) t" for d
    using begin_open [of s p d "Inr q" t] by auto
  show "I s \<and> open_key (op_key p) s \<Longrightarrow> begin_restart E p d s = (Inl e, t) \<Longrightarrow> I t" for d e using begin_open by blast
  show "I s \<Longrightarrow> bm_get (plc_records s) (op_key p) = Some p \<Longrightarrow> is_active (lop_state p) \<Longrightarrow> I s \<and> open_key (op_key p) s"
    using view_active by blast
  show "I s \<Longrightarrow> bm_get (plc_records s) (op_key p) = Some p \<Longrightarrow> is_active (lop_state p) \<Longrightarrow>
      persist_update E (set_state OpRejected (lop_process p) f p) s = (res, t) \<Longrightarrow> I t" for f res
    using view_active [of s p] update_open [of s "set_state OpRejected (lop_process p) f p" res t] by simp
  show "I s \<Longrightarrow> keyed op_key (plc_records s)" by (rule view_keyed)
  show "I s \<Longrightarrow> I (s\<lparr>plc_clock := c, plc_fence := f\<rparr>)" for c f
    by (erule view_I) (rule same_view_fenced(2))
  show "I s \<Longrightarrow> issue_sequence s = (r1, t) \<Longrightarrow> I t" for r1 using view_I same_view_sequence by blast
  show "I s \<Longrightarrow> persist_insert E (admitted r n) s = (Inl e, t) \<Longrightarrow> I t" for r n e using view_I same_view_insert_Inl by blast
  show "I s \<Longrightarrow> admissible r s \<Longrightarrow> issue_sequence s = (Inr n, u) \<Longrightarrow> persist_insert E (admitted r n) u = (Inr (), t) \<Longrightarrow>
      I t \<and> open_key (op_key (admitted r n)) t" for r n
  proof -
    assume s: "I s" "admissible r s" and u: "issue_sequence s = (Inr n, u)" and "persist_insert E (admitted r n) u = (Inr (), t)"
    let ?v = "u\<lparr>plc_records := bm_insert (op_key (admitted r n)) (admitted r n) (plc_records u)\<rparr>"
    from persist_insert_Inr [OF \<open>persist_insert _ _ _ = _\<close>]
    have v: "same_view ?v t" "bm_get (plc_records u) (op_key (admitted r n)) = None \<Longrightarrow>
        bm_size (plc_records u) < plc_max_records (plc_config u)" by (auto simp: same_view_def)
    have "bm_get (plc_records u) (op_key (admitted r n)) = None"
      using s(2) same_view_sequence [OF u] by (simp add: admissible_def same_view_def)
    moreover have "I u" using view_I [OF s(1) same_view_sequence [OF u]] .
    ultimately have "I ?v \<and> open_key (op_key (admitted r n)) ?v" using view_fresh v(2) by blast
    with view_I [OF _ v(1)] view_open [OF _ v(1)] show "I t \<and> open_key (op_key (admitted r n)) t" by blast
  qed
qed simp_all

context view_invariant
begin

lemma keeps_apply: "I s \<Longrightarrow> apply_request E r s = (res, t) \<Longrightarrow> I t"
  by (rule apply_request)

lemma keeps_reconcile: "I s \<Longrightarrow> reconcile_operation E tok epoch oid s = (res, t) \<Longrightarrow> I t"
  by (rule reconcile_operation)

end

section \<open>Runs\<close>

lemma reboot_view:
  assumes "lc_system_ok held owners E s" and "failed_starts (lc_recording E) (plc_store s) st"
    and "lifecycle_new (lc_recording E) config profiles c (p, port_log s) st f = (Inr t, st')"
  shows "plc_records t = plc_records s" and "port_log t = port_log s" and "bm_size (plc_records t) \<le> plc_max_records (plc_config t)"
proof -
  have ms: "mirrored_store (lc_store (lc_recording E)) held owners" and m: "mirrors held owners s"
    using assms(1) by (simp_all add: lc_system_ok_def)
  note keys = mirrors_keyed [OF m] mirrors_keyed_rows [OF m]
  from failed_starts_hold [OF assms(2) ms keys] keys m
  have st: "held st = plc_records s" "keyed op_key (held st)" "keyed own_instance_id (owners st)"
    by (simp_all add: mirrors_def)
  have boot: "bootstrapped (loaded held owners config profiles c (p, port_log s) st f) t"
    using mirrored_store.lifecycle_new_mirrors(3) [OF ms assms(3) refl st(2,3)] by simp
  then show "plc_records t = plc_records s" and "port_log t = port_log s"
    using st(1) by (simp_all add: bootstrapped_def loaded_def port_log_def)
  have "bm_size (held st) \<le> plc_max_records config"
    using mirrored_store.lifecycle_new_cases [OF ms assms(3) refl st(2,3)] by blast
  with boot st(1) show "bm_size (plc_records t) \<le> plc_max_records (plc_config t)"
    by (simp add: bootstrapped_def loaded_def)
qed

lemma view_step:
  assumes "lc_step E s t" and "view_invariant (lc_recording E) I op J" and "lc_system_ok held owners E s" and "I s"
    and world: "\<And>p. I (s\<lparr>plc_process := (p, port_log s)\<rparr>)"
    and reboot: "plc_records t = plc_records s \<Longrightarrow> port_log t = port_log s \<Longrightarrow>
      bm_size (plc_records t) \<le> plc_max_records (plc_config t) \<Longrightarrow> I t"
  shows "I t"
  using assms(1)
proof cases
  case (applies r res)
  from view_invariant.keeps_apply [OF assms(2,4) this] show ?thesis .
next
  case (reconciles tok epoch oid res)
  from view_invariant.keeps_reconcile [OF assms(2,4) this] show ?thesis .
next
  case (binds l res)
  have "same_view s t" using bind_lease_only [OF binds] by (simp add: same_view_def)
  with view_invariant.view_I [OF assms(2,4)] show ?thesis by blast
next
  case (passes p f c)
  have "same_view (s\<lparr>plc_process := (p, port_log s)\<rparr>) t" using passes by (simp add: same_view_def)
  with view_invariant.view_I [OF assms(2) world] show ?thesis by blast
next
  case (reboots st config profiles c p f st')
  from reboot reboot_view [OF assms(3) reboots] show ?thesis by blast
qed

lemma observed_view: "observed E s t \<Longrightarrow> plc_records t = plc_records s \<and> plc_config t = plc_config s"
  by (auto dest: observed_only)

lemma call_view:
  "call_stop E h mode s = (r, t) \<Longrightarrow> plc_records t = plc_records s \<and> plc_config t = plc_config s"
  "call_start_generation E g spec profile s = (r', t) \<Longrightarrow> plc_records t = plc_records s \<and> plc_config t = plc_config s"
  by (auto dest: call_only_process)

lemmas view_frames = observed_view call_view(1) call_view(2)

lemma keyed_insert: "keyed key m \<Longrightarrow> k = key v \<Longrightarrow> keyed key (bm_insert k v m)"
  by (simp add: keyed_def)

subsection \<open>Terminal records\<close>

definition final_record :: "record_key \<Rightarrow> lifecycle_operation \<Rightarrow> ('c, 'p, 's, 'f) process_lifecycle \<Rightarrow> bool" where
  "final_record k p s \<longleftrightarrow> keyed op_key (plc_records s) \<and> bm_get (plc_records s) k = Some p \<and> \<not> is_active (lop_state p)"

interpretation final_view: view_invariant E "final_record k p" "\<lambda>k' _. k' \<noteq> k" "\<lambda>_ _. True" for E k p
  by unfold_locales
    (auto simp: final_record_def same_view_def intro: keyed_insert dest: view_frames)

interpretation lc_final: step_invariant "lc_step E" "\<lambda>s. lc_system_ok held owners E s \<and> final_record k p s" for E held owners k p
proof unfold_locales
  fix s t assume s: "lc_system_ok held owners E s \<and> final_record k p s" and step: "lc_step E s t"
  have "final_record k p t"
    by (rule view_step [OF step final_view.view_invariant_axioms]) (use s in \<open>auto simp: final_record_def\<close>)
  with lc_step_launches [OF step] s show "lc_system_ok held owners E t \<and> final_record k p t" by blast
qed

subsection \<open>The bound on records\<close>

definition records_bounded :: "('c, 'p, 's, 'f) process_lifecycle \<Rightarrow> bool" where
  "records_bounded s \<longleftrightarrow> keyed op_key (plc_records s) \<and> bm_size (plc_records s) \<le> plc_max_records (plc_config s)"

interpretation bounded_view: view_invariant E records_bounded "\<lambda>k s. bm_has (plc_records s) k" "\<lambda>_ _. True" for E
  by unfold_locales
    (auto simp: records_bounded_def same_view_def bm_has_def bm_size_insert intro: keyed_insert dest: view_frames)

interpretation lc_bounded: step_invariant "lc_step E" "\<lambda>s. lc_system_ok held owners E s \<and> records_bounded s" for E held owners
proof unfold_locales
  fix s t assume s: "lc_system_ok held owners E s \<and> records_bounded s" and step: "lc_step E s t"
  have "records_bounded t"
    by (rule view_step [OF step bounded_view.view_invariant_axioms]) (use s in \<open>auto simp: records_bounded_def\<close>)
  with lc_step_launches [OF step] s show "lc_system_ok held owners E t \<and> records_bounded t" by blast
qed

subsection \<open>Stops\<close>

text \<open>The port has reported, on inspection or at a start, a process with this handle.\<close>

definition confirmed :: "process_handle \<Rightarrow> port_event list \<Rightarrow> bool" where
  "confirmed h log \<longleftrightarrow> (\<exists>d. pid_process d = h \<and> (InspectedIdentity h (Some d) \<in> set log
     \<or> (\<exists>g. StartedGeneration g (Some d) \<in> set log)))"

definition stops_confirmed :: "port_event list \<Rightarrow> bool" where
  "stops_confirmed log \<longleftrightarrow> (\<forall>n < length log. \<forall>h mode. log ! n = StoppedHandle h mode \<longrightarrow> confirmed h (take n log))"

lemma stops_confirmed_snoc:
  "stops_confirmed (log @ [e]) \<longleftrightarrow> stops_confirmed log \<and> (\<forall>h mode. e = StoppedHandle h mode \<longrightarrow> confirmed h log)"
  by (auto simp: stops_confirmed_def nth_append less_Suc_eq)

lemma confirmed_snoc: "confirmed h log \<Longrightarrow> confirmed h (log @ [e])"
  by (auto simp: confirmed_def)

definition stops_ok :: "('c, 'p \<times> port_event list, 's, 'f) process_lifecycle \<Rightarrow> bool" where
  "stops_ok s \<longleftrightarrow> keyed op_key (plc_records s) \<and> stops_confirmed (port_log s)"

lemma stops_frame:
  assumes "stops_ok s" and "plc_records t = plc_records s"
    and "port_log t = port_log s \<or> (\<exists>e. port_log t = port_log s @ [e] \<and> (\<forall>h mode. e = StoppedHandle h mode \<longrightarrow> confirmed h (port_log s)))"
  shows "stops_ok t"
  using assms by (auto simp: stops_ok_def stops_confirmed_snoc)

interpretation stop_view: view_invariant "lc_recording E" stops_ok "\<lambda>_ _. True" "\<lambda>h x. confirmed h (snd x)"
  for E :: "('c, 'p, 's, 'f) lifecycle_env"
proof unfold_locales
  fix s t :: "('c, 'p \<times> port_event list, 's, 'f) process_lifecycle" and h
  show "stops_ok s \<Longrightarrow> same_view s t \<Longrightarrow> stops_ok t" by (simp add: stops_ok_def same_view_def port_log_def)
  show "stops_ok s \<Longrightarrow> keyed op_key (plc_records s)" by (simp add: stops_ok_def)
  show "stops_ok s \<Longrightarrow> observed (lc_recording E) s t \<Longrightarrow> stops_ok t"
    using stops_frame [of s t] recording_observed [of E s t] observed_view [of "lc_recording E" s t] by blast
  show "confirmed h (snd (plc_process s)) \<Longrightarrow> observed (lc_recording E) s t \<Longrightarrow> confirmed h (snd (plc_process t))"
    using recording_observed [of E s t] by (auto simp: port_log_def confirmed_snoc)
  show "call_inspect_identity (lc_recording E) (pid_process d) s = (Inr d, t) \<Longrightarrow> confirmed (pid_process d) (snd (plc_process t))" for d
    using recording_identity [of E "pid_process d" s "Inr d" t] by (auto simp: port_log_def confirmed_def ok_value_def)
  show "stops_ok s \<Longrightarrow> confirmed h (snd (plc_process s)) \<Longrightarrow> call_stop (lc_recording E) h mode s = (x, t) \<Longrightarrow> stops_ok t" for mode x
    using stops_frame [of s t] recording_stop [of E h mode s x t] call_view(1) [of "lc_recording E" h mode s x t]
    by (auto simp: port_log_def)
  show "stops_ok s \<Longrightarrow> call_start_generation (lc_recording E) g spec profile s = (y, t) \<Longrightarrow> stops_ok t" for g spec profile y
    using stops_frame [of s t] recording_start [of E g spec profile s y t]
      call_view(2) [of "lc_recording E" g spec profile s y t] by auto
  show "call_start_generation (lc_recording E) g spec profile s = (Inr l, t) \<Longrightarrow>
      confirmed (pid_process (launch_identity l)) (snd (plc_process t))" for g spec profile l
    using recording_start [of E g spec profile s "Inr l" t] by (auto simp: port_log_def confirmed_def ok_value_def)
qed (auto simp: stops_ok_def port_log_def intro: keyed_insert)

interpretation lc_stops: step_invariant "lc_step E" "\<lambda>s. lc_system_ok held owners E s \<and> stops_ok s" for E held owners
proof unfold_locales
  fix s t assume s: "lc_system_ok held owners E s \<and> stops_ok s" and step: "lc_step E s t"
  have "stops_ok t"
    by (rule view_step [OF step stop_view.view_invariant_axioms]) (use s in \<open>auto simp: stops_ok_def port_log_def\<close>)
  with lc_step_launches [OF step] s show "lc_system_ok held owners E t \<and> stops_ok t" by blast
qed

end
