(* ===== verification/Process_Lifecycle_Capacity.thy ===== *)
theory Process_Lifecycle_Capacity
  imports Process_Lifecycle_Invariants
begin

text \<open>
  The order of operations and the process capacity. Operations carry distinct, nonzero sequence
  numbers, so the current operation of an instance is the non-rejected one with the largest sequence;
  the instances that hold a process slot stay within the configured number of processes.
\<close>

section \<open>Sequence numbers\<close>

definition sequenced :: "('c, 'p, 's, 'f) process_lifecycle \<Rightarrow> bool" where
  "sequenced s \<longleftrightarrow> keyed op_key (plc_records s) \<and> keyed own_instance_id (plc_ownership s)
     \<and> (\<forall>k p. bm_get (plc_records s) k = Some p \<longrightarrow> 0 < lop_sequence p \<and> lop_sequence p \<le> plc_next_sequence s)
     \<and> (\<forall>k l p q. bm_get (plc_records s) k = Some p \<longrightarrow> bm_get (plc_records s) l = Some q \<longrightarrow>
          lop_sequence p = lop_sequence q \<longrightarrow> k = l)"

definition newest :: "('c, 'p, 's, 'f) process_lifecycle \<Rightarrow> lifecycle_operation \<Rightarrow> bool" where
  "newest s p \<longleftrightarrow> (\<forall>q \<in> set (bm_values (plc_records s)).
     lop_instance_id q = lop_instance_id p \<and> lop_state q \<noteq> OpRejected \<longrightarrow> lop_sequence q \<le> lop_sequence p)"

lemma sequenced_facts:
  assumes "sequenced s"
  shows "bm_get (plc_records s) k = Some p \<Longrightarrow> op_key p = k"
    and "bm_get (plc_records s) k = Some p \<Longrightarrow> lop_sequence p \<noteq> 0"
    and "bm_get (plc_records s) k = Some p \<Longrightarrow> lop_sequence p \<le> plc_next_sequence s"
    and "bm_get (plc_records s) k = Some p \<Longrightarrow> bm_get (plc_records s) l = Some q \<Longrightarrow> lop_sequence p = lop_sequence q \<Longrightarrow> p = q"
proof -
  note a = assms [unfolded sequenced_def keyed_def]
  show "bm_get (plc_records s) k = Some p \<Longrightarrow> op_key p = k" using a by blast
  show "bm_get (plc_records s) k = Some p \<Longrightarrow> lop_sequence p \<noteq> 0" using a by (metis less_irrefl)
  show "bm_get (plc_records s) k = Some p \<Longrightarrow> lop_sequence p \<le> plc_next_sequence s" using a by blast
  show "bm_get (plc_records s) k = Some p \<Longrightarrow> bm_get (plc_records s) l = Some q \<Longrightarrow> lop_sequence p = lop_sequence q \<Longrightarrow> p = q"
    using a by (metis option.inject)
qed

lemma newest_iff:
  assumes "sequenced s"
  shows "newest s p \<longleftrightarrow> (\<forall>oid q. bm_get (plc_records s) (lop_instance_id p, oid) = Some q \<longrightarrow> lop_state q \<noteq> OpRejected \<longrightarrow>
    lop_sequence q \<le> lop_sequence p)"
proof -
  have "(q \<in> set (bm_values (plc_records s)) \<and> lop_instance_id q = lop_instance_id p) =
      (\<exists>oid. bm_get (plc_records s) (lop_instance_id p, oid) = Some q)" for q
    using sequenced_facts(1) [OF assms] unfolding set_bm_values by (metis prod.inject)
  then show ?thesis unfolding newest_def by blast
qed

lemma order_sequence:
  assumes "lop_sequence p \<noteq> 0" and "lop_sequence q \<noteq> 0"
  shows "operation_order p < operation_order q \<longleftrightarrow>
      lop_sequence p < lop_sequence q \<or> lop_sequence p = lop_sequence q \<and> lop_operation_id p < lop_operation_id q"
    and "operation_order p \<le> operation_order q \<longleftrightarrow>
      lop_sequence p < lop_sequence q \<or> lop_sequence p = lop_sequence q \<and> lop_operation_id p \<le> lop_operation_id q"
  using assms by (auto simp: operation_order_def)

lemma candidates_iff:
  assumes "sequenced s"
  shows "q \<in> set (filter (\<lambda>p. lop_state p \<noteq> OpRejected) (records_of s i)) \<longleftrightarrow>
    bm_get (plc_records s) (op_key q) = Some q \<and> lop_instance_id q = i \<and> lop_state q \<noteq> OpRejected"
  using sequenced_facts(1) [OF assms] by (auto simp: records_of_def set_bm_values)

lemma latest_iff:
  assumes "sequenced s"
  shows "latest_authoritative_record s i = Some p \<longleftrightarrow>
    bm_get (plc_records s) (op_key p) = Some p \<and> lop_instance_id p = i \<and> lop_state p \<noteq> OpRejected \<and> newest s p"
proof
  note facts = sequenced_facts [OF assms] and cand = candidates_iff [OF assms]
  assume "latest_authoritative_record s i = Some p"
  from max_by_key_Some [OF this [unfolded latest_authoritative_record_def]]
  have p: "p \<in> set (filter (\<lambda>p. lop_state p \<noteq> OpRejected) (records_of s i))"
    and le: "\<And>q. q \<in> set (filter (\<lambda>p. lop_state p \<noteq> OpRejected) (records_of s i)) \<Longrightarrow> operation_order q \<le> operation_order p"
    by auto
  have "newest s p"
    unfolding newest_iff [OF assms]
  proof (intro allI impI)
    fix oid q assume q: "bm_get (plc_records s) (lop_instance_id p, oid) = Some q" "lop_state q \<noteq> OpRejected"
    then have "q \<in> set (filter (\<lambda>p. lop_state p \<noteq> OpRejected) (records_of s i))"
      using p facts(1) [OF q(1)] by (simp only: cand) auto
    from le [OF this] order_sequence(2) [OF facts(2) [OF q(1)] facts(2)] p show "lop_sequence q \<le> lop_sequence p"
      unfolding cand by auto
  qed
  with p show "bm_get (plc_records s) (op_key p) = Some p \<and> lop_instance_id p = i \<and> lop_state p \<noteq> OpRejected \<and> newest s p"
    unfolding cand by blast
next
  note facts = sequenced_facts [OF assms] and cand = candidates_iff [OF assms]
  assume p: "bm_get (plc_records s) (op_key p) = Some p \<and> lop_instance_id p = i \<and> lop_state p \<noteq> OpRejected \<and> newest s p"
  show "latest_authoritative_record s i = Some p"
    unfolding latest_authoritative_record_def
  proof (rule max_by_key_unique)
    show "p \<in> set (filter (\<lambda>p. lop_state p \<noteq> OpRejected) (records_of s i))" unfolding cand using p by blast
    fix q assume "q \<in> set (filter (\<lambda>p. lop_state p \<noteq> OpRejected) (records_of s i))" and ne: "q \<noteq> p"
    then have q: "bm_get (plc_records s) (op_key q) = Some q" "lop_instance_id q = i" "lop_state q \<noteq> OpRejected"
      unfolding cand by auto
    then have "lop_sequence q \<le> lop_sequence p" using p unfolding newest_iff [OF assms] by auto
    moreover have "lop_sequence q \<noteq> lop_sequence p" using ne facts(4) [OF q(1)] p by blast
    ultimately show "operation_order q < operation_order p"
      using order_sequence(1) [OF facts(2) [OF q(1)] facts(2)] p by auto
  qed
qed

text \<open>The order of the source against the specification: current means newest.\<close>

lemma current_iff:
  assumes "sequenced s" and "bm_get (plc_records s) (op_key p) = Some p" and "lop_state p \<noteq> OpRejected"
  shows "operation_is_current s p \<longleftrightarrow> newest s p"
proof -
  note facts = sequenced_facts [OF assms(1)] and cand = candidates_iff [OF assms(1)]
  let ?xs = "filter (\<lambda>c. lop_state c \<noteq> OpRejected) (records_of s (lop_instance_id p))"
  let ?f = "\<lambda>c. if lop_sequence p = 0 \<or> lop_sequence c = 0 then (0, lop_operation_id c, 0) else operation_order c"
  have p: "p \<in> set ?xs" unfolding cand using assms by blast
  then have "max_by_key ?f ?xs \<noteq> None" unfolding max_by_key_None by (metis empty_iff list.set(1))
  then obtain q where q: "max_by_key ?f ?xs = Some q" by blast
  have stored: "bm_get (plc_records s) (op_key c) = Some c" if "c \<in> set ?xs" for c using that unfolding cand by blast
  have "?f c = operation_order c" if "c \<in> set ?xs" for c
    using facts(2) [OF stored [OF that]] facts(2) [OF assms(2)] by simp
  then have le: "operation_order c \<le> operation_order q" if "c \<in> set ?xs" for c
    using max_by_key_Some [OF q] that by auto
  have qx: "q \<in> set ?xs" using max_by_key_Some [OF q] by blast
  have top: "newest s p" if "p = q"
    unfolding newest_iff [OF assms(1)]
  proof (intro allI impI)
    fix oid c assume c: "bm_get (plc_records s) (lop_instance_id p, oid) = Some c" "lop_state c \<noteq> OpRejected"
    then have "c \<in> set ?xs" unfolding cand using facts(1) [OF c(1)] by auto
    from le [OF this] that order_sequence(2) [OF facts(2) [OF c(1)] facts(2) [OF assms(2)]]
    show "lop_sequence c \<le> lop_sequence p" by auto
  qed
  have same: "p = q" if "newest s p"
  proof -
    have iq: "lop_instance_id q = lop_instance_id p" "lop_state q \<noteq> OpRejected" using qx unfolding cand by auto
    then have "lop_sequence q \<le> lop_sequence p" using that stored [OF qx] unfolding newest_iff [OF assms(1)] by auto
    moreover have "lop_sequence p \<le> lop_sequence q"
      using le [OF p] order_sequence(2) [OF facts(2) [OF assms(2)] facts(2) [OF stored [OF qx]]] by auto
    ultimately show "p = q" using facts(4) [OF assms(2) stored [OF qx]] by simp
  qed
  have "operation_is_current s p \<longleftrightarrow> p = q"
  proof
    assume "operation_is_current s p"
    then have "lop_operation_id p = lop_operation_id q" unfolding operation_is_current_def q by simp
    moreover have "lop_instance_id q = lop_instance_id p" using qx unfolding cand by blast
    ultimately show "p = q" using stored [OF qx] assms(2) by simp
  next
    assume "p = q"
    then show "operation_is_current s p" unfolding operation_is_current_def q by simp
  qed
  with top same show ?thesis by blast
qed

lemma current_rejected:
  assumes "sequenced s" and "bm_get (plc_records s) (op_key p) = Some p" and "lop_state p = OpRejected"
  shows "operation_is_current s p \<longleftrightarrow> (\<forall>x \<in> set (bm_values (plc_records s)).
    lop_instance_id x = lop_instance_id p \<longrightarrow> lop_state x = OpRejected)"
proof -
  let ?xs = "filter (\<lambda>c. lop_state c \<noteq> OpRejected) (records_of s (lop_instance_id p))"
  let ?f = "\<lambda>c. if lop_sequence p = 0 \<or> lop_sequence c = 0 then (0, lop_operation_id c, 0) else operation_order c"
  have empty: "?xs = [] \<longleftrightarrow> (\<forall>x \<in> set (bm_values (plc_records s)).
      lop_instance_id x = lop_instance_id p \<longrightarrow> lop_state x = OpRejected)"
    by (auto simp: records_of_def filter_empty_conv)
  show ?thesis
  proof (cases "max_by_key ?f ?xs")
    case None
    then have "?xs = []" unfolding max_by_key_None .
    with None empty show ?thesis unfolding operation_is_current_def by simp
  next
    case (Some q)
    have q: "q \<in> set ?xs" using max_by_key_Some [OF Some] by blast
    then have "bm_get (plc_records s) (op_key q) = Some q" "lop_instance_id q = lop_instance_id p" "q \<noteq> p"
      using assms(3) unfolding candidates_iff [OF assms(1)] by auto
    then have "lop_operation_id p \<noteq> lop_operation_id q" using assms(2) by auto
    then have "\<not> operation_is_current s p" unfolding operation_is_current_def Some by simp
    moreover have "?xs \<noteq> []" using q by (metis empty_iff list.set(1))
    ultimately show ?thesis using empty by blast
  qed
qed

section \<open>Process slots\<close>

text \<open>The instances that hold a process slot: owned ones and those whose latest operation is active.\<close>

definition occupied :: "('c, 'p, 's, 'f) process_lifecycle \<Rightarrow> instance_id set" where
  "occupied s = {i. bm_get (plc_ownership s) i \<noteq> None} \<union> {i. active_instance s i}"

lemma active_instance_iff:
  assumes "sequenced s"
  shows "active_instance s i \<longleftrightarrow> (\<exists>p. bm_get (plc_records s) (op_key p) = Some p \<and> lop_instance_id p = i
    \<and> is_active (lop_state p) \<and> newest s p)"
proof -
  have "active_instance s i \<longleftrightarrow> (\<exists>p. latest_authoritative_record s i = Some p \<and> is_active (lop_state p))"
    by (auto simp: active_instance_def split: option.split)
  then show ?thesis unfolding latest_iff [OF assms] by (metis is_active_simps(11))
qed

lemma active_instance_record: "active_instance s i \<Longrightarrow> i \<in> lop_instance_id ` set (bm_values (plc_records s))"
  unfolding active_instance_def latest_authoritative_record_def
  by (auto split: option.splits dest!: max_by_key_Some simp: records_of_def)

lemma occupied_count_card: "occupied_count s = card (occupied s)" and finite_occupied: "finite (occupied s)"
proof -
  have "occupied s = set (bm_keys (plc_ownership s)) \<union> {i \<in> lop_instance_id ` set (bm_values (plc_records s)). active_instance s i}"
    using active_instance_record [of s] by (auto simp: occupied_def set_bm_keys)
  then show "occupied_count s = card (occupied s)" and "finite (occupied s)" by (simp_all add: occupied_count_def)
qed

lemma active_instance_cong: "plc_records t = plc_records s \<Longrightarrow> active_instance t i = active_instance s i"
  by (simp add: active_instance_def latest_authoritative_record_def records_of_def)

text \<open>An update of an active record frees a slot or leaves the slots alone.\<close>

lemma sequenced_update:
  assumes "sequenced s" and "bm_get (plc_records s) (op_key p) = Some p0" and "lop_sequence p0 = lop_sequence p"
    and "plc_records t = bm_insert (op_key p) p (plc_records s)" and "plc_ownership t = plc_ownership s"
    and "plc_next_sequence t = plc_next_sequence s"
  shows "sequenced t"
proof -
  note facts = sequenced_facts [OF assms(1)]
  have rec: "bm_get (plc_records t) k = (if k = op_key p then Some p else bm_get (plc_records s) k)" for k
    by (simp add: assms(4))
  have old: "\<exists>q0. bm_get (plc_records s) k = Some q0 \<and> lop_sequence q0 = lop_sequence q" if "bm_get (plc_records t) k = Some q" for k q
    using that assms(2,3) unfolding rec by (auto split: if_splits)
  have "keyed op_key (plc_records t)" using assms(1) unfolding sequenced_def assms(4) by (auto intro: keyed_insert)
  moreover have "0 < lop_sequence q \<and> lop_sequence q \<le> plc_next_sequence t" if "bm_get (plc_records t) k = Some q" for k q
    using old [OF that] assms(1,6) unfolding sequenced_def by metis
  moreover have "k = l" if "bm_get (plc_records t) k = Some q" "bm_get (plc_records t) l = Some r" "lop_sequence q = lop_sequence r"
    for k l q r
    using old [OF that(1)] old [OF that(2)] that(3) assms(1) unfolding sequenced_def by metis
  moreover have "keyed own_instance_id (plc_ownership t)" using assms(1,5) by (simp add: sequenced_def)
  ultimately show ?thesis unfolding sequenced_def by blast
qed

lemma newest_update:
  assumes "sequenced s" and "sequenced t" and "bm_get (plc_records s) (op_key p) = Some p0"
    and "lop_sequence p0 = lop_sequence p" and "is_active (lop_state p0)"
    and "plc_records t = bm_insert (op_key p) p (plc_records s)"
    and "newest t q" and "bm_get (plc_records t) (op_key q) = Some q" and "is_active (lop_state q)"
  shows "active_instance s (lop_instance_id q)"
proof -
  have rec: "bm_get (plc_records t) k = (if k = op_key p then Some p else bm_get (plc_records s) k)" for k
    by (simp add: assms(6))
  have p0: "op_key p0 = op_key p" using sequenced_facts(1) [OF assms(1,3)] .
  have nt: "lop_sequence r \<le> lop_sequence q" if "bm_get (plc_records t) (lop_instance_id q, oid) = Some r" "lop_state r \<noteq> OpRejected" for oid r
    using assms(7) that unfolding newest_iff [OF assms(2)] by blast
  show ?thesis
  proof (cases "lop_instance_id q = lop_instance_id p \<and> newest s p0")
    case True
    with assms(3,5) p0 show ?thesis unfolding active_instance_iff [OF assms(1)] by (intro exI [of _ p0]) simp
  next
    case False
    show ?thesis
    proof (cases "op_key q = op_key p")
      case True
      then have qp: "q = p" using assms(8) unfolding rec by simp
      have "newest s p0" unfolding newest_iff [OF assms(1)]
      proof (intro allI impI)
        fix oid r assume r: "bm_get (plc_records s) (lop_instance_id p0, oid) = Some r" "lop_state r \<noteq> OpRejected"
        show "lop_sequence r \<le> lop_sequence p0"
        proof (cases "oid = lop_operation_id p")
          case True
          with r assms(3) p0 show ?thesis by simp
        next
          case False
          with r p0 nt [of oid r] qp assms(4) show ?thesis unfolding rec by simp
        qed
      qed
      with False qp show ?thesis by simp
    next
      case ne: False
      have stored: "bm_get (plc_records s) (op_key q) = Some q" using assms(8) ne unfolding rec by (simp split: if_splits)
      have "newest s q" unfolding newest_iff [OF assms(1)]
      proof (intro allI impI)
        fix oid r assume r: "bm_get (plc_records s) (lop_instance_id q, oid) = Some r" "lop_state r \<noteq> OpRejected"
        show "lop_sequence r \<le> lop_sequence q"
        proof (cases "(lop_instance_id q, oid) = op_key p")
          case False
          with r(1) have "bm_get (plc_records t) (lop_instance_id q, oid) = Some r" by (simp only: rec if_False)
          from nt [OF this r(2)] show ?thesis .
        next
          case True
          then have "r = p0" "lop_instance_id q = lop_instance_id p" using r assms(3) by auto
          with \<open>\<not> (_ \<and> newest s p0)\<close> obtain o' r' where r': "bm_get (plc_records s) (lop_instance_id p0, o') = Some r'"
              "lop_state r' \<noteq> OpRejected" "\<not> lop_sequence r' \<le> lop_sequence p0"
            unfolding newest_iff [OF assms(1)] by blast
          then have "o' \<noteq> lop_operation_id p" using assms(3) p0 by auto
          then have "lop_sequence r' \<le> lop_sequence q"
            using nt [of o' r'] r' p0 \<open>lop_instance_id q = lop_instance_id p\<close> unfolding rec by simp
          with r'(3) \<open>r = p0\<close> show ?thesis by simp
        qed
      qed
      with stored assms(9) show ?thesis unfolding active_instance_iff [OF assms(1)] by blast
    qed
  qed
qed

section \<open>The capacity invariant\<close>

definition capacity_ok :: "nat \<Rightarrow> ('c, 'p, 's, 'f) process_lifecycle \<Rightarrow> bool" where
  "capacity_ok B s \<longleftrightarrow> sequenced s \<and> plc_max_processes (plc_config s) \<le> B \<and> card (occupied s) \<le> B"

definition capacity_work :: "nat \<Rightarrow> lifecycle_operation \<Rightarrow> ('c, 'p, 's, 'f) process_lifecycle \<Rightarrow> bool" where
  "capacity_work B p s \<longleftrightarrow> capacity_ok B s \<and> lop_instance_id p \<in> occupied s
     \<and> (\<exists>p0. bm_get (plc_records s) (op_key p) = Some p0 \<and> lop_sequence p0 = lop_sequence p \<and> is_active (lop_state p0))"

text \<open>States that agree on everything the invariant reads, up to freed slots.\<close>

definition no_more_slots :: "('c, 'p, 's, 'f) process_lifecycle \<Rightarrow> ('c, 'p, 's, 'f) process_lifecycle \<Rightarrow> bool" where
  "no_more_slots s t \<longleftrightarrow> plc_config t = plc_config s \<and> occupied t \<subseteq> occupied s"

lemma capacity_less:
  assumes "capacity_ok B s" and "sequenced t" and "no_more_slots s t"
  shows "capacity_ok B t"
  using assms card_mono [OF finite_occupied [of s], of "occupied t"] by (simp add: capacity_ok_def no_more_slots_def)

definition same_slots :: "('c, 'p, 's, 'f) process_lifecycle \<Rightarrow> ('c, 'p, 's, 'f) process_lifecycle \<Rightarrow> bool" where
  "same_slots s t \<longleftrightarrow> plc_config t = plc_config s \<and> plc_records t = plc_records s \<and> plc_ownership t = plc_ownership s
     \<and> plc_next_sequence t = plc_next_sequence s"

lemma capacity_same:
  assumes "same_slots s t"
  shows "capacity_ok B s \<Longrightarrow> capacity_ok B t" and "capacity_work B p s \<Longrightarrow> capacity_work B p t"
proof -
  have *: "sequenced t = sequenced s" "occupied t = occupied s"
    using assms active_instance_cong [of t s] by (simp_all add: sequenced_def occupied_def same_slots_def)
  then show "capacity_ok B s \<Longrightarrow> capacity_ok B t" and "capacity_work B p s \<Longrightarrow> capacity_work B p t"
    using assms by (simp_all add: capacity_ok_def capacity_work_def same_slots_def)
qed

lemma same_slots_calls:
  "observed E s t \<Longrightarrow> same_slots s t" "call_stop E h mode s = (r, t) \<Longrightarrow> same_slots s t"
  "call_start_generation E g spec profile s = (r', t) \<Longrightarrow> same_slots s t"
  "persist_update E p s = (Inl e, t) \<Longrightarrow> same_slots s t" "persist_ownership E w s = (Inl e, t) \<Longrightarrow> same_slots s t"
  "persist_insert E p s = (Inl e, t) \<Longrightarrow> same_slots s t"
  by (auto simp: same_slots_def persist_ownership_def persist_insert_def
      dest!: observed_only call_only_process persist_update_Inl split: prod.splits sum.splits if_splits)

lemma same_slots_fenced [simp]: "same_slots s (fenced p e s)" "same_slots s (s\<lparr>plc_clock := c, plc_fence := f\<rparr>)"
  by (simp_all add: same_slots_def)

lemma occupied_update:
  assumes "sequenced s" and "sequenced t" and "bm_get (plc_records s) (op_key p) = Some p0"
    and "lop_sequence p0 = lop_sequence p" and "is_active (lop_state p0)"
    and "plc_records t = bm_insert (op_key p) p (plc_records s)" and "plc_ownership t = plc_ownership s"
  shows "occupied t \<subseteq> occupied s"
    and "is_active (lop_state p) \<Longrightarrow> lop_instance_id p \<in> occupied s \<Longrightarrow> lop_instance_id p \<in> occupied t"
proof -
  note up = newest_update [OF assms(1-6)]
  have "active_instance s j" if "active_instance t j" for j
    using that up unfolding active_instance_iff [OF assms(2)] by auto
  with assms(7) show "occupied t \<subseteq> occupied s" by (auto simp: occupied_def)
  assume act: "is_active (lop_state p)" and i: "lop_instance_id p \<in> occupied s"
  have keep: "active_instance t (lop_instance_id p)" if a: "active_instance s (lop_instance_id p)"
  proof -
    obtain q where q: "bm_get (plc_records s) (op_key q) = Some q" "lop_instance_id q = lop_instance_id p"
        "is_active (lop_state q)" "newest s q"
      using a unfolding active_instance_iff [OF assms(1)] by blast
    define q' where "q' = (if op_key q = op_key p then p else q)"
    have p0: "op_key p0 = op_key p" using sequenced_facts(1) [OF assms(1,3)] .
    have rec: "bm_get (plc_records t) k = (if k = op_key p then Some p else bm_get (plc_records s) k)" for k
      by (simp add: assms(6))
    have sq: "lop_sequence q' = lop_sequence q" using q(1) assms(3,4) by (auto simp: q'_def)
    have le: "lop_sequence r \<le> lop_sequence q" if "bm_get (plc_records t) (lop_instance_id q, oid) = Some r" "lop_state r \<noteq> OpRejected" for oid r
    proof (cases "(lop_instance_id q, oid) = op_key p")
      case True
      have "lop_state p0 \<noteq> OpRejected" using assms(5) by (metis is_active_simps(11))
      then have "lop_sequence p0 \<le> lop_sequence q"
        using q(4) True assms(3) unfolding newest_iff [OF assms(1)] by simp
      with that True assms(4) show ?thesis unfolding rec by simp
    next
      case False
      with that(1) have "bm_get (plc_records s) (lop_instance_id q, oid) = Some r" by (simp only: rec if_False)
      with that(2) q(4) show ?thesis unfolding newest_iff [OF assms(1)] by blast
    qed
    have "newest t q'" unfolding newest_iff [OF assms(2)] using le sq q(2) by (auto simp: q'_def split: if_splits)
    moreover have "bm_get (plc_records t) (op_key q') = Some q'" using q(1) unfolding rec by (auto simp: q'_def)
    moreover have "lop_instance_id q' = lop_instance_id p" "is_active (lop_state q')" using q act by (simp_all add: q'_def)
    ultimately show ?thesis unfolding active_instance_iff [OF assms(2)] by blast
  qed
  with i assms(7) show "lop_instance_id p \<in> occupied t" by (auto simp: occupied_def)
qed

lemma capacity_update:
  assumes "capacity_ok B s" and "bm_get (plc_records s) (op_key p) = Some p0" and "lop_sequence p0 = lop_sequence p"
    and "is_active (lop_state p0)" and "persist_update E p s = (r, t)"
  shows "capacity_ok B t" and "r = Inr () \<Longrightarrow> is_active (lop_state p) \<Longrightarrow> lop_instance_id p \<in> occupied s \<Longrightarrow> capacity_work B p t"
proof -
  have "capacity_ok B t \<and> (r = Inr () \<longrightarrow> is_active (lop_state p) \<longrightarrow> lop_instance_id p \<in> occupied s \<longrightarrow> capacity_work B p t)"
  proof (cases r)
    case (Inl e)
    with assms(1,5) capacity_same(1) [OF same_slots_calls(4)] show ?thesis by auto
  next
    case (Inr u)
    with assms(5) obtain x where t: "t = s\<lparr>plc_store := x, plc_records := bm_insert (op_key p) p (plc_records s)\<rparr>"
      using persist_update_Inr [of E p s t] by auto
    have sq: "sequenced s" using assms(1) by (simp add: capacity_ok_def)
    have sqt: "sequenced t" by (rule sequenced_update [OF sq assms(2,3)]) (simp_all add: t)
    note occ = occupied_update [OF sq sqt assms(2-4)]
    have "no_more_slots s t" using occ(1) by (simp add: t no_more_slots_def)
    from capacity_less [OF assms(1) sqt this] occ(2) show ?thesis by (auto simp: capacity_work_def t)
  qed
  then show "capacity_ok B t" and "r = Inr () \<Longrightarrow> is_active (lop_state p) \<Longrightarrow> lop_instance_id p \<in> occupied s \<Longrightarrow> capacity_work B p t"
    by simp_all
qed

text \<open>Ownership rows, restarts and admissions.\<close>

lemma capacity_own:
  assumes "capacity_work B p s" and "own_instance_id w = lop_instance_id p" and "persist_ownership E w s = (Inr (), t)"
  shows "capacity_work B p t"
proof -
  from assms(3) have t: "plc_config t = plc_config s" "plc_records t = plc_records s"
      "plc_ownership t = bm_insert (own_instance_id w) w (plc_ownership s)" "plc_next_sequence s \<le> plc_next_sequence t"
    by (auto simp: persist_ownership_def split: prod.splits sum.splits)
  have occ: "occupied t = occupied s"
    using assms(1,2) t active_instance_cong [OF t(2)] by (auto simp: occupied_def capacity_work_def)
  have "keyed own_instance_id (plc_ownership t)"
    using assms(1) unfolding t(3) by (auto simp: capacity_work_def capacity_ok_def sequenced_def intro: keyed_insert)
  moreover have "sequenced s" using assms(1) by (simp add: capacity_work_def capacity_ok_def)
  ultimately have "sequenced t"
    using t(2) order_trans [OF _ t(4)] unfolding sequenced_def by auto
  with assms(1) occ t show ?thesis by (simp add: capacity_work_def capacity_ok_def)
qed

lemma capacity_clear:
  assumes "capacity_ok B s" and "clear_owned E i s = (r, t)"
  shows "capacity_ok B t"
proof -
  from assms(2) have t: "plc_config t = plc_config s" "plc_records t = plc_records s" "plc_next_sequence t = plc_next_sequence s"
      "plc_ownership t = plc_ownership s \<or> plc_ownership t = bm_remove i (plc_ownership s)"
    by (auto simp: clear_owned_def split: option.splits prod.splits sum.splits)
  then have "no_more_slots s t"
    using active_instance_cong [OF t(2)] by (auto simp: no_more_slots_def occupied_def split: if_splits)
  moreover have "keyed own_instance_id (plc_ownership t)"
    using assms(1) t(4) by (auto simp: capacity_ok_def sequenced_def keyed_def split: if_splits)
  then have "sequenced t" using assms(1) t unfolding capacity_ok_def sequenced_def by simp
  ultimately show ?thesis using capacity_less [OF assms(1)] by blast
qed

lemma capacity_work_update:
  assumes "capacity_work B p s" and "persist_update E p s = (r, t)"
  shows "capacity_ok B t" and "r = Inr () \<Longrightarrow> is_active (lop_state p) \<Longrightarrow> capacity_work B p t"
  using assms capacity_update [of B s p _ E r t] by (auto simp: capacity_work_def [of B p s])

lemma capacity_restarting:
  assumes "capacity_work B p s" shows "capacity_work B (restarting p d e) (fenced p e s)"
  using capacity_same(2) [OF same_slots_fenced(1) assms, of p e] by (simp add: capacity_work_def)

lemma capacity_begin:
  assumes "capacity_work B p s" and "begin_restart E p d s = (r, t)"
  shows "capacity_ok B t \<and> (\<forall>q. r = Inr q \<longrightarrow> capacity_work B q t)"
  using assms(2)
proof (cases rule: begin_restart_cases)
  case (refused e)
  with assms(1) show ?thesis by (simp add: capacity_work_def)
next
  case (unsaved e err u)
  have "capacity_ok B u" by (rule capacity_work_update(1) [OF capacity_restarting [OF assms(1)] unsaved(3)])
  with capacity_same(1) [OF same_slots_fenced(1)] unsaved(4,5) show ?thesis by simp
next
  case (saved e u)
  from capacity_work_update(1) [OF capacity_restarting [OF assms(1)] saved(3)] saved(5,6) show ?thesis by simp
next
  case (begun e u i)
  have u: "capacity_work B (restarting p d e) u"
    by (rule capacity_work_update(2) [OF capacity_restarting [OF assms(1)] begun(3) refl]) simp
  from begun(5) show ?thesis
  proof (cases rule: and_try_cases)
    case (1 x)
    then have "capacity_ok B t"
      using u capacity_same(1) [OF same_slots_calls(5)] by (auto simp: reserve_ownership_def capacity_work_def split: if_splits)
    with 1 show ?thesis by simp
  next
    case (2 a v)
    then have "capacity_work B (restarting p d e) v"
      using u capacity_own [OF u _, of "owner_row (restarting p d e) i (lop_process (restarting p d e))" E v]
      by (auto simp: reserve_ownership_def owner_row_def split: if_splits)
    with 2 show ?thesis by (auto simp: capacity_work_def)
  qed
qed

lemma capacity_enter:
  assumes "capacity_ok B s" and "bm_get (plc_records s) (op_key p) = Some p" and "is_active (lop_state p)"
    and "operation_is_current s p"
  shows "capacity_work B p s"
proof -
  have sq: "sequenced s" using assms(1) by (simp add: capacity_ok_def)
  have "lop_state p \<noteq> OpRejected" using assms(3) by (metis is_active_simps(11))
  with current_iff [OF sq assms(2)] assms(4) have "newest s p" by simp
  then have "active_instance s (lop_instance_id p)" using active_instance_iff [OF sq] assms(2,3) by blast
  with assms show ?thesis by (auto simp: capacity_work_def occupied_def)
qed

lemma latest_authorized_occupied: "latest_authorized s i = Some p \<Longrightarrow> i \<in> occupied s"
  by (auto simp: latest_authorized_def latest_authorized_excluding_def Let_def occupied_def bm_has_def active_instance_def
      only_if_def split: if_splits option.splits)

lemma admissible_room:
  assumes "admissible r s"
  shows "card (insert (lrq_instance_id r) (occupied s)) \<le> max (card (occupied s)) (plc_max_processes (plc_config s))"
proof (cases "\<exists>i. lrq_action r = LaunchNew i")
  case True
  then have "card (occupied s) < plc_max_processes (plc_config s)"
    using assms by (auto simp: admissible_def reserve_action_def and_then_def ensure_def occupied_count_card split: if_splits)
  then show ?thesis using card_insert_le_m1 [of "Suc (card (occupied s))" "occupied s"] finite_occupied [of s]
    by (auto simp: card_insert_if)
next
  case False
  then have "\<exists>p. latest_authorized s (lrq_instance_id r) = Some p"
    using assms by (auto simp: admissible_def reserve_action_def split: lifecycle_action.splits option.splits)
  then have "lrq_instance_id r \<in> occupied s" using latest_authorized_occupied by blast
  then show ?thesis by (simp add: insert_absorb)
qed

lemma capacity_sequence:
  assumes "capacity_ok B s" and "issue_sequence s = (r, t)"
  shows "capacity_ok B t"
proof -
  from assms(2) have t: "plc_config t = plc_config s" "plc_records t = plc_records s" "plc_ownership t = plc_ownership s"
      "plc_next_sequence s \<le> plc_next_sequence t"
    by (auto simp: issue_sequence_def dest: checked_add_u64_less split: option.splits)
  have "occupied t = occupied s" using active_instance_cong [OF t(2)] t(3) by (simp add: occupied_def)
  moreover have "sequenced t"
    using assms(1) t(2,3) order_trans [OF _ t(4)] unfolding capacity_ok_def sequenced_def by auto
  ultimately show ?thesis using assms(1) t(1) by (simp add: capacity_ok_def)
qed

lemma capacity_admit:
  assumes "capacity_ok B s" and "admissible r s" and "issue_sequence s = (Inr n, u)"
    and "persist_insert E (admitted r n) u = (Inr (), t)"
  shows "capacity_work B (admitted r n) t"
proof -
  let ?p = "admitted r n" and ?i = "lrq_instance_id r"
  from assms(3) have n: "plc_next_sequence s < n" "u = s\<lparr>plc_next_sequence := n\<rparr>"
    by (auto simp: issue_sequence_def dest: checked_add_u64_less split: option.splits)
  from persist_insert_Inr [OF assms(4)] n(2) have t: "plc_config t = plc_config s" "plc_ownership t = plc_ownership s"
      "plc_next_sequence t = n" "plc_records t = bm_insert (op_key ?p) ?p (plc_records s)" by auto
  have sq: "sequenced s" using assms(1) by (simp add: capacity_ok_def)
  note facts = sequenced_facts [OF sq]
  have rec: "bm_get (plc_records t) k = (if k = op_key ?p then Some ?p else bm_get (plc_records s) k)" for k
    by (simp add: t(4))
  have fresh: "lop_sequence q < n" if "bm_get (plc_records s) k = Some q" for k q
    using facts(3) [OF that] n(1) by simp
  have "sequenced t"
    unfolding sequenced_def
  proof (intro conjI allI impI)
    show "keyed op_key (plc_records t)" using sq unfolding t(4) sequenced_def by (auto intro: keyed_insert)
    show "keyed own_instance_id (plc_ownership t)" using sq t(2) by (simp add: sequenced_def)
    fix k q assume q: "bm_get (plc_records t) k = Some q"
    have "lop_sequence q = n \<or> lop_sequence q \<noteq> 0 \<and> lop_sequence q < n"
      using q fresh [of k q] facts(2) [of k q] unfolding rec by (auto split: if_splits)
    moreover have "n \<noteq> 0" using n(1) by auto
    ultimately show "0 < lop_sequence q" and "lop_sequence q \<le> plc_next_sequence t"
      unfolding t(3) by (auto simp: word_gt_0)
    have key: "k = op_key ?p \<and> lop_sequence q = n \<or> bm_get (plc_records s) k = Some q \<and> lop_sequence q \<noteq> n"
      if "bm_get (plc_records t) k = Some q" for k q
      using that fresh [of k q] unfolding rec by (auto split: if_splits)
    fix l q' assume "bm_get (plc_records t) l = Some q'" "lop_sequence q = lop_sequence q'"
    with key [OF q] key [of l q'] sq show "k = l" unfolding sequenced_def by metis
  qed
  moreover have "newest t ?p" unfolding newest_iff [OF \<open>sequenced t\<close>] rec using fresh by (auto split: if_splits intro: less_imp_le)
  then have "active_instance t ?i"
    unfolding active_instance_iff [OF \<open>sequenced t\<close>] by (intro exI [of _ ?p]) (simp add: rec)
  moreover have "active_instance s j" if "active_instance t j" "j \<noteq> ?i" for j
  proof -
    obtain q where q: "bm_get (plc_records t) (op_key q) = Some q" "lop_instance_id q = j" "is_active (lop_state q)" "newest t q"
      using \<open>active_instance t j\<close> unfolding active_instance_iff [OF \<open>sequenced t\<close>] by blast
    then have "newest s q" using \<open>j \<noteq> ?i\<close> unfolding newest_iff [OF sq] newest_iff [OF \<open>sequenced t\<close>] rec by auto
    with q \<open>j \<noteq> ?i\<close> show ?thesis unfolding active_instance_iff [OF sq] rec by auto
  qed
  then have "occupied t \<subseteq> insert ?i (occupied s)" by (auto simp: occupied_def t(2))
  then have "card (occupied t) \<le> card (insert ?i (occupied s))" by (intro card_mono) (simp_all add: finite_occupied)
  moreover note admissible_room [OF assms(2)]
  ultimately show ?thesis using assms(1) t(1)
    by (auto simp: capacity_work_def capacity_ok_def occupied_def rec)
qed

interpretation capacity: lifecycle_service E "capacity_ok B" "capacity_work B" "\<lambda>_ _. True" "\<lambda>_. True"
  for E :: "('c, 'p, 's, 'f) lifecycle_env" and B
proof unfold_locales
  fix s t u :: "('c, 'p, 's, 'f) process_lifecycle" and p q
  show work: "capacity_work B p s \<Longrightarrow> capacity_ok B s" for p s by (simp add: capacity_work_def)
  show "capacity_work B p s \<Longrightarrow> same_origin p q \<Longrightarrow> capacity_work B q s"
    by (auto simp: capacity_work_def same_origin_def)
  show "capacity_work B p s \<Longrightarrow> observed E s t \<Longrightarrow> capacity_work B p t"
    by (rule capacity_same(2) [OF same_slots_calls(1)])
  show "capacity_work B p s \<Longrightarrow> call_stop E h mode s = (stopped, t) \<Longrightarrow> capacity_work B p t" for h mode stopped
    by (rule capacity_same(2) [OF same_slots_calls(2)])
  show "capacity_work B p s \<Longrightarrow> call_start_generation E g spec profile s = (launched, t) \<Longrightarrow> capacity_work B p t"
    for g spec profile launched by (rule capacity_same(2) [OF same_slots_calls(3)])
  show "capacity_work B p s \<Longrightarrow> is_active (lop_state p) \<Longrightarrow> persist_update E p s = (Inr (), t) \<Longrightarrow> capacity_work B p t"
    by (rule capacity_work_update(2) [OF _ _ refl])
  show "capacity_work B p s \<Longrightarrow> persist_update E p s = (r, t) \<Longrightarrow> capacity_ok B t" for r
    by (rule capacity_work_update(1))
  show "capacity_work B p s \<Longrightarrow> w = owner_row p i proc \<or> (\<exists>w0. bm_get (plc_ownership s) (lop_instance_id p) = Some w0
        \<and> w = w0\<lparr>own_process := proc\<rparr>) \<Longrightarrow> persist_ownership E w s = (Inr (), t) \<Longrightarrow> capacity_work B p t" for w i proc
  proof (rule capacity_own)
    assume s: "capacity_work B p s" and "w = owner_row p i proc \<or> (\<exists>w0. bm_get (plc_ownership s) (lop_instance_id p) = Some w0
        \<and> w = w0\<lparr>own_process := proc\<rparr>)"
    then show "own_instance_id w = lop_instance_id p"
      by (auto simp: owner_row_def capacity_work_def capacity_ok_def sequenced_def keyed_def)
  qed
  show "capacity_work B p s \<Longrightarrow> persist_ownership E w s = (Inl e, t) \<Longrightarrow> capacity_ok B t" for w e
    by (rule capacity_same(1) [OF same_slots_calls(5) work])
  show "capacity_ok B s \<Longrightarrow> clear_owned E j s = (r, t) \<Longrightarrow> capacity_ok B t" for j r by (rule capacity_clear)
  show "capacity_work B p s \<Longrightarrow> begin_restart E p d s = (Inr q, t) \<Longrightarrow> capacity_work B q t" for d
    using capacity_begin by blast
  show "capacity_work B p s \<Longrightarrow> begin_restart E p d s = (Inl e, t) \<Longrightarrow> capacity_ok B t" for d e
    using capacity_begin by blast
  show "capacity_ok B s \<Longrightarrow> bm_get (plc_records s) (op_key p) = Some p \<Longrightarrow> is_active (lop_state p) \<Longrightarrow>
      operation_is_current s p \<Longrightarrow> capacity_work B p s" by (rule capacity_enter)
  show "capacity_ok B s \<Longrightarrow> bm_get (plc_records s) (op_key p) = Some p \<Longrightarrow> is_active (lop_state p) \<Longrightarrow>
      persist_update E (set_state OpRejected (lop_process p) f p) s = (res, t) \<Longrightarrow> capacity_ok B t" for f res
    using capacity_update(1) [of B s "set_state OpRejected (lop_process p) f p" p E res t] by simp
  show "capacity_ok B s \<Longrightarrow> keyed op_key (plc_records s)" by (simp add: capacity_ok_def sequenced_def)
  show "capacity_ok B s \<Longrightarrow> capacity_ok B (s\<lparr>plc_clock := c, plc_fence := f\<rparr>)" for c f
    by (rule capacity_same(1) [OF same_slots_fenced(2)])
  show "capacity_ok B s \<Longrightarrow> issue_sequence s = (r1, t) \<Longrightarrow> capacity_ok B t" for r1
    by (rule capacity_sequence)
  show "capacity_ok B s \<Longrightarrow> persist_insert E (admitted r n) s = (Inl e, t) \<Longrightarrow> capacity_ok B t" for r n e
    by (rule capacity_same(1) [OF same_slots_calls(6)])
  show "capacity_ok B s \<Longrightarrow> admissible r s \<Longrightarrow> issue_sequence s = (Inr n, u) \<Longrightarrow>
      persist_insert E (admitted r n) u = (Inr (), t) \<Longrightarrow> capacity_work B (admitted r n) t" for r n
    by (rule capacity_admit)
qed simp_all

section \<open>Runs\<close>

text \<open>Start-up frees slots of stale rows and adds rows for instances that already hold a slot.\<close>

lemma load_operations_next: "fst (snd (load_operations ps (a, n, m))) = fold (\<lambda>p. max (lop_sequence p)) ps n"
  by (induction ps arbitrary: a n m) (auto simp: max.commute)

lemma fold_max_sequence: "p \<in> set ps \<Longrightarrow> lop_sequence p \<le> fold (\<lambda>p. max (lop_sequence p)) ps n"
proof (induction ps arbitrary: n)
  case (Cons q ps)
  have le: "m \<le> fold (\<lambda>p. max (lop_sequence p)) ps m" for m :: u64
    by (induction ps arbitrary: m) (auto intro: order_trans [OF max.cobounded2])
  show ?case
    using Cons order_trans [OF max.cobounded1 le, of "lop_sequence q" n] by auto
qed simp

lemma clear_stale_rows:
  "clear_stale_owners E ws s = (r, t) \<Longrightarrow> {i. bm_get (plc_ownership t) i \<noteq> None} \<subseteq> {i. bm_get (plc_ownership s) i \<noteq> None}"
  by (induction ws arbitrary: s) (fastforce split: prod.splits sum.splits if_splits)+

lemma clear_stale_records: "clear_stale_owners E ws s = (r, t) \<Longrightarrow> plc_records t = plc_records s"
  by (induction ws arbitrary: s) (fastforce split: prod.splits sum.splits)+

lemma persist_candidates_rows:
  "persist_candidates E ws s = (r, t) \<Longrightarrow>
     {i. bm_get (plc_ownership t) i \<noteq> None} \<subseteq> {i. bm_get (plc_ownership s) i \<noteq> None} \<union> own_instance_id ` set ws"
proof (induction ws arbitrary: s)
  case (Cons w ws)
  from Cons.prems [unfolded persist_candidates.simps] show ?case
  proof (cases rule: and_try_cases)
    case (1 e)
    then show ?thesis by (auto simp: persist_ownership_def split: prod.splits sum.splits)
  next
    case (2 a u)
    from Cons.IH [OF 2(2)] 2(1) show ?thesis
      by (fastforce simp: persist_ownership_def split: prod.splits sum.splits if_splits)
  qed
qed auto

lemma candidate_active:
  "ownership_candidate s i = Some w \<Longrightarrow> own_instance_id w = i \<and> active_instance s i"
  by (auto simp: ownership_candidate_def active_instance_def owner_row_def latest_authoritative_record_def records_of_def
      split: if_splits option.splits dest!: max_by_key_Some)

lemma bootstrap_rows:
  assumes "bootstrap_ownership E s = (r, t)" and "plc_records t = plc_records s"
  shows "occupied t \<subseteq> occupied s"
proof -
  let ?rows = "\<lambda>s. {i. bm_get (plc_ownership s) i \<noteq> None}"
  let ?s1 = "s\<lparr>plc_next_sequence := fold (\<lambda>w. max (own_sequence w)) (bm_values (plc_ownership s)) (plc_next_sequence s)\<rparr>"
  consider "plc_ownership t = plc_ownership s"
    | "and_try (clear_stale_owners E (filter (stale_owner ?s1) (bm_values (plc_ownership s)))) (\<lambda>_ s2.
          let s3 = s2\<lparr>plc_owned := mirror_owned (bm_values (plc_ownership s2)) (plc_owned s2)\<rparr> in
          persist_candidates E (List.map_filter (ownership_candidate s3) (record_instances s3)) s3) ?s1 = (r, t)"
    using assms(1) by (auto simp: bootstrap_ownership_def Let_def split: if_splits)
  then have "?rows t \<subseteq> occupied s"
  proof cases
    case 2
    then show ?thesis
    proof (cases rule: and_try_cases)
      case (1 e)
      from clear_stale_rows [OF 1(1)] show ?thesis by (auto simp: occupied_def)
    next
      case (2 a u)
      let ?s3 = "u\<lparr>plc_owned := mirror_owned (bm_values (plc_ownership u)) (plc_owned u)\<rparr>"
      have u: "plc_records u = plc_records s" using clear_stale_records [OF 2(1)] by simp
      have "own_instance_id ` set (List.map_filter (ownership_candidate ?s3) (record_instances ?s3)) \<subseteq> {i. active_instance s i}"
        using candidate_active [of ?s3] active_instance_cong [of ?s3 s] u by (auto simp: List.map_filter_def)
      with persist_candidates_rows [OF 2(2) [unfolded Let_def]] clear_stale_rows [OF 2(1)] show ?thesis
        by (simp add: occupied_def) blast
    qed
  qed (auto simp: occupied_def)
  with active_instance_cong [OF assms(2)] show ?thesis by (auto simp: occupied_def)
qed

text \<open>The slots of a store: what a coordinator started from it would count.\<close>

definition slots_within :: "('s \<Rightarrow> (instance_id, lifecycle_ownership) bmap) \<Rightarrow> ('c, 'p, 's, 'f) process_lifecycle \<Rightarrow> 's \<Rightarrow> bool" where
  "slots_within owners s st \<longleftrightarrow> {i. bm_get (owners st) i \<noteq> None} \<subseteq> occupied s"

lemma loaded_occupied:
  assumes "held st = plc_records s" and "slots_within owners s st"
  shows "occupied (loaded held owners config profiles c p st f) \<subseteq> occupied s"
proof -
  let ?l = "loaded held owners config profiles c p st f"
  have "plc_records ?l = plc_records s" "plc_ownership ?l = owners st" using assms(1) by (simp_all add: loaded_def)
  with active_instance_cong [of ?l s] assms(2) show ?thesis by (auto simp: occupied_def slots_within_def)
qed

lemma booted_slots:
  assumes "mirrored_store (lc_store E) held owners" and "keyed op_key (held st)" and "keyed own_instance_id (owners st)"
    and "held st = plc_records s" and "slots_within owners s st"
    and "lifecycle_new E config profiles c p st f = (x, st')"
  shows "slots_within owners s st'" and "x = Inr t \<Longrightarrow> occupied t \<subseteq> occupied s"
proof -
  have "slots_within owners s st' \<and> (\<forall>t. x = Inr t \<longrightarrow> occupied t \<subseteq> occupied s)"
  proof (rule mirrored_store.lifecycle_new_cases [OF assms(1,6) refl assms(2,3)])
    fix e assume "x = Inl e" "st' = st"
    with assms(5) show ?thesis by simp
  next
    fix r t assume booted: "bm_size (held st) \<le> plc_max_records config"
      "bootstrap_ownership E (loaded held owners config profiles c p st f) = (r, t)"
      "x = (case r of Inl e \<Rightarrow> Inl e | Inr _ \<Rightarrow> Inr t)" "st' = plc_store t"
    note boot = mirrored_store.bootstrap_mirrors [OF assms(1) booted(2) mirrored_store.loaded_mirrors [OF assms(1-3)] refl]
    have "occupied t \<subseteq> occupied s"
      using bootstrap_rows [OF booted(2)] boot loaded_occupied [of held st s owners config profiles c p f] assms(4,5)
      by (auto simp: bootstrapped_def)
    then show ?thesis using booted(3,4) boot
      by (auto simp: slots_within_def mirrors_def occupied_def split: sum.splits)
  qed
  then show "slots_within owners s st'" and "x = Inr t \<Longrightarrow> occupied t \<subseteq> occupied s" by simp_all
qed

lemma failed_starts_slots:
  assumes "failed_starts E s0 s1" and "mirrored_store (lc_store E) held owners"
    and "keyed op_key (held s0)" and "keyed own_instance_id (owners s0)" and "held s0 = plc_records s" and "slots_within owners s s0"
  shows "slots_within owners s s1"
  using assms(1)
proof induction
  case (fails u config profiles c p f e v)
  note hold = failed_starts_hold [OF fails(1) assms(2-4)]
  then have "keyed op_key (held u)" "held u = plc_records s" using assms(3,5) by simp_all
  from booted_slots(1) [OF assms(2) this(1) conjunct2 [OF hold] this(2) fails(3,2)] show ?case .
qed (rule assms(6))

lemma lc_step_capacity:
  assumes "lc_step E s t" and "lc_system_ok held owners E s" and "capacity_ok B s" and "plc_max_processes (plc_config t) \<le> B"
  shows "capacity_ok B t"
  using assms(1)
proof cases
  case (applies r res)
  with assms(3) show ?thesis by (rule capacity.apply_request)
next
  case (reconciles tok epoch oid res)
  with assms(3) show ?thesis by (rule capacity.reconcile_operation)
next
  case (binds l res)
  from bind_lease_only [OF this] have "same_slots s t" by (simp add: same_slots_def)
  from capacity_same(1) [OF this assms(3)] show ?thesis .
next
  case (passes p f c)
  then have "same_slots s t" by (simp add: same_slots_def)
  from capacity_same(1) [OF this assms(3)] show ?thesis .
next
  case (reboots st config profiles c p f st')
  have ms: "mirrored_store (lc_store (lc_recording E)) held owners" and m: "mirrors held owners s"
    using assms(2) by (simp_all add: lc_system_ok_def)
  note keys = mirrors_keyed [OF m] mirrors_keyed_rows [OF m]
  have held: "held (plc_store s) = plc_records s" using m by (simp add: mirrors_def)
  from failed_starts_hold [OF reboots(1) ms keys] keys held
  have st: "held st = plc_records s" "keyed op_key (held st)" "keyed own_instance_id (owners st)" by simp_all
  have "slots_within owners s (plc_store s)" using m by (auto simp: slots_within_def mirrors_def occupied_def)
  from failed_starts_slots [OF reboots(1) ms keys held this] have "slots_within owners s st" .
  from booted_slots(2) [OF ms st(2,3,1) this reboots(2) refl] have occ: "occupied t \<subseteq> occupied s" .
  have new: "mirrors held owners t" "bootstrapped (loaded held owners config profiles c (p, port_log s) st f) t"
    using mirrored_store.lifecycle_new_mirrors(3) [OF ms reboots(2) refl st(2,3)] by simp_all
  have rec: "plc_records t = plc_records s" using new(2) st(1) by (simp add: bootstrapped_def loaded_def)
  have next_seq: "lop_sequence q \<le> plc_next_sequence t" if "bm_get (plc_records s) k = Some q" for k q
  proof -
    have "q \<in> set (bm_values (held st))" using that st(1) unfolding set_bm_values by metis
    from fold_max_sequence [OF this, of 0] new(2) show ?thesis
      by (auto simp: bootstrapped_def loaded_def load_operations_next)
  qed
  have "sequenced t"
    using assms(3) mirrors_keyed_rows [OF new(1)] new(1) next_seq unfolding capacity_ok_def sequenced_def rec mirrors_def by auto
  with assms(3,4) occ card_mono [OF finite_occupied occ] show ?thesis by (simp add: capacity_ok_def)
qed

text \<open>Runs whose configurations allow at most \<open>B\<close> processes.\<close>

definition lc_step_within :: "nat \<Rightarrow> ('c, 'p, 's, 'f) lifecycle_env \<Rightarrow> ('c, 'p \<times> port_event list, 's, 'f) process_lifecycle
    \<Rightarrow> ('c, 'p \<times> port_event list, 's, 'f) process_lifecycle \<Rightarrow> bool" where
  "lc_step_within B E s t \<longleftrightarrow> lc_step E s t \<and> plc_max_processes (plc_config t) \<le> B"

interpretation lc_slots: step_invariant "lc_step_within B E" "\<lambda>s. lc_system_ok held owners E s \<and> capacity_ok B s"
  for B E held owners
  by unfold_locales (auto simp: lc_step_within_def dest: lc_step_capacity lc_step_launches)

end
