(* ===== verification/Process_Lifecycle_Properties.thy ===== *)
theory Process_Lifecycle_Properties
  imports Process_Lifecycle_Capacity
begin

text \<open>
  Properties of the process lifecycle coordinator, each with a run of the in-memory store on which it
  is exercised.
\<close>

section \<open>A sample system\<close>

text \<open>A port that reports one identity, one state and one stop result, over the in-memory store.\<close>

definition demo_lifecycle :: "process_identity \<Rightarrow> process_state \<Rightarrow> (process_fault + unit)
    \<Rightarrow> (unit, unit, memory_store, unit) lifecycle_env" where
  "demo_lifecycle d state stopped = \<lparr>lc_now = (\<lambda>_. (0, ())), lc_check_fence = (\<lambda>_ l i tok t. (evaluate_fence l i tok t, ())),
     lc_start_generation = (\<lambda>_ g spec profile. (Inr \<lparr>launch_identity = d\<rparr>, ())),
     lc_inspect = (\<lambda>_ h. (Inr state, ())), lc_inspect_identity = (\<lambda>_ h. (Inr d, ())),
     lc_descendants = (\<lambda>_ h. (Inr [], ())), lc_stop = (\<lambda>_ h mode. (stopped, ())),
     lc_recover_generation = (\<lambda>_ g profile. (Inr Indeterminate, ())), lc_store = memory_lifecycle_store\<rparr>"

definition demo_owner :: lease where
  "demo_owner = \<lparr>lease_instance_id = 1, lease_caller_id = 7, lease_session_id = 9, lease_lease_id = 1, lease_epoch = 1,
     lease_expires_at = 100\<rparr>"

definition demo_coordinator :: "(unit, unit \<times> port_event list, memory_store, unit) process_lifecycle" where
  "demo_coordinator = \<lparr>plc_config = \<lparr>plc_max_processes = 2, plc_max_records = 8\<rparr>, plc_profiles = demo_catalog,
     plc_clock = (), plc_process = ((), []), plc_store = memory_store_new, plc_fence = (), plc_leases = bm_empty,
     plc_authority = bm_empty, plc_records = bm_empty, plc_ownership = bm_empty, plc_owned = bm_empty, plc_next_sequence = 0\<rparr>"

lemma demo_new:
  "lifecycle_new (lc_recording (demo_lifecycle d state stopped)) \<lparr>plc_max_processes = 2, plc_max_records = 8\<rparr> demo_catalog
     () ((), []) memory_store_new () = (Inr demo_coordinator, memory_store_new)"
  by (simp add: lifecycle_new_def lc_recording_def demo_lifecycle_def memory_lifecycle_store_def memory_store_new_def
      demo_catalog_def catalog_insert_def catalog_new_def bootstrap_ownership_def and_try_def record_instances_def bm_values_def
      demo_coordinator_def map_err_def and_then_def ensure_def List.map_filter_def split: sum.split)

definition demo_bound :: "(unit, unit \<times> port_event list, memory_store, unit) process_lifecycle" where
  "demo_bound = demo_coordinator\<lparr>plc_leases := bm_insert 1 demo_owner bm_empty, plc_authority := bm_insert 1 1 bm_empty\<rparr>"

lemma demo_bind: "bind_lease demo_owner demo_coordinator = (Inr (), demo_bound)"
  by (simp add: bind_lease_def demo_owner_def demo_coordinator_def demo_bound_def bm_has_def)

definition demo_launch :: lifecycle_request where
  "demo_launch = lifecycle_request_new 5 (lease_proof_of demo_owner) 1 (LaunchNew 3)"

lemmas demo_effects = and_try_def and_use_def lift_err_def call_start_generation_def call_inspect_def call_inspect_identity_def
  call_descendants_def call_stop_def on_process_def lc_recording_def demo_lifecycle_def memory_lifecycle_store_def Let_def
  map_err_def and_then_def ensure_def ok_or_def

lemma demo_authenticate:
  "authenticate (lc_recording (demo_lifecycle d state stopped)) 1 (lease_proof_of demo_owner) 1 demo_bound = (Inr (), demo_bound)"
  by (simp add: authenticate_def demo_effects demo_bound_def demo_owner_def lease_proof_of_def evaluate_fence_def
      current_authority_epoch_def demo_coordinator_def)


lemmas demo_admission = validate_action_def reserve_action_def resolve_profile_def ensure_profile_namespace_available_def
  occupied_count_def active_operation_def authoritative_operation_def latest_authoritative_record_def records_of_def only_if_def
  bm_has_def issue_sequence_def checked_add_u64_def persist_insert_def bm_keys_def bm_values_def

definition demo_starting :: lifecycle_operation where
  "demo_starting = \<lparr>lop_operation_id = 5, lop_instance_id = 1, lop_lease = lease_proof_of demo_owner, lop_sequence = 1,
     lop_request_epoch = 1, lop_authority_epoch = 1, lop_action = LaunchNew 3, lop_state = OpStarting, lop_process = None,
     lop_failure = None\<rparr>"

definition demo_reserved :: "(unit, unit \<times> port_event list, memory_store, unit) process_lifecycle" where
  "demo_reserved = demo_bound\<lparr>plc_next_sequence := 1,
      plc_records := bm_insert (1, 5) demo_starting bm_empty,
      plc_ownership := bm_insert 1 (owner_row demo_starting 3 None) bm_empty,
      plc_store := memory_store_new\<lparr>mem_records := bm_insert (1, 5) demo_starting bm_empty,
         mem_ownership := bm_insert 1 (owner_row demo_starting 3 None) bm_empty\<rparr>\<rparr>"

lemma bm_remove_empty [simp]: "bm_remove k bm_empty = bm_empty"
  by (rule bm.ext) simp

lemma bm_insert_insert [simp]: "bm_insert k v (bm_insert k w m) = bm_insert k v m"
  by (rule bm.ext) simp

lemma demo_launch_fields [simp]:
  "lrq_operation_id demo_launch = 5" "lrq_instance_id demo_launch = 1" "lrq_lease demo_launch = lease_proof_of demo_owner"
  "lrq_authority_epoch demo_launch = 1" "lrq_action demo_launch = LaunchNew 3"
  by (simp_all add: demo_launch_def lifecycle_request_new_def lease_proof_of_def demo_owner_def)

lemma demo_admissible: "admissible demo_launch demo_bound"
  by (simp add: admissible_def demo_admission demo_bound_def demo_coordinator_def current_authority_epoch_def
   and_then_def ensure_def map_err_def)

lemma demo_apply:
  "apply_request (lc_recording (demo_lifecycle d state stopped)) demo_launch demo_bound =
     start_process (lc_recording (demo_lifecycle d state stopped)) demo_starting
       \<lparr>gen_instance_id = 1, gen_operation_id = 5, gen_sequence = 1, gen_request_epoch = 1, gen_authority_epoch = 1,
         gen_profile_id = 3, gen_kind = GenLaunchNew\<rparr> (launch_spec_for_profile 1 3) demo_profile demo_reserved"
proof -
  let ?E = "lc_recording (demo_lifecycle d state stopped)"
  have "apply_request ?E demo_launch demo_bound = admit_operation ?E demo_launch demo_bound"
    using demo_admissible by (simp add: apply_request_def and_try_def demo_authenticate admissible_def)
  also have "\<dots> = start_process ?E demo_starting
       \<lparr>gen_instance_id = 1, gen_operation_id = 5, gen_sequence = 1, gen_request_epoch = 1, gen_authority_epoch = 1,
         gen_profile_id = 3, gen_kind = GenLaunchNew\<rparr> (launch_spec_for_profile 1 3) demo_profile demo_reserved"
    using demo_admissible
    by (simp add: admit_operation_def admissible_def and_try_def issue_sequence_def checked_add_u64_def Let_def
        lifecycle_operation_new_def)
      (simp add: demo_bound_def demo_coordinator_def persist_insert_def bm_has_def lc_recording_def demo_lifecycle_def
        memory_lifecycle_store_def memory_insert_def memory_store_new_def memory_admits_def bm_values_def reserve_ownership_def
        operation_can_update_owner_def persist_ownership_def memory_set_ownership_def execute_def execute_launch_def
        resolve_profile_def map_err_def and_try_def persist_update_def memory_update_def set_state_def owner_row_def
        demo_starting_def demo_reserved_def for_operation_def Let_def)
  finally show ?thesis .
qed

definition demo_generation :: process_operation_generation where
  "demo_generation = \<lparr>gen_instance_id = 1, gen_operation_id = 5, gen_sequence = 1, gen_request_epoch = 1, gen_authority_epoch = 1,
     gen_profile_id = 3, gen_kind = GenLaunchNew\<rparr>"

text \<open>The launch ends with the process running, its record and its row naming it.\<close>

definition demo_started :: lifecycle_operation where
  "demo_started = demo_starting\<lparr>lop_state := Started, lop_process := Some (demo_identity 1)\<rparr>"

definition demo_running :: "(unit, unit \<times> port_event list, memory_store, unit) process_lifecycle" where
  "demo_running = demo_bound\<lparr>plc_next_sequence := 1, plc_records := bm_insert (1, 5) demo_started bm_empty,
      plc_process := ((), [StartedGeneration demo_generation (Some (demo_identity 1)), InspectedIdentity 40 (Some (demo_identity 1))]),
      plc_ownership := bm_insert 1 (owner_row demo_started 3 (Some (demo_identity 1))) bm_empty,
      plc_owned := bm_insert 1 (demo_identity 1) bm_empty,
      plc_store := memory_store_new\<lparr>mem_records := bm_insert (1, 5) demo_started bm_empty,
         mem_ownership := bm_insert 1 (owner_row demo_started 3 (Some (demo_identity 1))) bm_empty\<rparr>\<rparr>"

lemma demo_identity_handle [simp]: "pid_process (demo_identity i) = 40" "pid_instance_id (demo_identity i) = i"
  by (simp_all add: demo_identity_def process_identity_new_def)

lemma demo_identity_matches [simp]: "matches_profile (demo_identity i) j demo_profile = (i = j)"
  by (auto simp: matches_profile_def demo_identity_def process_identity_new_def)

lemma demo_launched:
  "apply_request (lc_recording (demo_lifecycle (demo_identity 1) Running stopped)) demo_launch demo_bound =
     (Inr (lifecycle_response_new demo_started lifecycle_state.Starting), demo_running)"
  unfolding demo_apply
  by (simp add: start_process_def finish_start_def verify_started_identity_def verify_descendants_def demo_effects ok_value_def
      set_state_def persist_update_def memory_update_def set_owned_def operation_can_update_owner_def owner_order_def
      operation_order_def owner_row_def persist_ownership_def memory_set_ownership_def is_active_def
      demo_reserved_def demo_starting_def demo_started_def demo_running_def demo_generation_def demo_bound_def demo_coordinator_def
      memory_store_new_def bm_has_def)

lemma demo_store: "mirrored_store (lc_store (demo_lifecycle d state stopped)) mem_records mem_ownership"
  using memory.mirrored_store_axioms by (simp add: demo_lifecycle_def)

lemma demo_store_keyed: "keyed op_key (mem_records memory_store_new)" "keyed own_instance_id (mem_ownership memory_store_new)"
  by (simp_all add: keyed_def memory_store_new_def)

lemma demo_run:
  "(lc_step (demo_lifecycle (demo_identity 1) Running stopped))\<^sup>*\<^sup>* demo_coordinator demo_running"
proof -
  let ?E = "demo_lifecycle (demo_identity 1) Running stopped"
  have "lc_step ?E demo_coordinator demo_bound" by (rule lc_step.binds [OF demo_bind])
  moreover have "lc_step ?E demo_bound demo_running" by (rule lc_step.applies [OF demo_launched])
  ultimately show ?thesis by (metis converse_rtranclp_into_rtranclp r_into_rtranclp)
qed

text \<open>A launch that starts a process of another instance: stopped and rejected, or stuck when it cannot be stopped.\<close>

definition demo_rejected :: "(unit, unit \<times> port_event list, memory_store, unit) process_lifecycle" where
  "demo_rejected =
     (let p = demo_starting\<lparr>lop_state := OpRejected, lop_process := Some (demo_identity 2), lop_failure := Some FailIdentityMismatch\<rparr>
      in demo_bound\<lparr>plc_next_sequence := 1, plc_records := bm_insert (1, 5) p bm_empty,
        plc_process := ((), [StartedGeneration demo_generation (Some (demo_identity 2)), StoppedHandle 40 Force]),
        plc_store := memory_store_new\<lparr>mem_records := bm_insert (1, 5) p bm_empty\<rparr>\<rparr>)"

lemmas demo_failures = start_process_def finish_start_def finish_start_failure_def block_operation_def block_cleanup_def
  clear_owned_for_def clear_owned_def memory_clear_ownership_if_def set_owner_process_for_operation_def demo_effects ok_value_def
  set_state_def persist_update_def memory_update_def operation_can_update_owner_def owner_order_def operation_order_def
  owner_row_def persist_ownership_def memory_set_ownership_def is_active_def demo_reserved_def demo_starting_def
  demo_generation_def demo_bound_def demo_coordinator_def memory_store_new_def bm_has_def failure_error_def

lemma demo_foreign:
  "apply_request (lc_recording (demo_lifecycle (demo_identity 2) Running (Inr ()))) demo_launch demo_bound =
     (Inl IdentityMismatch, demo_rejected)"
  unfolding demo_apply demo_rejected_def by (simp add: demo_failures)

lemma demo_run_rejected:
  "(lc_step (demo_lifecycle (demo_identity 2) Running (Inr ())))\<^sup>*\<^sup>* demo_coordinator demo_rejected"
proof -
  let ?E = "demo_lifecycle (demo_identity 2) Running (Inr ())"
  have "lc_step ?E demo_coordinator demo_bound" by (rule lc_step.binds [OF demo_bind])
  moreover have "lc_step ?E demo_bound demo_rejected" by (rule lc_step.applies [OF demo_foreign])
  ultimately show ?thesis by (metis converse_rtranclp_into_rtranclp r_into_rtranclp)
qed

section \<open>At most one launch\<close>

text \<open>
  C29. For every lifecycle operation the process port is asked to launch a process at most once,
  whatever requests, reconciliations, lease bindings, failed or successful store writes, failed
  starts and restarts of the gateway happen in between, if the record store holds what it
  acknowledged.
\<close>

theorem lifecycle_launch_at_most_once:
  assumes "mirrored_store (lc_store E) held owners" and "keyed op_key (held st)" and "keyed own_instance_id (owners st)"
    and "lifecycle_new (lc_recording E) config profiles c (p, []) st f = (Inr s0, st')" and "(lc_step E)\<^sup>*\<^sup>* s0 s"
  shows "distinct (launches s)"
proof -
  note new = lifecycle_new_ok [OF assms(1-4)]
  have "lc_system_ok held owners E s0" using new(1) by (simp add: lc_authority_def)
  from lc_dispatch.run_distinct [OF assms(5) this] new(2) show ?thesis by (simp add: launches_def List.map_filter_def)
qed

theorem lifecycle_launch_at_most_once_witness:
  "distinct (launches demo_running) \<and> launches demo_running = [(1, 5)]"
  using lifecycle_launch_at_most_once [OF demo_store demo_store_keyed demo_new demo_run]
  by (simp add: launches_def port_log_def demo_running_def List.map_filter_def launch_key_def demo_generation_def)

section \<open>Authority\<close>

text \<open>
  C30. An authority epoch that a restart has rotated away is dead: once the coordinator's epoch for an
  instance is above the epoch a request carries, that request is refused in every later state,
  also after restarts of the gateway, and changes neither records nor ownership nor store and
  reaches no process.
\<close>

theorem lifecycle_stale_epoch_refused:
  assumes "mirrored_store (lc_store E) held owners" and "keyed op_key (held st)" and "keyed own_instance_id (owners st)"
    and "lifecycle_new (lc_recording E) config profiles c (p, []) st f = (Inr s0, st')"
    and "(lc_step E)\<^sup>*\<^sup>* s0 s1" and "lrq_authority_epoch r < current_authority_epoch s1 (lrq_instance_id r)"
    and "(lc_step E)\<^sup>*\<^sup>* s1 s2" and "apply_request (lc_recording E) r s2 = (res, t)"
  shows "is_err res \<and> plc_records t = plc_records s2 \<and> plc_ownership t = plc_ownership s2 \<and> plc_store t = plc_store s2
    \<and> port_log t = port_log s2"
proof -
  note new = lifecycle_new_ok(1) [OF assms(1-4)]
  have s1: "lc_authority held owners E s1" by (rule lc_epochs.run_keeps [OF assms(5) new])
  from lc_epochs.run_level [OF assms(7) s1, of "lrq_instance_id r"] assms(6)
  have stale: "current_authority_epoch s2 (lrq_instance_id r) \<noteq> lrq_authority_epoch r" by auto
  from assms(8) [unfolded apply_request_def] show ?thesis
  proof (cases rule: and_try_cases)
    case (1 e)
    with authenticate_only [OF 1(1)] show ?thesis by (auto simp: is_err_def port_log_def)
  next
    case (2 a u)
    have "current_authority_epoch u (lrq_instance_id r) = lrq_authority_epoch r"
      using authenticate_Inr [of "lc_recording E"] 2(1) by simp
    moreover obtain c f where "u = s2\<lparr>plc_clock := c, plc_fence := f\<rparr>" using authenticate_only [OF 2(1)] by blast
    ultimately show ?thesis using stale by (simp add: current_authority_epoch_def)
  qed
qed

theorem lifecycle_stale_epoch_refused_witness:
  "\<exists>res t. apply_request (lc_recording (demo_lifecycle (demo_identity 1) Running (Inr ()))) (demo_launch\<lparr>lrq_authority_epoch := 0\<rparr>)
     demo_running = (res, t) \<and> is_err res \<and> port_log t = port_log demo_running"
proof -
  let ?E = "demo_lifecycle (demo_identity 1) Running (Inr ())" and ?r = "demo_launch\<lparr>lrq_authority_epoch := 0\<rparr>"
  obtain res t where t: "apply_request (lc_recording ?E) ?r demo_running = (res, t)" by fastforce
  have "lrq_authority_epoch ?r < current_authority_epoch demo_running (lrq_instance_id ?r)"
    by (simp add: demo_running_def demo_bound_def current_authority_epoch_def)
  from lifecycle_stale_epoch_refused [OF demo_store demo_store_keyed demo_new demo_run this rtranclp.rtrancl_refl t] t
  show ?thesis by blast
qed

section \<open>Terminal operations\<close>

text \<open>
  C31. A finished operation is final: once its record is stopped, failed or rejected, the record never
  changes again, across restarts as well, and repeating the request gives the error of its
  authentication if that fails and the recorded outcome otherwise; neither touches the records or the
  process port.
\<close>

theorem lifecycle_terminal_final:
  assumes "mirrored_store (lc_store E) held owners" and "keyed op_key (held st)" and "keyed own_instance_id (owners st)"
    and "lifecycle_new (lc_recording E) config profiles c (q, []) st f = (Inr s0, st')"
    and "(lc_step E)\<^sup>*\<^sup>* s0 s1" and "bm_get (plc_records s1) (lrq_instance_id r, lrq_operation_id r) = Some p"
    and "\<not> is_active (lop_state p)" and "(lc_step E)\<^sup>*\<^sup>* s1 s2"
    and "same_request p r" and "apply_request (lc_recording E) r s2 = (res, t)"
  shows "bm_get (plc_records s2) (lrq_instance_id r, lrq_operation_id r) = Some p
    \<and> res = (case fst (authenticate (lc_recording E) (lrq_instance_id r) (lrq_lease r) (lrq_authority_epoch r) s2) of
         Inl e \<Rightarrow> Inl e
       | Inr _ \<Rightarrow> Inr (lifecycle_response_new p (lifecycle_state_of (lop_state p))))
    \<and> plc_records t = plc_records s2 \<and> port_log t = port_log s2"
proof -
  let ?k = "(lrq_instance_id r, lrq_operation_id r)"
  have "lc_authority held owners E s1" by (rule lc_epochs.run_keeps [OF assms(5) lifecycle_new_ok(1) [OF assms(1-4)]])
  then have s1: "lc_system_ok held owners E s1 \<and> final_record ?k p s1"
    using assms(6,7) by (simp add: lc_authority_def authority_ok_def final_record_def)
  from lc_final.run_keeps [OF assms(8) s1] have kept: "bm_get (plc_records s2) ?k = Some p" by (simp add: final_record_def)
  from assms(10) [unfolded apply_request_def] show ?thesis
  proof (cases rule: and_try_cases)
    case (1 e)
    with authenticate_only [OF 1(1)] kept show ?thesis by (auto simp: port_log_def)
  next
    case (2 a u)
    obtain c f where u: "u = s2\<lparr>plc_clock := c, plc_fence := f\<rparr>" using authenticate_only [OF 2(1)] by blast
    have "lop_state p \<in> {OpStopped, OpFailed, OpRejected}" using assms(7) by (cases "lop_state p") simp_all
    with 2 kept assms(7,9) u show ?thesis
      by (auto simp: replay_def retained_response_def port_log_def)
  qed
qed

theorem lifecycle_terminal_final_witness:
  "\<exists>res t p. apply_request (lc_recording (demo_lifecycle (demo_identity 2) Running (Inr ()))) demo_launch demo_rejected = (res, t)
     \<and> bm_get (plc_records demo_rejected) (1, 5) = Some p \<and> lop_state p = OpRejected \<and> port_log t = port_log demo_rejected"
proof -
  let ?E = "demo_lifecycle (demo_identity 2) Running (Inr ())"
  let ?p = "demo_starting\<lparr>lop_state := OpRejected, lop_process := Some (demo_identity 2), lop_failure := Some FailIdentityMismatch\<rparr>"
  obtain res t where t: "apply_request (lc_recording ?E) demo_launch demo_rejected = (res, t)" by fastforce
  have p: "bm_get (plc_records demo_rejected) (lrq_instance_id demo_launch, lrq_operation_id demo_launch) = Some ?p"
    by (simp add: demo_rejected_def Let_def)
  have "\<not> is_active (lop_state ?p)" by simp
  moreover have "same_request ?p demo_launch" by (simp add: same_request_def demo_starting_def)
  ultimately show ?thesis
    using lifecycle_terminal_final [OF demo_store demo_store_keyed demo_new demo_run_rejected p _ rtranclp.rtrancl_refl _ t] t p
    by (intro exI [of _ res] exI [of _ t] exI [of _ ?p]) simp
qed

section \<open>Stops\<close>

text \<open>
  C32. The coordinator never stops a process blindly: every stop it sends to the process port names a
  handle for which the port itself had before, in the log of this port, reported an identity with
  that handle, by inspection or as the result of a start the coordinator asked for.
\<close>

theorem lifecycle_stops_confirmed:
  assumes "mirrored_store (lc_store E) held owners" and "keyed op_key (held st)" and "keyed own_instance_id (owners st)"
    and "lifecycle_new (lc_recording E) config profiles c (p, []) st f = (Inr s0, st')" and "(lc_step E)\<^sup>*\<^sup>* s0 s"
  shows "stops_confirmed (port_log s)"
proof -
  note new = lifecycle_new_ok [OF assms(1-4)]
  have "lc_system_ok held owners E s0 \<and> stops_ok s0"
    using new by (simp add: lc_authority_def authority_ok_def stops_ok_def stops_confirmed_def)
  from lc_stops.run_keeps [OF assms(5) this] show ?thesis by (simp add: stops_ok_def)
qed

theorem lifecycle_stops_confirmed_witness:
  "stops_confirmed (port_log demo_rejected) \<and> StoppedHandle 40 Force \<in> set (port_log demo_rejected)"
  using lifecycle_stops_confirmed [OF demo_store demo_store_keyed demo_new demo_run_rejected]
  by (simp add: port_log_def demo_rejected_def Let_def)

section \<open>Capacity\<close>

lemma within_steps: "(lc_step_within B E)\<^sup>*\<^sup>* s t \<Longrightarrow> (lc_step E)\<^sup>*\<^sup>* s t"
  by (rule rtranclp_mono [THEN predicate2D]) (auto simp: lc_step_within_def)

lemma fresh_capacity:
  assumes "mirrored_store (lc_store E) held owners" and "held st = bm_empty" and "owners st = bm_empty"
    and "lifecycle_new (lc_recording E) config profiles c (p, []) st f = (Inr s0, st')" and "plc_max_processes config \<le> B"
  shows "lc_system_ok held owners E s0 \<and> capacity_ok B s0 \<and> records_bounded s0"
proof -
  have keys: "keyed op_key (held st)" "keyed own_instance_id (owners st)" using assms(2,3) by (simp_all add: keyed_def)
  note new = lifecycle_new_ok [OF assms(1) keys assms(4)]
  have ms: "mirrored_store (lc_store (lc_recording E)) held owners" using assms(1) by simp
  have boot: "mirrors held owners s0" "bootstrapped (loaded held owners config profiles c (p, []) st f) s0"
    using mirrored_store.lifecycle_new_mirrors(3) [OF ms assms(4) refl keys] by simp_all
  let ?none = "loaded held owners config profiles c (p, []) st f"
  have none: "occupied ?none = {}"
    using assms(2,3) by (auto simp: occupied_def loaded_def active_instance_def latest_authoritative_record_def records_of_def bm_values_def)
  have "slots_within owners ?none st" using assms(3) by (simp add: slots_within_def)
  moreover have "held st = plc_records ?none" by (simp add: loaded_def)
  ultimately have "occupied s0 = {}" using booted_slots(2) [OF ms keys _ _ assms(4) refl] none by blast
  moreover have "sequenced s0" using new(3) assms(2) mirrors_keyed_rows [OF boot(1)] boot(1)
    by (auto simp: sequenced_def mirrors_def keyed_def)
  moreover have "plc_config s0 = config" using boot(2) by (simp add: bootstrapped_def loaded_def)
  ultimately show ?thesis using new assms(2,5)
    by (simp add: lc_authority_def capacity_ok_def records_bounded_def authority_ok_def)
qed

text \<open>
  C33. The configured limits hold in every state of every run from an empty store: the instances that
  hold a process slot (those with an ownership row, and those whose latest operation is active)
  never exceed the largest number of processes any configuration of the run allows, and the records
  never exceed the current configuration's limit.
\<close>

theorem lifecycle_capacity:
  assumes "mirrored_store (lc_store E) held owners" and "held st = bm_empty" and "owners st = bm_empty"
    and "lifecycle_new (lc_recording E) config profiles c (p, []) st f = (Inr s0, st')" and "plc_max_processes config \<le> B"
    and "(lc_step_within B E)\<^sup>*\<^sup>* s0 s"
  shows "occupied_count s \<le> B \<and> bm_size (plc_records s) \<le> plc_max_records (plc_config s)"
proof -
  note fresh = fresh_capacity [OF assms(1-5)]
  have "capacity_ok B s" using lc_slots.run_keeps [OF assms(6)] fresh by blast
  moreover have "records_bounded s" using lc_bounded.run_keeps [OF within_steps [OF assms(6)]] fresh by blast
  ultimately show ?thesis by (simp add: capacity_ok_def records_bounded_def occupied_count_card)
qed

lemma demo_run_within:
  "(lc_step_within 2 (demo_lifecycle (demo_identity 1) Running stopped))\<^sup>*\<^sup>* demo_coordinator demo_running"
proof -
  let ?E = "demo_lifecycle (demo_identity 1) Running stopped"
  have "lc_step_within 2 ?E demo_coordinator demo_bound"
    using lc_step.binds [OF demo_bind] by (simp add: lc_step_within_def demo_bound_def demo_coordinator_def)
  moreover have "lc_step_within 2 ?E demo_bound demo_running"
    using lc_step.applies [OF demo_launched] by (simp add: lc_step_within_def demo_running_def demo_bound_def demo_coordinator_def)
  ultimately show ?thesis by (metis converse_rtranclp_into_rtranclp r_into_rtranclp)
qed

lemma demo_store_empty: "mem_records memory_store_new = bm_empty" "mem_ownership memory_store_new = bm_empty"
  by (simp_all add: memory_store_new_def)

theorem lifecycle_capacity_witness:
  "occupied_count demo_running \<le> 2 \<and> bm_size (plc_records demo_running) = 1"
proof -
  have "plc_max_processes \<lparr>plc_max_processes = 2, plc_max_records = 8\<rparr> \<le> 2" by simp
  from lifecycle_capacity [OF demo_store demo_store_empty demo_new this demo_run_within]
  show ?thesis by (simp add: demo_running_def bm_size_insert)
qed

section \<open>The order of operations\<close>

text \<open>
  C34. In every state of a run from an empty store the source's test for the current operation of an
  instance, a maximum over order keys, means for each stored operation: if it was not rejected, it is
  current exactly if no operation of the instance that was not rejected has a larger sequence number;
  if it was rejected, it is current only if all operations of the instance were rejected.
\<close>

theorem lifecycle_current_is_newest:
  assumes "mirrored_store (lc_store E) held owners" and "held st = bm_empty" and "owners st = bm_empty"
    and "lifecycle_new (lc_recording E) config profiles c (q, []) st f = (Inr s0, st')" and "plc_max_processes config \<le> B"
    and "(lc_step_within B E)\<^sup>*\<^sup>* s0 s"
    and "bm_get (plc_records s) (op_key p) = Some p"
  shows "operation_is_current s p \<longleftrightarrow> (if lop_state p = OpRejected
    then \<forall>x \<in> set (bm_values (plc_records s)). lop_instance_id x = lop_instance_id p \<longrightarrow> lop_state x = OpRejected
    else newest s p)"
proof -
  have "capacity_ok B s" using lc_slots.run_keeps [OF assms(6)] fresh_capacity [OF assms(1-5)] by blast
  then have "sequenced s" by (simp add: capacity_ok_def)
  with current_iff [OF this assms(7)] current_rejected [OF this assms(7)] show ?thesis by simp
qed

theorem lifecycle_current_is_newest_witness:
  "operation_is_current demo_running demo_started \<and> newest demo_running demo_started"
proof -
  have limit: "plc_max_processes \<lparr>plc_max_processes = 2, plc_max_records = 8\<rparr> \<le> 2" by simp
  have "bm_get (plc_records demo_running) (op_key demo_started) = Some demo_started" "lop_state demo_started \<noteq> OpRejected"
    by (simp_all add: demo_running_def demo_started_def demo_starting_def)
  note eq = lifecycle_current_is_newest [OF demo_store demo_store_empty demo_new limit demo_run_within this(1)] this(2)
  have "newest demo_running demo_started"
    by (simp add: newest_def demo_running_def bm_values_def bm_entries_insert)
  with eq show ?thesis by simp
qed

section \<open>The coordinator and its store\<close>

text \<open>
  C35. The coordinator refines its store: in every state of every run its records and ownership rows
  are exactly those the store holds, failed writes included, the epoch it accepts for an instance is
  the largest its records name, and a restart from that store continues with the same records and
  the same epochs.
\<close>

theorem lifecycle_refines_store:
  assumes "mirrored_store (lc_store E) held owners" and "keyed op_key (held st)" and "keyed own_instance_id (owners st)"
    and "lifecycle_new (lc_recording E) config profiles c (p, []) st f = (Inr s0, st')" and "(lc_step E)\<^sup>*\<^sup>* s0 s"
  shows "plc_records s = held (plc_store s) \<and> plc_ownership s = owners (plc_store s)
    \<and> current_authority_epoch s i = recorded_epoch (plc_records s) i
    \<and> (case lifecycle_new (lc_recording E) config' profiles' c' (p', port_log s) (plc_store s) f' of
         (Inl _, st2) \<Rightarrow> held st2 = plc_records s
       | (Inr t, st2) \<Rightarrow> plc_records t = plc_records s \<and> current_authority_epoch t i = current_authority_epoch s i)"
proof -
  have s: "lc_authority held owners E s" by (rule lc_epochs.run_keeps [OF assms(5) lifecycle_new_ok(1) [OF assms(1-4)]])
  then have m: "mirrors held owners s" and au: "authority_ok s" by (simp_all add: lc_authority_def lc_system_ok_def)
  note keys = mirrors_keyed [OF m] mirrors_keyed_rows [OF m]
  have ms: "mirrored_store (lc_store (lc_recording E)) held owners" using assms(1) by simp
  obtain x st2 where new: "lifecycle_new (lc_recording E) config' profiles' c' (p', port_log s) (plc_store s) f' = (x, st2)"
    by fastforce
  have "held st2 = plc_records s" using mirrored_store.lifecycle_new_mirrors(1) [OF ms new refl keys] m by (simp add: mirrors_def)
  moreover have "plc_records t = plc_records s \<and> current_authority_epoch t i = current_authority_epoch s i" if "x = Inr t" for t
  proof -
    note t = lifecycle_new_ok [OF assms(1) keys new [unfolded that]]
    have "plc_records t = plc_records s" using t(3) m by (simp add: mirrors_def)
    with t(1) au show ?thesis by (simp add: lc_authority_def authority_ok_def)
  qed
  ultimately show ?thesis using new m au by (cases x) (auto simp: mirrors_def authority_ok_def)
qed

theorem lifecycle_refines_store_witness:
  "plc_records demo_running = mem_records (plc_store demo_running)
    \<and> current_authority_epoch demo_running 1 = recorded_epoch (plc_records demo_running) 1
    \<and> current_authority_epoch demo_running 1 = 1"
  using lifecycle_refines_store [OF demo_store demo_store_keyed demo_new demo_run, of 1]
  by (simp add: demo_running_def demo_bound_def current_authority_epoch_def)

section \<open>Progress of a stop\<close>

lemma set_state_again: "set_state a b c (set_state a' b' c' p) = set_state a b c p"
  by (simp add: set_state_def)

lemma operation_order_set_state [simp]: "operation_order (set_state st d f p) = operation_order p"
  by (simp add: operation_order_def)

lemma can_update_owner_set_state [simp]:
  "operation_can_update_owner s (set_state st d f p) = operation_can_update_owner s p"
  by (simp add: operation_can_update_owner_def split: option.split)

text \<open>
  C36. An interrupted stop completes under these conditions: the stopping operation is its instance's
  current one, is not behind its ownership row and names a process; its launch profile still resolves
  in the catalog and the retained identity matches it; the port reports that identity, an exited
  process and no descendants; and the in-memory store mirrors the coordinator and accepts writes. Then
  one reconciliation ends in the stopped state, records it and releases the ownership row.
\<close>

theorem lifecycle_stop_completes:
  assumes "lc_store E = memory_lifecycle_store" and "mirrors mem_records mem_ownership s"
    and "\<not> mem_fail_update (plc_store s)" and "mem_fail_update_after (plc_store s) = None"
    and "bm_get (plc_records s) (op_key p) = Some p" and "lop_state p = OpStopping" and "lop_process p = Some d"
    and "operation_is_current s p" and "operation_can_update_owner s p"
    and "profile_for_operation s p = Inr profile" and "matches_profile d (pid_instance_id d) profile"
    and "\<And>x. fst (lc_inspect_identity E x (pid_process d)) = Inr d"
    and "\<And>x. fst (lc_inspect E x (pid_process d)) = Inr (Exited code)"
    and "\<And>x. fst (lc_descendants E x (pid_process d)) = Inr []"
  shows "\<exists>t. reconcile_record E p s =
      (Inr (lifecycle_response_new (set_state OpStopped None None p) lifecycle_state.Stopped), t)
    \<and> bm_get (plc_records t) (op_key p) = Some (set_state OpStopped None None p)
    \<and> bm_get (plc_ownership t) (lop_instance_id p) = None"
proof -
  let ?q = "set_state OpStopped None None p"
  obtain x where x: "call_inspect_identity E (pid_process d) s = (Inr d, s\<lparr>plc_process := x\<rparr>)"
    using assms(12) [of "plc_process s"] by (cases "lc_inspect_identity E (plc_process s) (pid_process d)")
      (simp add: call_inspect_identity_def on_process_def)
  obtain y where y: "call_inspect E (pid_process d) (s\<lparr>plc_process := x\<rparr>) = (Inr (Exited code), s\<lparr>plc_process := y\<rparr>)"
    using assms(13) [of x] by (cases "lc_inspect E x (pid_process d)") (simp add: call_inspect_def on_process_def)
  obtain z where z: "call_descendants E (pid_process d) (s\<lparr>plc_process := y\<rparr>) = (Inr [], s\<lparr>plc_process := z\<rparr>)"
    using assms(14) [of y] by (cases "lc_descendants E y (pid_process d)") (simp add: call_descendants_def on_process_def)
  let ?u = "s\<lparr>plc_process := z, plc_store := plc_store s\<lparr>mem_records := bm_insert (op_key p) ?q (mem_records (plc_store s))\<rparr>,
      plc_records := bm_insert (op_key p) ?q (plc_records s)\<rparr>"
  have "mem_records (plc_store s) = plc_records s" using assms(2) unfolding mirrors_def by blast
  then have has: "bm_get (mem_records (plc_store s)) (op_key p) = Some p" using assms(5) by simp
  have upd: "persist_update E ?q (s\<lparr>plc_process := z\<rparr>) = (Inr (), ?u)"
    using assms(1,3,4) has by (simp add: persist_update_def memory_lifecycle_store_def memory_update_def Let_def bm_has_def)
  have can: "operation_can_update_owner ?u ?q"
    using assms(9) by (simp add: operation_can_update_owner_def split: option.splits)
  obtain r t where clr: "clear_owned E (lop_instance_id p) ?u = (r, t)" by fastforce
  have t: "r = Inr () \<and> plc_records t = plc_records ?u \<and> bm_get (plc_ownership t) (lop_instance_id p) = None"
  proof (cases "bm_get (plc_ownership s) (lop_instance_id p)")
    case None
    with clr show ?thesis by (auto simp: clear_owned_def)
  next
    case (Some w)
    have "bm_get (mem_ownership (plc_store s)) (own_instance_id w) = Some w" using assms(2) Some by (simp add: mirrors_def)
    with Some assms(1) clr show ?thesis
      by (auto simp: clear_owned_def memory_lifecycle_store_def memory_clear_ownership_if_def)
  qed
  have "reconcile_record E p s = reconcile_stopping E p s" using assms(6,8) by (simp add: reconcile_record_def)
  also have "\<dots> = (Inr (lifecycle_response_new ?q lifecycle_state.Stopped), t)"
    using assms(7,10,11) x y z upd can clr t
    by (simp add: reconcile_stopping_def and_use_def and_try_def clear_owned_for_def Let_def)
  finally show ?thesis using t by simp
qed

text \<open>A stop interrupted after its record was written.\<close>

definition demo_stopping :: lifecycle_operation where
  "demo_stopping = demo_started\<lparr>lop_operation_id := 6, lop_sequence := 2, lop_action := Stop Graceful, lop_state := OpStopping\<rparr>"

definition demo_stop_interrupted :: "(unit, unit, memory_store, unit) process_lifecycle" where
  "demo_stop_interrupted = \<lparr>plc_config = \<lparr>plc_max_processes = 2, plc_max_records = 8\<rparr>, plc_profiles = demo_catalog,
     plc_clock = (), plc_process = (), plc_store = memory_store_new\<lparr>
       mem_records := bm_insert (1, 6) demo_stopping (bm_insert (1, 5) demo_started bm_empty),
       mem_ownership := bm_insert 1 (owner_row demo_started 3 (Some (demo_identity 1))) bm_empty\<rparr>,
     plc_fence = (), plc_leases = bm_empty, plc_authority = bm_empty,
     plc_records = bm_insert (1, 6) demo_stopping (bm_insert (1, 5) demo_started bm_empty),
     plc_ownership = bm_insert 1 (owner_row demo_started 3 (Some (demo_identity 1))) bm_empty,
     plc_owned = bm_empty, plc_next_sequence = 2\<rparr>"

theorem lifecycle_stop_completes_witness:
  "\<exists>t. reconcile_record (demo_lifecycle (demo_identity 1) (Exited None) (Inr ())) demo_stopping demo_stop_interrupted =
      (Inr (lifecycle_response_new (set_state OpStopped None None demo_stopping) lifecycle_state.Stopped), t)
    \<and> bm_get (plc_ownership t) 1 = None"
proof -
  let ?E = "demo_lifecycle (demo_identity 1) (Exited None) (Inr ())" and ?s = demo_stop_interrupted
  have ids: "lop_instance_id demo_stopping = 1" "lop_operation_id demo_stopping = 6" "lop_state demo_stopping = OpStopping"
      "lop_process demo_stopping = Some (demo_identity 1)" "lop_sequence demo_stopping = 2"
      "lop_instance_id demo_started = 1" "lop_operation_id demo_started = 5" "lop_sequence demo_started = 1"
      "lop_state demo_started = Started"
    by (simp_all add: demo_stopping_def demo_started_def demo_starting_def)
  have stored: "bm_get (plc_records ?s) (op_key demo_stopping) = Some demo_stopping"
    by (simp add: demo_stop_interrupted_def ids)
  have "lc_store ?E = memory_lifecycle_store" by (simp add: demo_lifecycle_def)
  moreover have "mirrors mem_records mem_ownership ?s"
    by (auto simp: mirrors_def demo_stop_interrupted_def ids owner_row_def split: if_splits)
  moreover have "\<not> mem_fail_update (plc_store ?s)" "mem_fail_update_after (plc_store ?s) = None"
    by (simp_all add: demo_stop_interrupted_def memory_store_new_def)
  moreover have "operation_is_current ?s demo_stopping"
    by (simp add: operation_is_current_def records_of_def demo_stop_interrupted_def bm_values_def bm_entries_insert ids operation_order_def)
  moreover have "operation_can_update_owner ?s demo_stopping"
    by (simp add: operation_can_update_owner_def demo_stop_interrupted_def owner_order_def operation_order_def owner_row_def ids)
  moreover have "profile_for_operation ?s demo_stopping = Inr demo_profile"
    by (simp add: profile_for_operation_def demo_stop_interrupted_def owner_row_def ids resolve_profile_def map_err_def)
  moreover have "matches_profile (demo_identity 1) (pid_instance_id (demo_identity 1)) demo_profile" by simp
  moreover have "fst (lc_inspect_identity ?E x (pid_process (demo_identity 1))) = Inr (demo_identity 1)"
      "fst (lc_inspect ?E x (pid_process (demo_identity 1))) = Inr (Exited None)"
      "fst (lc_descendants ?E x (pid_process (demo_identity 1))) = Inr []" for x
    by (simp_all add: demo_lifecycle_def)
  ultimately show ?thesis
    using lifecycle_stop_completes [of ?E ?s demo_stopping "demo_identity 1" demo_profile None] stored ids by auto
qed

section \<open>A row that blocks every later start\<close>

lemma bootstrap_refuses_foreign:
  assumes "bm_get (plc_ownership s) i = Some w" and "own_process w = Some d" and "pid_instance_id d \<noteq> own_instance_id w"
    and "bootstrap_ownership E s = (r, t)"
  shows "is_err r \<and> plc_store t = plc_store s"
proof -
  have "w \<in> set (bm_values (plc_ownership s))" using assms(1) by (auto simp: set_bm_values)
  then have "\<exists>w \<in> set (bm_values (plc_ownership s)). (case own_process w of None \<Rightarrow> False | Some d \<Rightarrow> pid_instance_id d \<noteq> own_instance_id w)"
    using assms(2,3) by (intro bexI [of _ w]) simp_all
  with assms(4) show ?thesis by (auto simp: bootstrap_ownership_def Let_def is_err_def split: if_splits)
qed

lemma lifecycle_new_refuses_foreign:
  assumes "mirrored_store (lc_store E) held owners" and "mirrors held owners s"
    and "bm_get (plc_ownership s) i = Some w" and "own_process w = Some d" and "pid_instance_id d \<noteq> own_instance_id w"
  shows "\<exists>e. lifecycle_new E config profiles c x (plc_store s) f = (Inl e, plc_store s)"
proof -
  note keys = mirrors_keyed [OF assms(2)] mirrors_keyed_rows [OF assms(2)]
  obtain y st where new: "lifecycle_new E config profiles c x (plc_store s) f = (y, st)" by fastforce
  have "is_err y \<and> st = plc_store s"
  proof (rule mirrored_store.lifecycle_new_cases [OF assms(1) new refl keys])
    fix r t assume boot: "bootstrap_ownership E (loaded held owners config profiles c x (plc_store s) f) = (r, t)"
      and y: "y = (case r of Inl e \<Rightarrow> Inl e | Inr _ \<Rightarrow> Inr t)" "st = plc_store t"
    have "bm_get (plc_ownership (loaded held owners config profiles c x (plc_store s) f)) i = Some w"
      using assms(2,3) by (simp add: loaded_def mirrors_def)
    from bootstrap_refuses_foreign [OF this assms(4,5) boot] y show "is_err y \<and> st = plc_store s"
      by (simp add: is_err_def loaded_def split: sum.splits)
  qed (simp add: is_err_def)
  with new show ?thesis by (simp add: is_err_def split: sum.splits)
qed

lemma failed_starts_refused:
  assumes "failed_starts E st0 st"
    and "\<And>config profiles c x f. \<exists>e. lifecycle_new E config profiles c x st0 f = (Inl e, st0)"
  shows "st = st0"
  using assms(1)
proof induction
  case (fails st1 config profiles c x f e st2)
  with assms(2) [of config profiles c x f] show ?case by auto
qed simp

lemma block_cleanup_row:
  assumes "mirrored_store (lc_store E) held owners" and "mirrors held owners s"
    and "bm_get (plc_ownership s) (lop_instance_id p) = Some w" and "operation_can_update_owner s p"
    and "block_cleanup E p failure s = (Inl e0, t)" and "e0 = ForeignDescendant \<or> (\<exists>fault. e0 = Process fault)"
  shows "mirrors held owners t \<and> bm_get (plc_ownership t) (lop_instance_id p) = Some (w\<lparr>own_process := lop_process p\<rparr>)"
proof -
  let ?q = "set_state Blocked (lop_process p) (Some failure) p"
  have wi: "own_instance_id w = lop_instance_id p" using assms(2,3) by (simp add: mirrors_def)
  have row: "set_owner_process_for_operation E ?q (lop_process ?q) s = persist_ownership E (w\<lparr>own_process := lop_process p\<rparr>) s"
    using assms(3,4) by (simp add: set_owner_process_for_operation_def)
  from assms(5) [unfolded block_cleanup_def Let_def] show ?thesis
  proof (cases rule: and_try_cases)
    case (1 e)
    then show ?thesis using assms(6) unfolding row by (auto simp: persist_ownership_def split: prod.splits sum.splits)
  next
    case (2 a u)
    note own = 2(1) [unfolded row]
    have u: "mirrors held owners u" using mirrored_store.mirrors_own(1) [OF assms(1,2) refl own] .
    have uw: "bm_get (plc_ownership u) (lop_instance_id p) = Some (w\<lparr>own_process := lop_process p\<rparr>)"
      using own wi by (auto simp: persist_ownership_def split: prod.splits sum.splits)
    from 2(2) show ?thesis
    proof (cases rule: and_try_cases)
      case (1 e)
      then show ?thesis using assms(6) by (auto simp: persist_update_def split: prod.splits sum.splits)
    next
      case (2 b v)
      from mirrored_store.mirrors_update(1) [OF assms(1) u refl 2(1)] 2 uw show ?thesis
        by (auto simp: persist_update_def split: prod.splits sum.splits)
    qed
  qed
qed

lemma block_operation_result:
  "block_operation E p FailIdentityMismatch s = (Inl e, t) \<Longrightarrow> e \<noteq> ForeignDescendant \<and> e \<noteq> Process fault"
  by (auto simp: block_operation_def Let_def and_try_def persist_update_def clear_owned_for_def clear_owned_def failure_error_def
      split: prod.splits sum.splits if_splits option.splits)

text \<open>
  C37. When the process started for an operation that may update its instance's ownership row, as a
  launch may after reserving it, reports the identity of another instance and its forced stop cannot
  be confirmed, because the stop or the descendants query fails or because descendants survive it,
  the coordinator writes that foreign identity into the row although start-up rejects such a row. On the store as this leaves it, and after any number of failed starts, which do
  not change it, a start of the coordinator fails under every configuration. (Only a coordinator that
  is still alive could clear the row.)
\<close>

theorem lifecycle_foreign_identity_blocks_starts:
  assumes "mirrored_store (lc_store E) held owners" and "mirrors held owners s"
    and "bm_get (plc_ownership s) (lop_instance_id p) = Some w" and "operation_can_update_owner s p"
    and "pid_instance_id (launch_identity l) \<noteq> lop_instance_id p"
    and "finish_start E p l profile Started s = (Inl e0, t)"
    and "e0 = ForeignDescendant \<or> (\<exists>fault. e0 = Process fault)"
    and "failed_starts E (plc_store t) st"
  shows "\<exists>e. lifecycle_new E config profiles c x st f = (Inl e, plc_store t)"
proof -
  let ?d = "launch_identity l"
  let ?q = "set_state OpStarting (Some ?d) (Some FailIdentityMismatch) p"
  have "\<not> matches_profile ?d (lop_instance_id p) profile" using assms(5) by (simp add: matches_profile_def)
  then have "finish_start_failure E ?q FailIdentityMismatch s = (Inl e0, t)"
    using assms(6) by (simp add: finish_start_def Let_def)
  then have "and_use (call_stop E (pid_process ?d) Force) (\<lambda>r. case r of
              Inl fault \<Rightarrow> block_cleanup E ?q (FailProcess fault)
            | Inr _ \<Rightarrow> and_use (call_descendants E (pid_process ?d)) (\<lambda>ds. case ds of
                  Inl fault \<Rightarrow> block_cleanup E ?q (FailProcess fault)
                | Inr descendants \<Rightarrow>
                    if descendants \<noteq> [] then block_cleanup E ?q FailForeignDescendant
                    else block_operation E ?q FailIdentityMismatch)) s = (Inl e0, t)"
    by (simp add: finish_start_failure_def Let_def set_state_again)
  then obtain y failure where cleanup: "block_cleanup E ?q failure (s\<lparr>plc_process := y\<rparr>) = (Inl e0, t)"
    using assms(7)
    by (auto simp: and_use_def call_stop_def call_descendants_def on_process_def dest: block_operation_result
        split: prod.splits sum.splits if_splits)
  have "mirrors held owners (s\<lparr>plc_process := y\<rparr>)" using assms(2) by simp
  moreover have "bm_get (plc_ownership (s\<lparr>plc_process := y\<rparr>)) (lop_instance_id ?q) = Some w" using assms(3) by simp
  moreover have "operation_can_update_owner (s\<lparr>plc_process := y\<rparr>) ?q"
    using assms(4) by (simp add: operation_can_update_owner_def split: option.splits)
  ultimately have t: "mirrors held owners t" "bm_get (plc_ownership t) (lop_instance_id p) = Some (w\<lparr>own_process := Some ?d\<rparr>)"
    using block_cleanup_row [OF assms(1) _ _ _ cleanup assms(7), of w] by simp_all
  have "own_instance_id w = lop_instance_id p" using assms(2,3) by (simp add: mirrors_def)
  then have refused: "\<exists>e. lifecycle_new E config profiles c x (plc_store t) f = (Inl e, plc_store t)"
    for config profiles c x f
    using lifecycle_new_refuses_foreign [OF assms(1) t, of ?d] assms(5) by simp
  from failed_starts_refused [OF assms(8) refused] show ?thesis using refused by simp
qed

text \<open>The sample launch of a process of instance 2 for instance 1, whose stop fails.\<close>

theorem lifecycle_foreign_identity_blocks_starts_witness:
  "\<exists>t. finish_start (lc_recording (demo_lifecycle (demo_identity 2) Running (Inl StopFailed))) demo_starting
       \<lparr>launch_identity = demo_identity 2\<rparr> demo_profile Started demo_reserved = (Inl (Process StopFailed), t)
     \<and> (\<forall>config profiles. \<exists>e. lifecycle_new (lc_recording (demo_lifecycle (demo_identity 2) Running (Inl StopFailed)))
           config profiles () ((), []) (plc_store t) () = (Inl e, plc_store t))"
proof -
  let ?E = "lc_recording (demo_lifecycle (demo_identity 2) Running (Inl StopFailed))"
  obtain r t where run: "finish_start ?E demo_starting \<lparr>launch_identity = demo_identity 2\<rparr> demo_profile Started demo_reserved = (r, t)"
    by fastforce
  have ids: "lop_instance_id demo_starting = 1" by (simp add: demo_starting_def)
  have r: "r = Inl (Process StopFailed)" using run ids by (auto simp: demo_failures)
  have store: "mirrored_store (lc_store ?E) mem_records mem_ownership" using demo_store by simp
  have "mirrors mem_records mem_ownership demo_reserved"
    by (auto simp: mirrors_def demo_reserved_def owner_row_def demo_starting_def split: if_splits)
  moreover have "bm_get (plc_ownership demo_reserved) (lop_instance_id demo_starting) = Some (owner_row demo_starting 3 None)"
    by (simp add: demo_reserved_def ids)
  moreover have "operation_can_update_owner demo_reserved demo_starting"
    by (simp add: operation_can_update_owner_def demo_reserved_def owner_order_def operation_order_def owner_row_def ids)
  moreover have "pid_instance_id (launch_identity \<lparr>launch_identity = demo_identity 2\<rparr>) \<noteq> lop_instance_id demo_starting"
    by (simp add: ids)
  ultimately show ?thesis
    using lifecycle_foreign_identity_blocks_starts [OF store _ _ _ _ run [unfolded r] _ failed_starts.none] run r by blast
qed

end
