(* ===== verification/Process_Port.thy ===== *)
theory Process_Port
  imports Process_Store Gateway_Effects
begin

text \<open>
  The process port: the trait \<open>ProcessPort\<close> of \<open>ports.rs\<close> as a record of state-passing functions, with
  the trait's default methods, and the two contracts its clients rely on. \<open>process_ledger\<close> says which
  running processes the client of a port answers for: those a call handed over and no call has stopped
  since. \<open>faithful_port\<close> says that an identity handed over by a profile start is the one asked for.
  \<open>traced_port\<close> records the calls that reach any port, so that the contracts can be stated about a port
  whose behaviour is not known.
\<close>

section \<open>The trait and its default methods\<close>

record 'p process_port =
  port_start :: "'p \<Rightarrow> launch_spec \<Rightarrow> (process_fault + process_handle) \<times> 'p"
  port_inspect :: "'p \<Rightarrow> process_handle \<Rightarrow> (process_fault + process_state) \<times> 'p"
  port_stop :: "'p \<Rightarrow> process_handle \<Rightarrow> stop_mode \<Rightarrow> (process_fault + unit) \<times> 'p"
  port_start_with_profile :: "'p \<Rightarrow> launch_spec \<Rightarrow> launch_profile \<Rightarrow> (process_fault + process_launch) \<times> 'p"
  port_start_generation :: "'p \<Rightarrow> process_operation_generation \<Rightarrow> launch_spec \<Rightarrow> launch_profile
    \<Rightarrow> (generation_start_error + process_launch) \<times> 'p"
  port_inspect_identity :: "'p \<Rightarrow> process_handle \<Rightarrow> (process_fault + process_identity) \<times> 'p"
  port_descendants :: "'p \<Rightarrow> process_handle \<Rightarrow> (process_fault + process_descendant_identity list) \<times> 'p"
  port_recover_owned :: "'p \<Rightarrow> instance_id \<Rightarrow> launch_profile \<Rightarrow> (process_fault + process_identity option) \<times> 'p"
  port_recover_generation :: "'p \<Rightarrow> process_operation_generation \<Rightarrow> launch_profile
    \<Rightarrow> (process_fault + generation_recovery) \<times> 'p"

definition default_start_with_profile :: "'p \<Rightarrow> launch_spec \<Rightarrow> launch_profile \<Rightarrow> (process_fault + process_launch) \<times> 'p" where
  "default_start_with_profile s spec profile = (Inl ProfileRequired, s)"

definition default_start_generation :: "'p \<Rightarrow> process_operation_generation \<Rightarrow> launch_spec \<Rightarrow> launch_profile
    \<Rightarrow> (generation_start_error + process_launch) \<times> 'p" where
  "default_start_generation s g spec profile = (Inl GenUnsupported, s)"

definition default_inspect_identity :: "('p \<Rightarrow> process_handle \<Rightarrow> (process_fault + process_state) \<times> 'p)
    \<Rightarrow> 'p \<Rightarrow> process_handle \<Rightarrow> (process_fault + process_identity) \<times> 'p" where
  "default_inspect_identity inspect s h =
     (case inspect s h of
        (Inl e, t) \<Rightarrow> (Inl e, t)
      | (Inr Running, t) \<Rightarrow> (Inr (process_identity_legacy h), t)
      | (Inr (Exited _), t) \<Rightarrow> (Inl InspectionFailed, t))"

definition default_descendants :: "'p \<Rightarrow> process_handle \<Rightarrow> (process_fault + process_descendant_identity list) \<times> 'p" where
  "default_descendants s h = (Inr [], s)"

definition default_recover_owned :: "'p \<Rightarrow> instance_id \<Rightarrow> launch_profile
    \<Rightarrow> (process_fault + process_identity option) \<times> 'p" where
  "default_recover_owned s i profile = (Inr None, s)"

definition default_recover_generation :: "'p \<Rightarrow> process_operation_generation \<Rightarrow> launch_profile
    \<Rightarrow> (process_fault + generation_recovery) \<times> 'p" where
  "default_recover_generation s g profile = (Inr Indeterminate, s)"

text \<open>A port that implements the three required methods only.\<close>

definition legacy_port :: "('p \<Rightarrow> launch_spec \<Rightarrow> (process_fault + process_handle) \<times> 'p)
    \<Rightarrow> ('p \<Rightarrow> process_handle \<Rightarrow> (process_fault + process_state) \<times> 'p)
    \<Rightarrow> ('p \<Rightarrow> process_handle \<Rightarrow> stop_mode \<Rightarrow> (process_fault + unit) \<times> 'p) \<Rightarrow> 'p process_port" where
  "legacy_port start inspect stop = \<lparr>port_start = start, port_inspect = inspect, port_stop = stop,
     port_start_with_profile = default_start_with_profile, port_start_generation = default_start_generation,
     port_inspect_identity = default_inspect_identity inspect, port_descendants = default_descendants,
     port_recover_owned = default_recover_owned, port_recover_generation = default_recover_generation\<rparr>"

lemma legacy_port_simps [simp]:
  "port_start (legacy_port f g h) = f" "port_inspect (legacy_port f g h) = g" "port_stop (legacy_port f g h) = h"
  "port_start_with_profile (legacy_port f g h) s spec p = (Inl ProfileRequired, s)"
  "port_start_generation (legacy_port f g h) s gen spec p = (Inl GenUnsupported, s)"
  "port_descendants (legacy_port f g h) s k = (Inr [], s)"
  "port_recover_owned (legacy_port f g h) s i p = (Inr None, s)"
  "port_recover_generation (legacy_port f g h) s gen p = (Inr Indeterminate, s)"
  "port_inspect_identity (legacy_port f g h) = default_inspect_identity g"
  by (simp_all add: legacy_port_def default_start_with_profile_def default_start_generation_def
      default_descendants_def default_recover_owned_def default_recover_generation_def)

section \<open>Calls\<close>

text \<open>One call of a port by an arbitrary client.\<close>

inductive port_step :: "'p process_port \<Rightarrow> 'p \<Rightarrow> 'p \<Rightarrow> bool" for P where
  start: "port_start P s spec = (r, t) \<Longrightarrow> port_step P s t"
| inspect: "port_inspect P s h = (r, t) \<Longrightarrow> port_step P s t"
| stop: "port_stop P s h mode = (r, t) \<Longrightarrow> port_step P s t"
| start_with_profile: "port_start_with_profile P s spec profile = (r, t) \<Longrightarrow> port_step P s t"
| start_generation: "port_start_generation P s g spec profile = (r, t) \<Longrightarrow> port_step P s t"
| inspect_identity: "port_inspect_identity P s h = (r, t) \<Longrightarrow> port_step P s t"
| descendants: "port_descendants P s h = (r, t) \<Longrightarrow> port_step P s t"
| recover_owned: "port_recover_owned P s i profile = (r, t) \<Longrightarrow> port_step P s t"
| recover_generation: "port_recover_generation P s g profile = (r, t) \<Longrightarrow> port_step P s t"

section \<open>What the client of a port answers for\<close>

text \<open>
  \<open>live s\<close> are the handles the client of the port answers for in state \<open>s\<close>. A start or a recovery that
  succeeds hands over one handle, a successful stop takes it back, and no other call hands over anything.
\<close>

locale process_ledger =
  fixes P :: "'p process_port" and live :: "'p \<Rightarrow> process_handle set"
  assumes start_ok: "port_start P s spec = (Inr h, t) \<Longrightarrow> live t \<subseteq> insert h (live s)"
    and start_err: "port_start P s spec = (Inl e, t) \<Longrightarrow> live t \<subseteq> live s"
    and profile_ok: "port_start_with_profile P s spec profile = (Inr l, t)
      \<Longrightarrow> live t \<subseteq> insert (pid_process (launch_identity l)) (live s)"
    and profile_err: "port_start_with_profile P s spec profile = (Inl e, t) \<Longrightarrow> live t \<subseteq> live s"
    and generation_ok: "port_start_generation P s g spec profile = (Inr l, t)
      \<Longrightarrow> live t \<subseteq> insert (pid_process (launch_identity l)) (live s)"
    and generation_err: "port_start_generation P s g spec profile = (Inl ge, t) \<Longrightarrow> live t \<subseteq> live s"
    and stop_ok: "port_stop P s h mode = (Inr u, t) \<Longrightarrow> live t \<subseteq> live s - {h}"
    and stop_err: "port_stop P s h mode = (Inl e, t) \<Longrightarrow> live t \<subseteq> live s"
    and inspect_any: "port_inspect P s h = (rs, t) \<Longrightarrow> live t \<subseteq> live s"
    and inspect_identity_any: "port_inspect_identity P s h = (ri, t) \<Longrightarrow> live t \<subseteq> live s"
    and descendants_any: "port_descendants P s h = (rd, t) \<Longrightarrow> live t \<subseteq> live s"
    and recover_owned_any: "port_recover_owned P s i profile = (ro, t)
      \<Longrightarrow> live t \<subseteq> live s \<union> (case ro of Inr (Some d) \<Rightarrow> {pid_process d} | _ \<Rightarrow> {})"
    and recover_generation_any: "port_recover_generation P s g profile = (rg, t)
      \<Longrightarrow> live t \<subseteq> live s \<union> (case rg of Inr (Found d) \<Rightarrow> {pid_process d} | _ \<Rightarrow> {})"

text \<open>A port whose recoveries only look a process up: they hand over nothing.\<close>

locale lookup_ledger = process_ledger +
  assumes recover_owned_keeps: "port_recover_owned P s i profile = (ro, t) \<Longrightarrow> live t \<subseteq> live s"
    and recover_generation_keeps: "port_recover_generation P s g profile = (rg, t) \<Longrightarrow> live t \<subseteq> live s"

text \<open>An identity handed over by a profile start is the one that was asked for.\<close>

locale faithful_port =
  fixes P :: "'p process_port"
  assumes launch_matches: "port_start_with_profile P s spec profile = (Inr l, t)
    \<Longrightarrow> matches_profile (launch_identity l) (spec_instance_id spec) profile"

text \<open>A port without the profile methods hands over no identity at all.\<close>

interpretation legacy: faithful_port "legacy_port f g h" for f g h
  by unfold_locales simp

section \<open>Observing a port\<close>

text \<open>
  \<open>traced_port P\<close> behaves as \<open>P\<close> and records the handles handed over and not stopped since, and every
  start that reached the port with the profile it carried.
\<close>

record 'p traced =
  tr_port :: 'p
  tr_live :: "process_handle list"
  tr_starts :: "(launch_spec \<times> launch_profile option) list"

definition traced_new :: "'p \<Rightarrow> 'p traced" where
  "traced_new p = \<lparr>tr_port = p, tr_live = [], tr_starts = []\<rparr>"

definition observe :: "('r \<Rightarrow> process_handle list) \<Rightarrow> ('p \<Rightarrow> 'r \<times> 'p) \<Rightarrow> 'p traced \<Rightarrow> 'r \<times> 'p traced" where
  "observe gained f s = (case f (tr_port s) of (r, p) \<Rightarrow> (r, s\<lparr>tr_port := p, tr_live := gained r @ tr_live s\<rparr>))"

definition gained_launch :: "'e + process_launch \<Rightarrow> process_handle list" where
  "gained_launch r = (case r of Inl _ \<Rightarrow> [] | Inr l \<Rightarrow> [pid_process (launch_identity l)])"

definition note_start :: "launch_spec \<Rightarrow> launch_profile option \<Rightarrow> 'p traced \<Rightarrow> 'p traced" where
  "note_start spec profile s = s\<lparr>tr_starts := (spec, profile) # tr_starts s\<rparr>"

definition traced_stop :: "'p process_port \<Rightarrow> 'p traced \<Rightarrow> process_handle \<Rightarrow> stop_mode
    \<Rightarrow> (process_fault + unit) \<times> 'p traced" where
  "traced_stop P s h mode = (case port_stop P (tr_port s) h mode of
      (Inl e, p) \<Rightarrow> (Inl e, s\<lparr>tr_port := p\<rparr>)
    | (Inr u, p) \<Rightarrow> (Inr u, s\<lparr>tr_port := p, tr_live := removeAll h (tr_live s)\<rparr>))"

definition traced_port :: "'p process_port \<Rightarrow> 'p traced process_port" where
  "traced_port P = \<lparr>
     port_start = (\<lambda>s spec. observe (case_sum (\<lambda>_. []) (\<lambda>h. [h])) (\<lambda>p. port_start P p spec) (note_start spec None s)),
     port_inspect = (\<lambda>s h. observe (\<lambda>_. []) (\<lambda>p. port_inspect P p h) s),
     port_stop = traced_stop P,
     port_start_with_profile = (\<lambda>s spec profile. observe gained_launch (\<lambda>p. port_start_with_profile P p spec profile)
       (note_start spec (Some profile) s)),
     port_start_generation = (\<lambda>s g spec profile. observe gained_launch (\<lambda>p. port_start_generation P p g spec profile)
       (note_start spec (Some profile) s)),
     port_inspect_identity = (\<lambda>s h. observe (\<lambda>_. []) (\<lambda>p. port_inspect_identity P p h) s),
     port_descendants = (\<lambda>s h. observe (\<lambda>_. []) (\<lambda>p. port_descendants P p h) s),
     port_recover_owned = (\<lambda>s i profile. observe (\<lambda>_. []) (\<lambda>p. port_recover_owned P p i profile) s),
     port_recover_generation = (\<lambda>s g profile. observe (\<lambda>_. []) (\<lambda>p. port_recover_generation P p g profile) s)\<rparr>"

lemma observe_eq:
  "observe f m s = (r, t) \<longleftrightarrow> (\<exists>p. m (tr_port s) = (r, p) \<and> t = s\<lparr>tr_port := p, tr_live := f r @ tr_live s\<rparr>)"
  by (auto simp: observe_def split: prod.split)

lemma note_start_simps [simp]:
  "tr_port (note_start spec q s) = tr_port s" "tr_live (note_start spec q s) = tr_live s"
  "tr_starts (note_start spec q s) = (spec, q) # tr_starts s"
  by (simp_all add: note_start_def)

text \<open>The client of a traced port answers for exactly the recorded handles.\<close>

interpretation traced: lookup_ledger "traced_port P" "\<lambda>s. set (tr_live s)" for P
  by unfold_locales
    (auto simp: traced_port_def observe_eq traced_stop_def gained_launch_def split: prod.splits sum.splits)

lemma traced_starts:
  "port_start (traced_port P) s spec = (r1, t) \<Longrightarrow> tr_starts t = (spec, None) # tr_starts s"
  "port_start_with_profile (traced_port P) s spec profile = (r2, t) \<Longrightarrow> tr_starts t = (spec, Some profile) # tr_starts s"
  "port_start_generation (traced_port P) s g spec profile = (r3, t) \<Longrightarrow> tr_starts t = (spec, Some profile) # tr_starts s"
  "port_inspect (traced_port P) s h = (r4, t) \<Longrightarrow> tr_starts t = tr_starts s"
  "port_stop (traced_port P) s h mode = (r5, t) \<Longrightarrow> tr_starts t = tr_starts s"
  "port_inspect_identity (traced_port P) s h = (r6, t) \<Longrightarrow> tr_starts t = tr_starts s"
  "port_descendants (traced_port P) s h = (r7, t) \<Longrightarrow> tr_starts t = tr_starts s"
  "port_recover_owned (traced_port P) s i profile = (r8, t) \<Longrightarrow> tr_starts t = tr_starts s"
  "port_recover_generation (traced_port P) s g profile = (r9, t) \<Longrightarrow> tr_starts t = tr_starts s"
  by (auto simp: traced_port_def observe_eq traced_stop_def split: prod.splits sum.splits)

text \<open>Tracing is transparent: the answer and the next state of the port are those of the port itself.\<close>

lemma traced_transparent:
  "map_prod id tr_port (port_start (traced_port P) s spec) = port_start P (tr_port s) spec"
  "map_prod id tr_port (port_inspect (traced_port P) s h) = port_inspect P (tr_port s) h"
  "map_prod id tr_port (port_stop (traced_port P) s h mode) = port_stop P (tr_port s) h mode"
  "map_prod id tr_port (port_start_with_profile (traced_port P) s spec profile) =
     port_start_with_profile P (tr_port s) spec profile"
  "map_prod id tr_port (port_start_generation (traced_port P) s g spec profile) =
     port_start_generation P (tr_port s) g spec profile"
  "map_prod id tr_port (port_inspect_identity (traced_port P) s h) = port_inspect_identity P (tr_port s) h"
  "map_prod id tr_port (port_descendants (traced_port P) s h) = port_descendants P (tr_port s) h"
  "map_prod id tr_port (port_recover_owned (traced_port P) s i profile) = port_recover_owned P (tr_port s) i profile"
  "map_prod id tr_port (port_recover_generation (traced_port P) s g profile) =
     port_recover_generation P (tr_port s) g profile"
  by (simp_all add: traced_port_def observe_def traced_stop_def split: prod.split sum.split)

end
