(* ===== verification/Process_Supervisor.thy ===== *)
theory Process_Supervisor
  imports Process_Port
begin

text \<open>
  The process supervisor: \<open>process_supervisor.rs\<close> and \<open>process_supervisor_resolved.rs\<close>. It owns the
  handles a process port gave it, one per instance and at most \<open>max_owned_processes\<close> of them, and the
  identities that were proved or authorized for them. Every method is an effect on the supervisor's
  state, over an arbitrary port. \<open>supervisor_step\<close> is one call of any of its methods.
\<close>

section \<open>State\<close>

record process_supervisor_config =
  psc_max_owned_processes :: nat

datatype process_supervisor_config_error = ZeroCapacity

datatype process_supervisor_error =
    CapacityExceeded
  | AlreadyOwned
  | NotOwned
  | IdentityMismatch
  | ForeignDescendant
  | UserDataNamespaceBusy
  | Process process_fault

definition supervisor_config_new :: "nat \<Rightarrow> process_supervisor_config" where
  "supervisor_config_new n = \<lparr>psc_max_owned_processes = n\<rparr>"

definition supervisor_config_try_new :: "nat \<Rightarrow> process_supervisor_config_error + process_supervisor_config" where
  "supervisor_config_try_new n = (if n = 0 then Inl ZeroCapacity else Inr (supervisor_config_new n))"

record 'p process_supervisor =
  sup_config :: process_supervisor_config
  sup_process :: 'p
  sup_owned :: "(instance_id, process_handle) bmap"
  sup_identities :: "(instance_id, process_identity) bmap"

definition supervisor_new :: "process_supervisor_config \<Rightarrow> 'p \<Rightarrow> 'p process_supervisor" where
  "supervisor_new config p = \<lparr>sup_config = config, sup_process = p, sup_owned = bm_empty, sup_identities = bm_empty\<rparr>"

text \<open>A port call whose fault ends the method as \<open>ProcessSupervisorError::Process\<close>.\<close>

definition sup_call :: "('p \<Rightarrow> (process_fault + 'a) \<times> 'p) \<Rightarrow> 'p process_supervisor
    \<Rightarrow> (process_supervisor_error + 'a) \<times> 'p process_supervisor" where
  "sup_call f s = (case f (sup_process s) of (r, p) \<Rightarrow> (map_err Process r, s\<lparr>sup_process := p\<rparr>))"

definition own :: "instance_id \<Rightarrow> process_handle \<Rightarrow> 'p process_supervisor \<Rightarrow> 'p process_supervisor" where
  "own i h s = s\<lparr>sup_identities := bm_remove i (sup_identities s), sup_owned := bm_insert i h (sup_owned s)\<rparr>"

definition disown :: "instance_id \<Rightarrow> 'p process_supervisor \<Rightarrow> 'p process_supervisor" where
  "disown i s = s\<lparr>sup_identities := bm_remove i (sup_identities s), sup_owned := bm_remove i (sup_owned s)\<rparr>"

definition retain_identity :: "instance_id \<Rightarrow> process_identity \<Rightarrow> 'p process_supervisor \<Rightarrow> 'p process_supervisor" where
  "retain_identity i d s = s\<lparr>sup_identities := bm_insert i d (sup_identities s),
     sup_owned := bm_insert i (pid_process d) (sup_owned s)\<rparr>"

definition process_handle_of :: "'p process_supervisor \<Rightarrow> instance_id \<Rightarrow> process_handle option" where
  "process_handle_of s i = bm_get (sup_owned s) i"

definition owned_count :: "'p process_supervisor \<Rightarrow> nat" where
  "owned_count s = bm_size (sup_owned s)"

definition is_owned :: "'p process_supervisor \<Rightarrow> instance_id \<Rightarrow> bool" where
  "is_owned s i = bm_has (sup_owned s) i"

definition namespace_is_reserved_by_other :: "'p process_supervisor \<Rightarrow> instance_id \<Rightarrow> user_data_config \<Rightarrow> bool" where
  "namespace_is_reserved_by_other s i namespace =
     (list_ex (\<lambda>(owner, d). owner \<noteq> i \<and> pid_user_data d = Some namespace) (bm_entries (sup_identities s))
      \<or> list_ex (\<lambda>owner. owner \<noteq> i \<and> Option.bind (bm_get (sup_identities s) owner) pid_user_data = None)
          (bm_keys (sup_owned s)))"

section \<open>Handle-only operations (process_supervisor.rs)\<close>

definition start_spec :: "'p process_port \<Rightarrow> launch_spec \<Rightarrow> 'p process_supervisor
    \<Rightarrow> (process_supervisor_error + process_handle) \<times> 'p process_supervisor" where
  "start_spec P spec s =
     (if bm_has (sup_owned s) (spec_instance_id spec) then (Inl AlreadyOwned, s)
      else if psc_max_owned_processes (sup_config s) \<le> bm_size (sup_owned s) then (Inl CapacityExceeded, s)
      else and_try (sup_call (\<lambda>p. port_start P p spec)) (\<lambda>h s. (Inr h, own (spec_instance_id spec) h s)) s)"

definition sup_start :: "'p process_port \<Rightarrow> instance_id \<Rightarrow> 'p process_supervisor
    \<Rightarrow> (process_supervisor_error + process_handle) \<times> 'p process_supervisor" where
  "sup_start P i = start_spec P (launch_spec_new i)"

definition sup_start_with_profile :: "'p process_port \<Rightarrow> instance_id \<Rightarrow> launch_profile_id \<Rightarrow> 'p process_supervisor
    \<Rightarrow> (process_supervisor_error + process_handle) \<times> 'p process_supervisor" where
  "sup_start_with_profile P i profile_id = start_spec P (launch_spec_for_profile i profile_id)"

definition owned_handle :: "instance_id \<Rightarrow> 'p process_supervisor \<Rightarrow> process_supervisor_error + process_handle" where
  "owned_handle i s = ok_or (bm_get (sup_owned s) i) NotOwned"

definition sup_inspect :: "'p process_port \<Rightarrow> instance_id \<Rightarrow> 'p process_supervisor
    \<Rightarrow> (process_supervisor_error + process_state) \<times> 'p process_supervisor" where
  "sup_inspect P i s =
     and_try (pure (owned_handle i s)) (\<lambda>h. sup_call (\<lambda>p. port_inspect P p h)) s"

definition authorize_identity :: "process_identity \<Rightarrow> 'p process_supervisor
    \<Rightarrow> (process_supervisor_error + unit) \<times> 'p process_supervisor" where
  "authorize_identity d s =
     (if pid_instance_id d = 0 \<or> pid_process d = 0 \<or> pid_pid d = 0 \<or> pid_birth_id d = 0
         \<or> pid_executable d = None \<or> pid_user_data d = None then (Inl IdentityMismatch, s)
      else if bm_has (sup_owned s) (pid_instance_id d) then (Inl AlreadyOwned, s)
      else case pid_user_data d of
             None \<Rightarrow> (Inl IdentityMismatch, s)
           | Some namespace \<Rightarrow>
               if namespace_is_reserved_by_other s (pid_instance_id d) namespace then (Inl UserDataNamespaceBusy, s)
               else (Inr (), s\<lparr>sup_identities := bm_insert (pid_instance_id d) d (sup_identities s)\<rparr>))"

definition sup_stop :: "'p process_port \<Rightarrow> instance_id \<Rightarrow> stop_mode \<Rightarrow> 'p process_supervisor
    \<Rightarrow> (process_supervisor_error + unit) \<times> 'p process_supervisor" where
  "sup_stop P i mode s =
     and_try (pure (owned_handle i s)) (\<lambda>h.
     and_try (sup_call (\<lambda>p. port_stop P p h mode)) (\<lambda>_ s. (Inr (), disown i s))) s"

definition sup_restart :: "'p process_port \<Rightarrow> instance_id \<Rightarrow> 'p process_supervisor
    \<Rightarrow> (process_supervisor_error + process_handle) \<times> 'p process_supervisor" where
  "sup_restart P i s =
     and_try (pure (owned_handle i s)) (\<lambda>old.
     and_try (sup_call (\<lambda>p. port_stop P p old Force)) (\<lambda>_ s.
     and_try (sup_call (\<lambda>p. port_start P p (launch_spec_new i))) (\<lambda>h s. (Inr h, own i h s)) (disown i s))) s"

section \<open>Identity-bearing operations (process_supervisor_resolved.rs)\<close>

definition reject_launched_identity :: "'p process_port \<Rightarrow> instance_id \<Rightarrow> process_identity \<Rightarrow> 'p process_supervisor
    \<Rightarrow> process_supervisor_error \<times> 'p process_supervisor" where
  "reject_launched_identity P i d s =
     (case port_stop P (sup_process s) (pid_process d) Force of
        (Inl fault, p) \<Rightarrow> (Process fault, retain_identity i d (s\<lparr>sup_process := p\<rparr>))
      | (Inr _, p) \<Rightarrow>
          (case port_descendants P p (pid_process d) of
             (Inl fault, q) \<Rightarrow> (Process fault, retain_identity i d (s\<lparr>sup_process := q\<rparr>))
           | (Inr ds, q) \<Rightarrow>
               if ds \<noteq> [] then (ForeignDescendant, retain_identity i d (s\<lparr>sup_process := q\<rparr>))
               else (IdentityMismatch, disown i (s\<lparr>sup_process := q\<rparr>))))"

text \<open>The end of \<open>start_resolved\<close> and of \<open>restart_resolved\<close>: launch with the profile and keep or reject the result.\<close>

definition launch_resolved :: "'p process_port \<Rightarrow> launch_spec \<Rightarrow> launch_profile \<Rightarrow> 'p process_supervisor
    \<Rightarrow> (process_supervisor_error + process_identity) \<times> 'p process_supervisor" where
  "launch_resolved P spec profile =
     and_try (sup_call (\<lambda>p. port_start_with_profile P p spec profile)) (\<lambda>l s.
       let i = spec_instance_id spec; d = launch_identity l in
       if \<not> matches_profile d i profile
       then (case reject_launched_identity P i d s of (e, t) \<Rightarrow> (Inl e, t))
       else (Inr d, retain_identity i d s))"

definition start_resolved :: "'p process_port \<Rightarrow> launch_spec \<Rightarrow> launch_profile \<Rightarrow> 'p process_supervisor
    \<Rightarrow> (process_supervisor_error + process_identity) \<times> 'p process_supervisor" where
  "start_resolved P spec profile s =
     (let i = spec_instance_id spec in
      if spec_profile_id spec \<noteq> Some (prof_id profile) then (Inl (Process ProfileNotApproved), s)
      else if bm_has (sup_owned s) i then (Inl AlreadyOwned, s)
      else if psc_max_owned_processes (sup_config s) \<le> bm_size (sup_owned s) then (Inl CapacityExceeded, s)
      else if namespace_is_reserved_by_other s i (prof_user_data profile) then (Inl UserDataNamespaceBusy, s)
      else launch_resolved P spec profile s)"

definition attach_authorized :: "'p process_port \<Rightarrow> process_identity \<Rightarrow> 'p process_supervisor
    \<Rightarrow> (process_supervisor_error + process_handle) \<times> 'p process_supervisor" where
  "attach_authorized P d s =
     (let i = pid_instance_id d; h = pid_process d in
      if bm_has (sup_owned s) i then (Inl AlreadyOwned, s)
      else if psc_max_owned_processes (sup_config s) \<le> bm_size (sup_owned s) then (Inl CapacityExceeded, s)
      else if bm_get (sup_identities s) i \<noteq> Some d then (Inl IdentityMismatch, s)
      else
        and_try (sup_call (\<lambda>p. port_inspect_identity P p h)) (\<lambda>actual.
          if actual \<noteq> d then pure (Inl IdentityMismatch)
          else and_try (sup_call (\<lambda>p. port_inspect P p h)) (\<lambda>st s.
            if st \<noteq> Running then (Inl (Process InspectionFailed), s)
            else (Inr h, retain_identity i d s))) s)"

text \<open>The check before a verified stop and a verified restart: the exact identity and no descendant.\<close>

definition check_owned_process :: "'p process_port \<Rightarrow> process_handle \<Rightarrow> process_identity \<Rightarrow> 'p process_supervisor
    \<Rightarrow> (process_supervisor_error + unit) \<times> 'p process_supervisor" where
  "check_owned_process P h expected =
     and_try (sup_call (\<lambda>p. port_inspect_identity P p h)) (\<lambda>actual.
       if actual \<noteq> expected then pure (Inl IdentityMismatch)
       else and_try (sup_call (\<lambda>p. port_descendants P p h)) (\<lambda>ds.
         pure (if ds \<noteq> [] then Inl ForeignDescendant else Inr ())))"

definition stop_verified :: "'p process_port \<Rightarrow> instance_id \<Rightarrow> process_identity \<Rightarrow> stop_mode \<Rightarrow> 'p process_supervisor
    \<Rightarrow> (process_supervisor_error + unit) \<times> 'p process_supervisor" where
  "stop_verified P i expected mode s =
     and_try (pure (owned_handle i s)) (\<lambda>h.
       if h \<noteq> pid_process expected \<or> pid_instance_id expected \<noteq> i then pure (Inl IdentityMismatch)
       else and_try (check_owned_process P h expected) (\<lambda>_. sup_stop P i mode)) s"

definition restart_resolved :: "'p process_port \<Rightarrow> instance_id \<Rightarrow> launch_profile \<Rightarrow> 'p process_supervisor
    \<Rightarrow> (process_supervisor_error + process_identity) \<times> 'p process_supervisor" where
  "restart_resolved P i profile s =
     and_try (pure (owned_handle i s)) (\<lambda>old.
     and_try (pure (ok_or (bm_get (sup_identities s) i) IdentityMismatch)) (\<lambda>expected.
       if pid_instance_id expected \<noteq> i \<or> \<not> matches_profile expected i profile then pure (Inl IdentityMismatch)
       else if namespace_is_reserved_by_other s i (prof_user_data profile) then pure (Inl UserDataNamespaceBusy)
       else
         and_try (check_owned_process P old expected) (\<lambda>_.
         and_try (sup_call (\<lambda>p. port_stop P p old Force)) (\<lambda>_.
         and_try (sup_call (\<lambda>p. port_descendants P p old)) (\<lambda>ds s.
           if ds \<noteq> [] then (Inl ForeignDescendant, s)
           else launch_resolved P (launch_spec_for_profile i (prof_id profile)) profile (disown i s)))))) s"

section \<open>Runs\<close>

inductive supervisor_step :: "'p process_port \<Rightarrow> 'p process_supervisor \<Rightarrow> 'p process_supervisor \<Rightarrow> bool" for P where
  start_spec: "start_spec P spec s = (r, t) \<Longrightarrow> supervisor_step P s t"
| inspect: "sup_inspect P i s = (r, t) \<Longrightarrow> supervisor_step P s t"
| authorize: "authorize_identity d s = (r, t) \<Longrightarrow> supervisor_step P s t"
| stop: "sup_stop P i mode s = (r, t) \<Longrightarrow> supervisor_step P s t"
| restart: "sup_restart P i s = (r, t) \<Longrightarrow> supervisor_step P s t"
| start_resolved: "start_resolved P spec profile s = (r, t) \<Longrightarrow> supervisor_step P s t"
| attach: "attach_authorized P d s = (r, t) \<Longrightarrow> supervisor_step P s t"
| stop_verified: "stop_verified P i d mode s = (r, t) \<Longrightarrow> supervisor_step P s t"
| restart_resolved: "restart_resolved P i profile s = (r, t) \<Longrightarrow> supervisor_step P s t"

section \<open>Every handed-over process is owned\<close>

lemma sup_call_cases:
  assumes "sup_call f s = (r, t)"
  obtains e p where "f (sup_process s) = (Inl e, p)" "r = Inl (Process e)" "t = s\<lparr>sup_process := p\<rparr>"
  | a p where "f (sup_process s) = (Inr a, p)" "r = Inr a" "t = s\<lparr>sup_process := p\<rparr>"
  using assms by (auto simp: sup_call_def map_err_def split: prod.splits sum.splits)

lemma sup_call_keeps:
  "sup_call f s = (r, t) \<Longrightarrow> sup_owned t = sup_owned s \<and> sup_identities t = sup_identities s \<and> sup_config t = sup_config s"
  by (elim sup_call_cases) simp_all

lemma check_keeps_owned:
  assumes "check_owned_process P h d s = (r, t)"
  shows "sup_owned t = sup_owned s \<and> sup_identities t = sup_identities s \<and> sup_config t = sup_config s"
  using assms unfolding check_owned_process_def
  by (elim and_try_cases) (auto split: if_splits elim!: and_try_cases dest!: sup_call_keeps)

lemma restart_resolved_cases:
  assumes "restart_resolved P i profile s = (r, t)"
  obtains "t = s"
  | old expected where "bm_get (sup_owned s) i = Some old"
    "\<not> namespace_is_reserved_by_other s i (prof_user_data profile)"
    "and_try (check_owned_process P old expected) (\<lambda>_.
      and_try (sup_call (\<lambda>p. port_stop P p old Force)) (\<lambda>_.
      and_try (sup_call (\<lambda>p. port_descendants P p old)) (\<lambda>ds s.
        if ds \<noteq> [] then (Inl ForeignDescendant, s)
        else launch_resolved P (launch_spec_for_profile i (prof_id profile)) profile (disown i s)))) s = (r, t)"
proof (cases "t = s")
  case False
  then show ?thesis
    using assms that(2)
    by (cases "bm_get (sup_owned s) i"; cases "bm_get (sup_identities s) i")
      (auto simp: restart_resolved_def owned_handle_def split: if_splits)
qed (rule that(1))

definition owned_handles :: "'p process_supervisor \<Rightarrow> process_handle set" where
  "owned_handles s = {h. \<exists>i. bm_get (sup_owned s) i = Some h}"

lemma owned_handles_simps [simp]:
  "owned_handles (s\<lparr>sup_process := p\<rparr>) = owned_handles s"
  "owned_handles (s\<lparr>sup_identities := m\<rparr>) = owned_handles s"
  by (simp_all add: owned_handles_def)

lemma owned_handles_own: "bm_get (sup_owned s) i = None \<Longrightarrow> owned_handles (own i h s) = insert h (owned_handles s)"
  by (auto simp: owned_handles_def own_def split: if_splits) (metis option.distinct(1) option.inject)+

lemma owned_handles_retain:
  "bm_get (sup_owned s) i = None \<or> bm_get (sup_owned s) i = Some (pid_process d)
    \<Longrightarrow> owned_handles (retain_identity i d s) = insert (pid_process d) (owned_handles s)"
  by (auto simp: owned_handles_def retain_identity_def split: if_splits) (metis option.distinct(1) option.inject)+

lemma owned_handles_disown: "bm_get (sup_owned s) i = Some h \<Longrightarrow> owned_handles s - {h} \<subseteq> owned_handles (disown i s)"
  by (auto simp: owned_handles_def disown_def) (metis option.inject)

lemma owned_handles_disown_absent: "bm_get (sup_owned s) i = None \<Longrightarrow> owned_handles (disown i s) = owned_handles s"
  by (auto simp: owned_handles_def disown_def) (metis option.distinct(1))

lemma supervisor_state_simps [simp]:
  "sup_process (own i h s) = sup_process s" "sup_process (disown i s) = sup_process s"
  "sup_process (retain_identity i d s) = sup_process s"
  "bm_get (sup_owned (disown i s)) i = None"
  by (simp_all add: own_def disown_def retain_identity_def)

definition covered :: "('p \<Rightarrow> process_handle set) \<Rightarrow> 'p process_supervisor \<Rightarrow> bool" where
  "covered live s \<longleftrightarrow> live (sup_process s) \<subseteq> owned_handles s"

context process_ledger
begin

lemma covered_reject:
  assumes "reject_launched_identity P i d s = (e, t)" and "bm_get (sup_owned s) i = None"
    and "live (sup_process s) \<subseteq> insert (pid_process d) (owned_handles s)"
  shows "covered live t"
  using assms
  by (fastforce simp: reject_launched_identity_def covered_def owned_handles_retain owned_handles_disown_absent
      split: prod.splits sum.splits if_splits dest!: stop_err stop_ok descendants_any)

lemma covered_call:
  assumes "sup_call f s = (r, t)" and "covered live s"
    and "\<And>r' p. f (sup_process s) = (r', p) \<Longrightarrow> r = map_err Process r' \<Longrightarrow> live p \<subseteq> live (sup_process s)"
  shows "covered live t"
  using assms(1)
proof (cases rule: sup_call_cases)
  case (1 e p)
  with assms(2) assms(3) [of "Inl e" p] show ?thesis by (auto simp: covered_def)
next
  case (2 a p)
  with assms(2) assms(3) [of "Inr a" p] show ?thesis by (auto simp: covered_def)
qed

lemma covered_calls:
  shows "sup_call (\<lambda>p. port_inspect P p h) s = (r1, t) \<Longrightarrow> covered live s \<Longrightarrow> covered live t"
    and "sup_call (\<lambda>p. port_inspect_identity P p h) s = (r2, t) \<Longrightarrow> covered live s \<Longrightarrow> covered live t"
    and "sup_call (\<lambda>p. port_descendants P p h) s = (r3, t) \<Longrightarrow> covered live s \<Longrightarrow> covered live t"
    and "sup_call (\<lambda>p. port_stop P p h mode) s = (Inl e, t) \<Longrightarrow> covered live s \<Longrightarrow> covered live t"
    and "sup_call (\<lambda>p. port_start P p spec) s = (Inl e, t) \<Longrightarrow> covered live s \<Longrightarrow> covered live t"
    and "sup_call (\<lambda>p. port_start_with_profile P p spec profile) s = (Inl e, t) \<Longrightarrow> covered live s \<Longrightarrow> covered live t"
  by (erule (1) covered_call; auto simp: map_err_def split: sum.splits
      dest: inspect_any inspect_identity_any descendants_any stop_err start_err profile_err)+

lemma covered_start_call:
  assumes "sup_call (\<lambda>p. port_start P p spec) s = (Inr h, t)" and "covered live s"
  shows "live (sup_process t) \<subseteq> insert h (owned_handles t)"
  using assms(1)
proof (cases rule: sup_call_cases)
  case (2 a p)
  then show ?thesis using assms(2) start_ok [of "sup_process s" spec h p] by (auto simp: covered_def)
qed simp

lemma covered_profile_call:
  assumes "sup_call (\<lambda>p. port_start_with_profile P p spec profile) s = (Inr l, t)" and "covered live s"
  shows "live (sup_process t) \<subseteq> insert (pid_process (launch_identity l)) (owned_handles t)"
  using assms(1)
proof (cases rule: sup_call_cases)
  case (2 a p)
  then show ?thesis using assms(2) profile_ok [of "sup_process s" spec profile l p] by (auto simp: covered_def)
qed simp

lemma covered_stop_call:
  assumes "sup_call (\<lambda>p. port_stop P p h mode) s = (Inr u, t)" and "bm_get (sup_owned s) i = Some h" and "covered live s"
  shows "covered live (disown i t)"
  using assms(1)
proof (cases rule: sup_call_cases)
  case (2 a p)
  then have "live p \<subseteq> owned_handles t - {h}"
    using assms(3) stop_ok [of "sup_process s" h mode u p] by (auto simp: covered_def)
  with 2 assms(2) owned_handles_disown [of t i h] show ?thesis by (auto simp: covered_def)
qed simp

lemma covered_launch:
  assumes "launch_resolved P spec profile s = (r, t)" and "bm_get (sup_owned s) (spec_instance_id spec) = None"
    and "covered live s"
  shows "covered live t"
  using assms(1) unfolding launch_resolved_def
proof (cases rule: and_try_cases)
  case (1 e)
  from 1(1) assms(3) show ?thesis by (rule covered_calls)
next
  case (2 l u)
  note live = covered_profile_call [OF 2(1) assms(3)]
  have absent: "bm_get (sup_owned u) (spec_instance_id spec) = None"
    using assms(2) sup_call_keeps [OF 2(1)] by simp
  show ?thesis
  proof (cases "matches_profile (launch_identity l) (spec_instance_id spec) profile")
    case True
    with 2(2) live absent show ?thesis by (auto simp: covered_def owned_handles_retain Let_def)
  next
    case False
    with 2(2) live absent show ?thesis by (auto simp: Let_def split: prod.splits elim!: covered_reject)
  qed
qed

lemma covered_own:
  assumes "sup_call (\<lambda>p. port_start P p spec) s = (Inr h, t)" and "covered live s" and "bm_get (sup_owned s) i = None"
  shows "covered live (own i h t)"
  using covered_start_call [OF assms(1,2)] sup_call_keeps [OF assms(1)] assms(3)
  by (simp add: covered_def owned_handles_own)

lemma covered_start_spec:
  assumes "start_spec P spec s = (r, t)" and "covered live s"
  shows "covered live t"
proof (cases "bm_has (sup_owned s) (spec_instance_id spec) \<or> psc_max_owned_processes (sup_config s) \<le> bm_size (sup_owned s)")
  case True
  with assms show ?thesis by (auto simp: start_spec_def split: if_splits)
next
  case False
  then have absent: "bm_get (sup_owned s) (spec_instance_id spec) = None" by auto
  from False assms(1) have "and_try (sup_call (\<lambda>p. port_start P p spec))
      (\<lambda>h s. (Inr h, own (spec_instance_id spec) h s)) s = (r, t)"
    by (auto simp: start_spec_def)
  then show ?thesis
    by (cases rule: and_try_cases) (use assms(2) absent covered_own in \<open>auto dest: covered_calls\<close>)
qed

lemma covered_start_resolved:
  "start_resolved P spec profile s = (r, t) \<Longrightarrow> covered live s \<Longrightarrow> covered live t"
  by (auto simp: start_resolved_def Let_def split: if_splits intro: covered_launch)

lemma covered_stop:
  assumes "sup_stop P i mode s = (r, t)" and "covered live s"
  shows "covered live t"
proof (cases "bm_get (sup_owned s) i")
  case None
  with assms show ?thesis by (simp add: sup_stop_def owned_handle_def)
next
  case (Some h)
  with assms(1) have "and_try (sup_call (\<lambda>p. port_stop P p h mode)) (\<lambda>_ s. (Inr (), disown i s)) s = (r, t)"
    by (simp add: sup_stop_def owned_handle_def)
  then show ?thesis
    by (cases rule: and_try_cases) (use assms(2) Some covered_stop_call in \<open>auto dest: covered_calls\<close>)
qed

lemma covered_restart:
  assumes "sup_restart P i s = (r, t)" and "covered live s"
  shows "covered live t"
proof (cases "bm_get (sup_owned s) i")
  case None
  with assms show ?thesis by (simp add: sup_restart_def owned_handle_def)
next
  case (Some h)
  with assms(1) have "and_try (sup_call (\<lambda>p. port_stop P p h Force)) (\<lambda>_ s.
      and_try (sup_call (\<lambda>p. port_start P p (launch_spec_new i))) (\<lambda>h s. (Inr h, own i h s)) (disown i s)) s = (r, t)"
    by (simp add: sup_restart_def owned_handle_def)
  then show ?thesis
  proof (cases rule: and_try_cases)
    case (2 a u)
    have stopped: "covered live (disown i u)" using 2(1) Some assms(2) by (rule covered_stop_call)
    from 2(2) show ?thesis
      by (cases rule: and_try_cases) (use stopped covered_own in \<open>auto dest: covered_calls\<close>)
  qed (use assms(2) in \<open>auto dest: covered_calls\<close>)
qed

lemma covered_check:
  assumes "check_owned_process P h d s = (r, t)" and "covered live s"
  shows "covered live t"
  using assms(1) unfolding check_owned_process_def
proof (cases rule: and_try_cases)
  case (2 actual u)
  have u: "covered live u" using 2(1) assms(2) by (rule covered_calls)
  show ?thesis
  proof (cases "actual = d")
    case True
    with 2(2) have "and_try (sup_call (\<lambda>p. port_descendants P p h))
        (\<lambda>ds. pure (if ds \<noteq> [] then Inl ForeignDescendant else Inr ())) u = (r, t)" by simp
    then show ?thesis by (cases rule: and_try_cases) (use u in \<open>auto dest: covered_calls\<close>)
  qed (use 2(2) u in simp)
qed (use assms(2) in \<open>auto dest: covered_calls\<close>)

lemma covered_stop_verified:
  assumes "stop_verified P i d mode s = (r, t)" and "covered live s"
  shows "covered live t"
proof (cases "bm_get (sup_owned s) i = Some (pid_process d) \<and> pid_instance_id d = i")
  case True
  with assms(1) have "and_try (check_owned_process P (pid_process d) d) (\<lambda>_. sup_stop P i mode) s = (r, t)"
    by (simp add: stop_verified_def owned_handle_def)
  then show ?thesis
    by (cases rule: and_try_cases) (use assms(2) in \<open>auto intro: covered_stop covered_check\<close>)
qed (use assms in \<open>auto simp: stop_verified_def owned_handle_def ok_or_def split: option.splits if_splits\<close>)

lemma covered_attach:
  assumes "attach_authorized P d s = (r, t)" and "covered live s"
  shows "covered live t"
proof (cases "bm_has (sup_owned s) (pid_instance_id d) \<or> psc_max_owned_processes (sup_config s) \<le> bm_size (sup_owned s)
    \<or> bm_get (sup_identities s) (pid_instance_id d) \<noteq> Some d")
  case True
  with assms show ?thesis by (auto simp: attach_authorized_def Let_def split: if_splits)
next
  case False
  then have absent: "bm_get (sup_owned s) (pid_instance_id d) = None" by auto
  let ?check = "\<lambda>st s. if st \<noteq> Running then (Inl (Process InspectionFailed), s)
    else (Inr (pid_process d), retain_identity (pid_instance_id d) d s)"
  from False assms(1) have "and_try (sup_call (\<lambda>p. port_inspect_identity P p (pid_process d))) (\<lambda>actual.
      if actual \<noteq> d then pure (Inl IdentityMismatch)
      else and_try (sup_call (\<lambda>p. port_inspect P p (pid_process d))) ?check) s = (r, t)"
    by (auto simp: attach_authorized_def Let_def)
  then show ?thesis
  proof (cases rule: and_try_cases)
    case (2 actual u)
    have u: "covered live u" using 2(1) assms(2) by (rule covered_calls)
    show ?thesis
    proof (cases "actual = d")
      case True
      with 2(2) have "and_try (sup_call (\<lambda>p. port_inspect P p (pid_process d))) ?check u = (r, t)" by simp
      then show ?thesis
      proof (cases rule: and_try_cases)
        case (2 st v)
        have v: "covered live v" using 2(1) u by (rule covered_calls)
        have "bm_get (sup_owned v) (pid_instance_id d) = None"
          using absent sup_call_keeps [OF 2(1)] sup_call_keeps [OF \<open>sup_call _ s = (Inr actual, u)\<close>] by simp
        with v 2(2) show ?thesis by (auto simp: covered_def owned_handles_retain split: if_splits)
      qed (use u in \<open>auto dest: covered_calls\<close>)
    qed (use 2(2) u in simp)
  qed (use assms(2) in \<open>auto dest: covered_calls\<close>)
qed

text \<open>The second half of a restart, after the old process was checked.\<close>

lemma covered_replace:
  assumes "and_try (sup_call (\<lambda>p. port_stop P p old Force)) (\<lambda>_.
      and_try (sup_call (\<lambda>p. port_descendants P p old)) (\<lambda>ds s.
        if ds \<noteq> [] then (Inl ForeignDescendant, s)
        else launch_resolved P (launch_spec_for_profile i (prof_id profile)) profile (disown i s))) s = (r, t)"
    and "bm_get (sup_owned s) i = Some old" and "covered live s"
  shows "covered live t"
  using assms(1)
proof (cases rule: and_try_cases)
  case (2 a u)
  have stopped: "covered live (disown i u)" using 2(1) assms(2,3) by (rule covered_stop_call)
  have old: "bm_get (sup_owned u) i = Some old" using sup_call_keeps [OF 2(1)] assms(2) by simp
  have u: "covered live u"
    using stopped old by (auto simp: covered_def owned_handles_def disown_def split: if_splits)
  from 2(2) show ?thesis
  proof (cases rule: and_try_cases)
    case (2 ds v)
    note call = \<open>sup_call _ u = (Inr ds, v)\<close>
    have v: "covered live v" using call u by (rule covered_calls)
    have "live (sup_process v) \<subseteq> live (sup_process u)"
      using call by (cases rule: sup_call_cases) (auto dest: descendants_any)
    then have "covered live (disown i v)"
      using stopped sup_call_keeps [OF call] by (auto simp: covered_def owned_handles_def disown_def)
    moreover have "bm_get (sup_owned (disown i v)) i = None" by simp
    ultimately show ?thesis
      using 2(2) v by (auto split: if_splits intro: covered_launch simp: launch_spec_for_profile_def)
  qed (use u in \<open>auto dest: covered_calls\<close>)
qed (use assms(3) in \<open>auto dest: covered_calls\<close>)

lemma covered_restart_resolved:
  assumes "restart_resolved P i profile s = (r, t)" and "covered live s"
  shows "covered live t"
  using assms(1)
proof (cases rule: restart_resolved_cases)
  case (2 old expected)
  from 2(3) show ?thesis
  proof (cases rule: and_try_cases)
    case (2 a u)
    with \<open>bm_get (sup_owned s) i = Some old\<close> assms(2) show ?thesis
      by (intro covered_replace [OF 2(2)]) (auto dest: check_keeps_owned covered_check)
  qed (use assms(2) in \<open>auto dest: covered_check\<close>)
qed (use assms(2) in simp)

lemma covered_step:
  assumes "supervisor_step P s t" and "covered live s"
  shows "covered live t"
  using assms
proof cases
  case (inspect i r)
  then show ?thesis
    using assms(2) by (cases "bm_get (sup_owned s) i") (auto simp: sup_inspect_def owned_handle_def dest: covered_calls)
next
  case (authorize d r)
  then show ?thesis
    using assms(2) by (auto simp: authorize_identity_def covered_def split: if_splits option.splits)
qed (use assms(2) in \<open>auto intro: covered_start_spec covered_stop covered_restart covered_start_resolved covered_attach
    covered_stop_verified covered_restart_resolved\<close>)

end

sublocale process_ledger \<subseteq> supervised: step_invariant "supervisor_step P" "covered live"
  by unfold_locales (rule covered_step)

lemma covered_new: "live p = {} \<Longrightarrow> covered live (supervisor_new config p)"
  by (simp add: covered_def supervisor_new_def)

section \<open>Namespaces and capacity\<close>

text \<open>Two identities of different instances never hold the same user-data namespace.\<close>

definition isolated :: "(instance_id, process_identity) bmap \<Rightarrow> bool" where
  "isolated m \<longleftrightarrow> (\<forall>i d. bm_get m i = Some d \<longrightarrow> pid_user_data d \<noteq> None
     \<and> (\<forall>j e. bm_get m j = Some e \<longrightarrow> j \<noteq> i \<longrightarrow> pid_user_data e \<noteq> pid_user_data d))"

lemma isolated_remove: "isolated m \<Longrightarrow> isolated (bm_remove i m)"
  by (auto simp: isolated_def)

lemma reserved_iff: "namespace_is_reserved_by_other s i n \<longleftrightarrow>
    (\<exists>j d. j \<noteq> i \<and> bm_get (sup_identities s) j = Some d \<and> pid_user_data d = Some n)
    \<or> (\<exists>j h. j \<noteq> i \<and> bm_get (sup_owned s) j = Some h \<and> Option.bind (bm_get (sup_identities s) j) pid_user_data = None)"
  by (auto simp: namespace_is_reserved_by_other_def list_ex_iff set_bm_keys bm.entries_get)

lemma isolated_insert:
  assumes "isolated m" and "pid_user_data d = Some n"
    and "\<And>j e. j \<noteq> i \<Longrightarrow> bm_get m j = Some e \<Longrightarrow> pid_user_data e \<noteq> Some n"
  shows "isolated (bm_insert i d m)"
  using assms by (auto simp: isolated_def) blast

lemma matches_user_data: "matches_profile d i profile \<Longrightarrow> pid_user_data d = Some (prof_user_data profile)"
  by (simp add: matches_profile_def)

lemma insert_removed [simp]: "bm_insert k v (bm_remove k m) = bm_insert k v m"
  by (rule bm.ext) simp

definition ordered :: "'p process_supervisor \<Rightarrow> bool" where
  "ordered s \<longleftrightarrow> isolated (sup_identities s) \<and> bm_size (sup_owned s) \<le> psc_max_owned_processes (sup_config s)"

lemma ordered_call: "sup_call f s = (r, t) \<Longrightarrow> ordered t = ordered s"
  by (auto simp: ordered_def dest: sup_call_keeps)

lemma ordered_check: "check_owned_process P h d s = (r, t) \<Longrightarrow> ordered t = ordered s"
  by (auto simp: ordered_def dest: check_keeps_owned)

lemma ordered_disown: "ordered s \<Longrightarrow> ordered (disown i s)"
  by (auto simp: ordered_def disown_def isolated_remove bm_size_remove)

lemma ordered_own:
  "ordered s \<Longrightarrow> bm_size (sup_owned s) < psc_max_owned_processes (sup_config s) \<Longrightarrow> ordered (own i h s)"
  by (auto simp: ordered_def own_def isolated_remove bm_size_insert)

lemma size_disown: "bm_get (sup_owned s) i = Some h \<Longrightarrow> bm_size (sup_owned (disown i s)) < bm_size (sup_owned s)"
  by (auto simp: disown_def bm_size_remove dest: bm_size_pos)

lemma ordered_start_spec: "start_spec P spec s = (r, t) \<Longrightarrow> ordered s \<Longrightarrow> ordered t"
  by (auto simp: start_spec_def ordered_call elim!: and_try_cases intro!: ordered_own split: if_splits dest: sup_call_keeps)

lemma ordered_inspect: "sup_inspect P i s = (r, t) \<Longrightarrow> ordered s \<Longrightarrow> ordered t"
  by (auto simp: sup_inspect_def ordered_call elim!: and_try_cases)

lemma ordered_authorize: "authorize_identity d s = (r, t) \<Longrightarrow> ordered s \<Longrightarrow> ordered t"
  by (auto simp: authorize_identity_def ordered_def reserved_iff split: if_splits option.splits
      intro!: isolated_insert [where n = "the (pid_user_data d)"]) blast

lemma ordered_stop: "sup_stop P i mode s = (r, t) \<Longrightarrow> ordered s \<Longrightarrow> ordered t"
  by (auto simp: sup_stop_def ordered_call elim!: and_try_cases intro!: ordered_disown)

lemma ordered_stop_verified:
  assumes "stop_verified P i d mode s = (r, t)" and "ordered s"
  shows "ordered t"
proof (cases "bm_get (sup_owned s) i = Some (pid_process d) \<and> pid_instance_id d = i")
  case True
  with assms(1) have "and_try (check_owned_process P (pid_process d) d) (\<lambda>_. sup_stop P i mode) s = (r, t)"
    by (simp add: stop_verified_def owned_handle_def)
  then show ?thesis
    by (cases rule: and_try_cases) (use assms(2) ordered_check ordered_stop in blast)+
qed (use assms in \<open>auto simp: stop_verified_def owned_handle_def ok_or_def split: option.splits if_splits\<close>)

lemma ordered_restart:
  assumes "sup_restart P i s = (r, t)" and "ordered s"
  shows "ordered t"
proof (cases "bm_get (sup_owned s) i")
  case None
  with assms show ?thesis by (simp add: sup_restart_def owned_handle_def)
next
  case (Some h)
  with assms(1) have "and_try (sup_call (\<lambda>p. port_stop P p h Force)) (\<lambda>_ s.
      and_try (sup_call (\<lambda>p. port_start P p (launch_spec_new i))) (\<lambda>h s. (Inr h, own i h s)) (disown i s)) s = (r, t)"
    by (simp add: sup_restart_def owned_handle_def)
  then show ?thesis
  proof (cases rule: and_try_cases)
    case (2 a u)
    have u: "ordered u" "bm_get (sup_owned u) i = Some h"
      using assms(2) Some 2(1) by (auto simp: ordered_call dest: sup_call_keeps)
    then have "bm_size (sup_owned (disown i u)) < psc_max_owned_processes (sup_config (disown i u))"
      using size_disown [of u i h] by (simp add: ordered_def disown_def)
    with 2(2) u(1) show ?thesis
      by (auto elim!: and_try_cases simp: ordered_call intro!: ordered_own ordered_disown dest: sup_call_keeps)
  qed (use assms(2) in \<open>simp add: ordered_call\<close>)
qed

text \<open>An attachment changes nothing, or owns the process of the identity that was authorized.\<close>

lemma attach_result:
  assumes "attach_authorized P d s = (r, t)"
  shows "sup_config t = sup_config s \<and> sup_identities t = sup_identities s
    \<and> (sup_owned t = sup_owned s \<or> bm_size (sup_owned s) < psc_max_owned_processes (sup_config s)
         \<and> sup_owned t = bm_insert (pid_instance_id d) (pid_process d) (sup_owned s))"
proof (cases "bm_has (sup_owned s) (pid_instance_id d) \<or> psc_max_owned_processes (sup_config s) \<le> bm_size (sup_owned s)
    \<or> bm_get (sup_identities s) (pid_instance_id d) \<noteq> Some d")
  case False
  with assms show ?thesis
    by (auto simp: attach_authorized_def Let_def retain_identity_def elim!: and_try_cases split: if_splits
        dest!: sup_call_keeps simp: bm.ins_same)
qed (use assms in \<open>auto simp: attach_authorized_def Let_def split: if_splits\<close>)

lemma ordered_attach: "attach_authorized P d s = (r, t) \<Longrightarrow> ordered s \<Longrightarrow> ordered t"
  by (drule attach_result) (auto simp: ordered_def bm_size_insert)

context faithful_port
begin

text \<open>Over a faithful port a launch is never rejected: it fails before anything starts, or is retained.\<close>

lemma launch_resolved_faithful:
  assumes "launch_resolved P spec profile s = (r, t)"
  obtains e where "r = Inl e" "sup_identities t = sup_identities s" "sup_owned t = sup_owned s" "sup_config t = sup_config s"
  | d where "r = Inr d" "matches_profile d (spec_instance_id spec) profile"
      "sup_identities t = bm_insert (spec_instance_id spec) d (sup_identities s)"
      "sup_owned t = bm_insert (spec_instance_id spec) (pid_process d) (sup_owned s)" "sup_config t = sup_config s"
  using assms unfolding launch_resolved_def
proof (cases rule: and_try_cases)
  case (1 e)
  then show ?thesis using that(1) by (auto dest!: sup_call_keeps)
next
  case (2 l u)
  from 2(1) have "matches_profile (launch_identity l) (spec_instance_id spec) profile"
    by (cases rule: sup_call_cases) (auto dest: launch_matches)
  with 2(2) sup_call_keeps [OF 2(1)] show ?thesis
    by (intro that(2) [of "launch_identity l"]) (auto simp: Let_def retain_identity_def)
qed

lemma ordered_launch:
  assumes "launch_resolved P spec profile s = (r, t)" and "ordered s"
    and "bm_size (sup_owned s) < psc_max_owned_processes (sup_config s)"
    and "\<not> namespace_is_reserved_by_other s (spec_instance_id spec) (prof_user_data profile)"
  shows "ordered t"
  using assms(1)
proof (cases rule: launch_resolved_faithful)
  case (2 d)
  then show ?thesis using assms(2-)
    by (auto simp: ordered_def reserved_iff bm_size_insert dest: matches_user_data intro!: isolated_insert)
qed (use assms(2) in \<open>simp add: ordered_def\<close>)

lemma ordered_start_resolved: "start_resolved P spec profile s = (r, t) \<Longrightarrow> ordered s \<Longrightarrow> ordered t"
  by (auto simp: start_resolved_def Let_def split: if_splits intro: ordered_launch)

lemma ordered_replace:
  assumes "and_try (sup_call (\<lambda>p. port_stop P p old Force)) (\<lambda>_.
      and_try (sup_call (\<lambda>p. port_descendants P p old)) (\<lambda>ds s.
        if ds \<noteq> [] then (Inl ForeignDescendant, s)
        else launch_resolved P (launch_spec_for_profile i (prof_id profile)) profile (disown i s))) s = (r, t)"
    and "bm_get (sup_owned s) i = Some old" and "ordered s"
    and "\<not> namespace_is_reserved_by_other s i (prof_user_data profile)"
  shows "ordered t"
  using assms(1)
proof (cases rule: and_try_cases)
  case (2 a u)
  from 2(2) show ?thesis
  proof (cases rule: and_try_cases)
    case (2 ds v)
    have same: "sup_owned v = sup_owned s" "sup_identities v = sup_identities s" "sup_config v = sup_config s"
      using sup_call_keeps [OF 2(1)] sup_call_keeps [OF \<open>sup_call _ s = (Inr a, u)\<close>] by simp_all
    then have v: "ordered v" "\<not> namespace_is_reserved_by_other (disown i v) i (prof_user_data profile)"
      using assms(3,4) by (auto simp: ordered_def reserved_iff disown_def)
    have "bm_size (sup_owned (disown i v)) < psc_max_owned_processes (sup_config (disown i v))"
      using size_disown [of v i old] same assms(2,3) by (simp add: ordered_def disown_def)
    with 2(2) v show ?thesis
      by (auto split: if_splits intro!: ordered_disown intro: ordered_launch simp: launch_spec_for_profile_def)
  qed (use assms(3) \<open>sup_call _ s = (Inr a, u)\<close> in \<open>simp add: ordered_call\<close>)
qed (use assms(3) in \<open>simp add: ordered_call\<close>)

lemma ordered_restart_resolved:
  assumes "restart_resolved P i profile s = (r, t)" and "ordered s"
  shows "ordered t"
  using assms(1)
proof (cases rule: restart_resolved_cases)
  case (2 old expected)
  note start = 2(1,2)
  from 2(3) show ?thesis
  proof (cases rule: and_try_cases)
    case (2 a u)
    have "\<not> namespace_is_reserved_by_other u i (prof_user_data profile)"
      using start(2) check_keeps_owned [OF 2(1)] by (simp add: reserved_iff)
    with 2(1) start(1) assms(2) show ?thesis
      by (intro ordered_replace [OF 2(2)]) (auto simp: ordered_check dest: check_keeps_owned)
  qed (use assms(2) in \<open>simp add: ordered_check\<close>)
qed (use assms(2) in simp)

lemma ordered_step:
  assumes "supervisor_step P s t" and "ordered s"
  shows "ordered t"
  using assms
  by cases (auto intro: ordered_start_spec ordered_inspect ordered_authorize ordered_stop ordered_restart
      ordered_start_resolved ordered_attach ordered_stop_verified ordered_restart_resolved)

end

sublocale faithful_port \<subseteq> orderly: step_invariant "supervisor_step P" ordered
  by unfold_locales (rule ordered_step)

lemma ordered_new: "ordered (supervisor_new config p)"
  by (simp add: ordered_def isolated_def supervisor_new_def)

end
