(* ===== verification/Process_Adapter.thy ===== *)
theory Process_Adapter
  imports Process_Supervisor
begin

text \<open>
  The approved launch profile adapter: \<open>process_adapter.rs\<close>. \<open>ApprovedLaunchProfileAdapter\<close> wraps any
  process port and is itself one (\<open>approved_port\<close>): it resolves the opaque profile id in the
  server's catalog before anything starts, checks the identity of what was started, and keeps a process
  that it could neither accept nor clean up in \<open>unresolved\<close>. The interpretations at the end are its two
  promises to a client such as the supervisor: what it hands over matches the profile, and whatever it does not hand over it
  has stopped or still holds.
\<close>

section \<open>Ordered maps keyed by generations\<close>

text \<open>The order \<open>ProcessOperationGeneration\<close> derives: its fields from first to last.\<close>

definition generation_key :: "'a process_operation_generation_scheme
    \<Rightarrow> u64 \<times> u64 \<times> u64 \<times> u64 \<times> u64 \<times> u64 \<times> bool \<times> 'a" where
  "generation_key g = (gen_instance_id g, gen_operation_id g, gen_sequence g, gen_request_epoch g,
     gen_authority_epoch g, gen_profile_id g, gen_kind g = RestartReplacement, process_operation_generation.more g)"

lemma generation_kind_eq: "(k = RestartReplacement) = (k' = RestartReplacement) \<Longrightarrow> k = k'"
  by (cases k; cases k') simp_all

lemma generation_key_inject: "generation_key g = generation_key h \<Longrightarrow> g = h"
  by (cases g; cases h) (auto simp: generation_key_def intro: generation_kind_eq)

instantiation process_operation_generation_ext :: (linorder) linorder
begin

definition less_eq_process_operation_generation_ext where
  "g \<le> h \<longleftrightarrow> generation_key g \<le> generation_key h"

definition less_process_operation_generation_ext where
  "g < h \<longleftrightarrow> generation_key g < generation_key h"

instance
proof
  fix g h k :: "'a process_operation_generation_scheme"
  show "(g < h) = (g \<le> h \<and> \<not> h \<le> g)"
    by (auto simp: less_eq_process_operation_generation_ext_def less_process_operation_generation_ext_def)
  show "g \<le> g"
    by (simp add: less_eq_process_operation_generation_ext_def)
  show "g \<le> k" if "g \<le> h" "h \<le> k"
    using that unfolding less_eq_process_operation_generation_ext_def by (rule order_trans)
  show "g = h" if "g \<le> h" "h \<le> g"
    using that by (auto simp: less_eq_process_operation_generation_ext_def intro: generation_key_inject)
  show "g \<le> h \<or> h \<le> g"
    by (simp add: less_eq_process_operation_generation_ext_def linear)
qed

end

section \<open>State and operations\<close>

record 'p launch_profile_adapter =
  ada_profiles :: approved_launch_profiles
  ada_process :: 'p
  ada_bindings :: "(process_handle, launch_profile) bmap"
  ada_unresolved :: "(process_handle, process_identity) bmap"
  ada_retained_generations :: "(process_operation_generation, process_handle) bmap"

definition adapter_new :: "approved_launch_profiles \<Rightarrow> 'p \<Rightarrow> 'p launch_profile_adapter" where
  "adapter_new profiles p = \<lparr>ada_profiles = profiles, ada_process = p, ada_bindings = bm_empty,
     ada_unresolved = bm_empty, ada_retained_generations = bm_empty\<rparr>"

text \<open>A call of the wrapped port.\<close>

definition on_wrapped :: "('p \<Rightarrow> 'r \<times> 'p) \<Rightarrow> 'p launch_profile_adapter \<Rightarrow> 'r \<times> 'p launch_profile_adapter" where
  "on_wrapped f a = (case f (ada_process a) of (r, p) \<Rightarrow> (r, a\<lparr>ada_process := p\<rparr>))"

definition profile_for :: "launch_spec \<Rightarrow> 'p launch_profile_adapter \<Rightarrow> process_fault + launch_profile" where
  "profile_for spec a =
     (case spec_profile_id spec of
        None \<Rightarrow> Inl ProfileRequired
      | Some i \<Rightarrow> map_err (\<lambda>_. ProfileNotApproved) (resolve (ada_profiles a) i))"

definition forget_retained :: "process_handle \<Rightarrow> 'p launch_profile_adapter \<Rightarrow> 'p launch_profile_adapter" where
  "forget_retained h a = a\<lparr>ada_unresolved := bm_remove h (ada_unresolved a),
     ada_retained_generations := bm_retain (\<lambda>_ k. k \<noteq> h) (ada_retained_generations a)\<rparr>"

definition bind_profile :: "process_handle \<Rightarrow> launch_profile \<Rightarrow> 'p launch_profile_adapter \<Rightarrow> 'p launch_profile_adapter" where
  "bind_profile h profile a = a\<lparr>ada_bindings := bm_insert h profile (ada_bindings a)\<rparr>"

definition retain_unresolved :: "process_identity \<Rightarrow> 'p launch_profile_adapter \<Rightarrow> 'p launch_profile_adapter" where
  "retain_unresolved d a = a\<lparr>ada_unresolved := bm_insert (pid_process d) d (ada_unresolved a)\<rparr>"

definition unbind :: "process_handle \<Rightarrow> 'p launch_profile_adapter \<Rightarrow> 'p launch_profile_adapter" where
  "unbind h a = forget_retained h (a\<lparr>ada_bindings := bm_remove h (ada_bindings a)\<rparr>)"

definition accept_approved_launch :: "'p process_port \<Rightarrow> launch_spec \<Rightarrow> launch_profile \<Rightarrow> process_launch
    \<Rightarrow> 'p launch_profile_adapter \<Rightarrow> (process_fault + process_launch) \<times> 'p launch_profile_adapter" where
  "accept_approved_launch P spec profile l a =
     (let d = launch_identity l; h = pid_process d; a1 = bind_profile h profile a in
      if \<not> matches_profile d (spec_instance_id spec) profile then
        (case on_wrapped (\<lambda>p. port_stop P p h Force) (retain_unresolved d a1) of
           (Inl fault, a2) \<Rightarrow> (Inl fault, a2)
         | (Inr _, a2) \<Rightarrow>
             (case on_wrapped (\<lambda>p. port_descendants P p h) a2 of
                (Inl fault, a3) \<Rightarrow> (Inl fault, a3)
              | (Inr ds, a3) \<Rightarrow>
                  if ds \<noteq> [] then (Inl DescendantOutOfScope, a3)
                  else (Inl process_fault.IdentityMismatch, unbind h a3)))
      else (Inr l, forget_retained h a1))"

definition start_approved :: "'p process_port \<Rightarrow> launch_spec \<Rightarrow> launch_profile
    \<Rightarrow> 'p launch_profile_adapter \<Rightarrow> (process_fault + process_launch) \<times> 'p launch_profile_adapter" where
  "start_approved P spec profile =
     and_try (on_wrapped (\<lambda>p. port_start_with_profile P p spec profile)) (accept_approved_launch P spec profile)"

definition adapter_validate_identity :: "'p launch_profile_adapter \<Rightarrow> process_identity
    \<Rightarrow> process_fault + process_identity" where
  "adapter_validate_identity a d =
     (if bm_has (ada_unresolved a) (pid_process d) then Inr d
      else case bm_get (ada_bindings a) (pid_process d) of
             None \<Rightarrow> Inr d
           | Some profile \<Rightarrow>
               if matches_profile d (pid_instance_id d) profile then Inr d
               else Inl process_fault.IdentityMismatch)"

section \<open>The adapter as a process port\<close>

definition adapter_start :: "'p process_port \<Rightarrow> 'p launch_profile_adapter \<Rightarrow> launch_spec
    \<Rightarrow> (process_fault + process_handle) \<times> 'p launch_profile_adapter" where
  "adapter_start P a spec =
     and_try (pure (profile_for spec a)) (\<lambda>profile.
     and_try (start_approved P spec profile) (\<lambda>l. pure (Inr (pid_process (launch_identity l))))) a"

definition adapter_start_with_profile :: "'p process_port \<Rightarrow> 'p launch_profile_adapter \<Rightarrow> launch_spec \<Rightarrow> launch_profile
    \<Rightarrow> (process_fault + process_launch) \<times> 'p launch_profile_adapter" where
  "adapter_start_with_profile P a spec profile =
     and_try (pure (profile_for spec a)) (\<lambda>approved.
       if approved \<noteq> profile then pure (Inl ProfileNotApproved) else start_approved P spec profile) a"

definition adapter_start_generation :: "'p process_port \<Rightarrow> 'p launch_profile_adapter \<Rightarrow> process_operation_generation
    \<Rightarrow> launch_spec \<Rightarrow> launch_profile \<Rightarrow> (generation_start_error + process_launch) \<times> 'p launch_profile_adapter" where
  "adapter_start_generation P a g spec profile =
     and_try (lift_err GenProcess (pure (profile_for spec a))) (\<lambda>approved.
       if approved \<noteq> profile \<or> gen_instance_id g \<noteq> spec_instance_id spec \<or> gen_profile_id g \<noteq> prof_id profile
       then pure (Inl (GenProcess ProfileNotApproved))
       else and_try (on_wrapped (\<lambda>p. port_start_generation P p g spec profile)) (\<lambda>l.
         and_use (accept_approved_launch P spec profile l) (\<lambda>r b.
           let h = pid_process (launch_identity l) in
           (map_err GenProcess r,
            if (\<exists>e. r = Inl e) \<and> bm_has (ada_unresolved b) h
            then b\<lparr>ada_retained_generations := bm_insert g h (ada_retained_generations b)\<rparr> else b)))) a"

definition adapter_inspect_identity :: "'p process_port \<Rightarrow> 'p launch_profile_adapter \<Rightarrow> process_handle
    \<Rightarrow> (process_fault + process_identity) \<times> 'p launch_profile_adapter" where
  "adapter_inspect_identity P a h =
     and_try (on_wrapped (\<lambda>p. port_inspect_identity P p h)) (\<lambda>d b. (adapter_validate_identity b d, b)) a"

definition adapter_stop :: "'p process_port \<Rightarrow> 'p launch_profile_adapter \<Rightarrow> process_handle \<Rightarrow> stop_mode
    \<Rightarrow> (process_fault + unit) \<times> 'p launch_profile_adapter" where
  "adapter_stop P a h mode =
     and_try (on_wrapped (\<lambda>p. port_stop P p h mode)) (\<lambda>_ b. (Inr (), unbind h b)) a"

text \<open>What \<open>recover_owned\<close> and \<open>recover_generation\<close> do with an identity the wrapped port found.\<close>

definition settle_recovered :: "instance_id \<Rightarrow> launch_profile \<Rightarrow> process_identity
    \<Rightarrow> 'p launch_profile_adapter \<Rightarrow> 'p launch_profile_adapter" where
  "settle_recovered i profile d a =
     (let b = bind_profile (pid_process d) profile a in
      if \<not> matches_profile d i profile then retain_unresolved d b else forget_retained (pid_process d) b)"

definition adapter_recover_owned :: "'p process_port \<Rightarrow> 'p launch_profile_adapter \<Rightarrow> instance_id \<Rightarrow> launch_profile
    \<Rightarrow> (process_fault + process_identity option) \<times> 'p launch_profile_adapter" where
  "adapter_recover_owned P a i profile =
     (if resolve (ada_profiles a) (prof_id profile) \<noteq> Inr profile then (Inl ProfileNotApproved, a)
      else case find (\<lambda>d. pid_instance_id d = i) (bm_values (ada_unresolved a)) of
             Some d \<Rightarrow> (Inr (Some d), a)
           | None \<Rightarrow>
               and_try (on_wrapped (\<lambda>p. port_recover_owned P p i profile)) (\<lambda>found b.
                 case found of
                   None \<Rightarrow> (Inr None, b)
                 | Some d \<Rightarrow>
                     if pid_instance_id d \<noteq> i then (Inl process_fault.IdentityMismatch, b)
                     else (Inr (Some d), settle_recovered i profile d b)) a)"

definition adapter_recover_generation :: "'p process_port \<Rightarrow> 'p launch_profile_adapter
    \<Rightarrow> process_operation_generation \<Rightarrow> launch_profile \<Rightarrow> (process_fault + generation_recovery) \<times> 'p launch_profile_adapter" where
  "adapter_recover_generation P a g profile =
     (if resolve (ada_profiles a) (prof_id profile) \<noteq> Inr profile \<or> gen_profile_id g \<noteq> prof_id profile
      then (Inl ProfileNotApproved, a)
      else case Option.bind (bm_get (ada_retained_generations a) g) (bm_get (ada_unresolved a)) of
             Some d \<Rightarrow> (Inr (Found d), a)
           | None \<Rightarrow>
               and_try (on_wrapped (\<lambda>p. port_recover_generation P p g profile)) (\<lambda>found b.
                 case found of
                   Indeterminate \<Rightarrow> (Inr Indeterminate, b)
                 | Found d \<Rightarrow>
                     if pid_instance_id d \<noteq> gen_instance_id g then (Inl process_fault.IdentityMismatch, b)
                     else (Inr (Found d), settle_recovered (gen_instance_id g) profile d b)) a)"

definition approved_port :: "'p process_port \<Rightarrow> 'p launch_profile_adapter process_port" where
  "approved_port P = \<lparr>
     port_start = adapter_start P,
     port_inspect = (\<lambda>a h. on_wrapped (\<lambda>p. port_inspect P p h) a),
     port_stop = adapter_stop P,
     port_start_with_profile = adapter_start_with_profile P,
     port_start_generation = adapter_start_generation P,
     port_inspect_identity = adapter_inspect_identity P,
     port_descendants = (\<lambda>a h. on_wrapped (\<lambda>p. port_descendants P p h) a),
     port_recover_owned = adapter_recover_owned P,
     port_recover_generation = adapter_recover_generation P\<rparr>"

lemma approved_port_simps [simp]:
  "port_start (approved_port P) = adapter_start P" "port_stop (approved_port P) = adapter_stop P"
  "port_inspect (approved_port P) a h = on_wrapped (\<lambda>p. port_inspect P p h) a"
  "port_start_with_profile (approved_port P) = adapter_start_with_profile P"
  "port_start_generation (approved_port P) = adapter_start_generation P"
  "port_inspect_identity (approved_port P) = adapter_inspect_identity P"
  "port_descendants (approved_port P) a h = on_wrapped (\<lambda>p. port_descendants P p h) a"
  "port_recover_owned (approved_port P) = adapter_recover_owned P"
  "port_recover_generation (approved_port P) = adapter_recover_generation P"
  by (simp_all add: approved_port_def)

section \<open>What the adapter hands over\<close>

lemma on_wrapped_eq:
  "on_wrapped f a = (r, b) \<longleftrightarrow> (\<exists>p. f (ada_process a) = (r, p) \<and> b = a\<lparr>ada_process := p\<rparr>)"
  by (auto simp: on_wrapped_def split: prod.split)

lemma adapter_state_simps [simp]:
  "ada_process (forget_retained h a) = ada_process a" "ada_process (bind_profile h profile a) = ada_process a"
  "ada_process (retain_unresolved d a) = ada_process a" "ada_process (unbind h a) = ada_process a"
  "ada_process (settle_recovered i profile d a) = ada_process a"
  "ada_profiles (forget_retained h a) = ada_profiles a" "ada_profiles (bind_profile h profile a) = ada_profiles a"
  "ada_profiles (retain_unresolved d a) = ada_profiles a" "ada_profiles (unbind h a) = ada_profiles a"
  "ada_profiles (settle_recovered i profile d a) = ada_profiles a"
  by (simp_all add: forget_retained_def bind_profile_def retain_unresolved_def unbind_def settle_recovered_def Let_def)

lemma adapter_unresolved_simps [simp]:
  "ada_unresolved (forget_retained h a) = bm_remove h (ada_unresolved a)"
  "ada_unresolved (bind_profile h profile a) = ada_unresolved a"
  "ada_unresolved (retain_unresolved d a) = bm_insert (pid_process d) d (ada_unresolved a)"
  "ada_unresolved (unbind h a) = bm_remove h (ada_unresolved a)"
  by (simp_all add: forget_retained_def bind_profile_def retain_unresolved_def unbind_def)

lemma accept_Inr:
  "accept_approved_launch P spec profile l a = (Inr l', b)
    \<Longrightarrow> l' = l \<and> matches_profile (launch_identity l) (spec_instance_id spec) profile"
  by (auto simp: accept_approved_launch_def Let_def split: if_splits prod.splits sum.splits)

lemma adapter_start_generation_cases:
  assumes "adapter_start_generation P a g spec profile = (r, b)"
  obtains e where "b = a" "r = Inl e"
  | e where "profile_for spec a = Inr profile" "r = Inl e"
      "on_wrapped (\<lambda>p. port_start_generation P p g spec profile) a = (Inl e, b)"
  | l u r' v m where "profile_for spec a = Inr profile" "r = map_err GenProcess r'"
      "on_wrapped (\<lambda>p. port_start_generation P p g spec profile) a = (Inr l, u)"
      "accept_approved_launch P spec profile l u = (r', v)" "b = v\<lparr>ada_retained_generations := m\<rparr>"
proof -
  let ?start = "on_wrapped (\<lambda>p. port_start_generation P p g spec profile)"
  note unfold = adapter_start_generation_def and_try_def lift_err_def and_use_def Let_def map_err_def
  consider "\<exists>e. profile_for spec a = Inl e" | "profile_for spec a = Inr profile" | q where "profile_for spec a = Inr q" "q \<noteq> profile"
    by (cases "profile_for spec a") auto
  then show thesis
  proof cases
    case 2
    show thesis
    proof (cases "gen_instance_id g \<noteq> spec_instance_id spec \<or> gen_profile_id g \<noteq> prof_id profile")
      case False
      obtain r0 u where start: "?start a = (r0, u)" by (cases "?start a")
      show thesis
      proof (cases r0)
        case (Inl e)
        with start 2 False assms show thesis by (intro that(2) [of e]) (simp_all add: unfold)
      next
        case (Inr l)
        obtain r' v where accept: "accept_approved_launch P spec profile l u = (r', v)"
          by (cases "accept_approved_launch P spec profile l u")
        have "b = v \<or> (\<exists>m. b = v\<lparr>ada_retained_generations := m\<rparr>)" and "r = map_err GenProcess r'"
          using start Inr accept 2 False assms by (auto simp: unfold split: if_splits)
        moreover have "v = v\<lparr>ada_retained_generations := ada_retained_generations v\<rparr>" by simp
        ultimately show thesis using start Inr accept 2 that(3) by metis
      qed
    qed (use 2 assms that(1) in \<open>auto simp: unfold\<close>)
  qed (use assms that(1) in \<open>auto simp: unfold\<close>)
qed

text \<open>A launch that the adapter hands over has the identity its profile asks for.\<close>

interpretation approved: faithful_port "approved_port P" for P
  by unfold_locales
    (auto simp: adapter_start_with_profile_def start_approved_def elim!: and_try_cases split: if_splits dest!: accept_Inr)

text \<open>
  The client answers for the processes of the wrapped port except those the adapter still holds itself.
\<close>

definition adapter_live :: "('p \<Rightarrow> process_handle set) \<Rightarrow> 'p launch_profile_adapter \<Rightarrow> process_handle set" where
  "adapter_live live a = live (ada_process a) - {h. bm_get (ada_unresolved a) h \<noteq> None}"

context process_ledger
begin

lemma accept_live:
  assumes "accept_approved_launch P spec profile l a = (r, b)"
  shows "adapter_live live b \<subseteq> (case r of Inl _ \<Rightarrow> adapter_live live a - {pid_process (launch_identity l)}
    | Inr _ \<Rightarrow> insert (pid_process (launch_identity l)) (adapter_live live a))"
  using assms
  by (fastforce simp: accept_approved_launch_def Let_def adapter_live_def on_wrapped_eq
      split: if_splits prod.splits sum.splits dest!: stop_ok stop_err descendants_any)

lemma wrapped_live:
  assumes "on_wrapped f a = (r, b)" and "\<And>p. f (ada_process a) = (r, p) \<Longrightarrow> live p \<subseteq> live (ada_process a) \<union> H"
  shows "adapter_live live b \<subseteq> adapter_live live a \<union> H"
  using assms by (fastforce simp: on_wrapped_eq adapter_live_def)

lemma start_approved_live:
  assumes "start_approved P spec profile a = (r, b)"
  shows "adapter_live live b \<subseteq> adapter_live live a \<union>
    (case r of Inl _ \<Rightarrow> {} | Inr l \<Rightarrow> {pid_process (launch_identity l)})"
  using assms unfolding start_approved_def
proof (cases rule: and_try_cases)
  case (1 e)
  then show ?thesis by (auto dest!: wrapped_live [where H = "{}"] dest: profile_err)
next
  case (2 l u)
  have "adapter_live live u \<subseteq> adapter_live live a \<union> {pid_process (launch_identity l)}"
    using 2(1) by (rule wrapped_live) (auto dest!: profile_ok)
  with accept_live [OF 2(2)] 2(2) show ?thesis by (cases r) (auto dest!: accept_Inr)
qed

lemma adapter_start_live:
  assumes "adapter_start P a spec = (r, b)"
  shows "adapter_live live b \<subseteq> adapter_live live a \<union> (case r of Inl _ \<Rightarrow> {} | Inr h \<Rightarrow> {h})"
  using assms by (force simp: adapter_start_def elim!: and_try_cases dest!: start_approved_live)

lemma adapter_start_with_profile_live:
  assumes "adapter_start_with_profile P a spec profile = (r, b)"
  shows "adapter_live live b \<subseteq> adapter_live live a \<union>
    (case r of Inl _ \<Rightarrow> {} | Inr l \<Rightarrow> {pid_process (launch_identity l)})"
  using assms
  by (auto simp: adapter_start_with_profile_def elim!: and_try_cases dest!: start_approved_live split: if_splits)

lemma adapter_start_generation_live:
  assumes "adapter_start_generation P a g spec profile = (r, b)"
  shows "adapter_live live b \<subseteq> adapter_live live a \<union>
    (case r of Inl _ \<Rightarrow> {} | Inr l \<Rightarrow> {pid_process (launch_identity l)})"
  using assms
proof (cases rule: adapter_start_generation_cases)
  case (2 e)
  then show ?thesis by (auto dest!: wrapped_live [where H = "{}"] dest: generation_err)
next
  case (3 l u r' v m)
  have "adapter_live live u \<subseteq> adapter_live live a \<union> {pid_process (launch_identity l)}"
    using 3(3) by (rule wrapped_live) (auto dest!: generation_ok)
  moreover have "adapter_live live b = adapter_live live v"
    using 3(5) by (simp add: adapter_live_def)
  ultimately show ?thesis
    using accept_live [OF 3(4)] 3(2,4) by (cases r') (auto simp: map_err_def dest!: accept_Inr)
qed simp

lemma adapter_stop_live:
  assumes "adapter_stop P a h mode = (r, b)"
  shows "adapter_live live b \<subseteq> adapter_live live a - (case r of Inl _ \<Rightarrow> {} | Inr _ \<Rightarrow> {h})"
  using assms
  by (fastforce simp: adapter_stop_def on_wrapped_eq adapter_live_def elim!: and_try_cases
      dest!: stop_ok stop_err split: if_splits)

lemma adapter_inspect_identity_live:
  "adapter_inspect_identity P a h = (r, b) \<Longrightarrow> adapter_live live b \<subseteq> adapter_live live a"
  by (fastforce simp: adapter_inspect_identity_def on_wrapped_eq adapter_live_def elim!: and_try_cases
      dest!: inspect_identity_any)

lemma settle_live: "adapter_live live (settle_recovered i profile d a) \<subseteq> insert (pid_process d) (adapter_live live a)"
  by (auto simp: settle_recovered_def Let_def adapter_live_def split: if_splits)

end

context lookup_ledger
begin

lemma adapter_recover_owned_live:
  assumes "adapter_recover_owned P a i profile = (r, b)"
  shows "adapter_live live b \<subseteq> adapter_live live a \<union> (case r of Inr (Some d) \<Rightarrow> {pid_process d} | _ \<Rightarrow> {})"
proof -
  have call: "adapter_live live u \<subseteq> adapter_live live a"
    if "on_wrapped (\<lambda>p. port_recover_owned P p i profile) a = (r', u)" for r' u
    using wrapped_live [OF that, of "{}"] by (auto dest!: recover_owned_keeps)
  from assms show ?thesis
    by (auto simp: adapter_recover_owned_def elim!: and_try_cases dest!: call
        split: if_splits option.splits) (use settle_live in blast)+
qed

lemma adapter_recover_generation_live:
  assumes "adapter_recover_generation P a g profile = (r, b)"
  shows "adapter_live live b \<subseteq> adapter_live live a \<union> (case r of Inr (Found d) \<Rightarrow> {pid_process d} | _ \<Rightarrow> {})"
proof -
  have call: "adapter_live live u \<subseteq> adapter_live live a"
    if "on_wrapped (\<lambda>p. port_recover_generation P p g profile) a = (r', u)" for r' u
    using wrapped_live [OF that, of "{}"] by (auto dest!: recover_generation_keeps)
  from assms show ?thesis
    by (auto simp: adapter_recover_generation_def elim!: and_try_cases dest!: call
        split: if_splits option.splits generation_recovery.splits) (use settle_live in blast)+
qed

lemma adapter_ledger: "process_ledger (approved_port P) (adapter_live live)"
proof unfold_locales
  fix s t :: "'a launch_profile_adapter" and spec profile g h e ge l mode u i ri rs rd ro rg
  show "port_start (approved_port P) s spec = (Inr h, t) \<Longrightarrow> adapter_live live t \<subseteq> insert h (adapter_live live s)"
    and "port_start (approved_port P) s spec = (Inl e, t) \<Longrightarrow> adapter_live live t \<subseteq> adapter_live live s"
    by (auto dest!: adapter_start_live)
  show "port_start_with_profile (approved_port P) s spec profile = (Inr l, t)
      \<Longrightarrow> adapter_live live t \<subseteq> insert (pid_process (launch_identity l)) (adapter_live live s)"
    and "port_start_with_profile (approved_port P) s spec profile = (Inl e, t) \<Longrightarrow> adapter_live live t \<subseteq> adapter_live live s"
    by (auto dest!: adapter_start_with_profile_live)
  show "port_start_generation (approved_port P) s g spec profile = (Inr l, t)
      \<Longrightarrow> adapter_live live t \<subseteq> insert (pid_process (launch_identity l)) (adapter_live live s)"
    and "port_start_generation (approved_port P) s g spec profile = (Inl ge, t) \<Longrightarrow> adapter_live live t \<subseteq> adapter_live live s"
    by (auto dest!: adapter_start_generation_live)
  show "port_stop (approved_port P) s h mode = (Inr u, t) \<Longrightarrow> adapter_live live t \<subseteq> adapter_live live s - {h}"
    and "port_stop (approved_port P) s h mode = (Inl e, t) \<Longrightarrow> adapter_live live t \<subseteq> adapter_live live s"
    by (auto dest!: adapter_stop_live)
  show "port_inspect (approved_port P) s h = (rs, t) \<Longrightarrow> adapter_live live t \<subseteq> adapter_live live s"
    by (auto simp: on_wrapped_eq adapter_live_def dest!: inspect_any)
  show "port_descendants (approved_port P) s h = (rd, t) \<Longrightarrow> adapter_live live t \<subseteq> adapter_live live s"
    by (auto simp: on_wrapped_eq adapter_live_def dest!: descendants_any)
  show "port_inspect_identity (approved_port P) s h = (ri, t) \<Longrightarrow> adapter_live live t \<subseteq> adapter_live live s"
    by (simp add: adapter_inspect_identity_live)
  show "port_recover_owned (approved_port P) s i profile = (ro, t)
      \<Longrightarrow> adapter_live live t \<subseteq> adapter_live live s \<union> (case ro of Inr (Some d) \<Rightarrow> {pid_process d} | _ \<Rightarrow> {})"
    by (simp add: adapter_recover_owned_live)
  show "port_recover_generation (approved_port P) s g profile = (rg, t)
      \<Longrightarrow> adapter_live live t \<subseteq> adapter_live live s \<union> (case rg of Inr (Found d) \<Rightarrow> {pid_process d} | _ \<Rightarrow> {})"
    by (simp add: adapter_recover_generation_live)
qed

end

interpretation approved_traced: process_ledger "approved_port (traced_port P)" "adapter_live (\<lambda>s. set (tr_live s))" for P
  by (rule traced.adapter_ledger)

section \<open>What reaches the wrapped port\<close>

definition approved_start :: "approved_launch_profiles \<Rightarrow> launch_spec \<times> launch_profile option \<Rightarrow> bool" where
  "approved_start cat start =
     (case (spec_profile_id (fst start), snd start) of
        (Some i, Some profile) \<Rightarrow> resolve cat i = Inr profile
      | _ \<Rightarrow> False)"

definition starts_approved :: "approved_launch_profiles \<Rightarrow> 'p traced launch_profile_adapter \<Rightarrow> bool" where
  "starts_approved cat a \<longleftrightarrow> ada_profiles a = cat \<and> list_all (approved_start cat) (tr_starts (ada_process a))"

lemma profile_for_approved: "profile_for spec a = Inr profile \<longleftrightarrow>
    (\<exists>i. spec_profile_id spec = Some i \<and> resolve (ada_profiles a) i = Inr profile)"
  by (auto simp: profile_for_def map_err_def split: option.splits sum.splits)

lemma accept_keeps_starts:
  "accept_approved_launch (traced_port P) spec profile l a = (r, b)
    \<Longrightarrow> ada_profiles b = ada_profiles a \<and> tr_starts (ada_process b) = tr_starts (ada_process a)"
  by (auto simp: accept_approved_launch_def Let_def on_wrapped_eq dest!: traced_starts
      split: if_splits prod.splits sum.splits)

lemma wrapped_start_approved:
  assumes "starts_approved cat a" and "profile_for spec a = Inr profile"
    and "on_wrapped f a = (r, b)" and "\<And>p. f (ada_process a) = (r, p) \<Longrightarrow> tr_starts p = (spec, Some profile) # tr_starts (ada_process a)"
  shows "starts_approved cat b"
  using assms by (auto simp: starts_approved_def on_wrapped_eq profile_for_approved approved_start_def)

lemma accept_starts_approved:
  "accept_approved_launch (traced_port P) spec profile l a = (r, b) \<Longrightarrow> starts_approved cat a \<Longrightarrow> starts_approved cat b"
  by (auto simp: starts_approved_def dest!: accept_keeps_starts)

lemma start_approved_starts:
  "start_approved (traced_port P) spec profile a = (r, b) \<Longrightarrow> profile_for spec a = Inr profile \<Longrightarrow> starts_approved cat a
    \<Longrightarrow> starts_approved cat b"
  by (auto simp: start_approved_def elim!: and_try_cases
      intro: wrapped_start_approved accept_starts_approved dest: traced_starts)

lemma retained_generations_starts [simp]:
  "starts_approved cat (a\<lparr>ada_retained_generations := m\<rparr>) = starts_approved cat a"
  by (simp add: starts_approved_def)

lemma adapter_start_generation_starts:
  assumes "adapter_start_generation (traced_port P) a g spec profile = (r, b)" and "starts_approved cat a"
  shows "starts_approved cat b"
  using assms(1)
proof (cases rule: adapter_start_generation_cases)
  case (2 e)
  show ?thesis
    by (rule wrapped_start_approved [OF assms(2) 2(1,3)]) (auto dest: traced_starts)
next
  case (3 l u r' v m)
  have "starts_approved cat u"
    by (rule wrapped_start_approved [OF assms(2) 3(1,3)]) (auto dest: traced_starts)
  with 3(4,5) show ?thesis by (auto dest: accept_starts_approved)
qed (use assms in simp)

text \<open>The calls that start nothing.\<close>

lemma wrapped_calls_keep:
  assumes "starts_approved cat a"
  shows "on_wrapped (\<lambda>p. port_inspect (traced_port P) p h) a = (r1, b) \<Longrightarrow> starts_approved cat b"
    and "on_wrapped (\<lambda>p. port_stop (traced_port P) p h mode) a = (r2, b) \<Longrightarrow> starts_approved cat b"
    and "on_wrapped (\<lambda>p. port_inspect_identity (traced_port P) p h) a = (r3, b) \<Longrightarrow> starts_approved cat b"
    and "on_wrapped (\<lambda>p. port_descendants (traced_port P) p h) a = (r4, b) \<Longrightarrow> starts_approved cat b"
    and "on_wrapped (\<lambda>p. port_recover_owned (traced_port P) p i profile) a = (r5, b) \<Longrightarrow> starts_approved cat b"
    and "on_wrapped (\<lambda>p. port_recover_generation (traced_port P) p g profile) a = (r6, b) \<Longrightarrow> starts_approved cat b"
  using assms by (auto simp: starts_approved_def on_wrapped_eq dest!: traced_starts)

lemma settle_starts [simp]: "starts_approved cat (settle_recovered i profile d a) = starts_approved cat a"
  and unbind_starts [simp]: "starts_approved cat (unbind h a) = starts_approved cat a"
  by (simp_all add: starts_approved_def)

interpretation approved_starts: step_invariant "port_step (approved_port (traced_port P))" "starts_approved cat" for P cat
proof
  fix a b :: "'a traced launch_profile_adapter"
  assume ok: "starts_approved cat a" and step: "port_step (approved_port (traced_port P)) a b"
  note keeps = wrapped_calls_keep [OF ok]
  from step show "starts_approved cat b"
  proof cases
    case (start spec r)
    with ok show ?thesis
      by (auto simp: adapter_start_def elim!: and_try_cases dest: start_approved_starts)
  next
    case (start_with_profile spec profile r)
    with ok show ?thesis
      by (auto simp: adapter_start_with_profile_def elim!: and_try_cases dest: start_approved_starts split: if_splits)
  next
    case (start_generation g spec profile r)
    with ok show ?thesis by (simp add: adapter_start_generation_starts)
  next
    case (inspect h r)
    then show ?thesis by (auto dest: keeps)
  next
    case (stop h mode r)
    then show ?thesis
      by (auto simp: adapter_stop_def elim!: and_try_cases dest: keeps)
  next
    case (inspect_identity h r)
    then show ?thesis by (auto simp: adapter_inspect_identity_def elim!: and_try_cases dest: keeps)
  next
    case (descendants h r)
    then show ?thesis by (auto dest: keeps)
  next
    case (recover_owned i profile r)
    with ok show ?thesis
      by (auto simp: adapter_recover_owned_def elim!: and_try_cases split: if_splits option.splits)
        (erule keeps(5))+
  next
    case (recover_generation g profile r)
    with ok show ?thesis
      by (auto simp: adapter_recover_generation_def elim!: and_try_cases
          split: if_splits option.splits generation_recovery.splits) (erule keeps(6))+
  qed
qed

end
