(* ===== verification/Process_Supervisor_Properties.thy ===== *)
theory Process_Supervisor_Properties
  imports Process_Adapter
begin

text \<open>
  The supervisor and the approved launch profile adapter together, over any process port: no process
  that was handed over is ever forgotten, nothing but an approved profile reaches the port, and no two
  instances share a user-data namespace. The port is observed through \<open>traced_port\<close>, which is
  transparent (\<open>traced_transparent\<close>).
\<close>

section \<open>A sample port\<close>

text \<open>A port that reports one identity for every start, and one result for every stop.\<close>

definition sample_port :: "process_identity \<Rightarrow> (process_fault + unit) \<Rightarrow> unit process_port" where
  "sample_port d stopped =
     (legacy_port (\<lambda>s spec. (Inr (pid_process d), s)) (\<lambda>s h. (Inr Running, s)) (\<lambda>s h mode. (stopped, s)))
     \<lparr>port_start_with_profile := (\<lambda>s spec profile. (Inr \<lparr>launch_identity = d\<rparr>, s)),
      port_inspect_identity := (\<lambda>s h. (Inr d, s))\<rparr>"

lemma sample_port_simps [simp]:
  "port_start_with_profile (sample_port d stopped) s spec profile = (Inr \<lparr>launch_identity = d\<rparr>, s)"
  "port_stop (sample_port d stopped) s h mode = (stopped, s)"
  "port_descendants (sample_port d stopped) s h = (Inr [], s)"
  by (simp_all add: sample_port_def)

definition sample_supervisor :: "unit traced launch_profile_adapter process_supervisor" where
  "sample_supervisor = supervisor_new (supervisor_config_new 2) (adapter_new demo_catalog (traced_new ()))"

definition sample_spec :: "instance_id \<Rightarrow> launch_spec" where
  "sample_spec i = launch_spec_for_profile i 3"

lemmas sample_run = start_resolved_def launch_resolved_def and_try_def sup_call_def sample_supervisor_def
  supervisor_new_def supervisor_config_new_def adapter_new_def traced_new_def sample_spec_def launch_spec_for_profile_def
  namespace_is_reserved_by_other_def adapter_start_with_profile_def start_approved_def profile_for_def on_wrapped_def
  accept_approved_launch_def traced_port_def observe_def note_start_def gained_launch_def traced_stop_def bind_profile_def
  retain_unresolved_def matches_profile_def demo_identity_def process_identity_new_def map_err_def Let_def bm_keys_def

text \<open>Instance 2 starts, the port reports the identity of instance 1, and the stop of it fails.\<close>

definition sample_stuck :: "unit traced launch_profile_adapter process_supervisor" where
  "sample_stuck = snd (start_resolved (approved_port (traced_port (sample_port (demo_identity 1) (Inl StopFailed))))
     (sample_spec 2) demo_profile sample_supervisor)"

lemma sample_stuck_step:
  "(supervisor_step (approved_port (traced_port (sample_port (demo_identity 1) (Inl StopFailed)))))\<^sup>*\<^sup>*
     sample_supervisor sample_stuck"
  unfolding sample_stuck_def by (rule r_into_rtranclp, rule supervisor_step.start_resolved, rule prod.collapse [symmetric])

lemma sample_stuck_state:
  "tr_live (ada_process (sup_process sample_stuck)) = [40]"
  "bm_get (ada_unresolved (sup_process sample_stuck)) 40 = Some (demo_identity 1)"
  "sup_owned sample_stuck = bm_empty"
  "tr_starts (ada_process (sup_process sample_stuck)) = [(sample_spec 2, Some demo_profile)]"
  unfolding sample_stuck_def by (simp_all add: sample_run)

section \<open>Properties\<close>

text \<open>
  C38. No process is ever orphaned. Whatever operations the supervisor runs over the approved profile
  adapter, in any order, and whatever the wrapped process port answers, faults of a stop or of a
  descendant inspection included: a process that the port handed over and did not confirm as stopped is
  owned by the supervisor for some instance, or kept by the adapter as an unresolved cleanup obligation.
\<close>

theorem supervisor_no_orphan:
  assumes "(supervisor_step (approved_port (traced_port Q)))\<^sup>*\<^sup>*
      (supervisor_new config (adapter_new cat (traced_new q))) s"
    and "h \<in> set (tr_live (ada_process (sup_process s)))"
  shows "(\<exists>i. process_handle_of s i = Some h) \<or> bm_has (ada_unresolved (sup_process s)) h"
proof -
  have "covered (adapter_live (\<lambda>t. set (tr_live t))) (supervisor_new config (adapter_new cat (traced_new q)))"
    by (rule covered_new) (simp add: adapter_live_def adapter_new_def traced_new_def)
  from approved_traced.supervised.run_keeps [OF assms(1) this] assms(2) show ?thesis
    by (auto simp: covered_def adapter_live_def owned_handles_def process_handle_of_def)
qed

theorem supervisor_no_orphan_witness:
  "(\<exists>i. process_handle_of sample_stuck i = Some 40) \<or> bm_has (ada_unresolved (sup_process sample_stuck)) 40"
  using supervisor_no_orphan [OF sample_stuck_step [unfolded sample_supervisor_def], of 40] sample_stuck_state(1) by simp

text \<open>
  C39. Only approved profiles reach the process port. Whatever a client calls on the adapter, with
  whatever arguments, every start that reaches the wrapped port carries a profile, the profile that the
  server's catalog holds under the id of the launch specification.
\<close>

theorem adapter_only_approved_starts:
  assumes "(port_step (approved_port (traced_port Q)))\<^sup>*\<^sup>* (adapter_new cat (traced_new q)) a"
    and "(spec, profile) \<in> set (tr_starts (ada_process a))"
  shows "\<exists>i p. spec_profile_id spec = Some i \<and> profile = Some p \<and> resolve cat i = Inr p"
proof -
  have "starts_approved cat (adapter_new cat (traced_new q))"
    by (simp add: starts_approved_def adapter_new_def traced_new_def)
  from approved_starts.run_keeps [OF assms(1) this] assms(2) have "approved_start cat (spec, profile)"
    by (auto simp: starts_approved_def list_all_iff)
  then show ?thesis
    by (auto simp: approved_start_def split: option.splits)
qed

theorem adapter_only_approved_starts_witness:
  "\<exists>i p. spec_profile_id (sample_spec 2) = Some i \<and> Some demo_profile = Some p \<and> resolve demo_catalog i = Inr p"
proof -
  let ?P = "approved_port (traced_port (sample_port (demo_identity 1) (Inl StopFailed)))"
  let ?a = "adapter_new demo_catalog (traced_new ())"
  let ?b = "snd (port_start_with_profile ?P ?a (sample_spec 2) demo_profile)"
  have "(port_step ?P)\<^sup>*\<^sup>* ?a ?b"
    by (rule r_into_rtranclp, rule port_step.start_with_profile, rule prod.collapse [symmetric])
  moreover have "(sample_spec 2, Some demo_profile) \<in> set (tr_starts (ada_process ?b))"
    by (simp add: sample_run)
  ultimately show ?thesis by (rule adapter_only_approved_starts)
qed

text \<open>
  C40. User-data namespaces are exclusive. Whatever operations the supervisor runs over the approved
  profile adapter, for any wrapped port: two different instances for which it knows an identity,
  whether authorized, launched, attached or restarted, never have the same user-data namespace.
\<close>

theorem supervisor_namespaces_exclusive:
  assumes "(supervisor_step (approved_port Q))\<^sup>*\<^sup>* (supervisor_new config p) s"
    and "bm_get (sup_identities s) i = Some d" and "bm_get (sup_identities s) j = Some e" and "i \<noteq> j"
  shows "pid_user_data d \<noteq> pid_user_data e"
  using approved.orderly.run_keeps [OF assms(1) ordered_new] assms(2-4)
  by (auto simp: ordered_def isolated_def)

text \<open>Two identities of different instances, both authorized.\<close>

definition sample_identity :: "instance_id \<Rightarrow> user_data_config \<Rightarrow> process_identity" where
  "sample_identity i n = process_identity_new i 40 41 42 (prof_executable demo_profile) n"

definition sample_authorized :: "unit traced launch_profile_adapter process_supervisor" where
  "sample_authorized = snd (authorize_identity (sample_identity 2 5) (snd (authorize_identity (sample_identity 1 4) sample_supervisor)))"

lemma sample_authorized_run: "(supervisor_step P)\<^sup>*\<^sup>* sample_supervisor sample_authorized"
  unfolding sample_authorized_def
  by (rule rtranclp_trans; rule r_into_rtranclp; rule supervisor_step.authorize; rule prod.collapse [symmetric])

lemma sample_authorized_state:
  "bm_get (sup_identities sample_authorized) 1 = Some (sample_identity 1 4)"
  "bm_get (sup_identities sample_authorized) 2 = Some (sample_identity 2 5)"
  by (simp_all add: sample_authorized_def authorize_identity_def sample_identity_def process_identity_new_def
      sample_supervisor_def supervisor_new_def namespace_is_reserved_by_other_def bm_keys_def ordmap)

theorem supervisor_namespaces_exclusive_witness:
  "pid_user_data (sample_identity 1 4) \<noteq> pid_user_data (sample_identity 2 5)"
  using supervisor_namespaces_exclusive [OF sample_authorized_run [unfolded sample_supervisor_def] sample_authorized_state]
  by simp

end
