(* ===== verification/Save_Profile_Contract.thy ===== *)
theory Save_Profile_Contract
  imports Gateway_Effects
begin

text \<open>
  Save profiles, the data and its validation: \<open>save_profile/types.rs\<close>, \<open>route.rs\<close>, \<open>guidance.rs\<close>,
  \<open>ledger_types.rs\<close>, \<open>ledger_validation.rs\<close> and \<open>ledger_response.rs\<close>. Identifiers are byte strings
  that \<open>sp_valid_identity\<close> admits; a request names one of the fixed routes and carries the fence of its
  caller, which \<open>sp_authorize\<close> compares with the authority of the gateway.
\<close>

section \<open>Identities\<close>

definition LAUNCH_PROFILE_CONTRACT :: string where "LAUNCH_PROFILE_CONTRACT = ''gateway-launch-profile-v1''"

definition LAUNCH_PROFILE_ID :: string where "LAUNCH_PROFILE_ID = ''automation-disposable-v1''"

definition SAVE_PROFILE_MAX_BODY_BYTES :: int where "SAVE_PROFILE_MAX_BODY_BYTES = 16 * 1024"

definition SAVE_PROFILE_MAX_IDENTITY_BYTES :: nat where "SAVE_PROFILE_MAX_IDENTITY_BYTES = 128"

definition SAVE_PROFILE_MAX_OPERATION_BYTES :: nat where "SAVE_PROFILE_MAX_OPERATION_BYTES = 128"

text \<open>\<open>str::contains\<close> for a pattern string.\<close>

fun str_contains :: "string \<Rightarrow> string \<Rightarrow> bool" where
  "str_contains pat [] = (pat = [])"
| "str_contains pat (c # s) = (take (length pat) (c # s) = pat \<or> str_contains pat s)"

definition sp_valid_identity :: "string \<Rightarrow> nat \<Rightarrow> bool" where
  "sp_valid_identity s n \<longleftrightarrow> s \<noteq> [] \<and> length s \<le> n \<and> \<not> str_contains ''..'' s \<and> \<not> str_contains ''://'' s
     \<and> list_all (\<lambda>c. ascii_alphanumeric c \<or> c \<in> set ''-_.:'') s"

type_synonym save_profile_id = string

datatype save_profile_id_error = InvalidId

definition save_profile_id_try_new :: "string \<Rightarrow> save_profile_id_error + save_profile_id" where
  "save_profile_id_try_new s =
     (if \<not> sp_valid_identity s SAVE_PROFILE_MAX_IDENTITY_BYTES then Inl InvalidId else Inr s)"

type_synonym user_data_identity = u64

datatype user_data_identity_error = InvalidUserDataIdentity

definition user_data_identity_try_new :: "u64 \<Rightarrow> user_data_identity_error + user_data_identity" where
  "user_data_identity_try_new v = (if v = 0 then Inl InvalidUserDataIdentity else Inr v)"

record sp_baseline =
  bas_identity :: string
  bas_digest :: string

datatype sp_baseline_error = InvalidBaselineIdentity | InvalidBaselineDigest

definition sp_baseline_validate :: "sp_baseline \<Rightarrow> sp_baseline_error + unit" where
  "sp_baseline_validate b =
     (if \<not> sp_valid_identity (bas_identity b) SAVE_PROFILE_MAX_IDENTITY_BYTES then Inl InvalidBaselineIdentity
      else if \<not> sha256_text (bas_digest b) then Inl InvalidBaselineDigest
      else Inr ())"

definition sp_baseline_try_new :: "string \<Rightarrow> string \<Rightarrow> sp_baseline_error + sp_baseline" where
  "sp_baseline_try_new i d =
     (let b = \<lparr>bas_identity = i, bas_digest = d\<rparr> in and_then (sp_baseline_validate b) (\<lambda>_. Inr b))"

record user_data_provenance =
  prv_owner :: string
  prv_instance_id :: string
  prv_operation_id :: string
  prv_contract :: string

datatype user_data_provenance_error = InvalidProvenanceIdentity

definition sp_provenance_validate :: "user_data_provenance \<Rightarrow> user_data_provenance_error + unit" where
  "sp_provenance_validate p =
     (if list_all (\<lambda>v. sp_valid_identity v SAVE_PROFILE_MAX_IDENTITY_BYTES)
           [prv_owner p, prv_instance_id p, prv_operation_id p, prv_contract p]
      then Inr () else Inl InvalidProvenanceIdentity)"

record user_data_descriptor =
  dsc_identity :: user_data_identity
  dsc_provenance :: user_data_provenance
  dsc_baseline :: "sp_baseline option"

datatype user_data_descriptor_error =
    DescriptorIdentity
  | DescriptorProvenance user_data_provenance_error
  | DescriptorBaseline sp_baseline_error

definition descriptor_validate :: "user_data_descriptor \<Rightarrow> user_data_descriptor_error + unit" where
  "descriptor_validate d =
     (if dsc_identity d = 0 then Inl DescriptorIdentity
      else and_then (map_err DescriptorProvenance (sp_provenance_validate (dsc_provenance d))) (\<lambda>_.
        check_option (\<lambda>b. map_err DescriptorBaseline (sp_baseline_validate b)) (dsc_baseline d)))"

record launch_profile_binding =
  lpb_contract :: string
  lpb_profile_id :: string
  lpb_user_data :: user_data_identity

datatype launch_profile_binding_error = BindingContract | BindingProfile | BindingUserData

definition binding_validate :: "launch_profile_binding \<Rightarrow> launch_profile_binding_error + unit" where
  "binding_validate b =
     (if lpb_contract b \<noteq> LAUNCH_PROFILE_CONTRACT then Inl BindingContract
      else if lpb_user_data b = 0 then Inl BindingUserData
      else if \<not> sp_valid_identity (lpb_profile_id b) SAVE_PROFILE_MAX_IDENTITY_BYTES then Inl BindingProfile
      else if lpb_profile_id b \<noteq> LAUNCH_PROFILE_ID then Inl BindingProfile
      else Inr ())"

definition binding_try_new :: "string \<Rightarrow> user_data_identity \<Rightarrow> launch_profile_binding_error + launch_profile_binding" where
  "binding_try_new profile_id user_data =
     (let b = \<lparr>lpb_contract = LAUNCH_PROFILE_CONTRACT, lpb_profile_id = profile_id, lpb_user_data = user_data\<rparr>
      in and_then (binding_validate b) (\<lambda>_. Inr b))"

section \<open>Context and authority\<close>

record save_profile_context =
  ctx_instance_id :: string
  ctx_caller_id :: string
  ctx_session_id :: string
  ctx_lease_id :: string
  ctx_lease_epoch :: u64
  ctx_correlation_id :: string

datatype save_profile_fence_error =
    InvalidIdentity | WrongInstance | WrongCaller | WrongSession | WrongLease | StaleEpoch | Expired

definition context_validate :: "save_profile_context \<Rightarrow> save_profile_fence_error + unit" where
  "context_validate c =
     (if list_all (\<lambda>v. sp_valid_identity v SAVE_PROFILE_MAX_IDENTITY_BYTES)
           [ctx_instance_id c, ctx_caller_id c, ctx_session_id c, ctx_lease_id c, ctx_correlation_id c]
      then Inr () else Inl InvalidIdentity)"

definition same_fence :: "save_profile_context \<Rightarrow> save_profile_context \<Rightarrow> bool" where
  "same_fence a b \<longleftrightarrow> ctx_instance_id a = ctx_instance_id b \<and> ctx_caller_id a = ctx_caller_id b
     \<and> ctx_session_id a = ctx_session_id b \<and> ctx_lease_id a = ctx_lease_id b \<and> ctx_lease_epoch a = ctx_lease_epoch b"

record save_profile_authority =
  aut_instance_id :: string
  aut_caller_id :: string
  aut_session_id :: string
  aut_lease_id :: string
  aut_lease_epoch :: u64
  aut_expires_at_millis :: "u64 option"

definition sp_authorize :: "save_profile_authority \<Rightarrow> save_profile_context \<Rightarrow> u64 \<Rightarrow> save_profile_fence_error + unit" where
  "sp_authorize a c now_millis =
     and_then (context_validate c) (\<lambda>_.
       if (case aut_expires_at_millis a of None \<Rightarrow> False | Some deadline \<Rightarrow> deadline \<le> now_millis) then Inl Expired
       else if aut_instance_id a \<noteq> ctx_instance_id c then Inl WrongInstance
       else if aut_caller_id a \<noteq> ctx_caller_id c then Inl WrongCaller
       else if aut_session_id a \<noteq> ctx_session_id c then Inl WrongSession
       else if aut_lease_id a \<noteq> ctx_lease_id c then Inl WrongLease
       else if aut_lease_epoch a \<noteq> ctx_lease_epoch c then Inl StaleEpoch
       else Inr ())"

section \<open>Routes, statuses and guidance\<close>

datatype save_profile_route = RouteList | RouteCurrent | RouteSelect | RouteCreateDisposable | RouteLookup

definition is_mutation :: "save_profile_route \<Rightarrow> bool" where
  "is_mutation r \<longleftrightarrow> r = RouteSelect \<or> r = RouteCreateDisposable"

definition requires_body :: "save_profile_route \<Rightarrow> bool" where
  "requires_body r \<longleftrightarrow> r = RouteSelect \<or> r = RouteCreateDisposable"

definition downstream_path :: "save_profile_route \<Rightarrow> string" where
  "downstream_path r = (case r of
     RouteList \<Rightarrow> ''/api/v1/save-profiles''
   | RouteCurrent \<Rightarrow> ''/api/v1/save-profile/current''
   | RouteSelect \<Rightarrow> ''/api/v1/save-profile/select''
   | RouteCreateDisposable \<Rightarrow> ''/api/v1/save-profile/create-disposable''
   | RouteLookup \<Rightarrow> ''/api/v1/save-profile/operations'')"

datatype save_profile_status = Accepted | Settled | Rejected | Unknown | Blocked | Cancelled

record recovery_guidance =
  gui_code :: string
  gui_action :: string

definition guidance_for_status :: "save_profile_status \<Rightarrow> recovery_guidance option" where
  "guidance_for_status st = (case st of
     Unknown \<Rightarrow> Some \<lparr>gui_code = ''save_profile_reconcile_required'',
       gui_action = ''lookup the original operation before retrying''\<rparr>
   | Blocked \<Rightarrow> Some \<lparr>gui_code = ''save_profile_operator_intervention_required'',
       gui_action = ''inspect the isolated allocation and clear the reported block''\<rparr>
   | _ \<Rightarrow> None)"

section \<open>Requests, responses and results\<close>

datatype save_profile_operation =
    OpList
  | OpCurrent
  | OpSelect save_profile_id sp_baseline
  | OpCreateDisposable launch_profile_binding user_data_descriptor

definition operation_route :: "save_profile_operation \<Rightarrow> save_profile_route" where
  "operation_route op = (case op of
     OpList \<Rightarrow> RouteList | OpCurrent \<Rightarrow> RouteCurrent | OpSelect _ _ \<Rightarrow> RouteSelect
   | OpCreateDisposable _ _ \<Rightarrow> RouteCreateDisposable)"

record sp_request =
  spr_operation_id :: string
  spr_context :: save_profile_context
  spr_route :: save_profile_route
  spr_operation :: save_profile_operation
  spr_body :: "u8 list"

record sp_response =
  rsp_operation_id :: string
  rsp_context :: save_profile_context
  rsp_route :: save_profile_route
  rsp_status :: save_profile_status
  rsp_body :: "u8 list"
  rsp_profile_id :: "save_profile_id option"
  rsp_baseline :: "sp_baseline option"
  rsp_user_data :: "user_data_descriptor option"
  rsp_reason :: "string option"

definition response_rejected :: "sp_request \<Rightarrow> save_profile_status \<Rightarrow> string \<Rightarrow> sp_response" where
  "response_rejected q st reason = \<lparr>rsp_operation_id = spr_operation_id q, rsp_context = spr_context q,
     rsp_route = spr_route q, rsp_status = st, rsp_body = [], rsp_profile_id = None, rsp_baseline = None,
     rsp_user_data = None, rsp_reason = Some reason\<rparr>"

datatype sp_transport_fault =
    UnavailableBeforeWrite | RejectedBeforeWrite | TimeoutAfterWrite | DisconnectedAfterWrite | MalformedResponse

record sp_result =
  spt_operation_id :: string
  spt_route :: save_profile_route
  spt_status :: save_profile_status
  spt_body :: "u8 list"
  spt_profile_id :: "save_profile_id option"
  spt_baseline :: "sp_baseline option"
  spt_user_data :: "user_data_descriptor option"
  spt_guidance :: "recovery_guidance option"

record sp_record =
  rcd_operation_id :: string
  rcd_request :: sp_request
  rcd_status :: save_profile_status
  rcd_result :: "sp_result option"

datatype sp_ledger_error =
    InvalidRequest
  | Fence save_profile_fence_error
  | ActiveRun
  | BaselineRequired
  | OperationConflict
  | OperationNotFound
  | OperationInProgress
  | DuplicateSelection
  | CapacityExceeded
  | PersistenceFailed
  | Transport sp_transport_fault
  | ResponseInvalid

section \<open>Validation (ledger_validation.rs)\<close>

definition id_is_valid :: "string \<Rightarrow> bool" where
  "id_is_valid s \<longleftrightarrow> save_profile_id_try_new s = Inr s"

definition sp_check_operation :: "sp_request \<Rightarrow> sp_ledger_error + unit" where
  "sp_check_operation q = (case spr_operation q of
     OpList \<Rightarrow> Inr ()
   | OpCurrent \<Rightarrow> Inr ()
   | OpSelect profile_id baseline \<Rightarrow>
       and_then (map_err (\<lambda>_. InvalidRequest) (save_profile_id_try_new profile_id)) (\<lambda>_.
         map_err (\<lambda>_. BaselineRequired) (sp_baseline_validate baseline))
   | OpCreateDisposable profile data \<Rightarrow>
       and_then (map_err (\<lambda>_. InvalidRequest) (binding_validate profile)) (\<lambda>_.
       and_then (map_err (\<lambda>_. InvalidRequest) (descriptor_validate data)) (\<lambda>_.
         if lpb_profile_id profile \<noteq> LAUNCH_PROFILE_ID \<or> lpb_contract profile \<noteq> LAUNCH_PROFILE_CONTRACT
            \<or> lpb_user_data profile \<noteq> dsc_identity data \<or> dsc_baseline data \<noteq> None
            \<or> prv_owner (dsc_provenance data) \<noteq> ''gateway''
            \<or> prv_instance_id (dsc_provenance data) \<noteq> ctx_instance_id (spr_context q)
            \<or> prv_operation_id (dsc_provenance data) \<noteq> spr_operation_id q
            \<or> prv_contract (dsc_provenance data) \<noteq> LAUNCH_PROFILE_CONTRACT
         then Inl InvalidRequest else Inr ())))"

definition sp_validate_request :: "sp_request \<Rightarrow> sp_ledger_error + unit" where
  "sp_validate_request q =
     and_then (map_err (\<lambda>_. InvalidRequest) (context_validate (spr_context q))) (\<lambda>_.
       if spr_operation_id q = [] \<or> SAVE_PROFILE_MAX_OPERATION_BYTES < length (spr_operation_id q)
          \<or> \<not> id_is_valid (spr_operation_id q) then Inl InvalidRequest
       else if SAVE_PROFILE_MAX_BODY_BYTES < int (length (spr_body q))
          \<or> (requires_body (spr_route q) \<and> spr_body q = [])
          \<or> (\<not> requires_body (spr_route q) \<and> spr_body q \<noteq> []) then Inl InvalidRequest
       else if operation_route (spr_operation q) \<noteq> spr_route q then Inl InvalidRequest
       else sp_check_operation q)"

definition same_operation_request :: "sp_request \<Rightarrow> sp_request \<Rightarrow> bool" where
  "same_operation_request a b \<longleftrightarrow> spr_operation_id a = spr_operation_id b
     \<and> same_fence (spr_context a) (spr_context b) \<and> spr_route a = spr_route b
     \<and> spr_operation a = spr_operation b \<and> spr_body a = spr_body b"

definition selected_id :: "sp_request \<Rightarrow> sp_ledger_error + save_profile_id" where
  "selected_id q = (case spr_operation q of
     OpSelect profile_id baseline \<Rightarrow>
       and_then (map_err (\<lambda>_. InvalidRequest) (save_profile_id_try_new profile_id)) (\<lambda>_.
       and_then (map_err (\<lambda>_. BaselineRequired) (sp_baseline_validate baseline)) (\<lambda>_. Inr profile_id))
   | _ \<Rightarrow> Inl InvalidRequest)"

type_synonym sp_key = "string \<times> string"

definition request_key :: "sp_request \<Rightarrow> sp_key" where
  "request_key q = (ctx_instance_id (spr_context q), spr_operation_id q)"

definition bare_result :: "sp_request \<Rightarrow> save_profile_status \<Rightarrow> recovery_guidance option \<Rightarrow> sp_result" where
  "bare_result q st g = \<lparr>spt_operation_id = spr_operation_id q, spt_route = spr_route q, spt_status = st, spt_body = [],
     spt_profile_id = None, spt_baseline = None, spt_user_data = None, spt_guidance = g\<rparr>"

definition unknown_result :: "sp_request \<Rightarrow> sp_result" where
  "unknown_result q = bare_result q Unknown (guidance_for_status Unknown)"

definition accepted_result :: "sp_request \<Rightarrow> sp_result" where
  "accepted_result q = bare_result q Accepted None"

definition rejected_result :: "sp_request \<Rightarrow> save_profile_status \<Rightarrow> sp_result" where
  "rejected_result q st = bare_result q st (guidance_for_status st)"

section \<open>Responses (ledger_response.rs)\<close>

definition settled_response_ok :: "sp_request \<Rightarrow> sp_response \<Rightarrow> sp_ledger_error + unit" where
  "settled_response_ok q r = (case spr_route q of
     RouteSelect \<Rightarrow>
       and_then (selected_id q) (\<lambda>expected.
         ensure (rsp_profile_id r = Some expected \<and> rsp_baseline r \<noteq> None) ResponseInvalid)
   | RouteCreateDisposable \<Rightarrow>
       (case rsp_user_data r of
          None \<Rightarrow> Inl ResponseInvalid
        | Some data \<Rightarrow>
            (case spr_operation q of
               OpCreateDisposable _ reserved \<Rightarrow>
                 ensure (rsp_baseline r \<noteq> None \<and> dsc_identity data = dsc_identity reserved \<and> dsc_baseline data = None
                   \<and> prv_contract (dsc_provenance data) = LAUNCH_PROFILE_CONTRACT
                   \<and> prv_owner (dsc_provenance data) = ''gateway''
                   \<and> prv_instance_id (dsc_provenance data) = ctx_instance_id (spr_context q)
                   \<and> prv_operation_id (dsc_provenance data) = spr_operation_id q) ResponseInvalid
             | _ \<Rightarrow> Inl ResponseInvalid))
   | _ \<Rightarrow> Inr ())"

definition validate_response :: "sp_request \<Rightarrow> sp_response \<Rightarrow> sp_ledger_error + sp_result" where
  "validate_response q r =
     (if rsp_operation_id r \<noteq> spr_operation_id q \<or> rsp_context r \<noteq> spr_context q \<or> rsp_route r \<noteq> spr_route q
         \<or> SAVE_PROFILE_MAX_BODY_BYTES < int (length (rsp_body r)) then Inl ResponseInvalid
      else if (case rsp_baseline r of None \<Rightarrow> False | Some b \<Rightarrow> sp_baseline_validate b \<noteq> Inr ())
         \<or> (case rsp_user_data r of None \<Rightarrow> False | Some d \<Rightarrow> descriptor_validate d \<noteq> Inr ()) then Inl ResponseInvalid
      else and_then (if rsp_status r = Settled then settled_response_ok q r else Inr ()) (\<lambda>_.
        Inr \<lparr>spt_operation_id = rsp_operation_id r, spt_route = rsp_route r, spt_status = rsp_status r,
          spt_body = rsp_body r, spt_profile_id = rsp_profile_id r, spt_baseline = rsp_baseline r,
          spt_user_data = rsp_user_data r, spt_guidance = guidance_for_status (rsp_status r)\<rparr>))"

section \<open>What the checks say\<close>

lemma valid_identity_length: "sp_valid_identity s n \<Longrightarrow> length s \<in> {1..n}"
  by (cases s) (auto simp: sp_valid_identity_def)

lemma sp_authorize_Inr [checks]:
  "sp_authorize a c t = Inr u \<longleftrightarrow> context_validate c = Inr () \<and> (\<forall>d. aut_expires_at_millis a = Some d \<longrightarrow> t < d)
     \<and> aut_instance_id a = ctx_instance_id c \<and> aut_caller_id a = ctx_caller_id c \<and> aut_session_id a = ctx_session_id c
     \<and> aut_lease_id a = ctx_lease_id c \<and> aut_lease_epoch a = ctx_lease_epoch c"
  by (auto simp: sp_authorize_def and_then_eq_Inr not_le split: option.splits if_splits)

lemma bare_result_simps [simp]:
  "spt_operation_id (bare_result q st g) = spr_operation_id q" "spt_route (bare_result q st g) = spr_route q"
  "spt_status (bare_result q st g) = st" "spt_profile_id (bare_result q st g) = None"
  by (simp_all add: bare_result_def)

lemma validate_response_Inr:
  assumes "validate_response q r = Inr t"
  shows "spt_operation_id t = spr_operation_id q" and "spt_route t = spr_route q"
    and "spt_status t = rsp_status r" and "spt_guidance t = guidance_for_status (spt_status t)"
    and "spt_profile_id t = rsp_profile_id r"
  using assms by (auto simp: validate_response_def and_then_eq_Inr split: if_splits)

lemma selected_id_operation: "selected_id q = Inr p \<Longrightarrow> \<exists>b. spr_operation q = OpSelect p b"
  by (auto simp: selected_id_def and_then_eq_Inr split: save_profile_operation.splits)

text \<open>A settled selection settles the profile that was asked for.\<close>

lemma settled_selection:
  assumes "validate_response q r = Inr t" and "spr_route q = RouteSelect" and "spt_status t = Settled"
  shows "\<exists>p. selected_id q = Inr p \<and> spt_profile_id t = Some p"
  using assms by (auto simp: validate_response_def settled_response_ok_def and_then_eq_Inr checks split: if_splits)

end
