(* ===== verification/Record_Store.thy ===== *)
theory Record_Store
  imports Gateway_Effects
begin

text \<open>
  The record stores behind the save-profile ledger and the user-data provisioner
  (\<open>SaveProfileRecordStore\<close>, \<open>UserDataRecordStore\<close>): list, insert and update of records that carry
  their own key, and the opening of the store when the gateway starts. The locale \<open>keyed_store\<close> is
  the contract the clients rely on: an acknowledged write is held, a refused one changes nothing, and
  opening changes nothing. \<open>keyed_memory\<close> is the \<open>BTreeMap\<close> store of the sources.
\<close>

record ('r, 'e, 's) record_store =
  rs_open :: "'s \<Rightarrow> ('e + unit) \<times> 's"
  rs_list :: "'s \<Rightarrow> ('e + 'r list) \<times> 's"
  rs_insert :: "'r \<Rightarrow> 's \<Rightarrow> ('e + unit) \<times> 's"
  rs_update :: "'r \<Rightarrow> 's \<Rightarrow> ('e + unit) \<times> 's"

section \<open>Records by key\<close>

definition by_key :: "('r \<Rightarrow> 'k) \<Rightarrow> 'r list \<Rightarrow> 'k \<Rightarrow> 'r option" where
  "by_key key rs = map_of (map (\<lambda>r. (key r, r)) rs)"

lemma by_key_Nil [simp]: "by_key key [] k = None"
  by (simp add: by_key_def)

lemma by_key_Cons: "by_key key (r # rs) k = (if k = key r then Some r else by_key key rs k)"
  by (simp add: by_key_def)

lemma by_key_None: "by_key key rs k = None \<longleftrightarrow> k \<notin> key ` set rs"
  by (simp add: by_key_def map_of_eq_None_iff image_image)

lemma dom_by_key: "dom (by_key key rs) = set (map key rs)"
  by (rule set_eqI) (metis by_key_None domIff list.set_map)

lemma by_key_mem: "distinct (map key rs) \<Longrightarrow> r \<in> set rs \<Longrightarrow> by_key key rs (key r) = Some r"
proof (induction rs)
  case (Cons a rs)
  show ?case
  proof (cases "r = a")
    case False
    with Cons have "r \<in> set rs" and "key a \<notin> key ` set rs" by auto
    with Cons show ?thesis by (metis by_key_Cons distinct.simps(2) image_eqI list.simps(9))
  qed (simp add: by_key_Cons)
qed simp

lemma by_key_Some: "by_key key rs k = Some r \<Longrightarrow> r \<in> set rs \<and> key r = k"
  by (auto simp: by_key_def dest!: map_of_SomeD)

lemma fold_insert_records:
  "distinct (map key rs) \<Longrightarrow> bm_get (fold (\<lambda>r. bm_insert (key r) r) rs m) k =
     (case by_key key rs k of None \<Rightarrow> bm_get m k | Some r \<Rightarrow> Some r)"
proof (induction rs arbitrary: m)
  case (Cons r rs)
  then have "by_key key rs (key r) = None" by (simp add: by_key_None)
  with Cons show ?case by (simp add: by_key_Cons split: option.split)
qed simp

lemma by_key_replace:
  "by_key key (map (\<lambda>x. if key x = key r then r else x) rs) k =
     (if k = key r \<and> k \<in> key ` set rs then Some r else by_key key rs k)"
  by (induction rs) (auto simp: by_key_Cons)

section \<open>The contract\<close>

locale keyed_store =
  fixes st :: "('r, 'e, 's) record_store" and key :: "'r \<Rightarrow> 'k"
    and content :: "'s \<Rightarrow> 'k \<Rightarrow> 'r option" and good :: "'s \<Rightarrow> bool"
  assumes open_any: "good s \<Longrightarrow> rs_open st s = (y, t) \<Longrightarrow> good t \<and> content t = content s"
    and list_ok: "good s \<Longrightarrow> rs_list st s = (Inr rs, t)
      \<Longrightarrow> distinct (map key rs) \<and> content s = by_key key rs \<and> good t \<and> content t = content s"
    and list_err: "good s \<Longrightarrow> rs_list st s = (Inl e, t) \<Longrightarrow> good t \<and> content t = content s"
    and insert_ok: "good s \<Longrightarrow> rs_insert st r s = (Inr u, t)
      \<Longrightarrow> good t \<and> content s (key r) = None \<and> content t = (content s)(key r \<mapsto> r)"
    and insert_err: "good s \<Longrightarrow> rs_insert st r s = (Inl e, t) \<Longrightarrow> good t \<and> content t = content s"
    and update_ok: "good s \<Longrightarrow> rs_update st r s = (Inr u, t)
      \<Longrightarrow> good t \<and> content s (key r) \<noteq> None \<and> content t = (content s)(key r \<mapsto> r)"
    and update_err: "good s \<Longrightarrow> rs_update st r s = (Inl e, t) \<Longrightarrow> good t \<and> content t = content s"

text \<open>A journal lists its records in the order of their admission, the newest first.\<close>

locale newest_first_store = keyed_store st key content good
  for st :: "('r, 'e, 's) record_store" and key :: "'r \<Rightarrow> 'k"
    and content :: "'s \<Rightarrow> 'k \<Rightarrow> 'r option" and good :: "'s \<Rightarrow> bool" +
  fixes order :: "'s \<Rightarrow> 'k list"
  assumes order_dom: "good s \<Longrightarrow> distinct (order s) \<and> set (order s) = dom (content s)"
    and open_order: "good s \<Longrightarrow> rs_open st s = (y, t) \<Longrightarrow> order t = order s"
    and list_order: "good s \<Longrightarrow> rs_list st s = (x, t) \<Longrightarrow> order t = order s \<and> (\<forall>rs. x = Inr rs \<longrightarrow> map key rs = order s)"
    and insert_order: "good s \<Longrightarrow> rs_insert st r s = (y, t) \<Longrightarrow> order t = (if y = Inr () then key r # order s else order s)"
    and update_order: "good s \<Longrightarrow> rs_update st r s = (y, t) \<Longrightarrow> order t = order s"
begin

lemma listed_in_order:
  assumes "good s" and "rs_list st s = (Inr rs, t)"
  shows "rs = map (\<lambda>k. the (content s k)) (order s)"
proof -
  have rs: "distinct (map key rs)" "content s = by_key key rs" using list_ok [OF assms] by simp_all
  have "map key rs = order s" using list_order [OF assms] by simp
  moreover have "map (\<lambda>k. the (content s k)) (map key rs) = rs"
    using by_key_mem [OF rs(1)] by (simp add: rs(2) map_idI)
  ultimately show ?thesis by simp
qed

end

section \<open>Stores in memory\<close>

definition keyed_memory :: "('r \<Rightarrow> 'k::linorder) \<Rightarrow> 'e \<Rightarrow> 'e \<Rightarrow> ('r, 'e, ('k, 'r) bmap) record_store" where
  "keyed_memory key conflict missing = \<lparr>
     rs_open = (\<lambda>m. (Inr (), m)),
     rs_list = (\<lambda>m. (Inr (bm_values m), m)),
     rs_insert = (\<lambda>r m. if bm_has m (key r) then (Inl conflict, m) else (Inr (), bm_insert (key r) r m)),
     rs_update = (\<lambda>r m. if \<not> bm_has m (key r) then (Inl missing, m) else (Inr (), bm_insert (key r) r m))\<rparr>"

definition keyed_map :: "('r \<Rightarrow> 'k::linorder) \<Rightarrow> ('k, 'r) bmap \<Rightarrow> bool" where
  "keyed_map key m \<longleftrightarrow> (\<forall>k r. bm_get m k = Some r \<longrightarrow> key r = k)"

interpretation keyed_memory: keyed_store "keyed_memory key conflict missing" key bm_get "keyed_map key"
  for key :: "'r \<Rightarrow> 'k::linorder" and conflict missing :: 'e
proof unfold_locales
  fix s t rs assume good: "keyed_map key s" and "rs_list (keyed_memory key conflict missing) s = (Inr rs, t)"
  then have t: "t = s" and rs: "rs = bm_values s"
    by (auto simp: keyed_memory_def)
  have "map key rs = bm_keys s"
    using good unfolding rs bm_values_def bm_keys_def keyed_map_def by (auto simp: bm.entries_get)
  moreover have "map (\<lambda>r. (key r, r)) rs = bm_entries s"
    using good unfolding rs bm_values_def keyed_map_def by (auto simp: bm.entries_get intro: map_idI)
  ultimately show "distinct (map key rs) \<and> bm_get s = by_key key rs \<and> keyed_map key t \<and> bm_get t = bm_get s"
    using good t by (simp add: by_key_def bm_get_map_of)
qed (auto simp: keyed_memory_def keyed_map_def fun_eq_iff split: if_splits)

end
