(* ===== verification/Save_Profile_Ledger.thy ===== *)
theory Save_Profile_Ledger
  imports Save_Profile_Contract Record_Store
begin

text \<open>
  The save-profile ledger: \<open>save_profile/ledger.rs\<close>, with the record store trait and the in-memory
  store of \<open>ledger_types.rs\<close>. Every method is an effect on the ledger's state, which holds the states
  of the forwarding port and of the store. \<open>sp_step\<close> is one call of any method, or a restart of the
  gateway on the same store.
\<close>

section \<open>Ports and state\<close>

type_synonym 's sp_store = "(sp_record, sp_ledger_error, 's) record_store"

record ('f, 's) sp_env =
  spe_forward :: "'f \<Rightarrow> sp_request \<Rightarrow> (sp_transport_fault + sp_response) \<times> 'f"
  spe_lookup :: "'f \<Rightarrow> sp_request \<Rightarrow> (sp_transport_fault + sp_response option) \<times> 'f"
  spe_store :: "'s sp_store"

record ('f, 's) sp_ledger =
  spl_capacity :: nat
  spl_authority :: save_profile_authority
  spl_forwarding :: 'f
  spl_store :: 's
  spl_records :: "(sp_key, sp_record) bmap"
  spl_selected :: "save_profile_id option"
  spl_pending_selection :: "string option"

definition sp_record_key :: "sp_record \<Rightarrow> sp_key" where
  "sp_record_key r = (ctx_instance_id (spr_context (rcd_request r)), rcd_operation_id r)"

definition still_open :: "save_profile_status \<Rightarrow> bool" where
  "still_open st \<longleftrightarrow> st = Accepted \<or> st = Unknown"

section \<open>The in-memory store\<close>

type_synonym sp_memory_store = "(sp_key, sp_record) bmap"

definition sp_memory :: "sp_memory_store sp_store" where
  "sp_memory = keyed_memory sp_record_key OperationConflict OperationNotFound"

section \<open>Start-up\<close>

definition restored_selection :: "sp_record list \<Rightarrow> save_profile_id option" where
  "restored_selection rs =
     (case find (\<lambda>t. spt_route t = RouteSelect \<and> spt_status t = Settled) (List.map_filter rcd_result rs) of
        None \<Rightarrow> None
      | Some t \<Rightarrow> spt_profile_id t)"

definition restored_pending :: "sp_record list \<Rightarrow> string option" where
  "restored_pending rs = map_option rcd_operation_id
     (find (\<lambda>r. spr_route (rcd_request r) = RouteSelect \<and> still_open (rcd_status r)) rs)"

definition sp_ledger_new :: "('f, 's) sp_env \<Rightarrow> nat \<Rightarrow> save_profile_authority \<Rightarrow> 'f \<Rightarrow> 's
    \<Rightarrow> (sp_ledger_error + ('f, 's) sp_ledger) \<times> 's" where
  "sp_ledger_new E capacity authority f s =
     (if capacity = 0 then (Inl CapacityExceeded, s)
      else case rs_list (spe_store E) s of
             (Inl e, t) \<Rightarrow> (Inl e, t)
           | (Inr persisted, t) \<Rightarrow>
               if capacity < length persisted then (Inl CapacityExceeded, t)
               else if list_ex (\<lambda>r. ctx_instance_id (spr_context (rcd_request r)) \<noteq> aut_instance_id authority) persisted
               then (Inl (Fence WrongInstance), t)
               else (Inr \<lparr>spl_capacity = capacity, spl_authority = authority, spl_forwarding = f, spl_store = t,
                       spl_records = fold (\<lambda>r. bm_insert (sp_record_key r) r) persisted bm_empty,
                       spl_selected = restored_selection persisted,
                       spl_pending_selection = restored_pending persisted\<rparr>, t))"

section \<open>Operations\<close>

definition on_store :: "('s \<Rightarrow> (sp_ledger_error + unit) \<times> 's) \<Rightarrow> ('f, 's) sp_ledger
    \<Rightarrow> (sp_ledger_error + unit) \<times> ('f, 's) sp_ledger" where
  "on_store f L = (case f (spl_store L) of (r, s) \<Rightarrow> (r, L\<lparr>spl_store := s\<rparr>))"

definition on_forwarding :: "('f \<Rightarrow> 'r \<times> 'f) \<Rightarrow> ('f, 's) sp_ledger \<Rightarrow> 'r \<times> ('f, 's) sp_ledger" where
  "on_forwarding f L = (case f (spl_forwarding L) of (r, p) \<Rightarrow> (r, L\<lparr>spl_forwarding := p\<rparr>))"

definition note_selection :: "sp_result \<Rightarrow> ('f, 's) sp_ledger \<Rightarrow> ('f, 's) sp_ledger" where
  "note_selection t L =
     (if spt_route t = RouteSelect
      then (case spt_status t of
              Settled \<Rightarrow> L\<lparr>spl_selected := spt_profile_id t, spl_pending_selection := None\<rparr>
            | Rejected \<Rightarrow> L\<lparr>spl_pending_selection := None\<rparr>
            | Blocked \<Rightarrow> L\<lparr>spl_pending_selection := None\<rparr>
            | Cancelled \<Rightarrow> L\<lparr>spl_pending_selection := None\<rparr>
            | _ \<Rightarrow> L)
      else L)"

definition with_result :: "sp_result \<Rightarrow> sp_record \<Rightarrow> sp_record" where
  "with_result t r = r\<lparr>rcd_status := spt_status t, rcd_result := Some t\<rparr>"

definition persist_result :: "('f, 's) sp_env \<Rightarrow> sp_key \<Rightarrow> sp_result \<Rightarrow> ('f, 's) sp_ledger
    \<Rightarrow> (sp_ledger_error + unit) \<times> ('f, 's) sp_ledger" where
  "persist_result E k t L =
     (case bm_get (spl_records L) k of
        None \<Rightarrow> (Inl OperationNotFound, L)
      | Some r \<Rightarrow>
          and_try (on_store (rs_update (spe_store E) (with_result t r))) (\<lambda>_ L.
            (Inr (), note_selection t (L\<lparr>spl_records := bm_insert k (with_result t r) (spl_records L)\<rparr>))) L)"

text \<open>Persist a result, then return it, or return an error.\<close>

definition persist_and :: "('f, 's) sp_env \<Rightarrow> sp_key \<Rightarrow> sp_result \<Rightarrow> sp_ledger_error + sp_result \<Rightarrow> ('f, 's) sp_ledger
    \<Rightarrow> (sp_ledger_error + sp_result) \<times> ('f, 's) sp_ledger" where
  "persist_and E k t answer = and_try (persist_result E k t) (\<lambda>_. pure answer)"

definition accept_response :: "('f, 's) sp_env \<Rightarrow> sp_key \<Rightarrow> sp_request \<Rightarrow> sp_response \<Rightarrow> ('f, 's) sp_ledger
    \<Rightarrow> (sp_ledger_error + sp_result) \<times> ('f, 's) sp_ledger" where
  "accept_response E k q response =
     (case validate_response q response of
        Inl e \<Rightarrow> persist_and E k (unknown_result q) (Inl e)
      | Inr t \<Rightarrow> persist_and E k t (Inr t))"

definition sp_dispatch :: "('f, 's) sp_env \<Rightarrow> sp_request \<Rightarrow> ('f, 's) sp_ledger
    \<Rightarrow> (sp_ledger_error + sp_result) \<times> ('f, 's) sp_ledger" where
  "sp_dispatch E q =
     and_use (on_forwarding (\<lambda>f. spe_forward E f q)) (\<lambda>forwarded.
       case forwarded of
         Inr response \<Rightarrow> accept_response E (request_key q) q response
       | Inl fault \<Rightarrow>
           if fault = TimeoutAfterWrite \<or> fault = DisconnectedAfterWrite
           then persist_and E (request_key q) (unknown_result q) (Inr (unknown_result q))
           else if fault = UnavailableBeforeWrite \<or> fault = RejectedBeforeWrite
           then persist_and E (request_key q) (rejected_result q Rejected) (Inr (rejected_result q Rejected))
           else persist_and E (request_key q) (unknown_result q) (Inl (Transport fault)))"

definition check_selection :: "sp_request \<Rightarrow> ('f, 's) sp_ledger \<Rightarrow> sp_ledger_error + unit" where
  "check_selection q L =
     (if spr_route q = RouteSelect
      then and_then (selected_id q) (\<lambda>profile_id.
             ensure (spl_pending_selection L = None \<and> spl_selected L \<noteq> Some profile_id) DuplicateSelection)
      else Inr ())"

definition sp_admit :: "('f, 's) sp_env \<Rightarrow> sp_request \<Rightarrow> ('f, 's) sp_ledger
    \<Rightarrow> (sp_ledger_error + unit) \<times> ('f, 's) sp_ledger" where
  "sp_admit E q L =
     (let r = \<lparr>rcd_operation_id = spr_operation_id q, rcd_request = q, rcd_status = Accepted, rcd_result = None\<rparr> in
      and_try (on_store (rs_insert (spe_store E) r)) (\<lambda>_ L.
        (Inr (), L\<lparr>spl_records := bm_insert (request_key q) r (spl_records L),
           spl_pending_selection := (if spr_route q = RouteSelect then Some (spr_operation_id q)
             else spl_pending_selection L)\<rparr>)) L)"

definition sp_submit :: "('f, 's) sp_env \<Rightarrow> sp_request \<Rightarrow> u64 \<Rightarrow> bool \<Rightarrow> ('f, 's) sp_ledger
    \<Rightarrow> (sp_ledger_error + sp_result) \<times> ('f, 's) sp_ledger" where
  "sp_submit E q now_millis active_run L =
     (case and_then (map_err Fence (sp_authorize (spl_authority L) (spr_context q) now_millis)) (\<lambda>_.
           and_then (sp_validate_request q) (\<lambda>_.
             ensure (\<not> (active_run \<and> is_mutation (spr_route q))) ActiveRun)) of
        Inl e \<Rightarrow> (Inl e, L)
      | Inr _ \<Rightarrow>
          (case bm_get (spl_records L) (request_key q) of
             Some existing \<Rightarrow>
               if \<not> same_operation_request (rcd_request existing) q then (Inl OperationConflict, L)
               else (ok_or (rcd_result existing) OperationInProgress, L)
           | None \<Rightarrow>
               if spl_capacity L \<le> bm_size (spl_records L) then (Inl CapacityExceeded, L)
               else case check_selection q L of
                      Inl e \<Rightarrow> (Inl e, L)
                    | Inr _ \<Rightarrow> and_try (sp_admit E q) (\<lambda>_. sp_dispatch E q) L))"

text \<open>The fenced lookup that \<open>reconcile\<close> and \<open>caller_disconnected\<close> start with.\<close>

definition fenced_record :: "save_profile_context \<Rightarrow> string \<Rightarrow> u64 \<Rightarrow> ('f, 's) sp_ledger \<Rightarrow> sp_ledger_error + sp_record" where
  "fenced_record c operation_id now_millis L =
     and_then (map_err Fence (sp_authorize (spl_authority L) c now_millis)) (\<lambda>_.
     and_then (ok_or (bm_get (spl_records L) (ctx_instance_id c, operation_id)) OperationNotFound) (\<lambda>r.
       if \<not> same_fence (spr_context (rcd_request r)) c then Inl (Fence WrongSession) else Inr r))"

definition final_result_of :: "sp_record \<Rightarrow> sp_result option" where
  "final_result_of r = (case rcd_result r of
     None \<Rightarrow> None
   | Some t \<Rightarrow> if still_open (spt_status t) then None else Some t)"

definition sp_reconcile :: "('f, 's) sp_env \<Rightarrow> save_profile_context \<Rightarrow> string \<Rightarrow> u64 \<Rightarrow> ('f, 's) sp_ledger
    \<Rightarrow> (sp_ledger_error + sp_result) \<times> ('f, 's) sp_ledger" where
  "sp_reconcile E c operation_id now_millis L =
     (case fenced_record c operation_id now_millis L of
        Inl e \<Rightarrow> (Inl e, L)
      | Inr r \<Rightarrow>
          (case final_result_of r of
             Some t \<Rightarrow> (Inr t, L)
           | None \<Rightarrow>
               and_try (lift_err Transport (on_forwarding (\<lambda>f. spe_lookup E f (rcd_request r)))) (\<lambda>receipt.
                 case receipt of
                   None \<Rightarrow> pure (Inr (case rcd_result r of None \<Rightarrow> accepted_result (rcd_request r) | Some t \<Rightarrow> t))
                 | Some response \<Rightarrow> accept_response E (ctx_instance_id c, operation_id) (rcd_request r) response) L))"

definition caller_disconnected :: "('f, 's) sp_env \<Rightarrow> save_profile_context \<Rightarrow> string \<Rightarrow> u64 \<Rightarrow> ('f, 's) sp_ledger
    \<Rightarrow> (sp_ledger_error + sp_result) \<times> ('f, 's) sp_ledger" where
  "caller_disconnected E c operation_id now_millis L =
     (case fenced_record c operation_id now_millis L of
        Inl e \<Rightarrow> (Inl e, L)
      | Inr r \<Rightarrow>
          (case final_result_of r of
             Some t \<Rightarrow> (Inr t, L)
           | None \<Rightarrow> persist_and E (ctx_instance_id c, operation_id) (unknown_result (rcd_request r))
               (Inr (unknown_result (rcd_request r))) L))"

definition sp_operation_record :: "('f, 's) sp_ledger \<Rightarrow> string \<Rightarrow> string \<Rightarrow> sp_record option" where
  "sp_operation_record L i operation_id = bm_get (spl_records L) (i, operation_id)"

definition set_authority :: "save_profile_authority \<Rightarrow> ('f, 's) sp_ledger \<Rightarrow> ('f, 's) sp_ledger" where
  "set_authority a L = L\<lparr>spl_authority := a\<rparr>"

section \<open>Runs\<close>

text \<open>A start of the gateway opens the store and reads it; either may fail, and the gateway tries again.\<close>

definition sp_start :: "('f, 's) sp_env \<Rightarrow> nat \<Rightarrow> save_profile_authority \<Rightarrow> 'f \<Rightarrow> 's
    \<Rightarrow> (sp_ledger_error + ('f, 's) sp_ledger) \<times> 's" where
  "sp_start E capacity a f = and_try (rs_open (spe_store E)) (\<lambda>_. sp_ledger_new E capacity a f)"

definition failed_start :: "('f, 's) sp_env \<Rightarrow> 's \<Rightarrow> 's \<Rightarrow> bool" where
  "failed_start E s t \<longleftrightarrow> (\<exists>capacity a f e. sp_start E capacity a f s = (Inl e, t))"

inductive sp_step :: "('f, 's) sp_env \<Rightarrow> ('f, 's) sp_ledger \<Rightarrow> ('f, 's) sp_ledger \<Rightarrow> bool" for E where
  submit: "sp_submit E q now_millis active_run L = (r, M) \<Longrightarrow> sp_step E L M"
| reconcile: "sp_reconcile E c oid now_millis L = (r, M) \<Longrightarrow> sp_step E L M"
| disconnected: "caller_disconnected E c oid now_millis L = (r, M) \<Longrightarrow> sp_step E L M"
| authority: "sp_step E L (set_authority a L)"
| restart: "(failed_start E)\<^sup>*\<^sup>* (spl_store L) s \<Longrightarrow>
    sp_start E capacity a (spl_forwarding L) s = (Inr M, t) \<Longrightarrow> sp_step E L M"

end
