(* ===== verification/Save_Profile_Safety.thy ===== *)
theory Save_Profile_Safety
  imports Save_Profile_Ledger
begin

text \<open>
  What the save-profile ledger relies on and what it keeps. The contract
  of the record store: acknowledged writes are held, failed ones change nothing. Over such a store the
  ledger mirrors it (\<open>sp_mirrored\<close>), forwards no operation twice, and keeps at most one selection open
  (\<open>selection_ok\<close>). The in-memory store meets the contract.
\<close>

section \<open>The ledger mirrors its store\<close>

text \<open>Every record of the ledger stands under its own key, and is the one the store holds there.\<close>

definition sp_keyed :: "('f, 's) sp_ledger \<Rightarrow> bool" where
  "sp_keyed L \<longleftrightarrow> (\<forall>k r. bm_get (spl_records L) k = Some r \<longrightarrow> sp_record_key r = k)"

definition sp_mirrored :: "('s \<Rightarrow> sp_key \<Rightarrow> sp_record option) \<Rightarrow> ('s \<Rightarrow> bool) \<Rightarrow> ('f, 's) sp_ledger \<Rightarrow> bool" where
  "sp_mirrored content good L \<longleftrightarrow> good (spl_store L) \<and> bm_get (spl_records L) = content (spl_store L) \<and> sp_keyed L"

lemma mirrored_keyed: "sp_mirrored content good L \<Longrightarrow> bm_get (spl_records L) k = Some r \<Longrightarrow> sp_record_key r = k"
  unfolding sp_mirrored_def sp_keyed_def by blast

lemma on_store_cases:
  assumes "on_store f L = (r, M)"
  obtains s where "f (spl_store L) = (r, s)" "M = L\<lparr>spl_store := s\<rparr>"
  using assms by (auto simp: on_store_def split: prod.splits)

lemma on_forwarding_cases:
  assumes "on_forwarding f L = (r, M)"
  obtains p where "f (spl_forwarding L) = (r, p)" "M = L\<lparr>spl_forwarding := p\<rparr>"
  using assms by (auto simp: on_forwarding_def split: prod.splits)

lemma note_selection_simps [simp]:
  "spl_store (note_selection t L) = spl_store L" "spl_records (note_selection t L) = spl_records L"
  "spl_forwarding (note_selection t L) = spl_forwarding L"
  by (simp_all add: note_selection_def split: save_profile_status.split)

lemma with_result_simps [simp]:
  "sp_record_key (with_result t r) = sp_record_key r" "rcd_request (with_result t r) = rcd_request r"
  "rcd_status (with_result t r) = spt_status t" "rcd_result (with_result t r) = Some t"
  "rcd_operation_id (with_result t r) = rcd_operation_id r"
  by (simp_all add: with_result_def sp_record_key_def)

text \<open>How a persisted result changes the ledger: not at all, or one record in store and memory alike.\<close>

lemma persist_result_cases:
  assumes "persist_result E k t L = (x, M)"
  obtains e s where "x = Inl e" "M = L\<lparr>spl_store := s\<rparr>"
      "s = spl_store L \<or> (\<exists>r. rs_update (spe_store E) r (spl_store L) = (Inl e, s))"
  | r s where "x = Inr ()" "bm_get (spl_records L) k = Some r"
      "rs_update (spe_store E) (with_result t r) (spl_store L) = (Inr (), s)"
      "M = note_selection t (L\<lparr>spl_store := s, spl_records := bm_insert k (with_result t r) (spl_records L)\<rparr>)"
proof (cases "bm_get (spl_records L) k")
  case None
  with assms show ?thesis by (intro that(1)) (auto simp: persist_result_def)
next
  case (Some r)
  with assms have "and_try (on_store (rs_update (spe_store E) (with_result t r))) (\<lambda>_ L.
      (Inr (), note_selection t (L\<lparr>spl_records := bm_insert k (with_result t r) (spl_records L)\<rparr>))) L = (x, M)"
    by (simp add: persist_result_def)
  then show ?thesis
  proof (cases rule: and_try_cases)
    case (1 e)
    then show ?thesis by (auto elim!: on_store_cases intro: that(1))
  next
    case (2 a u)
    with Some show ?thesis by (auto elim!: on_store_cases intro: that(2))
  qed
qed

lemma persist_and_cases:
  assumes "persist_and E k t answer L = (x, M)"
  obtains e where "persist_result E k t L = (Inl e, M)" "x = Inl e"
  | "persist_result E k t L = (Inr (), M)" "x = answer"
  using assms by (auto simp: persist_and_def elim!: and_try_cases)

text \<open>An invariant that every persisted result keeps, for requests the ledger holds under the key.\<close>

lemma accept_response_cases:
  assumes "accept_response E k q response L = (x, M)"
  obtains t answer where "persist_and E k t answer L = (x, M)" "t = unknown_result q \<or> validate_response q response = Inr t"
  using assms by (cases "validate_response q response") (auto simp: accept_response_def)

section \<open>The moves every method consists of\<close>

text \<open>
  Each method is a sequence of moves: the store refuses a write, the host is asked for a receipt, a
  new operation is recorded and forwarded, an answer is recorded for an operation that is still open.
\<close>

definition fresh_record :: "sp_request \<Rightarrow> sp_record" where
  "fresh_record q = \<lparr>rcd_operation_id = spr_operation_id q, rcd_request = q, rcd_status = Accepted, rcd_result = None\<rparr>"

definition answers :: "sp_request \<Rightarrow> sp_result \<Rightarrow> bool" where
  "answers q t \<longleftrightarrow> t = unknown_result q \<or> t = rejected_result q Rejected \<or> (\<exists>response. validate_response q response = Inr t)"

definition sp_admitted :: "sp_request \<Rightarrow> ('f, 's) sp_ledger \<Rightarrow> ('f, 's) sp_ledger" where
  "sp_admitted q L = L\<lparr>spl_records := bm_insert (request_key q) (fresh_record q) (spl_records L),
     spl_pending_selection := (if spr_route q = RouteSelect then Some (spr_operation_id q)
       else spl_pending_selection L)\<rparr>"

inductive sp_move :: "('f, 's) sp_env \<Rightarrow> ('f, 's) sp_ledger \<Rightarrow> ('f, 's) sp_ledger \<Rightarrow> bool" for E where
  refuse_insert: "rs_insert (spe_store E) r (spl_store L) = (Inl e, s) \<Longrightarrow> sp_move E L (L\<lparr>spl_store := s\<rparr>)"
| refuse_update: "rs_update (spe_store E) r (spl_store L) = (Inl e, s) \<Longrightarrow> sp_move E L (L\<lparr>spl_store := s\<rparr>)"
| look: "spe_lookup E (spl_forwarding L) q = (x, p) \<Longrightarrow> sp_move E L (L\<lparr>spl_forwarding := p\<rparr>)"
| launch: "bm_get (spl_records L) (request_key q) = None \<Longrightarrow> sp_validate_request q = Inr () \<Longrightarrow>
    check_selection q L = Inr () \<Longrightarrow> bm_size (spl_records L) < spl_capacity L \<Longrightarrow>
    rs_insert (spe_store E) (fresh_record q) (spl_store L) = (Inr (), s) \<Longrightarrow>
    spe_forward E (spl_forwarding L) q = (y, p) \<Longrightarrow>
    sp_move E L (sp_admitted q (L\<lparr>spl_store := s, spl_forwarding := p\<rparr>))"
| settle: "bm_get (spl_records L) k = Some r \<Longrightarrow> final_result_of r = None \<Longrightarrow> answers (rcd_request r) t \<Longrightarrow>
    rs_update (spe_store E) (with_result t r) (spl_store L) = (Inr (), s) \<Longrightarrow>
    sp_move E L (note_selection t (L\<lparr>spl_store := s, spl_records := bm_insert k (with_result t r) (spl_records L)\<rparr>))"
| authority: "sp_move E L (set_authority a L)"
| restart: "(failed_start E)\<^sup>*\<^sup>* (spl_store L) s \<Longrightarrow>
    sp_start E capacity a (spl_forwarding L) s = (Inr M, t) \<Longrightarrow> sp_move E L M"

lemma persist_moves:
  assumes "persist_and E k t answer L = (x, M)" and "bm_get (spl_records L) k = Some r" and "final_result_of r = None"
    and "answers (rcd_request r) t"
  shows "(sp_move E)\<^sup>*\<^sup>* L M"
proof -
  obtain y where "persist_result E k t L = (y, M)"
    using assms(1) by (cases rule: persist_and_cases) auto
  then show ?thesis
  proof (cases rule: persist_result_cases)
    case (1 e s)
    show ?thesis
    proof (cases "s = spl_store L")
      case False
      with 1 obtain r' where "rs_update (spe_store E) r' (spl_store L) = (Inl e, s)" by auto
      then have "sp_move E L (L\<lparr>spl_store := s\<rparr>)" by (rule refuse_update)
      with 1 show ?thesis by (simp add: r_into_rtranclp)
    qed (use 1 in simp)
  next
    case (2 r' s)
    with assms(2-4) have "sp_move E L M" by (auto intro: settle)
    then show ?thesis by (rule r_into_rtranclp)
  qed
qed

lemma accept_moves:
  assumes "accept_response E k (rcd_request r) response L = (x, M)" and "bm_get (spl_records L) k = Some r"
    and "final_result_of r = None"
  shows "(sp_move E)\<^sup>*\<^sup>* L M"
  using assms(1)
proof (cases rule: accept_response_cases)
  case (1 t answer)
  then show ?thesis
    by (intro persist_moves [OF 1(1) assms(2,3)]) (auto simp: answers_def)
qed

lemma final_fresh [simp]: "final_result_of (fresh_record q) = None" "rcd_request (fresh_record q) = q"
  by (simp_all add: final_result_of_def fresh_record_def)

lemma dispatch_moves:
  assumes "sp_dispatch E q L = (x, M)" and "spe_forward E (spl_forwarding L) q = (y, p)"
    and "bm_get (spl_records L) (request_key q) = Some (fresh_record q)"
  shows "(sp_move E)\<^sup>*\<^sup>* (L\<lparr>spl_forwarding := p\<rparr>) M"
proof -
  let ?L = "L\<lparr>spl_forwarding := p\<rparr>"
  have get: "bm_get (spl_records ?L) (request_key q) = Some (fresh_record q)" using assms(3) by simp
  have persist: "(sp_move E)\<^sup>*\<^sup>* ?L M" if "persist_and E (request_key q) t answer ?L = (x, M)" "answers q t" for t answer
    using that get by (auto intro: persist_moves)
  show ?thesis
  proof (cases y)
    case (Inl fault)
    with assms(1,2) obtain t answer where "persist_and E (request_key q) t answer ?L = (x, M)" "answers q t"
      by (fastforce simp: sp_dispatch_def and_use_def on_forwarding_def answers_def split: if_splits)
    then show ?thesis by (rule persist)
  next
    case (Inr response)
    with assms(1,2) have "accept_response E (request_key q) (rcd_request (fresh_record q)) response ?L = (x, M)"
      by (simp add: sp_dispatch_def and_use_def on_forwarding_def)
    then show ?thesis using get by (rule accept_moves) simp
  qed
qed

lemma submit_moves:
  assumes "sp_submit E q now_millis active_run L = (x, M)"
  shows "(sp_move E)\<^sup>*\<^sup>* L M"
proof (cases "L = M")
  case False
  with assms have fresh: "bm_get (spl_records L) (request_key q) = None" "sp_validate_request q = Inr ()"
      "check_selection q L = Inr ()" "bm_size (spl_records L) < spl_capacity L"
    and run: "and_try (sp_admit E q) (\<lambda>_. sp_dispatch E q) L = (x, M)"
    by (auto simp: sp_submit_def and_then_eq_Inr not_le checks split: sum.splits option.splits if_splits)
  obtain y s where ins: "rs_insert (spe_store E) (fresh_record q) (spl_store L) = (y, s)"
    by (cases "rs_insert (spe_store E) (fresh_record q) (spl_store L)")
  have admit: "sp_admit E q L = (case y of Inl e \<Rightarrow> (Inl e, L\<lparr>spl_store := s\<rparr>) | Inr _ \<Rightarrow> (Inr (), sp_admitted q (L\<lparr>spl_store := s\<rparr>)))"
    using ins by (simp add: sp_admit_def and_try_def on_store_def fresh_record_def sp_admitted_def split: sum.split)
  show ?thesis
  proof (cases y)
    case (Inl e)
    with run admit have "M = L\<lparr>spl_store := s\<rparr>" by (simp add: and_try_def)
    with ins Inl show ?thesis by (auto intro: r_into_rtranclp refuse_insert)
  next
    case (Inr u)
    obtain z p where fwd: "spe_forward E (spl_forwarding L) q = (z, p)" by (cases "spe_forward E (spl_forwarding L) q")
    from run admit Inr have "sp_dispatch E q (sp_admitted q (L\<lparr>spl_store := s\<rparr>)) = (x, M)" by (simp add: and_try_def)
    then have "(sp_move E)\<^sup>*\<^sup>* (sp_admitted q (L\<lparr>spl_store := s\<rparr>)\<lparr>spl_forwarding := p\<rparr>) M"
      by (rule dispatch_moves) (simp_all add: sp_admitted_def fwd)
    moreover have "sp_move E L (sp_admitted q (L\<lparr>spl_store := s, spl_forwarding := p\<rparr>))"
      using fresh ins Inr fwd by (auto intro: launch)
    moreover have "sp_admitted q (L\<lparr>spl_store := s, spl_forwarding := p\<rparr>) = sp_admitted q (L\<lparr>spl_store := s\<rparr>)\<lparr>spl_forwarding := p\<rparr>"
      by (simp add: sp_admitted_def)
    ultimately show ?thesis by (metis converse_rtranclp_into_rtranclp)
  qed
qed simp

lemma fenced_record_Inr:
  "fenced_record c oid t L = Inr r \<Longrightarrow> bm_get (spl_records L) (ctx_instance_id c, oid) = Some r"
  by (auto simp: fenced_record_def and_then_eq_Inr split: if_splits)

lemma reconcile_moves:
  assumes "sp_reconcile E c oid t L = (x, M)"
  shows "(sp_move E)\<^sup>*\<^sup>* L M"
proof (cases "L = M")
  case False
  then obtain r where r: "fenced_record c oid t L = Inr r" "final_result_of r = None"
    using assms by (auto simp: sp_reconcile_def split: sum.splits option.splits)
  note get = fenced_record_Inr [OF r(1)]
  obtain y p where look: "spe_lookup E (spl_forwarding L) (rcd_request r) = (y, p)"
    by (cases "spe_lookup E (spl_forwarding L) (rcd_request r)")
  let ?L = "L\<lparr>spl_forwarding := p\<rparr>"
  have first: "sp_move E L ?L" using look by (rule sp_move.look)
  show ?thesis
  proof (cases "\<exists>response. y = Inr (Some response)")
    case True
    then obtain response where "y = Inr (Some response)" by blast
    with assms r look have "accept_response E (ctx_instance_id c, oid) (rcd_request r) response ?L = (x, M)"
      by (simp add: sp_reconcile_def and_try_def lift_err_def on_forwarding_def)
    then have "(sp_move E)\<^sup>*\<^sup>* ?L M" by (rule accept_moves) (use get r(2) in simp_all)
    with first show ?thesis by (rule converse_rtranclp_into_rtranclp)
  next
    case False
    with assms r look have "M = ?L"
      by (cases y) (auto simp: sp_reconcile_def and_try_def lift_err_def on_forwarding_def split: option.splits)
    with first show ?thesis by (simp add: r_into_rtranclp)
  qed
qed simp

lemma disconnected_moves:
  assumes "caller_disconnected E c oid t L = (x, M)"
  shows "(sp_move E)\<^sup>*\<^sup>* L M"
proof (cases "L = M")
  case False
  then obtain r where r: "fenced_record c oid t L = Inr r" "final_result_of r = None"
    and run: "persist_and E (ctx_instance_id c, oid) (unknown_result (rcd_request r)) (Inr (unknown_result (rcd_request r))) L = (x, M)"
    using assms by (auto simp: caller_disconnected_def split: sum.splits option.splits)
  from run fenced_record_Inr [OF r(1)] r(2) show ?thesis by (rule persist_moves) (simp add: answers_def)
qed simp

lemma step_moves: "sp_step E L M \<Longrightarrow> (sp_move E)\<^sup>*\<^sup>* L M"
  by (cases rule: sp_step.cases)
    (auto intro: submit_moves reconcile_moves disconnected_moves sp_move.authority sp_move.restart)

lemma run_moves: "(sp_step E)\<^sup>*\<^sup>* L M \<Longrightarrow> (sp_move E)\<^sup>*\<^sup>* L M"
  by (induction rule: rtranclp_induct) (auto intro: rtranclp_trans step_moves)

section \<open>Every operation is forwarded at most once\<close>

text \<open>The host port with a log of the operations forwarded to it.\<close>

definition sp_recording :: "('f, 's) sp_env \<Rightarrow> ('f \<times> sp_key list, 's) sp_env" where
  "sp_recording E = \<lparr>
     spe_forward = (\<lambda>f q. case spe_forward E (fst f) q of (y, p) \<Rightarrow> (y, (p, snd f @ [request_key q]))),
     spe_lookup = (\<lambda>f q. case spe_lookup E (fst f) q of (y, p) \<Rightarrow> (y, (p, snd f))),
     spe_store = spe_store E\<rparr>"

lemma sp_recording_simps [simp]: "spe_store (sp_recording E) = spe_store E"
  by (simp add: sp_recording_def)

abbreviation sp_forwards :: "('f \<times> sp_key list, 's) sp_ledger \<Rightarrow> sp_key list" where
  "sp_forwards L \<equiv> snd (spl_forwarding L)"

lemma sp_record_key_fresh [simp]: "sp_record_key (fresh_record q) = request_key q"
  by (simp add: sp_record_key_def fresh_record_def request_key_def)

lemma sp_admitted_simps [simp]:
  "spl_store (sp_admitted q L) = spl_store L" "spl_forwarding (sp_admitted q L) = spl_forwarding L"
  "spl_selected (sp_admitted q L) = spl_selected L"
  "spl_records (sp_admitted q L) = bm_insert (request_key q) (fresh_record q) (spl_records L)"
  by (simp_all add: sp_admitted_def)

lemma set_authority_simps [simp]:
  "spl_store (set_authority a L) = spl_store L" "spl_records (set_authority a L) = spl_records L"
  "spl_forwarding (set_authority a L) = spl_forwarding L" "spl_selected (set_authority a L) = spl_selected L"
  "spl_pending_selection (set_authority a L) = spl_pending_selection L"
  by (simp_all add: set_authority_def)

lemma sp_start_cases:
  assumes "sp_start E capacity a f s = (Inr M, t)"
  obtains rs s' where "rs_open (spe_store E) s = (Inr (), s')" "rs_list (spe_store E) s' = (Inr rs, t)"
    "spl_store M = t" "spl_forwarding M = f"
    "spl_records M = fold (\<lambda>r. bm_insert (sp_record_key r) r) rs bm_empty"
    "spl_selected M = restored_selection rs" "spl_pending_selection M = restored_pending rs"
  using assms by (auto simp: sp_start_def sp_ledger_new_def split: if_splits prod.splits sum.splits elim!: and_try_cases)

locale sp_service = keyed_store st sp_record_key content good
  for st :: "'s sp_store" and content :: "'s \<Rightarrow> sp_key \<Rightarrow> sp_record option" and good :: "'s \<Rightarrow> bool" +
  fixes E :: "('f, 's) sp_env"
  assumes store_is: "spe_store E = st"
begin

lemma failed_starts_keep:
  assumes "(failed_start E)\<^sup>*\<^sup>* s t" and "good s"
  shows "good t \<and> content t = content s"
  using assms
proof (induction rule: rtranclp_induct)
  case (step t u)
  then have t: "good t" by simp
  from step.hyps(2) obtain capacity a f e where start: "sp_start E capacity a f t = (Inl e, u)"
    by (auto simp: failed_start_def)
  have "good u \<and> content u = content t"
    using start unfolding sp_start_def
  proof (cases rule: and_try_cases)
    case (1 e)
    with open_any [OF t] show ?thesis by (simp add: store_is)
  next
    case (2 y v)
    from open_any [OF t] 2(1) have v: "good v" "content v = content t" by (auto simp: store_is)
    from 2(2) v show ?thesis
      by (auto simp: sp_ledger_new_def store_is dest: list_ok list_err split: if_splits prod.splits sum.splits)
  qed
  with step t show ?case by simp
qed simp

lemma restored:
  assumes "good s" and "sp_start E capacity a f s = (Inr M, t)"
  shows "sp_mirrored content good M \<and> content (spl_store M) = content s"
  using assms(2)
proof (cases rule: sp_start_cases)
  case (1 rs s')
  with open_any [OF assms(1)] have s': "good s'" "content s' = content s" by (auto simp: store_is)
  with 1 list_ok [OF s'(1)] have rs: "distinct (map sp_record_key rs)" "content s = by_key sp_record_key rs" "good t" "content t = content s"
    by (auto simp: store_is)
  have "bm_get (spl_records M) = content s"
    by (rule ext) (simp add: 1 rs(1,2) fold_insert_records split: option.split)
  with 1 rs show ?thesis by (auto simp: sp_mirrored_def sp_keyed_def dest: by_key_Some)
qed

lemma move_mirrored:
  assumes "sp_move E L M" and "sp_mirrored content good L"
  shows "sp_mirrored content good M"
  using assms
proof cases
  case (refuse_insert r e s)
  with assms(2) show ?thesis by (auto simp: store_is sp_mirrored_def sp_keyed_def dest: insert_err)
next
  case (refuse_update r e s)
  with assms(2) show ?thesis by (auto simp: store_is sp_mirrored_def sp_keyed_def dest: update_err)
next
  case (launch q s y p)
  with assms(2) insert_ok [of "spl_store L" "fresh_record q" "()" s] show ?thesis
    by (auto simp: store_is sp_mirrored_def sp_keyed_def fun_eq_iff)
next
  case (settle k r t s)
  then have "sp_record_key r = k" using assms(2) by (simp add: mirrored_keyed)
  with settle assms(2) update_ok [of "spl_store L" "with_result t r" "()" s] show ?thesis
    by (auto simp: store_is sp_mirrored_def sp_keyed_def fun_eq_iff)
next
  case (restart s capacity a t)
  have "good (spl_store L)" using assms(2) by (simp add: sp_mirrored_def)
  with failed_starts_keep [OF restart(1)] restored [OF _ restart(2)] show ?thesis by simp
qed (use assms(2) in \<open>auto simp: sp_mirrored_def sp_keyed_def\<close>)

lemma recording_service: "sp_service st content good (sp_recording E)"
  by unfold_locales (simp add: store_is)

text \<open>Records are never dropped from the store.\<close>

lemma move_content:
  assumes "sp_move E L M" and "sp_mirrored content good L"
  shows "dom (content (spl_store L)) \<subseteq> dom (content (spl_store M))"
proof -
  have good: "good (spl_store L)" using assms(2) by (simp add: sp_mirrored_def)
  from assms(1) show ?thesis
  proof cases
    case (restart s capacity a t)
    have "content s = content (spl_store L)" "good s" using failed_starts_keep [OF restart(1) good] by simp_all
    with restored [OF _ restart(2)] show ?thesis by simp
  next
    case (launch q s y p)
    with insert_ok [OF good, of "fresh_record q" "()" s] show ?thesis by (simp add: store_is) blast
  next
    case (settle k r t s)
    with update_ok [OF good, of "with_result t r" "()" s] show ?thesis by (simp add: store_is) blast
  next
    case (refuse_insert r e s)
    with insert_err [OF good, of r e s] show ?thesis by (simp add: store_is)
  next
    case (refuse_update r e s)
    with update_err [OF good, of r e s] show ?thesis by (simp add: store_is)
  qed simp_all
qed

lemma recorded_forwards:
  assumes "sp_move (sp_recording E) L M" and "sp_mirrored content good L"
  shows "sp_forwards M = sp_forwards L \<or> (\<exists>k. sp_forwards M = sp_forwards L @ [k]
    \<and> k \<notin> dom (content (spl_store L)) \<and> k \<in> dom (content (spl_store M)))"
  using assms(1)
proof cases
  case (look q x p)
  then show ?thesis by (auto simp: sp_recording_def split: prod.splits)
next
  case (launch q s y p)
  have "good (spl_store L)" using assms(2) by (simp add: sp_mirrored_def)
  from insert_ok [OF this, of "fresh_record q" "()" s] launch(6)
  have "content (spl_store L) (request_key q) = None" "content s (request_key q) = Some (fresh_record q)"
    by (simp_all add: store_is)
  moreover have "snd p = sp_forwards L @ [request_key q]"
    using launch(7) by (auto simp: sp_recording_def split: prod.splits)
  ultimately show ?thesis
    by (intro disjI2 exI [of _ "request_key q"]) (simp add: launch(1) domIff)
next
  case (restart s capacity a t)
  then show ?thesis by (auto elim!: sp_start_cases)
qed auto

end

sublocale sp_service \<subseteq> once: at_most_once "sp_move (sp_recording E)" "sp_mirrored content good"
  sp_forwards "\<lambda>L. dom (content (spl_store L))"
proof unfold_locales
  fix L M
  assume L: "sp_mirrored content good L" and move: "sp_move (sp_recording E) L M"
  show "sp_mirrored content good M"
    using move L by (rule sp_service.move_mirrored [OF recording_service])
  show "dom (content (spl_store L)) \<subseteq> dom (content (spl_store M))"
    using move L by (rule sp_service.move_content [OF recording_service])
  show "sp_forwards M = sp_forwards L \<or> (\<exists>k. sp_forwards M = sp_forwards L @ [k]
      \<and> k \<notin> dom (content (spl_store L)) \<and> k \<in> dom (content (spl_store M)))"
    using move L by (rule recorded_forwards)
qed

section \<open>At most one selection is open\<close>

definition open_selection :: "sp_record \<Rightarrow> bool" where
  "open_selection r \<longleftrightarrow> spr_route (rcd_request r) = RouteSelect \<and> still_open (rcd_status r)"

definition settled_selection_of :: "save_profile_id \<Rightarrow> sp_record \<Rightarrow> bool" where
  "settled_selection_of p r \<longleftrightarrow> (\<exists>b t. spr_operation (rcd_request r) = OpSelect p b \<and> rcd_result r = Some t
     \<and> spt_status t = Settled \<and> spt_profile_id t = Some p)"

text \<open>The status of a record is the status of its result, and its result answers its request.\<close>

definition record_shape :: "sp_record \<Rightarrow> bool" where
  "record_shape r \<longleftrightarrow> rcd_operation_id r = spr_operation_id (rcd_request r)
     \<and> (case rcd_result r of None \<Rightarrow> rcd_status r = Accepted
        | Some t \<Rightarrow> rcd_status r = spt_status t \<and> answers (rcd_request r) t)"

definition selection_ok :: "('f, 's) sp_ledger \<Rightarrow> bool" where
  "selection_ok L \<longleftrightarrow>
     (\<forall>r \<in> ran (bm_get (spl_records L)). record_shape r \<and> (open_selection r \<longrightarrow> spl_pending_selection L = Some (rcd_operation_id r)))
     \<and> (\<forall>r \<in> ran (bm_get (spl_records L)). \<forall>r' \<in> ran (bm_get (spl_records L)).
          open_selection r \<longrightarrow> open_selection r' \<longrightarrow> r = r')
     \<and> (\<forall>oid. spl_pending_selection L = Some oid \<longrightarrow>
          (\<exists>r \<in> ran (bm_get (spl_records L)). open_selection r \<and> rcd_operation_id r = oid))
     \<and> (\<forall>p. spl_selected L = Some p \<longrightarrow> (\<exists>r \<in> ran (bm_get (spl_records L)). settled_selection_of p r))"

lemma answers_route:
  assumes "answers q t"
  shows "spt_route t = spr_route q"
  using assms by (auto simp: answers_def unknown_result_def rejected_result_def validate_response_Inr(2))

lemma shape_settled:
  assumes "record_shape r" and "rcd_result r = Some t" and "spr_route (rcd_request r) = RouteSelect" and "spt_status t = Settled"
  shows "\<exists>p. settled_selection_of p r \<and> spt_profile_id t = Some p"
proof -
  have "answers (rcd_request r) t" using assms(1,2) by (simp add: record_shape_def)
  with assms(4) obtain response where "validate_response (rcd_request r) response = Inr t"
    by (auto simp: answers_def unknown_result_def rejected_result_def)
  from settled_selection [OF this assms(3,4)] assms(2,4) show ?thesis
    by (auto simp: settled_selection_of_def dest: selected_id_operation)
qed

lemma shape_fresh [simp]: "record_shape (fresh_record q)" "open_selection (fresh_record q) = (spr_route q = RouteSelect)"
  "rcd_operation_id (fresh_record q) = spr_operation_id q"
  by (simp_all add: record_shape_def open_selection_def fresh_record_def still_open_def)

lemma shape_answered: "record_shape r \<Longrightarrow> answers (rcd_request r) t \<Longrightarrow> record_shape (with_result t r)"
  by (simp add: record_shape_def)

lemma open_answered:
  "open_selection (with_result t r) \<longleftrightarrow> spr_route (rcd_request r) = RouteSelect \<and> still_open (spt_status t)"
  by (simp add: open_selection_def)

lemma settled_is_final: "settled_selection_of p r \<Longrightarrow> final_result_of r \<noteq> None"
  by (auto simp: settled_selection_of_def final_result_of_def still_open_def)

lemma unsettled_is_open:
  "record_shape r \<Longrightarrow> final_result_of r = None \<Longrightarrow> open_selection r \<longleftrightarrow> spr_route (rcd_request r) = RouteSelect"
  by (auto simp: record_shape_def final_result_of_def open_selection_def still_open_def split: option.splits if_splits)

lemma ran_upd_iff: "v \<in> ran (m(k \<mapsto> w)) \<longleftrightarrow> v = w \<or> (\<exists>k'. k' \<noteq> k \<and> m k' = Some v)"
  by (auto simp: ran_def)

lemma get_insert_upd: "bm_get (bm_insert k v m) = (bm_get m)(k \<mapsto> v)"
  by (rule ext) simp

lemma selection_shape: "selection_ok L \<Longrightarrow> bm_get (spl_records L) k = Some r \<Longrightarrow> record_shape r"
  and selection_open: "selection_ok L \<Longrightarrow> bm_get (spl_records L) k = Some r \<Longrightarrow> open_selection r
    \<Longrightarrow> spl_pending_selection L = Some (rcd_operation_id r)"
  and selection_unique: "selection_ok L \<Longrightarrow> bm_get (spl_records L) k = Some r \<Longrightarrow> bm_get (spl_records L) k' = Some r'
    \<Longrightarrow> open_selection r \<Longrightarrow> open_selection r' \<Longrightarrow> r = r'"
  and selection_pending: "selection_ok L \<Longrightarrow> spl_pending_selection L = Some oid
    \<Longrightarrow> \<exists>k r. bm_get (spl_records L) k = Some r \<and> open_selection r \<and> rcd_operation_id r = oid"
  and selection_selected: "selection_ok L \<Longrightarrow> spl_selected L = Some p
    \<Longrightarrow> \<exists>k r. bm_get (spl_records L) k = Some r \<and> settled_selection_of p r"
  unfolding selection_ok_def ran_def by blast+

lemma selection_okI:
  assumes "\<And>k r. bm_get (spl_records L) k = Some r \<Longrightarrow> record_shape r"
    and "\<And>k r. bm_get (spl_records L) k = Some r \<Longrightarrow> open_selection r \<Longrightarrow> spl_pending_selection L = Some (rcd_operation_id r)"
    and "\<And>k r k' r'. bm_get (spl_records L) k = Some r \<Longrightarrow> bm_get (spl_records L) k' = Some r'
      \<Longrightarrow> open_selection r \<Longrightarrow> open_selection r' \<Longrightarrow> r = r'"
    and "\<And>oid. spl_pending_selection L = Some oid
      \<Longrightarrow> \<exists>k r. bm_get (spl_records L) k = Some r \<and> open_selection r \<and> rcd_operation_id r = oid"
    and "\<And>p. spl_selected L = Some p \<Longrightarrow> \<exists>k r. bm_get (spl_records L) k = Some r \<and> settled_selection_of p r"
  shows "selection_ok L"
  unfolding selection_ok_def ran_def using assms by blast

lemma check_selection_Inr:
  "check_selection q L = Inr () \<Longrightarrow> spr_route q = RouteSelect \<Longrightarrow> spl_pending_selection L = None"
  by (auto simp: check_selection_def and_then_eq_Inr checks)

lemma selection_launch:
  assumes "selection_ok L" and "check_selection q L = Inr ()" and "bm_get (spl_records L) (request_key q) = None"
    and "spl_records M = spl_records L" and "spl_pending_selection M = spl_pending_selection L" and "spl_selected M = spl_selected L"
  shows "selection_ok (sp_admitted q M)"
proof (rule selection_okI)
  have none: False if "spr_route q = RouteSelect" "bm_get (spl_records L) k = Some r" "open_selection r" for k r
    using selection_open [OF assms(1) that(2,3)] check_selection_Inr [OF assms(2) that(1)] by simp
  have get: "bm_get (spl_records (sp_admitted q M)) k = Some r
      \<longleftrightarrow> (if k = request_key q then r = fresh_record q else bm_get (spl_records L) k = Some r)" for k r
    using assms(4) by auto
  show "record_shape r" if "bm_get (spl_records (sp_admitted q M)) k = Some r" for k r
    using that selection_shape [OF assms(1)] unfolding get by (auto split: if_splits)
  show "spl_pending_selection (sp_admitted q M) = Some (rcd_operation_id r)"
    if "bm_get (spl_records (sp_admitted q M)) k = Some r" "open_selection r" for k r
  proof (cases "k = request_key q")
    case True
    with that show ?thesis unfolding get by (simp add: sp_admitted_def)
  next
    case False
    with that(1) have old: "bm_get (spl_records L) k = Some r" unfolding get by simp
    with none that(2) have "spr_route q \<noteq> RouteSelect" by blast
    with selection_open [OF assms(1) old that(2)] assms(5) show ?thesis by (simp add: sp_admitted_def)
  qed
  show "r = r'" if "bm_get (spl_records (sp_admitted q M)) k = Some r" "bm_get (spl_records (sp_admitted q M)) k' = Some r'"
      "open_selection r" "open_selection r'" for k r k' r'
  proof (cases "k = request_key q \<or> k' = request_key q")
    case True
    with that have "spr_route q = RouteSelect" unfolding get by auto
    with that none have "k = request_key q" "k' = request_key q" unfolding get by (metis (full_types))+
    with that show ?thesis unfolding get by simp
  next
    case False
    with that selection_unique [OF assms(1)] show ?thesis unfolding get by (metis (full_types))
  qed
  show "\<exists>k r. bm_get (spl_records (sp_admitted q M)) k = Some r \<and> open_selection r \<and> rcd_operation_id r = oid"
    if "spl_pending_selection (sp_admitted q M) = Some oid" for oid
  proof (cases "spr_route q = RouteSelect")
    case True
    with that show ?thesis
      by (intro exI [of _ "request_key q"] exI [of _ "fresh_record q"]) (simp add: sp_admitted_def)
  next
    case False
    with that assms(5) have "spl_pending_selection L = Some oid" by (simp add: sp_admitted_def)
    then obtain k r where "bm_get (spl_records L) k = Some r" "open_selection r" "rcd_operation_id r = oid"
      using selection_pending [OF assms(1)] by blast
    moreover from this assms(3) have "k \<noteq> request_key q" by auto
    ultimately show ?thesis unfolding get by (intro exI [of _ k] exI [of _ r]) simp
  qed
  show "\<exists>k r. bm_get (spl_records (sp_admitted q M)) k = Some r \<and> settled_selection_of p r"
    if "spl_selected (sp_admitted q M) = Some p" for p
  proof -
    from that assms(6) obtain k r where "bm_get (spl_records L) k = Some r" "settled_selection_of p r"
      using selection_selected [OF assms(1)] by auto
    moreover from this assms(3) have "k \<noteq> request_key q" by auto
    ultimately show ?thesis unfolding get by (intro exI [of _ k] exI [of _ r]) simp
  qed
qed

lemma note_selection_fields:
  "spl_pending_selection (note_selection t L) =
     (if spt_route t = RouteSelect \<and> \<not> still_open (spt_status t) then None else spl_pending_selection L)"
  "spl_selected (note_selection t L) =
     (if spt_route t = RouteSelect \<and> spt_status t = Settled then spt_profile_id t else spl_selected L)"
  by (auto simp: note_selection_def still_open_def split: save_profile_status.split)

lemma selection_settle:
  assumes "selection_ok L" and keyed: "\<And>k r. bm_get (spl_records L) k = Some r \<Longrightarrow> sp_record_key r = k"
    and r: "bm_get (spl_records L) k = Some r" "final_result_of r = None" and t: "answers (rcd_request r) t"
  shows "selection_ok (note_selection t (L\<lparr>spl_store := s, spl_records := bm_insert k (with_result t r) (spl_records L)\<rparr>))"
    (is "selection_ok ?M")
proof (rule selection_okI)
  have route: "spt_route t = spr_route (rcd_request r)" using t by (rule answers_route)
  have shape: "record_shape r" using assms(1) r(1) by (rule selection_shape)
  have was_open: "open_selection r \<longleftrightarrow> spr_route (rcd_request r) = RouteSelect"
    using shape r(2) by (rule unsettled_is_open)
  have get: "bm_get (spl_records ?M) k' = Some r' \<longleftrightarrow> (if k' = k then r' = with_result t r else bm_get (spl_records L) k' = Some r')"
    for k' r'
    by auto
  have only: "k' = k"
    if "spr_route (rcd_request r) = RouteSelect" "bm_get (spl_records L) k' = Some r'" "open_selection r'" for k' r'
  proof -
    have "r' = r" using selection_unique [OF assms(1) that(2) r(1) that(3)] was_open that(1) by simp
    with keyed [OF that(2)] keyed [OF r(1)] show ?thesis by simp
  qed
  have other_open: "spr_route (rcd_request r) \<noteq> RouteSelect \<and> bm_get (spl_records L) k' = Some r'"
    if "bm_get (spl_records ?M) k' = Some r'" "open_selection r'" "k' \<noteq> k" for k' r'
    using that only [of k' r'] unfolding get by auto
  show "record_shape r'" if "bm_get (spl_records ?M) k' = Some r'" for k' r'
    using that selection_shape [OF assms(1)] shape_answered [OF shape t] unfolding get by (simp split: if_splits)
  show "spl_pending_selection ?M = Some (rcd_operation_id r')"
    if "bm_get (spl_records ?M) k' = Some r'" "open_selection r'" for k' r'
  proof (cases "k' = k")
    case True
    with that have "r' = with_result t r" unfolding get by simp
    with that(2) selection_open [OF assms(1) r(1)] was_open route show ?thesis
      by (simp add: open_answered note_selection_fields)
  next
    case False
    from other_open [OF that False] selection_open [OF assms(1), of k' r'] that(2) route show ?thesis
      by (simp add: note_selection_fields)
  qed
  show "r1 = r2" if r1: "bm_get (spl_records ?M) k1 = Some r1" "open_selection r1"
      and r2: "bm_get (spl_records ?M) k2 = Some r2" "open_selection r2" for k1 r1 k2 r2
  proof (cases "k1 = k \<or> k2 = k")
    case True
    have "spr_route (rcd_request r) = RouteSelect"
      using True r1 r2 unfolding get by (auto simp: open_answered)
    with other_open r1 r2 have "k1 = k \<and> k2 = k" by blast
    with r1(1) r2(1) show ?thesis unfolding get by simp
  next
    case False
    with other_open r1 r2 selection_unique [OF assms(1) _ _ r1(2) r2(2)] show ?thesis by blast
  qed
  show "\<exists>k' r'. bm_get (spl_records ?M) k' = Some r' \<and> open_selection r' \<and> rcd_operation_id r' = oid"
    if pending: "spl_pending_selection ?M = Some oid" for oid
  proof -
    have old: "spl_pending_selection L = Some oid" and still: "spt_route t = RouteSelect \<Longrightarrow> still_open (spt_status t)"
      using pending by (auto simp: note_selection_fields split: if_splits)
    from selection_pending [OF assms(1) old] obtain k' r'
      where k': "bm_get (spl_records L) k' = Some r'" "open_selection r'" "rcd_operation_id r' = oid" by blast
    show ?thesis
    proof (cases "k' = k")
      case True
      with k' r(1) have "r' = r" by simp
      with k' was_open still route True show ?thesis
        unfolding get by (intro exI [of _ k] exI [of _ "with_result t r"]) (simp add: open_answered)
    next
      case False
      with k' show ?thesis unfolding get by (intro exI [of _ k'] exI [of _ r']) simp
    qed
  qed
  show "\<exists>k' r'. bm_get (spl_records ?M) k' = Some r' \<and> settled_selection_of p r'"
    if selected: "spl_selected ?M = Some p" for p
  proof (cases "spt_route t = RouteSelect \<and> spt_status t = Settled")
    case True
    from shape_settled [OF shape_answered [OF shape t], of t] True route selected show ?thesis
      unfolding get by (intro exI [of _ k] exI [of _ "with_result t r"]) (auto simp: note_selection_fields)
  next
    case False
    with selected have "spl_selected L = Some p" by (simp add: note_selection_fields)
    from selection_selected [OF assms(1) this] obtain k' r'
      where k': "bm_get (spl_records L) k' = Some r'" "settled_selection_of p r'" by blast
    have "k' \<noteq> k" using k' r settled_is_final [OF k'(2)] by auto
    with k' show ?thesis unfolding get by (intro exI [of _ k'] exI [of _ r']) simp
  qed
qed

text \<open>What a restart reads back from the records.\<close>

lemma restored_pending_Some:
  "restored_pending rs = Some oid \<Longrightarrow> \<exists>r \<in> set rs. open_selection r \<and> rcd_operation_id r = oid"
  by (auto simp: restored_pending_def open_selection_def find_Some_iff)

lemma restored_pending_None: "restored_pending rs = None \<Longrightarrow> r \<in> set rs \<Longrightarrow> \<not> open_selection r"
  by (auto simp: restored_pending_def open_selection_def find_None_iff)

lemma find_SomeD: "find P xs = Some x \<Longrightarrow> x \<in> set xs \<and> P x"
  by (induction xs) (auto split: if_splits)

lemma set_results: "t \<in> set (List.map_filter rcd_result rs) \<longleftrightarrow> (\<exists>r \<in> set rs. rcd_result r = Some t)"
  by (induction rs) (auto simp: List.map_filter_simps split: option.split)

lemma restored_selection_Some:
  "restored_selection rs = Some p
    \<Longrightarrow> \<exists>r \<in> set rs. \<exists>t. rcd_result r = Some t \<and> spt_route t = RouteSelect \<and> spt_status t = Settled \<and> spt_profile_id t = Some p"
  by (auto simp: restored_selection_def set_results dest!: find_SomeD split: option.splits) blast

context sp_service
begin

lemma move_selection:
  assumes "sp_move E L M" and "sp_mirrored content good L" and "selection_ok L"
  shows "selection_ok M"
  using assms(1)
proof cases
  case (launch q s y p)
  with selection_launch [OF assms(3), of q "L\<lparr>spl_store := s, spl_forwarding := p\<rparr>"] show ?thesis by simp
next
  case (settle k r t s)
  with selection_settle [OF assms(3) mirrored_keyed [OF assms(2)], of k r t s] show ?thesis by simp
next
  case (restart s capacity a t)
  have good: "good (spl_store L)" using assms(2) by (simp add: sp_mirrored_def)
  have s: "good s" "content s = content (spl_store L)" using failed_starts_keep [OF restart(1) good] by simp_all
  from restart(2) show ?thesis
  proof (cases rule: sp_start_cases)
    case (1 rs s')
    from open_any [OF s(1)] 1(1) have s': "good s'" "content s' = content s" by (auto simp: store_is)
    have rs: "distinct (map sp_record_key rs)" "content s = by_key sp_record_key rs"
      using list_ok [OF s'(1), of rs t] 1(2) s'(2) by (simp_all add: store_is)
    have get: "bm_get (spl_records M) k = by_key sp_record_key rs k" for k
      by (simp add: 1(5) fold_insert_records [OF rs(1)] split: option.split)
    have same: "bm_get (spl_records M) = bm_get (spl_records L)"
      using assms(2) s(2) rs(2) by (auto simp: sp_mirrored_def get)
    have mem: "r \<in> set rs \<longleftrightarrow> (\<exists>k. bm_get (spl_records M) k = Some r)" for r
      unfolding get using by_key_Some [of sp_record_key rs _ r] by_key_mem [OF rs(1), of r] by blast
    note L = assms(3) [THEN selection_shape] assms(3) [THEN selection_unique]
    show ?thesis
    proof (rule selection_okI)
      show "record_shape r" if "bm_get (spl_records M) k = Some r" for k r
        using that L(1) unfolding same by blast
      show "r = r'" if "bm_get (spl_records M) k = Some r" "bm_get (spl_records M) k' = Some r'"
          "open_selection r" "open_selection r'" for k r k' r'
        using that L(2) unfolding same by blast
      show "spl_pending_selection M = Some (rcd_operation_id r)"
        if r: "bm_get (spl_records M) k = Some r" "open_selection r" for k r
      proof (cases "restored_pending rs")
        case None
        with r show ?thesis using restored_pending_None [of rs r] mem by blast
      next
        case (Some oid)
        with restored_pending_Some [OF Some] obtain r' where "r' \<in> set rs" "open_selection r'" "rcd_operation_id r' = oid" by blast
        with r L(2) Some show ?thesis unfolding mem same using 1(7) by (metis (full_types))
      qed
      show "\<exists>k r. bm_get (spl_records M) k = Some r \<and> open_selection r \<and> rcd_operation_id r = oid"
        if "spl_pending_selection M = Some oid" for oid
      proof -
        from that 1(7) have "restored_pending rs = Some oid" by simp
        from restored_pending_Some [OF this] obtain r where "r \<in> set rs" "open_selection r" "rcd_operation_id r = oid" by blast
        with mem show ?thesis by blast
      qed
      show "\<exists>k r. bm_get (spl_records M) k = Some r \<and> settled_selection_of p r"
        if "spl_selected M = Some p" for p
      proof -
        from restored_selection_Some [of rs p] that 1(6) obtain r t
          where r: "r \<in> set rs" "rcd_result r = Some t" "spt_route t = RouteSelect" "spt_status t = Settled" "spt_profile_id t = Some p"
          by auto
        then obtain k where k: "bm_get (spl_records M) k = Some r" using mem by blast
        then have shape: "record_shape r" using L(1) unfolding same by blast
        with r(2,3) have "spr_route (rcd_request r) = RouteSelect"
          by (auto simp: record_shape_def dest: answers_route)
        from shape_settled [OF shape r(2) this r(4)] r(5) have "settled_selection_of p r" by simp
        with k show ?thesis by blast
      qed
    qed
  qed
qed (use assms(3) in \<open>simp_all add: selection_ok_def\<close>)

end

sublocale sp_service \<subseteq> selecting: step_invariant "sp_move E" "\<lambda>L. sp_mirrored content good L \<and> selection_ok L"
  by unfold_locales (use move_mirrored move_selection in blast)

end
