(* ===== verification/Save_Profile_Restart.thy ===== *)
theory Save_Profile_Restart
  imports Save_Profile_Safety
begin

text \<open>
  Over a journal, which lists its records newest first, a restart restores the current selection and
  the pending one exactly. Selections never overlap, so they settle in the order of their admission:
  the invariant \<open>selects_ok\<close> says so of the select records, in the order of the journal.
\<close>

definition selects :: "sp_record \<Rightarrow> bool" where
  "selects r \<longleftrightarrow> spr_route (rcd_request r) = RouteSelect"

definition selects_ok :: "sp_record list \<Rightarrow> ('f, 's) sp_ledger \<Rightarrow> bool" where
  "selects_ok rs L \<longleftrightarrow> (\<forall>r \<in> set (tl (filter selects rs)). \<not> open_selection r)
     \<and> spl_selected L = restored_selection (filter selects rs)
     \<and> spl_pending_selection L = restored_pending (filter selects rs)"

section \<open>What a restart reads depends on the selections alone\<close>

definition settles :: "sp_record \<Rightarrow> bool" where
  "settles r \<longleftrightarrow> (\<exists>t. rcd_result r = Some t \<and> spt_route t = RouteSelect \<and> spt_status t = Settled)"

lemma restored_selection_Nil [simp]: "restored_selection [] = None"
  by (simp add: restored_selection_def)

lemma restored_selection_Cons:
  "restored_selection (r # rs) = (if settles r then spt_profile_id (the (rcd_result r)) else restored_selection rs)"
  by (auto simp: restored_selection_def settles_def List.map_filter_simps split: option.split)

lemma restored_pending_Nil [simp]: "restored_pending [] = None"
  by (simp add: restored_pending_def)

lemma restored_pending_Cons:
  "restored_pending (r # rs) = (if open_selection r then Some (rcd_operation_id r) else restored_pending rs)"
  by (simp add: restored_pending_def open_selection_def)

lemma shape_settles: "record_shape r \<Longrightarrow> settles r \<Longrightarrow> selects r"
  by (auto simp: record_shape_def settles_def selects_def dest!: answers_route)

lemma open_selects: "open_selection r \<Longrightarrow> selects r"
  by (simp add: open_selection_def selects_def)

lemma restored_selection_selects:
  "\<forall>r \<in> set rs. record_shape r \<Longrightarrow> restored_selection (filter selects rs) = restored_selection rs"
  by (induction rs) (auto simp: restored_selection_Cons dest: shape_settles)

lemma restored_pending_selects: "restored_pending (filter selects rs) = restored_pending rs"
  by (induction rs) (auto simp: restored_pending_Cons dest: open_selects)

lemma restored_pending_closed: "\<forall>r \<in> set rs. \<not> open_selection r \<Longrightarrow> restored_pending rs = None"
  by (induction rs) (auto simp: restored_pending_Cons)

section \<open>Admissions and answers\<close>

lemma selects_launch:
  assumes "selects_ok rs L" and "check_selection q L = Inr ()"
    and "spl_pending_selection M = spl_pending_selection L" and "spl_selected M = spl_selected L"
  shows "selects_ok (fresh_record q # rs) (sp_admitted q M)"
proof (cases "selects (fresh_record q)")
  case True
  then have "spl_pending_selection L = None" using assms(2) by (simp add: selects_def check_selection_Inr)
  with assms(1) have none: "\<forall>r \<in> set (filter selects rs). \<not> open_selection r"
    using restored_pending_None [of "filter selects rs"] by (auto simp: selects_ok_def)
  have "\<not> settles (fresh_record q)" by (simp add: settles_def fresh_record_def)
  with True none assms(1,4) show ?thesis
    by (simp add: selects_ok_def selects_def restored_selection_Cons restored_pending_Cons sp_admitted_def)
next
  case False
  with assms(1,3,4) show ?thesis
    by (simp add: selects_ok_def selects_def sp_admitted_def)
qed

lemma selects_settle:
  assumes "selects_ok rs L" and r: "r \<in> set rs" "final_result_of r = None" "record_shape r"
    and rs: "rs' = map (\<lambda>x. if x = r then with_result t r else x) rs"
    and t: "answers (rcd_request r) t"
    and M: "spl_pending_selection M = spl_pending_selection L" "spl_selected M = spl_selected L"
  shows "selects_ok rs' (note_selection t M)"
proof -
  have sel: "selects (if x = r then with_result t r else x) = selects x" for x
    by (simp add: selects_def)
  have same: "filter selects rs' = map (\<lambda>x. if x = r then with_result t r else x) (filter selects rs)"
    unfolding rs by (simp add: filter_map comp_def sel)
  show ?thesis
  proof (cases "selects r")
    case False
    then have "filter selects rs' = filter selects rs"
      unfolding same by (auto intro!: map_idI)
    with assms(1) M False answers_route [OF t] show ?thesis
      by (simp add: selects_ok_def note_selection_fields selects_def)
  next
    case True
    then have opened: "open_selection r" using unsettled_is_open [OF r(3,2)] by (simp add: selects_def)
    then have "r \<notin> set (tl (filter selects rs))" using assms(1) by (auto simp: selects_ok_def)
    moreover have "r \<in> set (filter selects rs)" using r(1) True by simp
    ultimately obtain S where S: "filter selects rs = r # S" "r \<notin> set S"
      by (cases "filter selects rs") auto
    with same have S': "filter selects rs' = with_result t r # S" by (auto intro!: map_idI)
    have closed: "\<forall>x \<in> set S. \<not> open_selection x" using assms(1) S(1) by (simp add: selects_ok_def)
    have "\<not> settles r" using r(2) by (auto simp: settles_def final_result_of_def still_open_def split: if_splits)
    moreover have "settles (with_result t r) \<longleftrightarrow> spt_status t = Settled"
      using True answers_route [OF t] by (simp add: settles_def selects_def)
    moreover have "open_selection (with_result t r) \<longleftrightarrow> still_open (spt_status t)"
      using True by (simp add: open_answered selects_def)
    ultimately show ?thesis
      using assms(1) M True opened answers_route [OF t] restored_pending_closed [OF closed] closed
      unfolding selects_ok_def S S' by (auto simp: restored_selection_Cons restored_pending_Cons note_selection_fields selects_def)
  qed
qed

section \<open>A first start\<close>

context sp_service
begin

lemma start_empty:
  assumes "good s" and "content s = Map.empty" and "sp_start E capacity a f s = (Inr M, t)"
  shows "sp_mirrored content good M \<and> selection_ok M"
    and "bm_get (spl_records M) = Map.empty" and "spl_selected M = None" and "spl_pending_selection M = None"
proof -
  have mirrored: "sp_mirrored content good M" "content (spl_store M) = content s"
    using restored [OF assms(1,3)] by simp_all
  then show records: "bm_get (spl_records M) = Map.empty" using assms(2) by (simp add: sp_mirrored_def)
  from assms(3) show selected: "spl_selected M = None" and pending: "spl_pending_selection M = None"
  proof (atomize (full), cases rule: sp_start_cases)
    case (1 rs s')
    with open_any [OF assms(1)] have s': "good s'" "content s' = content s" by (auto simp: store_is)
    with list_ok [OF s'(1), of rs t] 1(2) assms(2) have "dom (by_key sp_record_key rs) = {}" by (simp add: store_is)
    then have "rs = []" by (simp add: dom_by_key)
    with 1 show "spl_selected M = None \<and> spl_pending_selection M = None" by simp
  qed
  show "sp_mirrored content good M \<and> selection_ok M"
    using mirrored(1) by (auto simp: selection_ok_def records selected pending)
qed

end

section \<open>Over a journal\<close>

definition listed :: "('s \<Rightarrow> sp_key list) \<Rightarrow> ('f, 's) sp_ledger \<Rightarrow> sp_record list" where
  "listed order L = map (\<lambda>k. the (bm_get (spl_records L) k)) (order (spl_store L))"

locale sp_journal = sp_service st content good E + newest_first_store st sp_record_key content good order
  for st :: "'s sp_store" and content :: "'s \<Rightarrow> sp_key \<Rightarrow> sp_record option" and good :: "'s \<Rightarrow> bool"
    and E :: "('f, 's) sp_env" and order :: "'s \<Rightarrow> sp_key list"
begin

lemma listed_same:
  "spl_records M = spl_records L \<Longrightarrow> order (spl_store M) = order (spl_store L) \<Longrightarrow> listed order M = listed order L"
  by (simp add: listed_def)

lemma mirrored_order:
  assumes "sp_mirrored content good L"
  shows "distinct (order (spl_store L))" and "set (order (spl_store L)) = dom (bm_get (spl_records L))"
  using assms order_dom [of "spl_store L"] by (simp_all add: sp_mirrored_def)

lemma listed_mem:
  assumes "sp_mirrored content good L"
  shows "r \<in> set (listed order L) \<longleftrightarrow> bm_get (spl_records L) (sp_record_key r) = Some r"
proof
  assume "r \<in> set (listed order L)"
  then obtain k where k: "k \<in> set (order (spl_store L))" "r = the (bm_get (spl_records L) k)"
    by (auto simp: listed_def)
  from k(1) have "bm_get (spl_records L) k \<noteq> None" unfolding mirrored_order(2) [OF assms] by (rule domD [THEN exE]) simp
  with k(2) have some: "bm_get (spl_records L) k = Some r" by simp
  with mirrored_keyed [OF assms some] show "bm_get (spl_records L) (sp_record_key r) = Some r" by simp
next
  assume some: "bm_get (spl_records L) (sp_record_key r) = Some r"
  then have "sp_record_key r \<in> set (order (spl_store L))" using mirrored_order(2) [OF assms] by (simp add: domI)
  with some show "r \<in> set (listed order L)"
    unfolding listed_def set_map by (intro image_eqI [of _ _ "sp_record_key r"]) simp_all
qed

lemma failed_starts_order:
  assumes "(failed_start E)\<^sup>*\<^sup>* s t" and "good s"
  shows "order t = order s"
  using assms
proof (induction rule: rtranclp_induct)
  case (step t u)
  then have t: "good t" "order t = order s" using failed_starts_keep [of s t] by simp_all
  from step.hyps(2) obtain capacity a f e where start: "sp_start E capacity a f t = (Inl e, u)"
    by (auto simp: failed_start_def)
  have "order u = order t"
    using start unfolding sp_start_def
  proof (cases rule: and_try_cases)
    case (1 e)
    with open_order [OF t(1)] show ?thesis by (simp add: store_is)
  next
    case (2 y v)
    from 2(1) have v: "good v" "order v = order t" using open_any [OF t(1)] open_order [OF t(1)] by (auto simp: store_is)
    from 2(2) v list_order [OF v(1)] show ?thesis
      by (auto simp: sp_ledger_new_def store_is split: if_splits prod.splits sum.splits)
  qed
  with t(2) show ?case by simp
qed simp

lemma start_lists:
  assumes "good s" and "sp_start E capacity a f s = (Inr M, t)"
  obtains rs where "listed order M = rs" "order (spl_store M) = order s" "rs = map (\<lambda>k. the (content s k)) (order s)"
    "spl_selected M = restored_selection rs" "spl_pending_selection M = restored_pending rs"
  using assms(2)
proof (cases rule: sp_start_cases)
  case (1 rs s')
  from 1(1) have s': "good s'" "order s' = order s" "content s' = content s"
    using open_any [OF assms(1)] open_order [OF assms(1)] by (auto simp: store_is)
  from 1(2) have rs: "rs = map (\<lambda>k. the (content s' k)) (order s')" and t: "order t = order s'"
    using listed_in_order [OF s'(1)] list_order [OF s'(1)] by (simp_all add: store_is)
  from restored [OF assms] have "bm_get (spl_records M) = content s" by (simp add: sp_mirrored_def)
  with rs t s' 1(3) have "listed order M = rs" by (simp add: listed_def)
  then show ?thesis using rs t s' 1 by (intro that) simp_all
qed

lemma move_selects:
  assumes "sp_move E L M" and L: "sp_mirrored content good L" "selection_ok L" and "selects_ok (listed order L) L"
  shows "selects_ok (listed order M) M"
proof -
  have good: "good (spl_store L)" using L(1) by (simp add: sp_mirrored_def)
  from assms(1) show ?thesis
  proof cases
    case (refuse_insert r e s)
    with insert_order [OF good, of r "Inl e" s] assms(4) listed_same [of M L] show ?thesis
      by (simp add: store_is selects_ok_def)
  next
    case (refuse_update r e s)
    with update_order [OF good, of r "Inl e" s] assms(4) listed_same [of M L] show ?thesis
      by (simp add: store_is selects_ok_def)
  next
    case (look q x p)
    with assms(4) listed_same [of M L] show ?thesis by (simp add: selects_ok_def)
  next
    case authority
    with assms(4) listed_same [of M L] show ?thesis by (simp add: selects_ok_def)
  next
    case (launch q s y p)
    have s: "order s = request_key q # order (spl_store L)"
      using insert_order [OF good, of "fresh_record q" "Inr ()" s] launch(6) by (simp add: store_is)
    have "request_key q \<notin> set (order (spl_store L))"
      using mirrored_order(2) [OF L(1)] launch(2) by (simp add: domIff)
    then have "listed order M = fresh_record q # listed order L"
      using s unfolding launch(1) listed_def by auto
    with selects_launch [OF assms(4) launch(4), of "L\<lparr>spl_store := s, spl_forwarding := p\<rparr>"] show ?thesis
      by (simp add: launch(1))
  next
    case (settle k r t s)
    have k: "sp_record_key r = k" using mirrored_keyed [OF L(1) settle(2)] .
    have s: "order s = order (spl_store L)"
      using update_order [OF good, of "with_result t r" "Inr ()" s] settle(5) by (simp add: store_is)
    have shape: "record_shape r" using L(2) settle(2) by (rule selection_shape)
    have r: "r \<in> set (listed order L)" unfolding listed_mem [OF L(1)] k by (rule settle(2))
    have "(the (bm_get (spl_records M) j) = (if the (bm_get (spl_records L) j) = r then with_result t r else the (bm_get (spl_records L) j)))"
      if "j \<in> set (order (spl_store L))" for j
    proof (cases "j = k")
      case False
      from that obtain r' where r': "bm_get (spl_records L) j = Some r'" using mirrored_order(2) [OF L(1)] by auto
      with mirrored_keyed [OF L(1) r'] k False show ?thesis by (auto simp: settle(1))
    qed (simp add: settle(1,2))
    then have "listed order M = map (\<lambda>x. if x = r then with_result t r else x) (listed order L)"
      unfolding listed_def using s by (simp add: settle(1))
    from selects_settle [OF assms(4) r settle(3) shape this settle(4), of "L\<lparr>spl_store := s, spl_records := bm_insert k (with_result t r) (spl_records L)\<rparr>"]
    show ?thesis by (simp add: settle(1))
  next
    case (restart s capacity a t)
    have s: "good s" "content s = content (spl_store L)" "order s = order (spl_store L)"
      using failed_starts_keep [OF restart(1) good] failed_starts_order [OF restart(1) good] by simp_all
    from s(1) restart(2) obtain rs where rs: "listed order M = rs" "rs = map (\<lambda>k. the (content s k)) (order s)"
        "spl_selected M = restored_selection rs" "spl_pending_selection M = restored_pending rs"
      by (rule start_lists)
    have same: "rs = listed order L" using rs(2) s L(1) by (simp add: listed_def sp_mirrored_def)
    have "record_shape r" if "r \<in> set rs" for r
      using that selection_shape [OF L(2)] unfolding same listed_mem [OF L(1)] by blast
    then have "\<forall>r \<in> set rs. record_shape r" by blast
    with rs assms(4) show ?thesis
      unfolding selects_ok_def rs(1) same [symmetric] by (simp add: restored_selection_selects restored_pending_selects)
  qed
qed

end

sublocale sp_journal \<subseteq> restarting: step_invariant "sp_move E"
    "\<lambda>L. (sp_mirrored content good L \<and> selection_ok L) \<and> selects_ok (listed order L) L"
  by unfold_locales (use move_mirrored move_selection move_selects in blast)

end
