(* ===== verification/Sql_Journal.thy ===== *)
theory Sql_Journal
  imports Record_Store
begin

text \<open>
  The SQLite journals, as far as the two durable stores share them. SQLite, its Rust binding and the
  JSON library are outside the repository: a connection is the record \<open>sql\<close> of the statements the
  stores execute (\<open>None\<close> is an error of the binding), and the locale \<open>sql_connection\<close> states what the
  stores rely on: a transaction sees the saved rows, only a commit saves, and the statements read and
  write the rows they say. \<open>table_sql\<close> is such a connection, a table in memory with a list of faults.
\<close>

section \<open>Connections\<close>

type_synonym token = "u8 list"
type_synonym 'b row = "string \<times> string \<times> 'b"

record ('b, 'c) sql =
  sql_configure :: "'c \<Rightarrow> unit option \<times> 'c"
  sql_begin :: "'c \<Rightarrow> unit option \<times> 'c"
  sql_commit :: "'c \<Rightarrow> unit option \<times> 'c"
  sql_rollback :: "'c \<Rightarrow> 'c"
  sql_initialize :: "'c \<Rightarrow> unit option \<times> 'c"
  sql_verify :: "'c \<Rightarrow> unit option \<times> 'c"
  sql_owners :: "'c \<Rightarrow> token list option \<times> 'c"
  sql_own :: "token \<Rightarrow> 'c \<Rightarrow> nat option \<times> 'c"
  sql_count :: "'c \<Rightarrow> nat option \<times> 'c"
  sql_newest_first :: "'c \<Rightarrow> 'b row list option \<times> 'c"
  sql_by_key :: "'c \<Rightarrow> 'b row list option \<times> 'c"
  sql_insert :: "'b row \<Rightarrow> 'c \<Rightarrow> nat option \<times> 'c"
  sql_update :: "'b row \<Rightarrow> 'c \<Rightarrow> nat option \<times> 'c"
  sql_body :: "string \<times> string \<Rightarrow> 'c \<Rightarrow> 'b option \<times> 'c"

definition row_key :: "'b row \<Rightarrow> string \<times> string" where
  "row_key row = (fst row, fst (snd row))"

definition row_body :: "'b row \<Rightarrow> 'b" where
  "row_body row = snd (snd row)"

lemma row_simps [simp]: "row_key (i, p, b) = (i, p)" "row_body (i, p, b) = b"
  by (simp_all add: row_key_def row_body_def)

text \<open>\<open>UPDATE ... SET body\<close> for the row under a key.\<close>

definition set_body :: "'b row \<Rightarrow> 'b row list \<Rightarrow> 'b row list" where
  "set_body row = map (\<lambda>old. if row_key old = row_key row then row else old)"

locale sql_connection =
  fixes Q :: "('b, 'c) sql" and table saved :: "'c \<Rightarrow> 'b row list"
  assumes configure: "sql_configure Q c = (u, d) \<Longrightarrow> saved d = saved c"
    and begins: "sql_begin Q c = (u, d) \<Longrightarrow> saved d = saved c \<and> (u \<noteq> None \<longrightarrow> table d = saved c)"
    and commits: "sql_commit Q c = (u, d) \<Longrightarrow> saved d = (if u = None then saved c else table c)"
    and rolls_back: "saved (sql_rollback Q c) = saved c"
    and initializes: "sql_initialize Q c = (u, d) \<Longrightarrow> saved d = saved c \<and> table d = table c"
    and verifies: "sql_verify Q c = (u, d) \<Longrightarrow> saved d = saved c \<and> table d = table c"
    and owners: "sql_owners Q c = (toks, d) \<Longrightarrow> saved d = saved c \<and> table d = table c"
    and owns: "sql_own Q tok c = (n, d) \<Longrightarrow> saved d = saved c \<and> table d = table c"
    and counts: "sql_count Q c = (n, d) \<Longrightarrow> saved d = saved c \<and> table d = table c"
    and counted: "sql_count Q c = (Some m, d) \<Longrightarrow> m = length (table c)"
    and reads: "sql_newest_first Q c = (rs, d) \<Longrightarrow> saved d = saved c \<and> table d = table c"
    and newest_first: "sql_newest_first Q c = (Some rows, d) \<Longrightarrow> rows = table c"
    and reads_by_key: "sql_by_key Q c = (rs, d) \<Longrightarrow> saved d = saved c \<and> table d = table c"
    and by_key_order: "sql_by_key Q c = (Some rows, d) \<Longrightarrow> length rows = length (table c) \<and> set rows = set (table c)"
    and inserts: "sql_insert Q row c = (n, d) \<Longrightarrow> saved d = saved c \<and> (n \<noteq> None \<and> n \<noteq> Some 0 \<longrightarrow> table d = row # table c)"
    and updates: "sql_update Q row c = (n, d) \<Longrightarrow> saved d = saved c \<and> (n \<noteq> None \<and> n \<noteq> Some 0 \<longrightarrow> table d = set_body row (table c))"
    and reads_body: "sql_body Q k c = (b, d) \<Longrightarrow> saved d = saved c \<and> table d = table c"

section \<open>A store and its transactions\<close>

text \<open>A store has a connection, its token, and the source of fresh tokens.\<close>

record ('c, 'u) journal =
  jn_connection :: 'c
  jn_token :: token
  jn_uuids :: 'u

definition sql_step :: "'e \<Rightarrow> ('c \<Rightarrow> 'a option \<times> 'c) \<Rightarrow> ('c, 'u) journal \<Rightarrow> ('e + 'a) \<times> ('c, 'u) journal" where
  "sql_step e f s = (case f (jn_connection s) of (v, c) \<Rightarrow> (ok_or v e, s\<lparr>jn_connection := c\<rparr>))"

text \<open>A transaction that is dropped before its commit rolls back.\<close>

definition rolling_back :: "('b, 'c) sql \<Rightarrow> (('c, 'u) journal \<Rightarrow> ('e + 'a) \<times> ('c, 'u) journal) \<Rightarrow> ('c, 'u) journal
    \<Rightarrow> ('e + 'a) \<times> ('c, 'u) journal" where
  "rolling_back Q m s = (case m s of
     (Inl e, t) \<Rightarrow> (Inl e, t\<lparr>jn_connection := sql_rollback Q (jn_connection t)\<rparr>)
   | (Inr a, t) \<Rightarrow> (Inr a, t))"

definition transact :: "('b, 'c) sql \<Rightarrow> 'e \<Rightarrow> (('c, 'u) journal \<Rightarrow> ('e + 'a) \<times> ('c, 'u) journal) \<Rightarrow> ('c, 'u) journal
    \<Rightarrow> ('e + 'a) \<times> ('c, 'u) journal" where
  "transact Q e body = and_try (sql_step e (sql_begin Q)) (\<lambda>_.
     rolling_back Q (and_try body (\<lambda>a. and_try (sql_step e (sql_commit Q)) (\<lambda>_. pure (Inr a)))))"

lemma sql_step_cases:
  assumes "sql_step e f s = (x, t)"
  obtains c where "f (jn_connection s) = (None, c)" "x = Inl e" "t = s\<lparr>jn_connection := c\<rparr>"
  | a c where "f (jn_connection s) = (Some a, c)" "x = Inr a" "t = s\<lparr>jn_connection := c\<rparr>"
proof (cases "f (jn_connection s)")
  case (Pair v c)
  with assms that show ?thesis by (cases v) (auto simp: sql_step_def)
qed

context sql_connection
begin

abbreviation saved_rows :: "('c, 'u) journal \<Rightarrow> 'b row list" where
  "saved_rows s \<equiv> saved (jn_connection s)"

abbreviation table_rows :: "('c, 'u) journal \<Rightarrow> 'b row list" where
  "table_rows s \<equiv> table (jn_connection s)"

text \<open>What a computation inside a transaction does: the saved rows stay, and on success the table is related as \<open>R\<close> says.\<close>

definition within :: "(('c, 'u) journal \<Rightarrow> ('e + 'a) \<times> ('c, 'u) journal) \<Rightarrow> ('a \<Rightarrow> 'b row list \<Rightarrow> 'b row list \<Rightarrow> bool) \<Rightarrow> bool" where
  "within m R \<longleftrightarrow> (\<forall>s x t. m s = (x, t) \<longrightarrow> saved_rows t = saved_rows s
     \<and> (\<forall>a. x = Inr a \<longrightarrow> R a (table_rows s) (table_rows t)))"

lemma withinI:
  assumes "\<And>s x t. m s = (x, t) \<Longrightarrow> saved_rows t = saved_rows s" and "\<And>s a t. m s = (Inr a, t) \<Longrightarrow> R a (table_rows s) (table_rows t)"
  shows "within m R"
  using assms unfolding within_def by blast

lemma within_try:
  assumes "within m R" and "\<And>a. within (f a) (S a)"
    and "\<And>a b u v w. R a u v \<Longrightarrow> S a b v w \<Longrightarrow> T b u w"
  shows "within (and_try m f) T"
proof (rule withinI)
  fix s x t assume "and_try m f s = (x, t)"
  then show "saved_rows t = saved_rows s"
  proof (cases rule: and_try_cases)
    case (2 a u)
    with assms(1,2) show ?thesis unfolding within_def by metis
  qed (use assms(1) in \<open>auto simp: within_def\<close>)
next
  fix s b t assume "and_try m f s = (Inr b, t)"
  then show "T b (table_rows s) (table_rows t)"
  proof (cases rule: and_try_cases)
    case (2 a u)
    with assms show ?thesis unfolding within_def by blast
  qed simp
qed

lemma within_pure: "(\<And>a v. x = Inr a \<Longrightarrow> R a v v) \<Longrightarrow> within (pure x) R"
  by (simp add: within_def)

lemma within_if: "(c \<Longrightarrow> within m R) \<Longrightarrow> (\<not> c \<Longrightarrow> within n R) \<Longrightarrow> within (if c then m else n) R"
  by simp

lemma within_fail: "within (pure (Inl e)) R"
  by (rule within_pure) simp

lemma within_weaken: "within m R \<Longrightarrow> (\<And>a u v. R a u v \<Longrightarrow> S a u v) \<Longrightarrow> within m S"
  unfolding within_def by blast

lemma within_step:
  assumes "\<And>c v d. f c = (v, d) \<Longrightarrow> saved d = saved c" and "\<And>c a d. f c = (Some a, d) \<Longrightarrow> R a (table c) (table d)"
  shows "within (sql_step e f) R"
  by (rule withinI; erule sql_step_cases) (auto dest: assms)

lemma within_unchanged_step:
  "(\<And>c v d. f c = (v, d) \<Longrightarrow> saved d = saved c \<and> table d = table c) \<Longrightarrow> within (sql_step e f) (\<lambda>_ u v. v = u)"
  by (rule within_step) blast+

lemma transact_keeps:
  assumes "within body R" and "transact Q e body s = (Inl x, t)"
  shows "saved_rows t = saved_rows s"
  using assms(2) unfolding transact_def
proof (cases rule: and_try_cases)
  case (1 x')
  then show ?thesis by (auto elim!: sql_step_cases dest: begins)
next
  case (2 u v)
  from 2(1) have v: "saved_rows v = saved_rows s" by (auto elim!: sql_step_cases dest: begins)
  from 2(2) obtain w where w: "and_try body (\<lambda>a. and_try (sql_step e (sql_commit Q)) (\<lambda>_. pure (Inr a))) v = (Inl x, w)"
    and t: "saved_rows t = saved_rows w"
    by (auto simp: rolling_back_def rolls_back split: prod.splits sum.splits)
  from w have "saved_rows w = saved_rows v"
  proof (cases rule: and_try_cases)
    case (1 x')
    with assms(1) show ?thesis by (auto simp: within_def)
  next
    case (2 a y)
    from 2(1) assms(1) have y: "saved_rows y = saved_rows v" unfolding within_def by blast
    from 2(2) have "saved_rows w = saved_rows y"
      by (auto elim!: and_try_cases sql_step_cases dest: commits)
    with y show ?thesis by simp
  qed
  with v t show ?thesis by simp
qed

lemma transact_commits:
  assumes "within body R" and "transact Q e body s = (Inr a, t)"
  shows "R a (saved_rows s) (saved_rows t)"
  using assms(2) unfolding transact_def
proof (cases rule: and_try_cases)
  case (2 u v)
  from 2(1) have v: "table_rows v = saved_rows s" by (auto elim!: sql_step_cases dest: begins)
  from 2(2) have "and_try body (\<lambda>a. and_try (sql_step e (sql_commit Q)) (\<lambda>_. pure (Inr a))) v = (Inr a, t)"
    by (auto simp: rolling_back_def split: prod.splits sum.splits)
  then show ?thesis
  proof (cases rule: and_try_cases)
    case (2 b y)
    from 2(2) obtain c where c: "sql_commit Q (jn_connection y) = (Some (), c)" and b: "b = a" and t: "t = y\<lparr>jn_connection := c\<rparr>"
      by (auto elim!: and_try_cases sql_step_cases)
    from commits [OF c] t have "saved_rows t = table_rows y" by simp
    with b 2(1) assms(1) v show ?thesis unfolding within_def by metis
  qed simp
qed simp

end

section \<open>JSON\<close>

text \<open>The JSON writer and reader of a stored type, and the length of what is written.\<close>

record ('x, 'b) codec =
  to_json :: "'x \<Rightarrow> 'b option"
  from_json :: "'b \<Rightarrow> 'x option"
  json_length :: "'b \<Rightarrow> int"

locale json_codec =
  fixes K :: "('x, 'b) codec"
  assumes reads_back: "to_json K x = Some b \<Longrightarrow> from_json K b = Some x"

text \<open>The codec whose bytes are the values, of a given length.\<close>

definition plain_codec :: "('x \<Rightarrow> int) \<Rightarrow> ('x, 'x) codec" where
  "plain_codec len = \<lparr>to_json = Some, from_json = Some, json_length = len\<rparr>"

interpretation plain_codec: json_codec "plain_codec len"
  by unfold_locales (simp add: plain_codec_def)

section \<open>A table in memory\<close>

text \<open>Tables with the rows and the owner that are saved and those of the open transaction; each fault fails one statement.\<close>

record 'b tables =
  tb_saved :: "'b row list \<times> token list"
  tb_rows :: "'b row list"
  tb_owners :: "token list"
  tb_faults :: "bool list"

definition statement :: "('b tables \<Rightarrow> 'a option \<times> 'b tables) \<Rightarrow> 'b tables \<Rightarrow> 'a option \<times> 'b tables" where
  "statement f c = (case tb_faults c of
     [] \<Rightarrow> f c
   | fault # faults \<Rightarrow> if fault then (None, c\<lparr>tb_faults := faults\<rparr>) else f (c\<lparr>tb_faults := faults\<rparr>))"

definition reset :: "'b tables \<Rightarrow> 'b tables" where
  "reset c = c\<lparr>tb_rows := fst (tb_saved c), tb_owners := snd (tb_saved c)\<rparr>"

definition table_sql :: "('b, 'b tables) sql" where
  "table_sql = \<lparr>
     sql_configure = statement (\<lambda>c. (Some (), c)),
     sql_begin = statement (\<lambda>c. (Some (), reset c)),
     sql_commit = statement (\<lambda>c. (Some (), c\<lparr>tb_saved := (tb_rows c, tb_owners c)\<rparr>)),
     sql_rollback = reset,
     sql_initialize = statement (\<lambda>c. (Some (), c)),
     sql_verify = statement (\<lambda>c. (Some (), c)),
     sql_owners = statement (\<lambda>c. (Some (tb_owners c), c)),
     sql_own = (\<lambda>tok. statement (\<lambda>c. (Some 1, c\<lparr>tb_owners := [tok]\<rparr>))),
     sql_count = statement (\<lambda>c. (Some (length (tb_rows c)), c)),
     sql_newest_first = statement (\<lambda>c. (Some (tb_rows c), c)),
     sql_by_key = statement (\<lambda>c. (Some (sort_key row_key (tb_rows c)), c)),
     sql_insert = (\<lambda>row. statement (\<lambda>c.
       if row_key row \<in> set (map row_key (tb_rows c)) then (None, c)
       else (Some 1, c\<lparr>tb_rows := row # tb_rows c\<rparr>))),
     sql_update = (\<lambda>row. statement (\<lambda>c.
       (Some (length (filter (\<lambda>old. row_key old = row_key row) (tb_rows c))), c\<lparr>tb_rows := set_body row (tb_rows c)\<rparr>))),
     sql_body = (\<lambda>k. statement (\<lambda>c. (map_option row_body (find (\<lambda>old. row_key old = k) (tb_rows c)), c)))\<rparr>"

definition saved_table :: "'b tables \<Rightarrow> 'b row list" where
  "saved_table c = fst (tb_saved c)"

lemma statement_cases:
  assumes "statement f c = (v, d)"
  obtains fs where "v = None" "d = c\<lparr>tb_faults := fs\<rparr>" | fs where "f (c\<lparr>tb_faults := fs\<rparr>) = (v, d)"
proof (cases "tb_faults c")
  case Nil
  have "c\<lparr>tb_faults := tb_faults c\<rparr> = c" by simp
  with Nil assms have "f (c\<lparr>tb_faults := tb_faults c\<rparr>) = (v, d)" by (simp only: statement_def list.case)
  then show ?thesis by (rule that(2))
next
  case (Cons a list)
  with assms that show ?thesis by (cases a) (auto simp: statement_def)
qed

interpretation table_sql: sql_connection table_sql tb_rows saved_table
  by unfold_locales
    (auto simp: table_sql_def saved_table_def reset_def elim!: statement_cases split: if_splits)

end
