(* ===== verification/Save_Profile_Journal.thy ===== *)
theory Save_Profile_Journal
  imports Save_Profile_Restart Sql_Journal
begin

text \<open>
  The durable store of the save-profile ledger: \<open>save_profile/operation_record.rs\<close>, the validation
  and the bytes of a stored record, and \<open>save_profile/operation_store.rs\<close>, its transactions over a
  SQL connection. The path and the lock of the journal are outside the model. Over every connection
  and codec that keep their contracts the store is a \<open>newest_first_store\<close>, so a restart of the gateway
  restores the ledger.
\<close>

section \<open>Stored records (operation_record.rs)\<close>

definition SP_MAX_RECORD_BYTES :: int where "SP_MAX_RECORD_BYTES = 160 * 1024"

record sp_stored =
  sto_version :: u8
  sto_operation_id :: string
  sto_request :: sp_request
  sto_status :: save_profile_status
  sto_result :: "sp_result option"

definition sp_record_validate :: "sp_record \<Rightarrow> sp_ledger_error + unit" where
  "sp_record_validate r =
     and_then (sp_validate_request (rcd_request r)) (\<lambda>_.
       if rcd_operation_id r \<noteq> spr_operation_id (rcd_request r) then Inl InvalidRequest
       else case rcd_result r of
              None \<Rightarrow> if rcd_status r = Accepted then Inr () else Inl InvalidRequest
            | Some t \<Rightarrow>
                if spt_status t \<noteq> rcd_status r \<or> spt_guidance t \<noteq> guidance_for_status (rcd_status r)
                   \<or> (case spt_profile_id t of None \<Rightarrow> False | Some p \<Rightarrow> \<not> id_is_valid p)
                then Inl ResponseInvalid
                else and_then (validate_response (rcd_request r)
                       \<lparr>rsp_operation_id = spt_operation_id t, rsp_context = spr_context (rcd_request r),
                        rsp_route = spt_route t, rsp_status = spt_status t, rsp_body = spt_body t,
                        rsp_profile_id = spt_profile_id t, rsp_baseline = spt_baseline t,
                        rsp_user_data = spt_user_data t, rsp_reason = None\<rparr>) (\<lambda>_. Inr ()))"

definition stored_of :: "sp_record \<Rightarrow> sp_stored" where
  "stored_of r = \<lparr>sto_version = 1, sto_operation_id = rcd_operation_id r, sto_request = rcd_request r,
     sto_status = rcd_status r, sto_result = rcd_result r\<rparr>"

definition sp_encode :: "(sp_stored, 'b) codec \<Rightarrow> sp_record \<Rightarrow> sp_ledger_error + 'b" where
  "sp_encode K r =
     and_then (sp_record_validate r) (\<lambda>_.
     and_then (ok_or (to_json K (stored_of r)) PersistenceFailed) (\<lambda>bytes.
       if SP_MAX_RECORD_BYTES < json_length K bytes then Inl CapacityExceeded else Inr bytes))"

definition sp_decode :: "(sp_stored, 'b) codec \<Rightarrow> 'b \<Rightarrow> sp_ledger_error + sp_record" where
  "sp_decode K bytes =
     (if SP_MAX_RECORD_BYTES < json_length K bytes then Inl PersistenceFailed
      else and_then (ok_or (from_json K bytes) PersistenceFailed) (\<lambda>stored.
        if sto_version stored \<noteq> 1 then Inl PersistenceFailed
        else let r = \<lparr>rcd_operation_id = sto_operation_id stored, rcd_request = sto_request stored,
                      rcd_status = sto_status stored, rcd_result = sto_result stored\<rparr>
             in and_then (sp_encode K r) (\<lambda>again. if again \<noteq> bytes then Inl PersistenceFailed else Inr r)))"

definition sp_validate_update :: "sp_record \<Rightarrow> sp_record \<Rightarrow> sp_ledger_error + unit" where
  "sp_validate_update previous next =
     (if \<not> same_operation_request (rcd_request previous) (rcd_request next)
         \<or> spr_context (rcd_request previous) \<noteq> spr_context (rcd_request next)
         \<or> (rcd_status previous \<noteq> Accepted \<and> rcd_status previous \<noteq> Unknown \<and> previous \<noteq> next)
         \<or> rcd_result next = None
      then Inl OperationConflict else Inr ())"

section \<open>The journal (operation_store.rs)\<close>

definition SAVE_PROFILE_OPERATION_CAPACITY :: nat where "SAVE_PROFILE_OPERATION_CAPACITY = 256"

abbreviation db :: "('c \<Rightarrow> 'a option \<times> 'c) \<Rightarrow> ('c, 'u) journal \<Rightarrow> (sp_ledger_error + 'a) \<times> ('c, 'u) journal" where
  "db \<equiv> sql_step PersistenceFailed"

definition sp_ensure_owner :: "('b, 'c) sql \<Rightarrow> ('c, 'u) journal \<Rightarrow> (sp_ledger_error + unit) \<times> ('c, 'u) journal" where
  "sp_ensure_owner Q s =
     and_try (db (sql_verify Q)) (\<lambda>_.
     and_try (db (sql_owners Q)) (\<lambda>stored.
       pure (case stored of
               [] \<Rightarrow> Inl PersistenceFailed
             | tok # _ \<Rightarrow> ensure (tok = jn_token s) OperationConflict))) s"

primrec sp_decode_rows :: "(sp_stored, 'b) codec \<Rightarrow> sp_record list \<Rightarrow> 'b row list \<Rightarrow> sp_ledger_error + sp_record list" where
  "sp_decode_rows K records [] = Inr records"
| "sp_decode_rows K records (row # rows) =
     (case row of (instance_id, operation_id, body) \<Rightarrow>
       if SP_MAX_RECORD_BYTES < json_length K body
          \<or> length instance_id \<notin> {1..128} \<or> length operation_id \<notin> {1..128} then Inl PersistenceFailed
       else and_then (sp_decode K body) (\<lambda>r.
         if instance_id \<noteq> ctx_instance_id (spr_context (rcd_request r)) \<or> operation_id \<noteq> rcd_operation_id r
         then Inl PersistenceFailed
         else if records \<noteq> [] \<and> ctx_instance_id (spr_context (rcd_request (hd records)))
                   \<noteq> ctx_instance_id (spr_context (rcd_request r))
         then Inl PersistenceFailed
         else sp_decode_rows K (records @ [r]) rows))"

definition sp_read_records :: "('b, 'c) sql \<Rightarrow> (sp_stored, 'b) codec \<Rightarrow> ('c, 'u) journal
    \<Rightarrow> (sp_ledger_error + sp_record list) \<times> ('c, 'u) journal" where
  "sp_read_records Q K =
     and_try (db (sql_count Q)) (\<lambda>count.
       if SAVE_PROFILE_OPERATION_CAPACITY < count then pure (Inl CapacityExceeded)
       else and_try (db (sql_newest_first Q)) (\<lambda>rows. pure (sp_decode_rows K [] rows)))"

definition sp_verify_write :: "('b, 'c) sql \<Rightarrow> sp_record \<Rightarrow> 'b \<Rightarrow> ('c, 'u) journal
    \<Rightarrow> (sp_ledger_error + unit) \<times> ('c, 'u) journal" where
  "sp_verify_write Q r body =
     and_try (db (sql_body Q (sp_record_key r))) (\<lambda>actual. pure (ensure (actual = body) PersistenceFailed))"

definition sp_row :: "sp_record \<Rightarrow> 'b \<Rightarrow> 'b row" where
  "sp_row r body = (ctx_instance_id (spr_context (rcd_request r)), rcd_operation_id r, body)"

definition sp_journal_list :: "('b, 'c) sql \<Rightarrow> (sp_stored, 'b) codec \<Rightarrow> ('c, 'u) journal
    \<Rightarrow> (sp_ledger_error + sp_record list) \<times> ('c, 'u) journal" where
  "sp_journal_list Q K = transact Q PersistenceFailed
     (and_try (sp_ensure_owner Q) (\<lambda>_. sp_read_records Q K))"

definition sp_insert_row :: "('b, 'c) sql \<Rightarrow> sp_record \<Rightarrow> 'b \<Rightarrow> sp_record list \<Rightarrow> ('c, 'u) journal
    \<Rightarrow> (sp_ledger_error + unit) \<times> ('c, 'u) journal" where
  "sp_insert_row Q r body records =
     (if list_ex (\<lambda>old. ctx_instance_id (spr_context (rcd_request old))
           \<noteq> ctx_instance_id (spr_context (rcd_request r))) records then pure (Inl OperationConflict)
      else if list_ex (\<lambda>old. rcd_operation_id old = rcd_operation_id r
           \<and> ctx_instance_id (spr_context (rcd_request old)) = ctx_instance_id (spr_context (rcd_request r))) records
      then pure (Inl OperationConflict)
      else if SAVE_PROFILE_OPERATION_CAPACITY \<le> length records then pure (Inl CapacityExceeded)
      else and_try (db (sql_insert Q (sp_row r body))) (\<lambda>changed.
        if changed \<noteq> 1 then pure (Inl PersistenceFailed) else sp_verify_write Q r body))"

definition sp_journal_insert :: "('b, 'c) sql \<Rightarrow> (sp_stored, 'b) codec \<Rightarrow> sp_record \<Rightarrow> ('c, 'u) journal
    \<Rightarrow> (sp_ledger_error + unit) \<times> ('c, 'u) journal" where
  "sp_journal_insert Q K r s =
     (case sp_encode K r of
        Inl e \<Rightarrow> (Inl e, s)
      | Inr body \<Rightarrow>
          if rcd_status r \<noteq> Accepted \<or> rcd_result r \<noteq> None then (Inl InvalidRequest, s)
          else transact Q PersistenceFailed
            (and_try (sp_ensure_owner Q) (\<lambda>_. and_try (sp_read_records Q K) (sp_insert_row Q r body))) s)"

definition sp_update_row :: "('b, 'c) sql \<Rightarrow> sp_record \<Rightarrow> 'b \<Rightarrow> sp_record list \<Rightarrow> ('c, 'u) journal
    \<Rightarrow> (sp_ledger_error + unit) \<times> ('c, 'u) journal" where
  "sp_update_row Q r body records =
     (case find (\<lambda>old. rcd_operation_id old = rcd_operation_id r
             \<and> ctx_instance_id (spr_context (rcd_request old)) = ctx_instance_id (spr_context (rcd_request r))) records of
        None \<Rightarrow> pure (Inl OperationNotFound)
      | Some previous \<Rightarrow>
          and_try (pure (sp_validate_update previous r)) (\<lambda>_.
          and_try (db (sql_update Q (sp_row r body))) (\<lambda>changed.
            if changed \<noteq> 1 then pure (Inl OperationNotFound) else sp_verify_write Q r body)))"

definition sp_journal_update :: "('b, 'c) sql \<Rightarrow> (sp_stored, 'b) codec \<Rightarrow> sp_record \<Rightarrow> ('c, 'u) journal
    \<Rightarrow> (sp_ledger_error + unit) \<times> ('c, 'u) journal" where
  "sp_journal_update Q K r s =
     (case sp_encode K r of
        Inl e \<Rightarrow> (Inl e, s)
      | Inr body \<Rightarrow>
          transact Q PersistenceFailed
            (and_try (sp_ensure_owner Q) (\<lambda>_. and_try (sp_read_records Q K) (sp_update_row Q r body))) s)"

text \<open>\<open>open\<close>, from the connection on: a fresh token takes ownership once the rows are found valid.\<close>

definition sp_journal_open :: "('b, 'c) sql \<Rightarrow> (sp_stored, 'b) codec \<Rightarrow> ('u \<Rightarrow> token \<times> 'u) \<Rightarrow> ('c, 'u) journal
    \<Rightarrow> (sp_ledger_error + unit) \<times> ('c, 'u) journal" where
  "sp_journal_open Q K new_uuid s =
     (case new_uuid (jn_uuids s) of (tok, u) \<Rightarrow>
        and_try (db (sql_configure Q)) (\<lambda>_.
          transact Q PersistenceFailed
            (and_try (db (sql_initialize Q)) (\<lambda>_.
             and_try (db (sql_verify Q)) (\<lambda>_.
             and_try (sp_read_records Q K) (\<lambda>_.
             and_try (db (sql_own Q tok)) (\<lambda>changed.
               if changed \<noteq> 1 then pure (Inl PersistenceFailed) else sp_ensure_owner Q))))))
          (s\<lparr>jn_token := tok, jn_uuids := u\<rparr>))"

definition operation_store :: "('b, 'c) sql \<Rightarrow> (sp_stored, 'b) codec \<Rightarrow> ('u \<Rightarrow> token \<times> 'u) \<Rightarrow> ('c, 'u) journal sp_store" where
  "operation_store Q K new_uuid = \<lparr>rs_open = sp_journal_open Q K new_uuid, rs_list = sp_journal_list Q K,
     rs_insert = sp_journal_insert Q K, rs_update = sp_journal_update Q K\<rparr>"

section \<open>Rows and the records they hold\<close>

abbreviation instance_of :: "sp_record \<Rightarrow> string" where
  "instance_of r \<equiv> ctx_instance_id (spr_context (rcd_request r))"

definition row_holds :: "(sp_stored, 'b) codec \<Rightarrow> 'b row \<Rightarrow> sp_record \<Rightarrow> bool" where
  "row_holds K row r \<longleftrightarrow> json_length K (row_body row) \<le> SP_MAX_RECORD_BYTES
     \<and> length (fst (row_key row)) \<in> {1..128} \<and> length (snd (row_key row)) \<in> {1..128}
     \<and> sp_decode K (row_body row) = Inr r \<and> sp_record_key r = row_key row"

lemma decode_rows_Inr:
  "sp_decode_rows K acc rows = Inr rs \<longleftrightarrow>
     (\<exists>ts. rs = acc @ ts \<and> list_all2 (row_holds K) rows ts \<and> (\<forall>t \<in> set ts. instance_of t = instance_of (hd (acc @ ts))))"
proof (induction rows arbitrary: acc)
  case (Cons row rows)
  obtain i p b where row: "row = (i, p, b)" by (cases row) auto
  have step: "sp_decode_rows K acc (row # rows) = Inr rs \<longleftrightarrow>
      (\<exists>r. row_holds K row r \<and> (acc \<noteq> [] \<longrightarrow> instance_of (hd acc) = instance_of r) \<and> sp_decode_rows K (acc @ [r]) rows = Inr rs)"
    by (cases "sp_decode K b") (auto simp: row row_holds_def sp_record_key_def)
  have first: "(acc \<noteq> [] \<longrightarrow> instance_of (hd acc) = instance_of r) \<longleftrightarrow> instance_of r = instance_of (hd (acc @ r # ts))" for r ts
    by (cases acc) auto
  show ?case
  proof
    assume "sp_decode_rows K acc (row # rows) = Inr rs"
    then obtain r ts where "row_holds K row r" "acc \<noteq> [] \<longrightarrow> instance_of (hd acc) = instance_of r" "rs = acc @ r # ts"
        "list_all2 (row_holds K) rows ts" "\<forall>t \<in> set ts. instance_of t = instance_of (hd (acc @ r # ts))"
      unfolding step Cons.IH by auto
    then show "\<exists>ts. rs = acc @ ts \<and> list_all2 (row_holds K) (row # rows) ts \<and> (\<forall>t \<in> set ts. instance_of t = instance_of (hd (acc @ ts)))"
      using first [of r ts] by (intro exI [of _ "r # ts"]) simp
  next
    assume "\<exists>ts. rs = acc @ ts \<and> list_all2 (row_holds K) (row # rows) ts \<and> (\<forall>t \<in> set ts. instance_of t = instance_of (hd (acc @ ts)))"
    then obtain r ts where ts: "rs = acc @ r # ts" "row_holds K row r" "list_all2 (row_holds K) rows ts"
        "\<forall>t \<in> set (r # ts). instance_of t = instance_of (hd (acc @ r # ts))"
      unfolding list_all2_Cons1 by blast
    then show "sp_decode_rows K acc (row # rows) = Inr rs"
      unfolding step Cons.IH using first [of r ts] by (intro exI [of _ r] conjI exI [of _ ts]) simp_all
  qed
qed (auto simp: eq_commute)

lemma decode_rows_all:
  "sp_decode_rows K [] rows = Inr rs \<longleftrightarrow> list_all2 (row_holds K) rows rs \<and> (\<forall>t \<in> set rs. instance_of t = instance_of (hd rs))"
  by (auto simp: decode_rows_Inr)

lemma rows_keys: "list_all2 (row_holds K) rows rs \<Longrightarrow> map sp_record_key rs = map row_key rows"
  by (induction rule: list_all2_induct) (simp_all add: row_holds_def)

lemma sp_encode_Inr [checks]:
  "sp_encode K r = Inr b \<longleftrightarrow> sp_record_validate r = Inr () \<and> to_json K (stored_of r) = Some b
     \<and> json_length K b \<le> SP_MAX_RECORD_BYTES"
  by (auto simp: sp_encode_def and_then_eq_Inr not_less split: if_splits)

lemma validated_lengths:
  assumes "sp_validate_request q = Inr u"
  shows "length (ctx_instance_id (spr_context q)) \<in> {1..128}" and "length (spr_operation_id q) \<in> {1..128}"
proof -
  have "context_validate (spr_context q) = Inr ()" using assms by (auto simp: sp_validate_request_def and_then_eq_Inr)
  then show "length (ctx_instance_id (spr_context q)) \<in> {1..128}"
    by (auto simp: context_validate_def SAVE_PROFILE_MAX_IDENTITY_BYTES_def dest: valid_identity_length split: if_splits)
  have "spr_operation_id q \<noteq> []" "length (spr_operation_id q) \<le> 128"
    using assms by (auto simp: sp_validate_request_def and_then_eq_Inr SAVE_PROFILE_MAX_OPERATION_BYTES_def split: if_splits)
  then show "length (spr_operation_id q) \<in> {1..128}" by (cases "spr_operation_id q") auto
qed

definition journal_good :: "(sp_stored, 'b) codec \<Rightarrow> 'b row list \<Rightarrow> bool" where
  "journal_good K rows \<longleftrightarrow> \<not> is_err (sp_decode_rows K [] rows) \<and> distinct (map row_key rows)"

definition journal_content :: "(sp_stored, 'b) codec \<Rightarrow> 'b row list \<Rightarrow> sp_key \<Rightarrow> sp_record option" where
  "journal_content K rows = (case sp_decode_rows K [] rows of Inl _ \<Rightarrow> Map.empty | Inr rs \<Rightarrow> by_key sp_record_key rs)"

lemma journal_goodE:
  assumes "journal_good K rows"
  obtains rs where "sp_decode_rows K [] rows = Inr rs" "map sp_record_key rs = map row_key rows"
    "distinct (map sp_record_key rs)" "journal_content K rows = by_key sp_record_key rs"
proof (cases "sp_decode_rows K [] rows")
  case (Inr rs)
  then have "map sp_record_key rs = map row_key rows" by (auto simp: decode_rows_all intro: rows_keys)
  with Inr assms show ?thesis by (intro that) (simp_all add: journal_good_def journal_content_def)
qed (use assms in \<open>simp add: journal_good_def\<close>)

lemma decode_rows_Cons:
  assumes "sp_decode_rows K [] rows = Inr rs" and "row_holds K row r" and "\<forall>old \<in> set rs. instance_of old = instance_of r"
  shows "sp_decode_rows K [] (row # rows) = Inr (r # rs)"
  using assms unfolding decode_rows_all by auto

lemma decode_rows_set_body:
  assumes "sp_decode_rows K [] rows = Inr rs" and "row_holds K row r"
  shows "sp_decode_rows K [] (set_body row rows) = Inr (map (\<lambda>x. if sp_record_key x = sp_record_key r then r else x) rs)"
proof -
  let ?u = "\<lambda>x. if sp_record_key x = sp_record_key r then r else x"
  from assms have rs: "list_all2 (row_holds K) rows rs" "\<forall>t \<in> set rs. instance_of t = instance_of (hd rs)"
    unfolding decode_rows_all by blast+
  have key: "sp_record_key r = row_key row" using assms(2) by (simp add: row_holds_def)
  have "row_holds K (if row_key old = row_key row then row else old) (?u x)" if "row_holds K old x" for old x
  proof -
    have "sp_record_key x = row_key old" using that by (simp add: row_holds_def)
    with that assms(2) key show ?thesis by simp
  qed
  then have "list_all2 (row_holds K) (set_body row rows) (map ?u rs)"
    unfolding set_body_def list_all2_map1 list_all2_map2 using rs(1) by (rule list_all2_mono [rotated])
  moreover have "instance_of t = instance_of (hd (map ?u rs))" if t: "t \<in> set (map ?u rs)" for t
  proof -
    have same: "instance_of (?u x) = instance_of x" for x by (simp add: sp_record_key_def)
    from t obtain x where x: "x \<in> set rs" "t = ?u x" unfolding set_map by blast
    then have hd: "hd (map ?u rs) = ?u (hd rs)" by (cases rs) simp_all
    have "instance_of t = instance_of x" by (simp only: x(2) same)
    also have "\<dots> = instance_of (hd rs)" using rs(2) x(1) by blast
    also have "\<dots> = instance_of (hd (map ?u rs))" by (simp only: hd same)
    finally show ?thesis .
  qed
  ultimately show ?thesis unfolding decode_rows_all by blast
qed

section \<open>The store over a connection\<close>

locale operation_journal = sql_connection Q table saved + json_codec K
  for Q :: "('b, 'c) sql" and table saved :: "'c \<Rightarrow> 'b row list" and K :: "(sp_stored, 'b) codec"
begin

lemma sp_decode_encode:
  assumes "sp_encode K r = Inr b"
  shows "sp_decode K b = Inr r"
proof -
  have "from_json K b = Some (stored_of r)" using assms by (auto simp: checks intro: reads_back)
  with assms show ?thesis
    by (cases r) (simp add: sp_decode_def stored_of_def checks not_less Let_def)
qed

lemma sp_row_holds:
  assumes "sp_encode K r = Inr b"
  shows "row_holds K (sp_row r b) r"
proof -
  have "sp_validate_request (rcd_request r) = Inr ()" "rcd_operation_id r = spr_operation_id (rcd_request r)"
    using assms by (auto simp: sp_record_validate_def checks split: if_splits)
  with validated_lengths [of "rcd_request r"] sp_decode_encode [OF assms] assms show ?thesis
    by (simp add: row_holds_def sp_row_def sp_record_key_def checks)
qed

lemma within_ensure_owner: "within (sp_ensure_owner Q) (\<lambda>_ u v. v = u)"
proof -
  have "within (and_try (db (sql_verify Q)) (\<lambda>_. and_try (db (sql_owners Q)) (\<lambda>stored. pure (f stored)))) (\<lambda>_ u v. v = u)"
    for f :: "token list \<Rightarrow> sp_ledger_error + unit"
  proof (intro within_try)
    show "within (db (sql_verify Q)) (\<lambda>_ u v. v = u)"
      by (rule within_step) (auto dest: verifies)
    show "within (db (sql_owners Q)) (\<lambda>_ u v. v = u)"
      by (rule within_step) (auto dest: owners)
    show "within (pure (f stored)) (\<lambda>_ u v. v = u)" for stored
      by (rule within_pure) simp
  qed auto
  then show ?thesis unfolding within_def sp_ensure_owner_def by blast
qed

lemma within_read_records:
  "within (sp_read_records Q K) (\<lambda>rs u v. v = u \<and> sp_decode_rows K [] u = Inr rs)"
  unfolding sp_read_records_def
proof (rule within_try)
  show "within (db (sql_count Q)) (\<lambda>n u v. v = u)"
    by (rule within_step) (auto dest: counts)
  show "within (if SAVE_PROFILE_OPERATION_CAPACITY < n then pure (Inl CapacityExceeded)
      else and_try (db (sql_newest_first Q)) (\<lambda>rows. pure (sp_decode_rows K [] rows)))
    (\<lambda>rs u v. v = u \<and> sp_decode_rows K [] u = Inr rs)" for n
  proof (intro within_if within_fail within_try)
    show "within (db (sql_newest_first Q)) (\<lambda>rows u v. v = u \<and> rows = u)"
      by (rule within_step) (auto dest: reads newest_first)
    show "within (pure (sp_decode_rows K [] rows)) (\<lambda>rs u v. v = u \<and> sp_decode_rows K [] rows = Inr rs)" for rows
      by (rule within_pure) simp
  qed auto
qed auto

lemma within_verify_write: "within (sp_verify_write Q r b) (\<lambda>_ u v. v = u)"
  unfolding sp_verify_write_def
proof (rule within_try)
  show "within (db (sql_body Q (sp_record_key r))) (\<lambda>_ u v. v = u)"
    by (rule within_step) (auto dest: reads_body)
  show "within (pure (ensure (actual = b) PersistenceFailed)) (\<lambda>_ u v. v = u)" for actual
    by (rule within_pure) simp
qed auto

lemma list_rows:
  assumes "sp_journal_list Q K s = (x, t)"
  shows "saved_rows t = saved_rows s \<and> (\<forall>rs. x = Inr rs \<longrightarrow> sp_decode_rows K [] (saved_rows s) = Inr rs)"
proof -
  have body: "within (and_try (sp_ensure_owner Q) (\<lambda>_. sp_read_records Q K)) (\<lambda>rs u v. v = u \<and> sp_decode_rows K [] u = Inr rs)"
    by (rule within_try [OF within_ensure_owner within_read_records]) simp
  show ?thesis
  proof (cases x)
    case (Inl e)
    with assms transact_keeps [OF body] show ?thesis by (simp add: sp_journal_list_def)
  next
    case (Inr rs)
    with assms transact_commits [OF body] show ?thesis by (simp add: sp_journal_list_def)
  qed
qed

lemma within_transaction:
  assumes "\<And>rs. within (f rs) (R rs)"
  shows "within (and_try (sp_ensure_owner Q) (\<lambda>_. and_try (sp_read_records Q K) f))
     (\<lambda>a u v. \<exists>rs. sp_decode_rows K [] u = Inr rs \<and> R rs a u v)"
  by (rule within_try [OF within_ensure_owner within_try [OF within_read_records assms, where T = "\<lambda>a u v. \<exists>rs. sp_decode_rows K [] u = Inr rs \<and> R rs a u v"]]) auto

lemma within_written:
  fixes f :: "'c \<Rightarrow> nat option \<times> 'c"
  assumes "within (db f :: ('c, 'u) journal \<Rightarrow> _) (\<lambda>changed u v. changed = 1 \<longrightarrow> R u v)"
  shows "within (and_try (db f :: ('c, 'u) journal \<Rightarrow> _) (\<lambda>changed. if changed \<noteq> 1 then pure (Inl e) else sp_verify_write Q r b)) (\<lambda>_. R)"
proof (rule within_try [OF assms])
  show "within (if changed \<noteq> 1 then pure (Inl e) else sp_verify_write Q r b) (\<lambda>_ u v. changed = 1 \<and> v = u)" for changed :: nat
    by (intro within_if within_fail) (use within_verify_write [of r b] in \<open>simp add: within_def\<close>)
qed simp

lemma within_insert_row:
  "within (sp_insert_row Q r b rs) (\<lambda>_ u v. v = sp_row r b # u
     \<and> (\<forall>old \<in> set rs. instance_of old = instance_of r \<and> sp_record_key old \<noteq> sp_record_key r))"
proof -
  have "within (db (sql_insert Q (sp_row r b))) (\<lambda>changed u v. changed = 1 \<longrightarrow> v = sp_row r b # u)"
    by (rule within_step) (auto dest: inserts)
  note written = within_written [OF this, of PersistenceFailed r b]
  show ?thesis
    unfolding sp_insert_row_def
    by (intro within_if within_fail; rule within_weaken [OF written]) (auto simp: list_ex_iff sp_record_key_def)
qed

lemma within_update_row:
  "within (sp_update_row Q r b rs) (\<lambda>_ u v. v = set_body (sp_row r b) u \<and> sp_record_key r \<in> sp_record_key ` set rs)"
proof (cases "find (\<lambda>old. rcd_operation_id old = rcd_operation_id r \<and> instance_of old = instance_of r) rs")
  case None
  then show ?thesis by (simp add: sp_update_row_def within_fail)
next
  case (Some previous)
  then have key: "sp_record_key r \<in> sp_record_key ` set rs"
    by (auto simp: sp_record_key_def intro!: image_eqI [of _ _ previous] dest!: find_SomeD)
  have "within (db (sql_update Q (sp_row r b))) (\<lambda>changed u v. changed = 1 \<longrightarrow> v = set_body (sp_row r b) u)"
    by (rule within_step) (auto dest: updates)
  note written = within_written [OF this, of OperationNotFound r b]
  have "within (pure (sp_validate_update previous r)) (\<lambda>_ u v. v = u)"
    by (rule within_pure) simp
  from within_try [OF this written, where T = "\<lambda>_ u v. v = set_body (sp_row r b) u"] key show ?thesis
    by (auto simp: sp_update_row_def Some intro: within_weaken)
qed

lemma insert_rows:
  assumes "sp_journal_insert Q K r s = (x, t)"
  obtains e where "x = Inl e" "saved_rows t = saved_rows s"
  | b rs where "x = Inr ()" "row_holds K (sp_row r b) r" "saved_rows t = sp_row r b # saved_rows s"
      "sp_decode_rows K [] (saved_rows s) = Inr rs"
      "\<forall>old \<in> set rs. instance_of old = instance_of r \<and> sp_record_key old \<noteq> sp_record_key r"
proof (cases "sp_encode K r")
  case (Inl e)
  with assms that(1) show ?thesis by (auto simp: sp_journal_insert_def)
next
  case (Inr b)
  note body = within_transaction [where f = "sp_insert_row Q r b", OF within_insert_row]
  show ?thesis
  proof (cases x)
    case (Inl e)
    with assms Inr transact_keeps [OF body] show ?thesis
      by (intro that(1)) (auto simp: sp_journal_insert_def split: if_splits)
  next
    case (Inr u)
    with assms \<open>sp_encode K r = Inr b\<close> have "transact Q PersistenceFailed
        (and_try (sp_ensure_owner Q) (\<lambda>_. and_try (sp_read_records Q K) (sp_insert_row Q r b))) s = (Inr (), t)"
      by (auto simp: sp_journal_insert_def split: if_splits)
    from transact_commits [OF body this] obtain rs where "sp_decode_rows K [] (saved_rows s) = Inr rs"
        "saved_rows t = sp_row r b # saved_rows s" "\<forall>old \<in> set rs. instance_of old = instance_of r \<and> sp_record_key old \<noteq> sp_record_key r"
      by blast
    with Inr sp_row_holds [OF \<open>sp_encode K r = Inr b\<close>] show ?thesis by (intro that(2)) simp_all
  qed
qed

lemma update_rows:
  assumes "sp_journal_update Q K r s = (x, t)"
  obtains e where "x = Inl e" "saved_rows t = saved_rows s"
  | b rs where "x = Inr ()" "row_holds K (sp_row r b) r" "saved_rows t = set_body (sp_row r b) (saved_rows s)"
      "sp_decode_rows K [] (saved_rows s) = Inr rs" "sp_record_key r \<in> sp_record_key ` set rs"
proof (cases "sp_encode K r")
  case (Inl e)
  with assms that(1) show ?thesis by (auto simp: sp_journal_update_def)
next
  case (Inr b)
  note body = within_transaction [where f = "sp_update_row Q r b", OF within_update_row]
  show ?thesis
  proof (cases x)
    case (Inl e)
    with assms Inr transact_keeps [OF body] show ?thesis
      by (intro that(1)) (auto simp: sp_journal_update_def)
  next
    case (Inr u)
    with assms \<open>sp_encode K r = Inr b\<close> have "transact Q PersistenceFailed
        (and_try (sp_ensure_owner Q) (\<lambda>_. and_try (sp_read_records Q K) (sp_update_row Q r b))) s = (Inr (), t)"
      by (auto simp: sp_journal_update_def)
    from transact_commits [OF body this] obtain rs where "sp_decode_rows K [] (saved_rows s) = Inr rs"
        "saved_rows t = set_body (sp_row r b) (saved_rows s)" "sp_record_key r \<in> sp_record_key ` set rs"
      by blast
    with Inr sp_row_holds [OF \<open>sp_encode K r = Inr b\<close>] show ?thesis by (intro that(2)) simp_all
  qed
qed

lemma open_rows:
  fixes s :: "('c, 'u) journal"
  assumes "sp_journal_open Q K new_uuid s = (x, t)"
  shows "saved_rows t = saved_rows s"
proof -
  obtain tok u where uuid: "new_uuid (jn_uuids s) = (tok, u)" by (cases "new_uuid (jn_uuids s)")
  let ?body = "and_try (db (sql_initialize Q)) (\<lambda>_. and_try (db (sql_verify Q)) (\<lambda>_. and_try (sp_read_records Q K) (\<lambda>_.
    and_try (db (sql_own Q tok)) (\<lambda>changed. if changed \<noteq> 1 then pure (Inl PersistenceFailed) else sp_ensure_owner Q)))) :: ('c, 'u) journal \<Rightarrow> _"
  have own: "within (and_try (db (sql_own Q tok)) (\<lambda>changed. if changed \<noteq> 1 then pure (Inl PersistenceFailed) else sp_ensure_owner Q))
      (\<lambda>_ u v. v = u)"
  proof (rule within_try)
    show "within (db (sql_own Q tok)) (\<lambda>_ u v. v = u)" by (rule within_step) (auto dest: owns)
    show "within (if changed \<noteq> 1 then pure (Inl PersistenceFailed) else sp_ensure_owner Q) (\<lambda>_ u v. v = u)" for changed
      by (intro within_if within_fail within_ensure_owner)
  qed simp
  have init: "within (db (sql_initialize Q)) (\<lambda>_ u v. v = u)" by (rule within_step) (auto dest: initializes)
  have ver: "within (db (sql_verify Q)) (\<lambda>_ u v. v = u)" by (rule within_step) (auto dest: verifies)
  have body: "within ?body (\<lambda>_ u v. v = u)"
    by (rule within_try [OF init within_try [OF ver within_try [OF within_read_records own]]]) auto
  have "and_try (db (sql_configure Q)) (\<lambda>_. transact Q PersistenceFailed ?body) (s\<lparr>jn_token := tok, jn_uuids := u\<rparr>) = (x, t)"
    using assms uuid by (simp add: sp_journal_open_def)
  then show ?thesis
  proof (cases rule: and_try_cases)
    case (1 e)
    then show ?thesis by (auto elim!: sql_step_cases dest: configure)
  next
    case (2 a v)
    have v: "saved_rows v = saved_rows s" using 2(1) by (auto elim!: sql_step_cases dest: configure)
    show ?thesis
    proof (cases x)
      case (Inl e)
      with 2(2) transact_keeps [OF body] v show ?thesis by simp
    next
      case (Inr u)
      with 2(2) transact_commits [OF body] v show ?thesis by simp
    qed
  qed
qed

lemma insert_law:
  assumes "journal_good K (saved_rows s)" and "sp_journal_insert Q K r s = (Inr u, t)"
  shows "journal_good K (saved_rows t)" and "journal_content K (saved_rows s) (sp_record_key r) = None"
    and "journal_content K (saved_rows t) = (journal_content K (saved_rows s))(sp_record_key r \<mapsto> r)"
    and "map row_key (saved_rows t) = sp_record_key r # map row_key (saved_rows s)"
proof -
  from assms(2) obtain b rs where row: "row_holds K (sp_row r b) r" and t: "saved_rows t = sp_row r b # saved_rows s"
      and rs: "sp_decode_rows K [] (saved_rows s) = Inr rs"
      and old: "\<forall>old \<in> set rs. instance_of old = instance_of r \<and> sp_record_key old \<noteq> sp_record_key r"
    by (rule insert_rows) simp_all
  from assms(1) rs have keys: "map sp_record_key rs = map row_key (saved_rows s)"
      and content: "journal_content K (saved_rows s) = by_key sp_record_key rs" and dist: "distinct (map row_key (saved_rows s))"
    by (auto elim!: journal_goodE)
  have key: "row_key (sp_row r b) = sp_record_key r" by (simp add: sp_row_def sp_record_key_def)
  have new: "sp_record_key r \<notin> sp_record_key ` set rs" using old by auto
  have decoded: "sp_decode_rows K [] (saved_rows t) = Inr (r # rs)"
    unfolding t using rs row old by (intro decode_rows_Cons) auto
  show order: "map row_key (saved_rows t) = sp_record_key r # map row_key (saved_rows s)" by (simp add: t key)
  have "sp_record_key r \<notin> set (map row_key (saved_rows s))" using new by (simp flip: keys)
  with dist order decoded show "journal_good K (saved_rows t)" by (simp add: journal_good_def)
  show "journal_content K (saved_rows s) (sp_record_key r) = None" using new by (simp add: content by_key_None)
  show "journal_content K (saved_rows t) = (journal_content K (saved_rows s))(sp_record_key r \<mapsto> r)"
    unfolding content by (rule ext) (simp add: journal_content_def decoded by_key_Cons)
qed

lemma set_body_keys: "map row_key (set_body row rows) = map row_key rows"
  by (simp add: set_body_def)

lemma update_law:
  assumes "journal_good K (saved_rows s)" and "sp_journal_update Q K r s = (Inr u, t)"
  shows "journal_good K (saved_rows t)" and "journal_content K (saved_rows s) (sp_record_key r) \<noteq> None"
    and "journal_content K (saved_rows t) = (journal_content K (saved_rows s))(sp_record_key r \<mapsto> r)"
    and "map row_key (saved_rows t) = map row_key (saved_rows s)"
proof -
  from assms(2) obtain b rs where row: "row_holds K (sp_row r b) r" and t: "saved_rows t = set_body (sp_row r b) (saved_rows s)"
      and rs: "sp_decode_rows K [] (saved_rows s) = Inr rs" and held: "sp_record_key r \<in> sp_record_key ` set rs"
    by (rule update_rows) simp_all
  have content: "journal_content K (saved_rows s) = by_key sp_record_key rs" by (simp add: journal_content_def rs)
  have decoded: "sp_decode_rows K [] (saved_rows t) = Inr (map (\<lambda>x. if sp_record_key x = sp_record_key r then r else x) rs)"
    unfolding t using rs row by (rule decode_rows_set_body)
  show order: "map row_key (saved_rows t) = map row_key (saved_rows s)" by (simp only: t set_body_keys)
  show "journal_good K (saved_rows t)" using assms(1) unfolding journal_good_def order by (simp add: decoded)
  show "journal_content K (saved_rows s) (sp_record_key r) \<noteq> None" using held unfolding content by_key_None by simp
  show "journal_content K (saved_rows t) = (journal_content K (saved_rows s))(sp_record_key r \<mapsto> r)"
    unfolding content using held by (intro ext) (simp add: journal_content_def decoded by_key_replace)
qed

end

text \<open>The store keeps the contract of a journal.\<close>

sublocale operation_journal \<subseteq> store: newest_first_store "operation_store Q K new_uuid" sp_record_key
    "\<lambda>s. journal_content K (saved (jn_connection s))" "\<lambda>s. journal_good K (saved (jn_connection s))"
    "\<lambda>s. map row_key (saved (jn_connection s))"
  for new_uuid :: "'u \<Rightarrow> token \<times> 'u"
proof (unfold_locales, goal_cases)
  case (1 s y t)
  then show ?case using open_rows [of new_uuid s y t] by (simp add: operation_store_def)
next
  case (2 s rs t)
  then show ?case using list_rows [of s "Inr rs" t] by (auto simp: operation_store_def elim!: journal_goodE)
next
  case (3 s e t)
  then show ?case using list_rows [of s "Inl e" t] by (simp add: operation_store_def)
next
  case (4 s r u t)
  then show ?case using insert_law [of s r u t] by (simp add: operation_store_def)
next
  case (5 s r e t)
  from 5(2) have "sp_journal_insert Q K r s = (Inl e, t)" by (simp add: operation_store_def)
  with 5(1) show ?case by (auto elim: insert_rows)
next
  case (6 s r u t)
  then show ?case using update_law [of s r u t] by (simp add: operation_store_def)
next
  case (7 s r e t)
  from 7(2) have "sp_journal_update Q K r s = (Inl e, t)" by (simp add: operation_store_def)
  with 7(1) show ?case by (auto elim: update_rows)
next
  case (8 s)
  then obtain rs where rs: "map sp_record_key rs = map row_key (saved_rows s)" "distinct (map sp_record_key rs)"
      "journal_content K (saved_rows s) = by_key sp_record_key rs"
    by (rule journal_goodE)
  then show ?case by (simp only: dom_by_key)
next
  case (9 s y t)
  then show ?case using open_rows [of new_uuid s y t] by (simp add: operation_store_def)
next
  case (10 s x t)
  then have rows: "saved_rows t = saved_rows s \<and> (\<forall>rs. x = Inr rs \<longrightarrow> sp_decode_rows K [] (saved_rows s) = Inr rs)"
    using list_rows [of s x t] by (simp add: operation_store_def)
  have "map sp_record_key rs = map row_key (saved_rows s)" if "x = Inr rs" for rs
    using rows that by (auto simp: decode_rows_all intro: rows_keys)
  then show ?case using rows by simp
next
  case (11 s r y t)
  then have run: "sp_journal_insert Q K r s = (y, t)" by (simp add: operation_store_def)
  show ?case
  proof (cases y)
    case (Inl e)
    with run show ?thesis by (auto elim: insert_rows)
  next
    case (Inr u)
    with run insert_law(4) [OF 11(1), of r u t] show ?thesis by simp
  qed
next
  case (12 s r y t)
  then have run: "sp_journal_update Q K r s = (y, t)" by (simp add: operation_store_def)
  show ?case
  proof (cases y)
    case (Inl e)
    with run show ?thesis by (auto elim: update_rows)
  next
    case (Inr u)
    with run update_law(4) [OF 12(1), of r u t] show ?thesis by simp
  qed
qed

end
