(* ===== verification/Save_Profile_Properties.thy ===== *)
theory Save_Profile_Properties
  imports Save_Profile_Journal
begin

text \<open>
  The properties of the save-profile ledger, over every host port and every store that keeps its
  contract, and their instances: the ledger over the store in memory, and over a journal on a SQL
  connection.
\<close>

section \<open>The ledger over the stores of the program\<close>

definition in_memory :: "('f, sp_memory_store) sp_env \<Rightarrow> ('f, sp_memory_store) sp_env" where
  "in_memory E = E\<lparr>spe_store := sp_memory\<rparr>"

interpretation sp_memory_service: sp_service sp_memory bm_get "keyed_map sp_record_key" "in_memory E"
  for E :: "('f, sp_memory_store) sp_env"
  unfolding sp_memory_def by unfold_locales (simp add: in_memory_def sp_memory_def)

definition on_tables :: "(sp_stored \<Rightarrow> int) \<Rightarrow> ('u \<Rightarrow> token \<times> 'u) \<Rightarrow> ('f, (sp_stored tables, 'u) journal) sp_env
    \<Rightarrow> ('f, (sp_stored tables, 'u) journal) sp_env" where
  "on_tables len new_uuid E = E\<lparr>spe_store := operation_store table_sql (plain_codec len) new_uuid\<rparr>"

interpretation sp_table_journal: operation_journal table_sql tb_rows saved_table "plain_codec len"
  for len :: "sp_stored \<Rightarrow> int"
  by unfold_locales

interpretation sp_table_ledger: sp_journal "operation_store table_sql (plain_codec len) new_uuid"
    "\<lambda>s. journal_content (plain_codec len) (saved_table (jn_connection s))"
    "\<lambda>s. journal_good (plain_codec len) (saved_table (jn_connection s))"
    "on_tables len new_uuid E" "\<lambda>s. map row_key (saved_table (jn_connection s))"
  for len :: "sp_stored \<Rightarrow> int" and new_uuid :: "'u \<Rightarrow> token \<times> 'u" and E :: "('f, (sp_stored tables, 'u) journal) sp_env"
  by unfold_locales (simp add: on_tables_def)

text \<open>What the locales derive, for any environment that meets their contracts.\<close>

context sp_service
begin

lemmas forwarded_once = once.run_distinct
lemmas selection_kept = selecting.run_keeps

end

context sp_journal
begin

lemmas selects_kept = restarting.run_keeps

end

context operation_journal
begin

lemma journal_contract:
  "newest_first_store (operation_store Q K new_uuid) sp_record_key (\<lambda>s. journal_content K (saved (jn_connection s)))
     (\<lambda>s. journal_good K (saved (jn_connection s))) (\<lambda>s. map row_key (saved (jn_connection s)))"
  by (rule store.newest_first_store_axioms)

end

lemma sp_serviceI: "keyed_store (spe_store E) sp_record_key content good \<Longrightarrow> sp_service (spe_store E) content good E"
  by (simp add: sp_service_def sp_service_axioms_def)

lemma sp_journalI:
  assumes "operation_journal Q table saved K" and "spe_store E = operation_store Q K new_uuid"
  shows "sp_journal (operation_store Q K new_uuid) (\<lambda>s. journal_content K (saved (jn_connection s)))
    (\<lambda>s. journal_good K (saved (jn_connection s))) E (\<lambda>s. map row_key (saved (jn_connection s)))"
proof -
  note journal = operation_journal.journal_contract [OF assms(1), of new_uuid]
  then have "keyed_store (operation_store Q K new_uuid) sp_record_key (\<lambda>s. journal_content K (saved (jn_connection s)))
      (\<lambda>s. journal_good K (saved (jn_connection s)))"
    by (rule newest_first_store.axioms(1))
  with journal assms(2) show ?thesis
    by (simp add: sp_journal_def sp_service_def sp_service_axioms_def)
qed

text \<open>In a list whose elements are all equal and distinct there is at most one.\<close>

lemma distinct_all_equal:
  assumes "distinct xs" and "\<And>x y. x \<in> set xs \<Longrightarrow> y \<in> set xs \<Longrightarrow> x = y"
  shows "xs = [] \<or> (\<exists>x. xs = [x])"
proof (cases xs)
  case (Cons a ys)
  have "ys = []"
  proof (cases ys)
    case (Cons b zs)
    with assms(2) [of a b] assms(1) \<open>xs = a # ys\<close> show ?thesis by simp
  qed
  with Cons show ?thesis by simp
qed simp

lemma keyed_values_distinct:
  assumes "\<And>k r. bm_get m k = Some r \<Longrightarrow> key r = k"
  shows "distinct (bm_values m)"
proof -
  have "map key (bm_values m) = bm_keys m"
    unfolding bm_values_def bm_keys_def by (auto simp: bm.entries_get assms)
  then have "distinct (map key (bm_values m))" by (simp add: bm_keys_def bm.entries_distinct_keys)
  then show ?thesis by (simp add: distinct_map)
qed

section \<open>A select that times out\<close>

definition sp_demo_context :: save_profile_context where
  "sp_demo_context = \<lparr>ctx_instance_id = ''i'', ctx_caller_id = ''c'', ctx_session_id = ''s'', ctx_lease_id = ''l'',
     ctx_lease_epoch = 1, ctx_correlation_id = ''x''\<rparr>"

definition sp_demo_authority :: save_profile_authority where
  "sp_demo_authority = \<lparr>aut_instance_id = ''i'', aut_caller_id = ''c'', aut_session_id = ''s'', aut_lease_id = ''l'',
     aut_lease_epoch = 1, aut_expires_at_millis = None\<rparr>"

definition sp_demo_baseline :: sp_baseline where
  "sp_demo_baseline = \<lparr>bas_identity = ''b'', bas_digest = replicate 64 CHR ''a''\<rparr>"

definition sp_demo_select :: sp_request where
  "sp_demo_select = \<lparr>spr_operation_id = ''o'', spr_context = sp_demo_context, spr_route = RouteSelect,
     spr_operation = OpSelect ''p'' sp_demo_baseline, spr_body = [1]\<rparr>"

text \<open>A host that is too slow to answer a select, and finds it settled when asked again.\<close>

definition sp_demo_env :: "'s sp_store \<Rightarrow> (unit, 's) sp_env" where
  "sp_demo_env st = \<lparr>
     spe_forward = (\<lambda>f q. (Inl TimeoutAfterWrite, f)),
     spe_lookup = (\<lambda>f q. (Inr (Some \<lparr>rsp_operation_id = spr_operation_id q, rsp_context = spr_context q,
       rsp_route = spr_route q, rsp_status = Settled, rsp_body = [], rsp_profile_id = Some ''p'',
       rsp_baseline = Some sp_demo_baseline, rsp_user_data = None, rsp_reason = None\<rparr>), f)),
     spe_store = st\<rparr>"

text \<open>A start, a submission, and a reconciliation.\<close>

definition sp_demo_started :: "('f, 's) sp_env \<Rightarrow> 'f \<Rightarrow> 's \<Rightarrow> ('f, 's) sp_ledger" where
  "sp_demo_started E f s = projr (fst (sp_start E 4 sp_demo_authority f s))"

definition sp_demo_submitted :: "('f, 's) sp_env \<Rightarrow> ('f, 's) sp_ledger \<Rightarrow> ('f, 's) sp_ledger" where
  "sp_demo_submitted E L = snd (sp_submit E sp_demo_select 5 False L)"

definition sp_demo_reconciled :: "('f, 's) sp_env \<Rightarrow> ('f, 's) sp_ledger \<Rightarrow> ('f, 's) sp_ledger" where
  "sp_demo_reconciled E L = snd (sp_reconcile E sp_demo_context ''o'' 6 L)"

lemma sp_demo_start:
  "\<not> isl (fst (sp_start E 4 sp_demo_authority f s)) \<Longrightarrow>
    sp_start E 4 sp_demo_authority f s = (Inr (sp_demo_started E f s), snd (sp_start E 4 sp_demo_authority f s))"
  by (simp add: sp_demo_started_def prod_eq_iff)

lemma sp_demo_run: "(sp_step E)\<^sup>*\<^sup>* L (sp_demo_submitted E L)"
    "(sp_step E)\<^sup>*\<^sup>* L (sp_demo_reconciled E (sp_demo_submitted E L))"
proof -
  have submit: "sp_step E L (sp_demo_submitted E L)"
    unfolding sp_demo_submitted_def by (rule sp_step.submit, rule prod.collapse [symmetric])
  have "sp_step E (sp_demo_submitted E L) (sp_demo_reconciled E (sp_demo_submitted E L))"
    unfolding sp_demo_reconciled_def by (rule sp_step.reconcile, rule prod.collapse [symmetric])
  with submit show "(sp_step E)\<^sup>*\<^sup>* L (sp_demo_submitted E L)"
      "(sp_step E)\<^sup>*\<^sup>* L (sp_demo_reconciled E (sp_demo_submitted E L))"
    by auto
qed

lemma sp_memory_contract: "keyed_store (spe_store (sp_demo_env sp_memory)) sp_record_key bm_get (keyed_map sp_record_key)"
  using sp_memory_service.keyed_store_axioms by (simp add: sp_demo_env_def)

definition sp_demo_store :: "(sp_stored tables, unit) journal sp_store" where
  "sp_demo_store = operation_store table_sql (plain_codec (\<lambda>_. 0)) (\<lambda>u. ([1], u))"

definition sp_demo_journal :: "(sp_stored tables, unit) journal" where
  "sp_demo_journal = \<lparr>jn_connection = \<lparr>tb_saved = ([], []), tb_rows = [], tb_owners = [], tb_faults = []\<rparr>,
     jn_token = [], jn_uuids = ()\<rparr>"

definition sp_demo_settled :: "(unit, (sp_stored tables, unit) journal) sp_ledger" where
  "sp_demo_settled = (let E = sp_demo_env sp_demo_store in
     sp_demo_reconciled E (sp_demo_submitted E (sp_demo_started E () sp_demo_journal)))"

section \<open>Properties\<close>

text \<open>
  C9. No save-profile operation is forwarded to the game host twice. Over every host port and every
  record store that holds what it acknowledged, along any sequence of submissions, reconciliations,
  disconnections, changes of authority and restarts of the gateway on the same store (with any
  number of failed starts in between), the operations forwarded are pairwise distinct.
\<close>

theorem save_profile_at_most_once:
  assumes "keyed_store (spe_store E) sp_record_key content good" and "good s"
    and "sp_start (sp_recording E) capacity a (f, []) s = (Inr L, t)"
    and "(sp_step (sp_recording E))\<^sup>*\<^sup>* L M"
  shows "distinct (sp_forwards M)"
proof -
  from assms(1) have service: "sp_service (spe_store E) content good E" by (rule sp_serviceI)
  have "sp_mirrored content good L"
    using sp_service.restored [OF sp_service.recording_service [OF service] assms(2,3)] by simp
  moreover have "sp_forwards L = []" using assms(3) by (auto elim!: sp_start_cases)
  ultimately show ?thesis
    using sp_service.forwarded_once [OF service run_moves [OF assms(4)]] by simp
qed

theorem save_profile_at_most_once_witness:
  "distinct [(''i'', ''o'') :: sp_key]"
proof -
  let ?E = "sp_demo_env sp_memory"
  have forwards: "sp_forwards (sp_demo_submitted (sp_recording ?E) (sp_demo_started (sp_recording ?E) ((), []) bm_empty)) = [(''i'', ''o'')]"
    by code_simp
  have "\<not> isl (fst (sp_start (sp_recording ?E) 4 sp_demo_authority ((), []) bm_empty))" by code_simp
  from save_profile_at_most_once [OF sp_memory_contract _ sp_demo_start [OF this] sp_demo_run(1)] forwards
  show ?thesis by (simp add: keyed_map_def)
qed

text \<open>
  C10. At most one selection is open at a time, and the ledger knows it. Along any run from a start on
  an empty store, over every host port and every record store that holds what it acknowledged, the
  records of select operations without a final answer are none when no selection is pending, and
  exactly the one that the pending selection names otherwise.
\<close>

theorem save_profile_one_open_selection:
  assumes "keyed_store (spe_store E) sp_record_key content good" and "good s" and "content s = Map.empty"
    and "sp_start E capacity a f s = (Inr L, t)" and "(sp_step E)\<^sup>*\<^sup>* L M"
  shows "map rcd_operation_id (filter open_selection (bm_values (spl_records M)))
    = (case spl_pending_selection M of None \<Rightarrow> [] | Some operation_id \<Rightarrow> [operation_id])"
proof -
  from assms(1) have service: "sp_service (spe_store E) content good E" by (rule sp_serviceI)
  have M: "sp_mirrored content good M" "selection_ok M"
    using sp_service.selection_kept [OF service run_moves [OF assms(5)]]
      sp_service.start_empty(1) [OF service assms(2-4)] by simp_all
  let ?open = "filter open_selection (bm_values (spl_records M))"
  have mem: "r \<in> set ?open \<longleftrightarrow> (\<exists>k. bm_get (spl_records M) k = Some r) \<and> open_selection r" for r
    unfolding bm_values_def by (simp add: bm.set_values)
  have "distinct ?open"
    by (rule distinct_filter, rule keyed_values_distinct [where key = sp_record_key], rule mirrored_keyed [OF M(1)])
  moreover have "r = r'" if "r \<in> set ?open" "r' \<in> set ?open" for r r'
    using that selection_unique [OF M(2)] unfolding mem by blast
  ultimately consider "?open = []" | r where "?open = [r]" using distinct_all_equal by blast
  then show ?thesis
  proof cases
    case 1
    have "spl_pending_selection M = None"
    proof (rule ccontr)
      assume "spl_pending_selection M \<noteq> None"
      then obtain oid where "spl_pending_selection M = Some oid" by blast
      from selection_pending [OF M(2) this] mem 1 show False by (metis empty_iff list.set(1))
    qed
    with 1 show ?thesis by simp
  next
    case (2 r)
    with mem [of r] obtain k where k: "bm_get (spl_records M) k = Some r" "open_selection r" by auto
    from selection_open [OF M(2) k] 2 show ?thesis by simp
  qed
qed

theorem save_profile_one_open_selection_witness:
  "(let M = sp_demo_submitted (sp_demo_env sp_memory) (sp_demo_started (sp_demo_env sp_memory) () bm_empty) in
     map rcd_operation_id (filter open_selection (bm_values (spl_records M))) = [''o''])"
proof -
  let ?E = "sp_demo_env sp_memory"
  have pending: "spl_pending_selection (sp_demo_submitted ?E (sp_demo_started ?E () bm_empty)) = Some ''o''" by code_simp
  have "\<not> isl (fst (sp_start ?E 4 sp_demo_authority () bm_empty))" by code_simp
  from save_profile_one_open_selection [OF sp_memory_contract _ _ sp_demo_start [OF this] sp_demo_run(1)] pending
  show ?thesis by (simp add: keyed_map_def fun_eq_iff)
qed

text \<open>
  C11. A restart restores the selections (ADR 0027). Over every SQL connection and JSON codec that
  keep their contracts and every host port, for a ledger reached by any run from a start on an empty
  journal, with restarts and failed starts in between, a start of the gateway on its journal that
  succeeds has the records, the current selection and the pending selection of before.
\<close>

theorem save_profile_restart_restores:
  assumes "operation_journal Q table saved K" and "spe_store E = operation_store Q K new_uuid"
    and "saved (jn_connection s) = []" and "sp_start E capacity a f s = (Inr L, t)" and "(sp_step E)\<^sup>*\<^sup>* L M"
    and "sp_start E capacity' a' f' (spl_store M) = (Inr N, u)"
  shows "(spl_records N, spl_selected N, spl_pending_selection N)
    = (spl_records M, spl_selected M, spl_pending_selection M)"
proof -
  let ?content = "\<lambda>s. journal_content K (saved (jn_connection s))"
  let ?good = "\<lambda>s. journal_good K (saved (jn_connection s))"
  let ?order = "\<lambda>s. map row_key (saved (jn_connection s))"
  have journal: "sp_journal (operation_store Q K new_uuid) ?content ?good E ?order"
    using assms(1,2) by (rule sp_journalI)
  note service = sp_journal.axioms(1) [OF journal]
  have s: "?good s" "?content s = Map.empty" "?order s = []"
    using assms(3) by (auto simp: journal_good_def journal_content_def)
  note first = sp_service.start_empty [OF service s(1,2) assms(4)]
  from s(1) assms(4) obtain rs where "listed ?order L = rs" "rs = map (\<lambda>k. the (?content s k)) (?order s)"
    by (rule sp_journal.start_lists [OF journal])
  with s(3) have "listed ?order L = []" by simp
  with first have "selects_ok (listed ?order L) L" by (simp add: selects_ok_def)
  with first(1) have M: "sp_mirrored ?content ?good M" "selection_ok M" "selects_ok (listed ?order M) M"
    using sp_journal.selects_kept [OF journal run_moves [OF assms(5)]] by simp_all
  have good: "?good (spl_store M)" using M(1) by (simp add: sp_mirrored_def)
  from good assms(6) obtain rs where rs: "rs = map (\<lambda>k. the (?content (spl_store M) k)) (?order (spl_store M))"
      "spl_selected N = restored_selection rs" "spl_pending_selection N = restored_pending rs"
    by (rule sp_journal.start_lists [OF journal])
  have listed: "rs = listed ?order M" using rs(1) M(1) by (simp add: listed_def sp_mirrored_def)
  have "record_shape r" if "r \<in> set rs" for r
    using that selection_shape [OF M(2)] unfolding listed sp_journal.listed_mem [OF journal M(1)] by blast
  then have "spl_selected N = spl_selected M" "spl_pending_selection N = spl_pending_selection M"
    using rs(2,3) M(3) unfolding selects_ok_def listed [symmetric]
    by (simp_all add: restored_selection_selects restored_pending_selects)
  moreover have "spl_records N = spl_records M"
    using sp_service.restored [OF service good assms(6)] M(1) by (intro bm.ext) (simp add: sp_mirrored_def)
  ultimately show ?thesis by simp
qed

theorem save_profile_restart_restores_witness:
  "spl_selected (sp_demo_started (sp_demo_env sp_demo_store) () (spl_store sp_demo_settled)) = Some ''p''"
proof -
  let ?E = "sp_demo_env sp_demo_store"
  have store: "spe_store ?E = operation_store table_sql (plain_codec (\<lambda>_. 0)) (\<lambda>u. ([1], u))"
    by (simp add: sp_demo_env_def sp_demo_store_def)
  have empty: "saved_table (jn_connection sp_demo_journal) = []" by (simp add: sp_demo_journal_def saved_table_def)
  have first: "\<not> isl (fst (sp_start ?E 4 sp_demo_authority () sp_demo_journal))" by code_simp
  have settled: "spl_selected sp_demo_settled = Some ''p''" by code_simp
  have again: "\<not> isl (fst (sp_start ?E 4 sp_demo_authority () (spl_store sp_demo_settled)))" by code_simp
  have run: "(sp_step ?E)\<^sup>*\<^sup>* (sp_demo_started ?E () sp_demo_journal) sp_demo_settled"
    unfolding sp_demo_settled_def Let_def by (rule sp_demo_run(2))
  from save_profile_restart_restores [OF sp_table_journal.operation_journal_axioms store empty sp_demo_start [OF first] run sp_demo_start [OF again]] settled
  show ?thesis by simp
qed

end
