(* ===== verification/User_Data_Provisioning.thy ===== *)
theory User_Data_Provisioning
  imports Save_Profile_Contract Record_Store
begin

text \<open>
  The allocation of isolated user data: \<open>save_profile/provisioning.rs\<close> with its types
  (\<open>provisioning_types.rs\<close>), records (\<open>provisioning_record.rs\<close>), descriptors and validation
  (\<open>provisioning_descriptor.rs\<close>, \<open>provisioning_validation.rs\<close>), the provenance check of
  \<open>user_data_provenance.rs\<close> and the deterministic launch-profile binding of \<open>launch_profile.rs\<close>. The
  file system behind the port is outside the model: inspection and creation are the functions of a
  port.
\<close>

section \<open>Types\<close>

datatype user_data_inspection = Absent | Owned user_data_provenance | UnknownContents | Traversal | SymlinkEscape

datatype user_data_port_error =
    PortUnknownContents | PortTraversal | PortSymlinkEscape | PortExistingContents | PortUnavailable
  | PortTimeoutBeforeWrite | PortTimeoutAfterWrite

record user_data_create_request =
  cre_descriptor :: user_data_descriptor
  cre_launch_profile :: launch_profile_binding

datatype user_data_create_outcome =
    CreateDone user_data_descriptor | CreateAlready user_data_descriptor
  | CreateTimeoutBefore | CreateTimeoutAfter | CreateUnknown

datatype user_data_status = AllocPending | AllocCreated | AllocUnknown | AllocBlocked | AllocRejected

record user_data_record =
  udr_operation_id :: string
  udr_context :: save_profile_context
  udr_descriptor :: user_data_descriptor
  udr_launch_profile :: launch_profile_binding
  udr_status :: user_data_status
  udr_guidance :: "recovery_guidance option"

datatype user_data_error =
    UdInvalidRequest | UdOperationConflict | UdCapacityExceeded | UdOperationNotFound | UdStaleContext
  | UdPersistenceFailed | UdPort user_data_port_error

record user_data_outcome =
  udo_operation_id :: string
  udo_status :: user_data_status
  udo_descriptor :: "user_data_descriptor option"
  udo_guidance :: "recovery_guidance option"

definition ud_key :: "user_data_record \<Rightarrow> sp_key" where
  "ud_key r = (ctx_instance_id (udr_context r), udr_operation_id r)"

abbreviation ud_identity :: "user_data_record \<Rightarrow> user_data_identity" where
  "ud_identity r \<equiv> dsc_identity (udr_descriptor r)"

type_synonym 's ud_store = "(user_data_record, user_data_error, 's) record_store"
type_synonym ud_memory_store = "(sp_key, user_data_record) bmap"

definition ud_memory :: "ud_memory_store ud_store" where
  "ud_memory = keyed_memory ud_key UdOperationConflict UdOperationNotFound"

section \<open>Validation\<close>

definition PROVENANCE_OWNER :: string where "PROVENANCE_OWNER = ''gateway''"

definition MAX_ALLOCATIONS :: nat where "MAX_ALLOCATIONS = 64"

definition ud_descriptor :: "save_profile_context \<Rightarrow> string \<Rightarrow> user_data_identity \<Rightarrow> user_data_descriptor" where
  "ud_descriptor c operation_id i = \<lparr>dsc_identity = i,
     dsc_provenance = \<lparr>prv_owner = PROVENANCE_OWNER, prv_instance_id = ctx_instance_id c, prv_operation_id = operation_id,
       prv_contract = LAUNCH_PROFILE_CONTRACT\<rparr>,
     dsc_baseline = None\<rparr>"

definition ud_validate_operation_id :: "string \<Rightarrow> user_data_error + unit" where
  "ud_validate_operation_id operation_id =
     ensure (\<not> (operation_id = [] \<or> SAVE_PROFILE_MAX_OPERATION_BYTES < length operation_id \<or> \<not> id_is_valid operation_id))
       UdInvalidRequest"

definition ud_validate_request :: "save_profile_context \<Rightarrow> string \<Rightarrow> string \<Rightarrow> user_data_error + unit" where
  "ud_validate_request c operation_id profile_id =
     and_then (map_err (\<lambda>_. UdInvalidRequest) (context_validate c)) (\<lambda>_.
     and_then (ud_validate_operation_id operation_id) (\<lambda>_.
       map_err (\<lambda>_. UdInvalidRequest) (and_then (binding_try_new profile_id 1) binding_validate)))"

definition provenance_owned :: "user_data_provenance \<Rightarrow> user_data_port_error + unit" where
  "provenance_owned p =
     and_then (map_err (\<lambda>_. PortUnknownContents) (sp_provenance_validate p)) (\<lambda>_.
       if prv_owner p \<noteq> PROVENANCE_OWNER \<or> prv_contract p \<noteq> LAUNCH_PROFILE_CONTRACT then Inl PortUnknownContents else Inr ())"

definition ud_guidance :: "string \<Rightarrow> recovery_guidance" where
  "ud_guidance reason = \<lparr>gui_code = ''save_profile_operator_intervention_required'',
     gui_action = reason @ ''; inspect the isolated allocation before retrying''\<rparr>"

definition unknown_guidance :: recovery_guidance where
  "unknown_guidance = \<lparr>gui_code = ''save_profile_reconcile_required'',
     gui_action = ''lookup the original allocation operation before retrying''\<rparr>"

definition blocked_reasons :: "string list" where
  "blocked_reasons = [''unknown existing contents'', ''allocation path traversal rejected'', ''allocation symlink escape rejected'',
     ''foreign allocation ownership'', ''implicit adoption is refused'', ''allocation provenance mismatch'',
     ''implicit overwrite is refused'']"

definition ud_record_validate :: "user_data_record \<Rightarrow> user_data_error + unit" where
  "ud_record_validate r =
     and_then (ud_validate_request (udr_context r) (udr_operation_id r) (lpb_profile_id (udr_launch_profile r))) (\<lambda>_.
       if is_err (descriptor_validate (udr_descriptor r)) \<or> is_err (binding_validate (udr_launch_profile r))
          \<or> ud_identity r \<noteq> lpb_user_data (udr_launch_profile r)
          \<or> MAX_ALLOCATIONS < unat (ud_identity r)
          \<or> prv_instance_id (dsc_provenance (udr_descriptor r)) \<noteq> ctx_instance_id (udr_context r)
          \<or> prv_operation_id (dsc_provenance (udr_descriptor r)) \<noteq> udr_operation_id r
          \<or> is_err (provenance_owned (dsc_provenance (udr_descriptor r)))
       then Inl UdInvalidRequest
       else ensure (case udr_status r of
                      AllocUnknown \<Rightarrow> udr_guidance r = Some unknown_guidance
                    | AllocBlocked \<Rightarrow> list_ex (\<lambda>reason. udr_guidance r = Some (ud_guidance reason)) blocked_reasons
                    | _ \<Rightarrow> udr_guidance r = None) UdInvalidRequest)"

text \<open>\<open>validate_set\<close>: the loop with the operations and identities seen so far.\<close>

primrec ud_validate_each :: "nat \<Rightarrow> sp_key list \<Rightarrow> user_data_identity list \<Rightarrow> user_data_record list \<Rightarrow> user_data_error + unit" where
  "ud_validate_each capacity operations identities [] = Inr ()"
| "ud_validate_each capacity operations identities (r # rs) =
     and_then (map_err (\<lambda>_. UdPersistenceFailed) (ud_record_validate r)) (\<lambda>_.
       if capacity < unat (ud_identity r) then Inl UdCapacityExceeded
       else if ud_key r \<in> set operations \<or> ud_identity r \<in> set identities then Inl UdPersistenceFailed
       else ud_validate_each capacity (ud_key r # operations) (ud_identity r # identities) rs)"

definition ud_validate_set :: "user_data_record list \<Rightarrow> nat \<Rightarrow> user_data_error + unit" where
  "ud_validate_set rs capacity =
     (if capacity < length rs then Inl UdCapacityExceeded else ud_validate_each capacity [] [] rs)"

definition ud_replay_matches :: "user_data_record \<Rightarrow> save_profile_context \<Rightarrow> string \<Rightarrow> string \<Rightarrow> bool" where
  "ud_replay_matches r c operation_id profile_id \<longleftrightarrow> same_fence (udr_context r) c \<and> udr_operation_id r = operation_id
     \<and> lpb_profile_id (udr_launch_profile r) = profile_id \<and> \<not> is_err (ud_record_validate r)"

definition ud_update_record :: "user_data_record \<Rightarrow> user_data_status \<Rightarrow> user_data_descriptor option
    \<Rightarrow> recovery_guidance option \<Rightarrow> user_data_record" where
  "ud_update_record r st d g =
     (case d of None \<Rightarrow> r | Some d \<Rightarrow> r\<lparr>udr_descriptor := d\<rparr>)\<lparr>udr_status := st, udr_guidance := g\<rparr>"

definition ud_outcome :: "user_data_record \<Rightarrow> user_data_outcome" where
  "ud_outcome r = \<lparr>udo_operation_id = udr_operation_id r, udo_status = udr_status r,
     udo_descriptor = (if udr_status r = AllocCreated then Some (udr_descriptor r) else None), udo_guidance = udr_guidance r\<rparr>"

section \<open>The provisioner\<close>

record ('p, 's, 'b) ud_env =
  ude_inspect :: "'p \<Rightarrow> user_data_identity \<Rightarrow> (user_data_port_error + user_data_inspection) \<times> 'p"
  ude_create :: "'p \<Rightarrow> user_data_create_request \<Rightarrow> (user_data_port_error + user_data_create_outcome) \<times> 'p"
  ude_store :: "'s ud_store"
  ude_bind :: "'b \<Rightarrow> user_data_identity \<Rightarrow> (launch_profile_binding_error + launch_profile_binding) \<times> 'b"

record ('p, 's, 'b) provisioner =
  pvn_capacity :: nat
  pvn_next_identity :: u64
  pvn_port :: 'p
  pvn_store :: 's
  pvn_launch_profile :: 'b
  pvn_records :: "(sp_key, user_data_record) bmap"

definition max_identity :: "user_data_record list \<Rightarrow> u64" where
  "max_identity rs = fold (\<lambda>r. max (ud_identity r)) rs 0"

definition provisioner_new :: "('p, 's, 'b) ud_env \<Rightarrow> nat \<Rightarrow> 'p \<Rightarrow> 'b \<Rightarrow> 's
    \<Rightarrow> (user_data_error + ('p, 's, 'b) provisioner) \<times> 's" where
  "provisioner_new E capacity p b s =
     (if capacity = 0 \<or> MAX_ALLOCATIONS < capacity then (Inl UdCapacityExceeded, s)
      else and_try (rs_list (ude_store E)) (\<lambda>persisted s.
        case and_then (ud_validate_set persisted capacity) (\<lambda>_.
               ok_or (checked_add_u64 (max_identity persisted) 1) UdCapacityExceeded) of
          Inl e \<Rightarrow> (Inl e, s)
        | Inr next \<Rightarrow> (Inr \<lparr>pvn_capacity = capacity, pvn_next_identity = next, pvn_port = p, pvn_store = s,
            pvn_launch_profile = b, pvn_records = fold (\<lambda>r. bm_insert (ud_key r) r) persisted bm_empty\<rparr>, s)) s)"

definition ud_on_store :: "('s \<Rightarrow> (user_data_error + unit) \<times> 's) \<Rightarrow> ('p, 's, 'b) provisioner
    \<Rightarrow> (user_data_error + unit) \<times> ('p, 's, 'b) provisioner" where
  "ud_on_store f P = (case f (pvn_store P) of (r, s) \<Rightarrow> (r, P\<lparr>pvn_store := s\<rparr>))"

definition ud_on_port :: "('p \<Rightarrow> 'r \<times> 'p) \<Rightarrow> ('p, 's, 'b) provisioner \<Rightarrow> 'r \<times> ('p, 's, 'b) provisioner" where
  "ud_on_port f P = (case f (pvn_port P) of (r, p) \<Rightarrow> (r, P\<lparr>pvn_port := p\<rparr>))"

definition ud_on_binding :: "('b \<Rightarrow> 'r \<times> 'b) \<Rightarrow> ('p, 's, 'b) provisioner \<Rightarrow> 'r \<times> ('p, 's, 'b) provisioner" where
  "ud_on_binding f P = (case f (pvn_launch_profile P) of (r, b) \<Rightarrow> (r, P\<lparr>pvn_launch_profile := b\<rparr>))"

text \<open>\<open>store.update\<close>, then the record in memory.\<close>

definition ud_save :: "('p, 's, 'b) ud_env \<Rightarrow> sp_key \<Rightarrow> user_data_record \<Rightarrow> ('p, 's, 'b) provisioner
    \<Rightarrow> (user_data_error + user_data_outcome) \<times> ('p, 's, 'b) provisioner" where
  "ud_save E k r =
     and_try (ud_on_store (rs_update (ude_store E) r)) (\<lambda>_ P.
       (Inr (ud_outcome r), P\<lparr>pvn_records := bm_insert k r (pvn_records P)\<rparr>))"

definition ud_finish :: "('p, 's, 'b) ud_env \<Rightarrow> sp_key \<Rightarrow> user_data_status \<Rightarrow> user_data_descriptor option
    \<Rightarrow> recovery_guidance option \<Rightarrow> ('p, 's, 'b) provisioner \<Rightarrow> (user_data_error + user_data_outcome) \<times> ('p, 's, 'b) provisioner" where
  "ud_finish E k st d g P =
     (case bm_get (pvn_records P) k of
        None \<Rightarrow> (Inl UdOperationNotFound, P)
      | Some r \<Rightarrow> ud_save E k (ud_update_record r st d g) P)"

definition ud_finish_port_error :: "('p, 's, 'b) ud_env \<Rightarrow> sp_key \<Rightarrow> user_data_port_error \<Rightarrow> ('p, 's, 'b) provisioner
    \<Rightarrow> (user_data_error + user_data_outcome) \<times> ('p, 's, 'b) provisioner" where
  "ud_finish_port_error E k e =
     (let (st, g) = (case e of
        PortUnknownContents \<Rightarrow> (AllocBlocked, Some (ud_guidance ''unknown existing contents''))
      | PortTraversal \<Rightarrow> (AllocBlocked, Some (ud_guidance ''allocation path traversal rejected''))
      | PortSymlinkEscape \<Rightarrow> (AllocBlocked, Some (ud_guidance ''allocation symlink escape rejected''))
      | PortExistingContents \<Rightarrow> (AllocBlocked, Some (ud_guidance ''implicit overwrite is refused''))
      | PortTimeoutBeforeWrite \<Rightarrow> (AllocUnknown, Some unknown_guidance)
      | PortTimeoutAfterWrite \<Rightarrow> (AllocUnknown, Some unknown_guidance)
      | PortUnavailable \<Rightarrow> (AllocRejected, None))
      in ud_finish E k st None g)"

definition ud_settle_created :: "('p, 's, 'b) ud_env \<Rightarrow> sp_key \<Rightarrow> user_data_descriptor \<Rightarrow> user_data_create_outcome
    \<Rightarrow> ('p, 's, 'b) provisioner \<Rightarrow> (user_data_error + user_data_outcome) \<times> ('p, 's, 'b) provisioner" where
  "ud_settle_created E k d created =
     (case (case created of CreateDone v \<Rightarrow> Some v | CreateAlready v \<Rightarrow> Some v | _ \<Rightarrow> None) of
        Some v \<Rightarrow>
          if dsc_identity v \<noteq> dsc_identity d \<or> dsc_provenance v \<noteq> dsc_provenance d \<or> is_err (descriptor_validate v)
          then ud_finish E k AllocBlocked None (Some (ud_guidance ''allocation provenance mismatch''))
          else ud_finish E k AllocCreated (Some v) None
      | None \<Rightarrow> ud_finish E k AllocUnknown None (Some unknown_guidance))"

definition ud_create_reserved :: "('p, 's, 'b) ud_env \<Rightarrow> sp_key \<Rightarrow> launch_profile_binding \<Rightarrow> user_data_descriptor
    \<Rightarrow> ('p, 's, 'b) provisioner \<Rightarrow> (user_data_error + user_data_outcome) \<times> ('p, 's, 'b) provisioner" where
  "ud_create_reserved E k launch_profile d =
     and_use (ud_on_port (\<lambda>p. ude_inspect E p (dsc_identity d))) (\<lambda>inspected.
       case inspected of
         Inl e \<Rightarrow> ud_finish_port_error E k e
       | Inr UnknownContents \<Rightarrow> ud_finish E k AllocBlocked None (Some (ud_guidance ''unknown existing contents''))
       | Inr Traversal \<Rightarrow> ud_finish E k AllocBlocked None (Some (ud_guidance ''allocation path traversal rejected''))
       | Inr SymlinkEscape \<Rightarrow> ud_finish E k AllocBlocked None (Some (ud_guidance ''allocation symlink escape rejected''))
       | Inr (Owned _) \<Rightarrow> ud_finish E k AllocBlocked None (Some (ud_guidance ''implicit adoption is refused''))
       | Inr Absent \<Rightarrow>
           and_use (ud_on_port (\<lambda>p. ude_create E p \<lparr>cre_descriptor = d, cre_launch_profile = launch_profile\<rparr>)) (\<lambda>created.
             case created of
               Inr v \<Rightarrow> ud_settle_created E k d v
             | Inl e \<Rightarrow>
                 if e = PortTimeoutBeforeWrite \<or> e = PortTimeoutAfterWrite then ud_settle_created E k d CreateUnknown
                 else ud_finish_port_error E k e))"

text \<open>What an inspection says of a record: status, descriptor and guidance.\<close>

definition ud_inspected :: "user_data_record \<Rightarrow> user_data_inspection
    \<Rightarrow> user_data_status \<times> user_data_descriptor option \<times> recovery_guidance option" where
  "ud_inspected r v = (case v of
     Owned p \<Rightarrow>
       if p = dsc_provenance (udr_descriptor r) then (AllocCreated, Some (udr_descriptor r), None)
       else (AllocBlocked, None, Some (ud_guidance ''foreign allocation ownership''))
   | Absent \<Rightarrow> (AllocUnknown, None, Some unknown_guidance)
   | UnknownContents \<Rightarrow> (AllocBlocked, None, Some (ud_guidance ''unknown existing contents''))
   | Traversal \<Rightarrow> (AllocBlocked, None, Some (ud_guidance ''allocation path traversal rejected''))
   | SymlinkEscape \<Rightarrow> (AllocBlocked, None, Some (ud_guidance ''allocation symlink escape rejected'')))"

definition ud_reconcile :: "('p, 's, 'b) ud_env \<Rightarrow> save_profile_context \<Rightarrow> string \<Rightarrow> ('p, 's, 'b) provisioner
    \<Rightarrow> (user_data_error + user_data_outcome) \<times> ('p, 's, 'b) provisioner" where
  "ud_reconcile E c operation_id P =
     (let k = (ctx_instance_id c, operation_id) in
      case and_then (map_err (\<lambda>_. UdInvalidRequest) (context_validate c)) (\<lambda>_.
           and_then (ud_validate_operation_id operation_id) (\<lambda>_.
           and_then (ok_or (bm_get (pvn_records P) k) UdOperationNotFound) (\<lambda>r.
             if \<not> same_fence (udr_context r) c then Inl UdStaleContext else Inr r))) of
        Inl e \<Rightarrow> (Inl e, P)
      | Inr r \<Rightarrow>
          if udr_status r = AllocBlocked then (Inr (ud_outcome r), P)
          else and_use (ud_on_port (\<lambda>p. ude_inspect E p (ud_identity r))) (\<lambda>inspected.
            case inspected of
              Inl e \<Rightarrow>
                if e = PortUnavailable then ud_finish E k AllocUnknown None (Some unknown_guidance)
                else ud_finish_port_error E k e
            | Inr v \<Rightarrow>
                (case ud_inspected r v of (st, d, g) \<Rightarrow> ud_save E k (ud_update_record r st d g))) P)"

definition ud_reserve :: "('p, 's, 'b) ud_env \<Rightarrow> save_profile_context \<Rightarrow> string \<Rightarrow> string \<Rightarrow> user_data_identity
    \<Rightarrow> ('p, 's, 'b) provisioner \<Rightarrow> (user_data_error + user_data_outcome) \<times> ('p, 's, 'b) provisioner" where
  "ud_reserve E c operation_id profile_id i =
     (let d = ud_descriptor c operation_id i; k = (ctx_instance_id c, operation_id) in
      and_try (lift_err (\<lambda>_. UdPort PortUnavailable) (ud_on_binding (\<lambda>b. ude_bind E b i))) (\<lambda>binding.
        if is_err (binding_validate binding) \<or> lpb_user_data binding \<noteq> i \<or> lpb_profile_id binding \<noteq> profile_id
        then pure (Inl UdInvalidRequest)
        else let pending = \<lparr>udr_operation_id = operation_id, udr_context = c, udr_descriptor = d,
                   udr_launch_profile = binding, udr_status = AllocPending, udr_guidance = None\<rparr> in
          and_try (ud_on_store (rs_insert (ude_store E) pending)) (\<lambda>_ P.
            ud_create_reserved E k binding d (P\<lparr>pvn_records := bm_insert k pending (pvn_records P)\<rparr>))))"

definition ud_create_disposable :: "('p, 's, 'b) ud_env \<Rightarrow> save_profile_context \<Rightarrow> string \<Rightarrow> string \<Rightarrow> ('p, 's, 'b) provisioner
    \<Rightarrow> (user_data_error + user_data_outcome) \<times> ('p, 's, 'b) provisioner" where
  "ud_create_disposable E c operation_id profile_id P =
     (case ud_validate_request c operation_id profile_id of
        Inl e \<Rightarrow> (Inl e, P)
      | Inr _ \<Rightarrow>
          (case bm_get (pvn_records P) (ctx_instance_id c, operation_id) of
             Some existing \<Rightarrow>
               if \<not> ud_replay_matches existing c operation_id profile_id then (Inl UdOperationConflict, P)
               else if udr_status existing = AllocCreated then ud_reconcile E c operation_id P
               else (Inr (ud_outcome existing), P)
           | None \<Rightarrow>
               if pvn_capacity P \<le> bm_size (pvn_records P) \<or> pvn_capacity P < unat (pvn_next_identity P)
               then (Inl UdCapacityExceeded, P)
               else case and_then (map_err (\<lambda>_. UdCapacityExceeded) (user_data_identity_try_new (pvn_next_identity P))) (\<lambda>i.
                         and_then (ok_or (checked_add_u64 (pvn_next_identity P) 1) UdCapacityExceeded) (\<lambda>next. Inr (i, next))) of
                      Inl e \<Rightarrow> (Inl e, P)
                    | Inr (i, next) \<Rightarrow> ud_reserve E c operation_id profile_id i (P\<lparr>pvn_next_identity := next\<rparr>)))"

definition ud_operation :: "('p, 's, 'b) provisioner \<Rightarrow> string \<Rightarrow> string \<Rightarrow> user_data_record option" where
  "ud_operation P instance_id operation_id = bm_get (pvn_records P) (instance_id, operation_id)"

section \<open>The adapters in memory\<close>

record user_data_memory =
  udm_entries :: "(user_data_identity, user_data_inspection) bmap"
  udm_outcomes :: "(user_data_identity, user_data_create_outcome) bmap"
  udm_inspect_errors :: "(user_data_identity, user_data_port_error) bmap"
  udm_create_errors :: "(user_data_identity, user_data_port_error) bmap"
  udm_inspected :: "user_data_identity list"
  udm_created :: "user_data_identity list"

definition user_data_memory_new :: user_data_memory where
  "user_data_memory_new = \<lparr>udm_entries = bm_empty, udm_outcomes = bm_empty, udm_inspect_errors = bm_empty,
     udm_create_errors = bm_empty, udm_inspected = [], udm_created = []\<rparr>"

definition udm_set_inspection :: "user_data_identity \<Rightarrow> user_data_inspection \<Rightarrow> user_data_memory \<Rightarrow> user_data_memory" where
  "udm_set_inspection i v m = m\<lparr>udm_entries := bm_insert i v (udm_entries m)\<rparr>"

definition udm_set_outcome :: "user_data_identity \<Rightarrow> user_data_create_outcome \<Rightarrow> user_data_memory \<Rightarrow> user_data_memory" where
  "udm_set_outcome i v m = m\<lparr>udm_outcomes := bm_insert i v (udm_outcomes m)\<rparr>"

definition udm_set_inspect_error :: "user_data_identity \<Rightarrow> user_data_port_error \<Rightarrow> user_data_memory \<Rightarrow> user_data_memory" where
  "udm_set_inspect_error i e m = m\<lparr>udm_inspect_errors := bm_insert i e (udm_inspect_errors m)\<rparr>"

definition udm_set_create_error :: "user_data_identity \<Rightarrow> user_data_port_error \<Rightarrow> user_data_memory \<Rightarrow> user_data_memory" where
  "udm_set_create_error i e m = m\<lparr>udm_create_errors := bm_insert i e (udm_create_errors m)\<rparr>"

definition udm_inspection :: "user_data_memory \<Rightarrow> user_data_identity \<Rightarrow> user_data_inspection" where
  "udm_inspection m i = (case bm_get (udm_entries m) i of None \<Rightarrow> Absent | Some v \<Rightarrow> v)"

definition udm_inspect :: "user_data_memory \<Rightarrow> user_data_identity
    \<Rightarrow> (user_data_port_error + user_data_inspection) \<times> user_data_memory" where
  "udm_inspect m i =
     (let m = m\<lparr>udm_inspected := udm_inspected m @ [i]\<rparr> in
      case bm_get (udm_inspect_errors m) i of
        Some e \<Rightarrow> (Inl e, m)
      | None \<Rightarrow> (Inr (udm_inspection m i), m))"

definition udm_create :: "user_data_memory \<Rightarrow> user_data_create_request
    \<Rightarrow> (user_data_port_error + user_data_create_outcome) \<times> user_data_memory" where
  "udm_create m q =
     (let i = dsc_identity (cre_descriptor q); m = m\<lparr>udm_created := udm_created m @ [i]\<rparr> in
      case bm_get (udm_create_errors m) i of
        Some e \<Rightarrow> (Inl e, m)
      | None \<Rightarrow>
          let v = (case bm_get (udm_outcomes m) i of None \<Rightarrow> CreateDone (cre_descriptor q) | Some v \<Rightarrow> v) in
          (Inr v, (case v of
             CreateDone _ \<Rightarrow> m\<lparr>udm_entries := bm_insert i (Owned (dsc_provenance (cre_descriptor q))) (udm_entries m)\<rparr>
           | CreateAlready _ \<Rightarrow> m\<lparr>udm_entries := bm_insert i (Owned (dsc_provenance (cre_descriptor q))) (udm_entries m)\<rparr>
           | _ \<Rightarrow> m)))"

record binding_memory =
  bnm_refusals :: "user_data_identity list"
  bnm_calls :: "user_data_identity list"

definition bnm_refuse :: "user_data_identity \<Rightarrow> binding_memory \<Rightarrow> binding_memory" where
  "bnm_refuse i m = m\<lparr>bnm_refusals := List.insert i (bnm_refusals m)\<rparr>"

definition bnm_bind_disposable :: "binding_memory \<Rightarrow> user_data_identity
    \<Rightarrow> (launch_profile_binding_error + launch_profile_binding) \<times> binding_memory" where
  "bnm_bind_disposable m i =
     (let m = m\<lparr>bnm_calls := bnm_calls m @ [i]\<rparr> in
      if i \<in> set (bnm_refusals m) then (Inl BindingUserData, m) else (binding_try_new LAUNCH_PROFILE_ID i, m))"

section \<open>Runs\<close>

definition ud_start :: "('p, 's, 'b) ud_env \<Rightarrow> nat \<Rightarrow> 'p \<Rightarrow> 'b \<Rightarrow> 's
    \<Rightarrow> (user_data_error + ('p, 's, 'b) provisioner) \<times> 's" where
  "ud_start E capacity p b = and_try (rs_open (ude_store E)) (\<lambda>_. provisioner_new E capacity p b)"

definition ud_failed_start :: "('p, 's, 'b) ud_env \<Rightarrow> 's \<Rightarrow> 's \<Rightarrow> bool" where
  "ud_failed_start E s t \<longleftrightarrow> (\<exists>capacity p b e. ud_start E capacity p b s = (Inl e, t))"

inductive ud_step :: "('p, 's, 'b) ud_env \<Rightarrow> ('p, 's, 'b) provisioner \<Rightarrow> ('p, 's, 'b) provisioner \<Rightarrow> bool" for E where
  create: "ud_create_disposable E c operation_id profile_id P = (x, R) \<Longrightarrow> ud_step E P R"
| reconcile: "ud_reconcile E c operation_id P = (x, R) \<Longrightarrow> ud_step E P R"
| restart: "(ud_failed_start E)\<^sup>*\<^sup>* (pvn_store P) s \<Longrightarrow>
    ud_start E capacity (pvn_port P) b s = (Inr R, t) \<Longrightarrow> ud_step E P R"

end
