(* ===== verification/User_Data_Safety.thy ===== *)
theory User_Data_Safety
  imports User_Data_Provisioning
begin

text \<open>
  What the provisioner keeps, over every port and every record store that holds what it acknowledges:
  it mirrors its store, its records have different identities, all below the next one
  (\<open>ud_fresh\<close>), every identity is created at most once, and only after an inspection found it absent.
\<close>

section \<open>Simplification\<close>

lemma ud_update_simps [simp]:
  "udr_operation_id (ud_update_record r st d g) = udr_operation_id r" "udr_context (ud_update_record r st d g) = udr_context r"
  "udr_descriptor (ud_update_record r st d g) = (case d of None \<Rightarrow> udr_descriptor r | Some d \<Rightarrow> d)"
  "udr_launch_profile (ud_update_record r st d g) = udr_launch_profile r"
  "udr_status (ud_update_record r st d g) = st"
  "ud_key (ud_update_record r st d g) = ud_key r"
  by (simp_all add: ud_update_record_def ud_key_def split: option.split)

definition same_allocation :: "user_data_record \<Rightarrow> user_data_record \<Rightarrow> bool" where
  "same_allocation r r' \<longleftrightarrow> ud_key r' = ud_key r \<and> ud_identity r' = ud_identity r
     \<and> dsc_provenance (udr_descriptor r') = dsc_provenance (udr_descriptor r)"

lemma ud_on_store_cases:
  assumes "ud_on_store f P = (x, R)"
  obtains s where "f (pvn_store P) = (x, s)" "R = P\<lparr>pvn_store := s\<rparr>"
  using assms by (auto simp: ud_on_store_def split: prod.splits)

lemma ud_on_port_cases:
  assumes "ud_on_port f P = (x, R)"
  obtains p where "f (pvn_port P) = (x, p)" "R = P\<lparr>pvn_port := p\<rparr>"
  using assms by (auto simp: ud_on_port_def split: prod.splits)

section \<open>Moves\<close>

definition pending_record :: "save_profile_context \<Rightarrow> string \<Rightarrow> launch_profile_binding \<Rightarrow> user_data_identity \<Rightarrow> user_data_record" where
  "pending_record c operation_id binding i = \<lparr>udr_operation_id = operation_id, udr_context = c,
     udr_descriptor = ud_descriptor c operation_id i, udr_launch_profile = binding, udr_status = AllocPending, udr_guidance = None\<rparr>"

lemma pending_record_simps [simp]:
  "ud_key (pending_record c operation_id binding i) = (ctx_instance_id c, operation_id)"
  "ud_identity (pending_record c operation_id binding i) = i"
  "udr_descriptor (pending_record c operation_id binding i) = ud_descriptor c operation_id i"
  "dsc_identity (ud_descriptor c operation_id i) = i"
  by (simp_all add: pending_record_def ud_key_def ud_descriptor_def)

text \<open>The state in which an identity is reserved, before the port is asked.\<close>

definition reserved :: "user_data_record \<Rightarrow> u64 \<Rightarrow> 'b \<Rightarrow> 's \<Rightarrow> ('p, 's, 'b) provisioner \<Rightarrow> ('p, 's, 'b) provisioner" where
  "reserved r next b s P = P\<lparr>pvn_next_identity := next, pvn_launch_profile := b, pvn_store := s,
     pvn_records := bm_insert (ud_key r) r (pvn_records P)\<rparr>"

definition reserves :: "('p, 's, 'b) ud_env \<Rightarrow> ('p, 's, 'b) provisioner \<Rightarrow> user_data_record \<Rightarrow> u64 \<Rightarrow> 's \<Rightarrow> bool" where
  "reserves E P r next s \<longleftrightarrow> bm_get (pvn_records P) (ud_key r) = None \<and> ud_identity r = pvn_next_identity P
     \<and> checked_add_u64 (pvn_next_identity P) 1 = Some next \<and> rs_insert (ude_store E) r (pvn_store P) = (Inr (), s)"

inductive ud_move :: "('p, 's, 'b) ud_env \<Rightarrow> ('p, 's, 'b) provisioner \<Rightarrow> ('p, 's, 'b) provisioner \<Rightarrow> bool" for E where
  skip: "pvn_next_identity P \<le> next \<Longrightarrow> ud_move E P (P\<lparr>pvn_next_identity := next, pvn_launch_profile := b\<rparr>)"
| refuse_insert: "pvn_next_identity P \<le> next \<Longrightarrow> rs_insert (ude_store E) r (pvn_store P) = (Inl e, s) \<Longrightarrow>
    ud_move E P (P\<lparr>pvn_next_identity := next, pvn_launch_profile := b, pvn_store := s\<rparr>)"
| refuse_update: "rs_update (ude_store E) r (pvn_store P) = (Inl e, s) \<Longrightarrow> ud_move E P (P\<lparr>pvn_store := s\<rparr>)"
| inspect: "ude_inspect E (pvn_port P) i = (x, p) \<Longrightarrow> ud_move E P (P\<lparr>pvn_port := p\<rparr>)"
| reserve: "reserves E P r next s \<Longrightarrow> ude_inspect E (pvn_port P) (ud_identity r) = (x, p) \<Longrightarrow>
    ud_move E P (reserved r next b s (P\<lparr>pvn_port := p\<rparr>))"
| allocate: "reserves E P r next s \<Longrightarrow> ude_inspect E (pvn_port P) (ud_identity r) = (Inr Absent, p) \<Longrightarrow>
    cre_descriptor q = udr_descriptor r \<Longrightarrow> ude_create E p q = (y, p') \<Longrightarrow>
    ud_move E P (reserved r next b s (P\<lparr>pvn_port := p'\<rparr>))"
| save: "bm_get (pvn_records P) k = Some r \<Longrightarrow> same_allocation r r' \<Longrightarrow> rs_update (ude_store E) r' (pvn_store P) = (Inr (), s) \<Longrightarrow>
    ud_move E P (P\<lparr>pvn_store := s, pvn_records := bm_insert k r' (pvn_records P)\<rparr>)"
| restart: "(ud_failed_start E)\<^sup>*\<^sup>* (pvn_store P) s \<Longrightarrow>
    ud_start E capacity (pvn_port P) b s = (Inr R, t) \<Longrightarrow> ud_move E P R"

lemma save_moves:
  assumes "ud_save E k r' P = (x, R)" and "bm_get (pvn_records P) k = Some r" and "same_allocation r r'"
  shows "(ud_move E)\<^sup>*\<^sup>* P R"
  using assms(1) unfolding ud_save_def
proof (cases rule: and_try_cases)
  case (1 e)
  then obtain s where "rs_update (ude_store E) r' (pvn_store P) = (Inl e, s)" "R = P\<lparr>pvn_store := s\<rparr>"
    by (auto elim: ud_on_store_cases)
  then show ?thesis by (auto intro: r_into_rtranclp ud_move.refuse_update)
next
  case (2 a P')
  then obtain s where "rs_update (ude_store E) r' (pvn_store P) = (Inr (), s)" "P' = P\<lparr>pvn_store := s\<rparr>"
    by (auto elim: ud_on_store_cases)
  with 2(2) ud_move.save [OF assms(2,3), of E s] show ?thesis by (auto intro: r_into_rtranclp)
qed

lemma finish_moves:
  assumes "ud_finish E k st d g P = (x, R)"
    and "\<And>r v. bm_get (pvn_records P) k = Some r \<Longrightarrow> d = Some v \<Longrightarrow>
      dsc_identity v = ud_identity r \<and> dsc_provenance v = dsc_provenance (udr_descriptor r)"
  shows "(ud_move E)\<^sup>*\<^sup>* P R"
proof (cases "bm_get (pvn_records P) k")
  case (Some r)
  with assms(1) have "ud_save E k (ud_update_record r st d g) P = (x, R)" by (simp add: ud_finish_def)
  then show ?thesis using Some
  proof (rule save_moves)
    show "same_allocation r (ud_update_record r st d g)"
    proof (cases d)
      case (Some v)
      with assms(2) [OF \<open>bm_get (pvn_records P) k = Some r\<close> Some] show ?thesis by (simp add: same_allocation_def)
    qed (simp add: same_allocation_def)
  qed
qed (use assms(1) in \<open>simp add: ud_finish_def\<close>)

lemma finish_port_error_moves: "ud_finish_port_error E k e P = (x, R) \<Longrightarrow> (ud_move E)\<^sup>*\<^sup>* P R"
proof -
  assume "ud_finish_port_error E k e P = (x, R)"
  then have "\<exists>st g. ud_finish E k st None g P = (x, R)"
    by (cases e) (simp_all add: ud_finish_port_error_def, blast+)
  then obtain st g where "ud_finish E k st None g P = (x, R)" by blast
  then show ?thesis by (rule finish_moves) simp
qed

lemma settle_moves:
  assumes "ud_settle_created E k d created P = (x, R)" and "bm_get (pvn_records P) k = Some r" and "udr_descriptor r = d"
  shows "(ud_move E)\<^sup>*\<^sup>* P R"
proof (cases "case created of CreateDone v \<Rightarrow> Some v | CreateAlready v \<Rightarrow> Some v | _ \<Rightarrow> None")
  case None
  with assms(1) show ?thesis by (auto simp: ud_settle_created_def intro: finish_moves)
next
  case (Some v)
  with assms(1) consider "ud_finish E k AllocBlocked None (Some (ud_guidance ''allocation provenance mismatch'')) P = (x, R)"
    | "dsc_identity v = dsc_identity d" "dsc_provenance v = dsc_provenance d" "ud_finish E k AllocCreated (Some v) None P = (x, R)"
    by (simp add: ud_settle_created_def split: if_splits)
  then show ?thesis
  proof cases
    case 1
    then show ?thesis by (rule finish_moves) simp
  next
    case 2
    from 2(3) show ?thesis by (rule finish_moves) (use 2(1,2) assms(2,3) in auto)
  qed
qed

lemma create_reserved_moves:
  assumes "ud_create_reserved E (ud_key r) launch (udr_descriptor r) (reserved r next b s P) = (x, R)" and "reserves E P r next s"
  shows "(ud_move E)\<^sup>*\<^sup>* P R"
proof -
  obtain y p where look: "ude_inspect E (pvn_port P) (ud_identity r) = (y, p)"
    by (cases "ude_inspect E (pvn_port P) (ud_identity r)")
  let ?P = "reserved r next b s (P\<lparr>pvn_port := p\<rparr>)"
  have step: "ud_on_port (\<lambda>p. ude_inspect E p (ud_identity r)) (reserved r next b s P) = (y, ?P)"
    using look by (simp add: ud_on_port_def reserved_def)
  note run = assms(1) [unfolded ud_create_reserved_def and_use_def step prod.case]
  have first: "ud_move E P ?P" using assms(2) look by (rule ud_move.reserve)
  show ?thesis
  proof (cases "y = Inr Absent")
    case False
    with run have "(\<exists>e. ud_finish_port_error E (ud_key r) e ?P = (x, R)) \<or> (\<exists>st g. ud_finish E (ud_key r) st None g ?P = (x, R))"
      by (auto split: sum.splits user_data_inspection.splits)
    then have "(ud_move E)\<^sup>*\<^sup>* ?P R" by (auto intro: finish_port_error_moves finish_moves)
    with first show ?thesis by (rule converse_rtranclp_into_rtranclp)
  next
    case True
    let ?q = "\<lparr>cre_descriptor = udr_descriptor r, cre_launch_profile = launch\<rparr>"
    obtain z p' where create: "ude_create E p ?q = (z, p')" by (cases "ude_create E p ?q")
    let ?R = "reserved r next b s (P\<lparr>pvn_port := p'\<rparr>)"
    have "ud_on_port (\<lambda>p. ude_create E p ?q) ?P = (z, ?R)" using create by (simp add: ud_on_port_def reserved_def)
    with run True have "(\<exists>v. ud_settle_created E (ud_key r) (udr_descriptor r) v ?R = (x, R))
        \<or> (\<exists>e. ud_finish_port_error E (ud_key r) e ?R = (x, R))"
      by (auto split: sum.splits if_splits)
    moreover have "bm_get (pvn_records ?R) (ud_key r) = Some r" by (simp add: reserved_def)
    ultimately have "(ud_move E)\<^sup>*\<^sup>* ?R R" by (auto intro: settle_moves finish_port_error_moves)
    moreover have "ud_move E P ?R"
      by (rule ud_move.allocate [OF assms(2) look [unfolded True] _ create]) simp
    ultimately show ?thesis by (rule converse_rtranclp_into_rtranclp [rotated])
  qed
qed

lemma reconcile_found:
  assumes "ud_reconcile E c operation_id P = (x, R)"
  obtains "R = P" | r where "bm_get (pvn_records P) (ctx_instance_id c, operation_id) = Some r"
    "and_use (ud_on_port (\<lambda>p. ude_inspect E p (ud_identity r))) (\<lambda>inspected.
       case inspected of
         Inl e \<Rightarrow>
           if e = PortUnavailable then ud_finish E (ctx_instance_id c, operation_id) AllocUnknown None (Some unknown_guidance)
           else ud_finish_port_error E (ctx_instance_id c, operation_id) e
       | Inr v \<Rightarrow>
           (case ud_inspected r v of (st, d, g) \<Rightarrow> ud_save E (ctx_instance_id c, operation_id) (ud_update_record r st d g))) P = (x, R)"
  using assms unfolding ud_reconcile_def Let_def
  by (auto simp: and_then_eq_Inr split: sum.splits if_splits)

lemma ud_reconcile_moves:
  assumes "ud_reconcile E c operation_id P = (x, R)"
  shows "(ud_move E)\<^sup>*\<^sup>* P R"
  using assms
proof (cases rule: reconcile_found)
  case (2 r)
  let ?k = "(ctx_instance_id c, operation_id)"
  from 2(2) show ?thesis
  proof (cases rule: and_use_cases)
    case (1 inspected P')
    then obtain p where p: "ude_inspect E (pvn_port P) (ud_identity r) = (inspected, p)" "P' = P\<lparr>pvn_port := p\<rparr>"
      by (auto elim: ud_on_port_cases)
    then have first: "ud_move E P P'" by (auto intro: ud_move.inspect)
    have "(ud_move E)\<^sup>*\<^sup>* P' R"
    proof (cases inspected)
      case (Inl e)
      with 1(2) have "(\<exists>st g. ud_finish E ?k st None g P' = (x, R)) \<or> ud_finish_port_error E ?k e P' = (x, R)"
        by (auto split: if_splits)
      then show ?thesis by (auto intro: finish_moves finish_port_error_moves)
    next
      case (Inr v)
      obtain st d g where v: "ud_inspected r v = (st, d, g)" by (cases "ud_inspected r v")
      with 1(2) Inr have "ud_save E ?k (ud_update_record r st d g) P' = (x, R)" by simp
      moreover have "bm_get (pvn_records P') ?k = Some r" using p(2) 2(1) by simp
      moreover have "same_allocation r (ud_update_record r st d g)"
        using v by (auto simp: same_allocation_def ud_inspected_def split: user_data_inspection.splits if_splits)
      ultimately show ?thesis by (rule save_moves)
    qed
    with first show ?thesis by (rule converse_rtranclp_into_rtranclp)
  qed
qed simp

lemma reserve_moves:
  assumes "ud_reserve E c operation_id profile_id (pvn_next_identity P) (P\<lparr>pvn_next_identity := next\<rparr>) = (x, R)"
    and "checked_add_u64 (pvn_next_identity P) 1 = Some next"
    and "bm_get (pvn_records P) (ctx_instance_id c, operation_id) = None"
  shows "(ud_move E)\<^sup>*\<^sup>* P R"
proof -
  let ?i = "pvn_next_identity P"
  have le: "?i \<le> next" using checked_add_u64_less [OF assms(2)] by simp
  obtain y b where bind: "ude_bind E (pvn_launch_profile P) ?i = (y, b)" by (cases "ude_bind E (pvn_launch_profile P) ?i")
  let ?P = "P\<lparr>pvn_next_identity := next, pvn_launch_profile := b\<rparr>"
  have skip: "ud_move E P ?P" using le by (rule ud_move.skip)
  have step: "lift_err (\<lambda>_. UdPort PortUnavailable) (ud_on_binding (\<lambda>b. ude_bind E b ?i)) (P\<lparr>pvn_next_identity := next\<rparr>)
      = (map_err (\<lambda>_. UdPort PortUnavailable) y, ?P)"
    using bind by (simp add: lift_err_def ud_on_binding_def)
  show ?thesis
  proof (cases "\<exists>binding. y = Inr binding \<and> \<not> (is_err (binding_validate binding) \<or> lpb_user_data binding \<noteq> ?i \<or> lpb_profile_id binding \<noteq> profile_id)")
    case False
    with assms(1) step have "R = ?P"
      by (cases y) (auto simp: ud_reserve_def and_try_def Let_def)
    with skip show ?thesis by (simp add: r_into_rtranclp)
  next
    case True
    then obtain binding where y: "y = Inr binding"
        "\<not> (is_err (binding_validate binding) \<or> lpb_user_data binding \<noteq> ?i \<or> lpb_profile_id binding \<noteq> profile_id)"
      by blast
    define r where "r = pending_record c operation_id binding ?i"
    have r: "ud_key r = (ctx_instance_id c, operation_id)" "ud_identity r = ?i" "udr_descriptor r = ud_descriptor c operation_id ?i"
      by (simp_all add: r_def)
    obtain z s where ins: "rs_insert (ude_store E) r (pvn_store P) = (z, s)" by (cases "rs_insert (ude_store E) r (pvn_store P)")
    have run: "and_try (ud_on_store (rs_insert (ude_store E) r)) (\<lambda>_ P.
        ud_create_reserved E (ud_key r) binding (udr_descriptor r) (P\<lparr>pvn_records := bm_insert (ud_key r) r (pvn_records P)\<rparr>)) ?P = (x, R)"
      using assms(1) y(2) unfolding ud_reserve_def Let_def and_try_def [of "lift_err _ _"] step y(1)
      by (simp add: r) (simp add: r_def pending_record_def)
    show ?thesis
    proof (cases z)
      case (Inl e)
      with run ins have "R = P\<lparr>pvn_next_identity := next, pvn_launch_profile := b, pvn_store := s\<rparr>"
        by (simp add: and_try_def ud_on_store_def)
      with ud_move.refuse_insert [OF le ins [unfolded Inl], of b] show ?thesis by (simp add: r_into_rtranclp)
    next
      case (Inr u)
      with run ins have "ud_create_reserved E (ud_key r) binding (udr_descriptor r) (reserved r next b s P) = (x, R)"
        by (simp add: and_try_def ud_on_store_def reserved_def)
      moreover have "reserves E P r next s" using ins Inr assms(2,3) by (simp add: reserves_def r)
      ultimately show ?thesis by (rule create_reserved_moves)
    qed
  qed
qed

lemma create_disposable_moves:
  assumes "ud_create_disposable E c operation_id profile_id P = (x, R)"
  shows "(ud_move E)\<^sup>*\<^sup>* P R"
proof (cases "R = P")
  case False
  with assms consider "ud_reconcile E c operation_id P = (x, R)"
    | next' where "bm_get (pvn_records P) (ctx_instance_id c, operation_id) = None"
        "checked_add_u64 (pvn_next_identity P) 1 = Some next'"
        "ud_reserve E c operation_id profile_id (pvn_next_identity P) (P\<lparr>pvn_next_identity := next'\<rparr>) = (x, R)"
    by (auto simp: ud_create_disposable_def user_data_identity_try_new_def and_then_eq_Inr split: sum.splits option.splits if_splits)
  then show ?thesis
    by cases (auto intro: ud_reconcile_moves reserve_moves)
qed simp

lemma ud_step_moves: "ud_step E P R \<Longrightarrow> (ud_move E)\<^sup>*\<^sup>* P R"
  by (cases rule: ud_step.cases) (auto intro: create_disposable_moves ud_reconcile_moves ud_move.restart)

lemma ud_run_moves: "(ud_step E)\<^sup>*\<^sup>* P R \<Longrightarrow> (ud_move E)\<^sup>*\<^sup>* P R"
  by (induction rule: rtranclp_induct) (auto intro: rtranclp_trans ud_step_moves)

section \<open>The port with a log\<close>

datatype ud_event =
    Inspected user_data_identity "user_data_port_error + user_data_inspection"
  | Creating user_data_identity

definition ud_recording :: "('p, 's, 'b) ud_env \<Rightarrow> ('p \<times> ud_event list, 's, 'b) ud_env" where
  "ud_recording E = \<lparr>
     ude_inspect = (\<lambda>p i. case ude_inspect E (fst p) i of (x, q) \<Rightarrow> (x, (q, snd p @ [Inspected i x]))),
     ude_create = (\<lambda>p q. case ude_create E (fst p) q of (x, q') \<Rightarrow>
       (x, (q', snd p @ [Creating (dsc_identity (cre_descriptor q))]))),
     ude_store = ude_store E, ude_bind = ude_bind E\<rparr>"

lemma ud_recording_store [simp]: "ude_store (ud_recording E) = ude_store E"
  by (simp add: ud_recording_def)

abbreviation ud_events :: "('p \<times> ud_event list, 's, 'b) provisioner \<Rightarrow> ud_event list" where
  "ud_events P \<equiv> snd (pvn_port P)"

definition creations :: "ud_event list \<Rightarrow> user_data_identity list" where
  "creations = List.map_filter (\<lambda>e. case e of Creating i \<Rightarrow> Some i | Inspected _ _ \<Rightarrow> None)"

lemma creations_simps [simp]:
  "creations [] = []" "creations (es @ fs) = creations es @ creations fs"
  "creations (Inspected i x # es) = creations es" "creations (Creating i # es) = i # creations es"
  by (simp_all add: creations_def List.map_filter_def)

text \<open>Every creation comes right after an inspection that found its identity absent.\<close>

fun into_absent :: "user_data_identity option \<Rightarrow> ud_event list \<Rightarrow> bool" where
  "into_absent found [] = True"
| "into_absent found (Inspected i x # es) = into_absent (if x = Inr Absent then Some i else None) es"
| "into_absent found (Creating i # es) = (found = Some i \<and> into_absent None es)"

lemma into_absent_snoc:
  "into_absent found (es @ [Inspected i x]) = into_absent found es"
  "into_absent found (es @ [Inspected i (Inr Absent), Creating i]) = into_absent found es"
  by (induction found es rule: into_absent.induct) auto

lemma recorded_inspect:
  "ude_inspect (ud_recording E) p i = (x, q) \<Longrightarrow> snd q = snd p @ [Inspected i x]"
  by (auto simp: ud_recording_def split: prod.splits)

lemma recorded_create:
  "ude_create (ud_recording E) p q = (x, p') \<Longrightarrow> snd p' = snd p @ [Creating (dsc_identity (cre_descriptor q))]"
  by (auto simp: ud_recording_def split: prod.splits)

section \<open>The provisioner over a store\<close>

definition ud_mirrored :: "('s \<Rightarrow> sp_key \<Rightarrow> user_data_record option) \<Rightarrow> ('s \<Rightarrow> bool) \<Rightarrow> ('p, 's, 'b) provisioner \<Rightarrow> bool" where
  "ud_mirrored content good P \<longleftrightarrow> good (pvn_store P) \<and> bm_get (pvn_records P) = content (pvn_store P)
     \<and> (\<forall>k r. bm_get (pvn_records P) k = Some r \<longrightarrow> ud_key r = k)"

definition ud_fresh :: "('p, 's, 'b) provisioner \<Rightarrow> bool" where
  "ud_fresh P \<longleftrightarrow> (\<forall>k r. bm_get (pvn_records P) k = Some r \<longrightarrow> ud_identity r < pvn_next_identity P)
     \<and> (\<forall>k r k' r'. bm_get (pvn_records P) k = Some r \<longrightarrow> bm_get (pvn_records P) k' = Some r'
          \<longrightarrow> ud_identity r = ud_identity r' \<longrightarrow> k = k')"

lemma freshD: "ud_fresh P \<Longrightarrow> bm_get (pvn_records P) k = Some r \<Longrightarrow> ud_identity r < pvn_next_identity P"
  and fresh_unique: "ud_fresh P \<Longrightarrow> bm_get (pvn_records P) k = Some r \<Longrightarrow> bm_get (pvn_records P) k' = Some r'
    \<Longrightarrow> ud_identity r = ud_identity r' \<Longrightarrow> k = k'"
  unfolding ud_fresh_def by blast+

lemma mirrored_good: "ud_mirrored content good P \<Longrightarrow> good (pvn_store P)"
  and mirrored_key: "ud_mirrored content good P \<Longrightarrow> bm_get (pvn_records P) k = Some r \<Longrightarrow> ud_key r = k"
  unfolding ud_mirrored_def by blast+

lemma max_identity_grows: "m \<le> fold (\<lambda>r. max (ud_identity r)) rs m"
  by (induction rs arbitrary: m) (auto intro: order_trans [OF max.cobounded2])

lemma fold_max_mem: "r \<in> set rs \<Longrightarrow> ud_identity r \<le> fold (\<lambda>r. max (ud_identity r)) rs m"
  by (induction rs arbitrary: m) (auto intro: order_trans [OF max.cobounded1 max_identity_grows])

lemma max_identity_ge: "r \<in> set rs \<Longrightarrow> ud_identity r \<le> max_identity rs"
  unfolding max_identity_def by (rule fold_max_mem)

lemma validate_each_distinct:
  "ud_validate_each capacity operations identities rs = Inr u \<Longrightarrow>
    distinct (map ud_identity rs) \<and> set (map ud_identity rs) \<inter> set identities = {}"
proof (induction rs arbitrary: operations identities)
  case (Cons r rs)
  then have "ud_identity r \<notin> set identities"
      and "ud_validate_each capacity (ud_key r # operations) (ud_identity r # identities) rs = Inr u"
    by (auto simp: and_then_eq_Inr split: if_splits)
  with Cons.IH [OF this(2)] show ?case by simp
qed simp

lemma validate_set_distinct: "ud_validate_set rs capacity = Inr u \<Longrightarrow> distinct (map ud_identity rs)"
  by (auto simp: ud_validate_set_def dest: validate_each_distinct split: if_splits)

lemma ud_start_cases:
  assumes "ud_start E capacity p b s = (Inr P, t)"
  obtains rs s' where "rs_open (ude_store E) s = (Inr (), s')" "rs_list (ude_store E) s' = (Inr rs, t)"
    "pvn_store P = t" "pvn_port P = p" "pvn_records P = fold (\<lambda>r. bm_insert (ud_key r) r) rs bm_empty"
    "ud_validate_set rs capacity = Inr ()" "checked_add_u64 (max_identity rs) 1 = Some (pvn_next_identity P)"
  using assms
  by (auto simp: ud_start_def provisioner_new_def and_then_eq_Inr split: if_splits sum.splits elim!: and_try_cases)

lemma recorded_into_absent:
  assumes "ud_move (ud_recording E) P R" and "into_absent None (ud_events P)"
  shows "into_absent None (ud_events R)"
  using assms(1)
proof cases
  case (inspect i x p)
  with recorded_inspect [OF inspect(2)] assms(2) show ?thesis by (simp add: into_absent_snoc)
next
  case (reserve r n s x p b)
  with recorded_inspect [OF reserve(3)] assms(2) show ?thesis by (simp add: reserved_def into_absent_snoc)
next
  case (allocate r n s p q y p' b)
  with recorded_inspect [OF allocate(3)] recorded_create [OF allocate(5)] assms(2) show ?thesis
    by (simp add: reserved_def into_absent_snoc)
next
  case (restart s capacity b t)
  with assms(2) show ?thesis by (auto elim: ud_start_cases)
qed (use assms(2) in simp_all)

locale ud_service = keyed_store st ud_key content good
  for st :: "'s ud_store" and content :: "'s \<Rightarrow> sp_key \<Rightarrow> user_data_record option" and good :: "'s \<Rightarrow> bool" +
  fixes E :: "('p, 's, 'b) ud_env"
  assumes store_is: "ude_store E = st"
begin

lemma failed_starts_keep:
  assumes "(ud_failed_start E)\<^sup>*\<^sup>* s t" and "good s"
  shows "good t \<and> content t = content s"
  using assms
proof (induction rule: rtranclp_induct)
  case (step t u)
  then have t: "good t" by simp
  from step.hyps(2) obtain capacity p b e where start: "ud_start E capacity p b t = (Inl e, u)"
    by (auto simp: ud_failed_start_def)
  have "good u \<and> content u = content t"
    using start unfolding ud_start_def
  proof (cases rule: and_try_cases)
    case (1 e)
    with open_any [OF t] show ?thesis by (simp add: store_is)
  next
    case (2 y v)
    from open_any [OF t] 2(1) have v: "good v" "content v = content t" by (auto simp: store_is)
    from 2(2) v show ?thesis
      by (auto simp: provisioner_new_def store_is dest: list_ok list_err split: if_splits sum.splits elim!: and_try_cases)
  qed
  with step t show ?case by simp
qed simp

lemma restored:
  assumes "good s" and "ud_start E capacity p b s = (Inr P, t)"
  shows "ud_mirrored content good P" and "content (pvn_store P) = content s" and "ud_fresh P"
  using assms(2)
proof (atomize (full), cases rule: ud_start_cases)
  case (1 rs s')
  with open_any [OF assms(1)] have s': "good s'" "content s' = content s" by (auto simp: store_is)
  with 1 list_ok [OF s'(1)] have rs: "distinct (map ud_key rs)" "content s = by_key ud_key rs" "good t" "content t = content s"
    by (auto simp: store_is)
  have get: "bm_get (pvn_records P) = by_key ud_key rs"
    by (rule ext) (simp add: 1 rs(1) fold_insert_records split: option.split)
  have mem: "r \<in> set rs \<and> ud_key r = k" if "bm_get (pvn_records P) k = Some r" for k r
    using that unfolding get by (rule by_key_Some)
  have "ud_identity r < pvn_next_identity P" if "r \<in> set rs" for r
    using max_identity_ge [OF that] checked_add_u64_less [OF 1(7)] by simp
  moreover have "r = r'" if "r \<in> set rs" "r' \<in> set rs" "ud_identity r = ud_identity r'" for r r'
    using that validate_set_distinct [OF 1(6)] by (auto simp: distinct_map inj_on_def)
  ultimately have "ud_fresh P" unfolding ud_fresh_def using mem by metis
  with 1 rs get mem show "ud_mirrored content good P \<and> content (pvn_store P) = content s \<and> ud_fresh P"
    by (simp add: ud_mirrored_def)
qed

lemma reserves_state:
  assumes "reserves E P r next s" and "ud_mirrored content good P"
  shows "good s" and "content (pvn_store P) (ud_key r) = None" and "content s = (content (pvn_store P))(ud_key r \<mapsto> r)"
  using assms insert_ok [OF mirrored_good [OF assms(2)], of r "()" s] by (simp_all add: reserves_def store_is)

lemma reserved_mirrored:
  assumes "reserves E P r next s" and "ud_mirrored content good P"
  shows "ud_mirrored content good (reserved r next b s (P\<lparr>pvn_port := p\<rparr>))"
  using assms(2) reserves_state [OF assms] by (auto simp: ud_mirrored_def reserved_def fun_eq_iff)

lemma reserved_fresh:
  assumes "reserves E P r next s" and "ud_fresh P"
  shows "ud_fresh (reserved r next b s (P\<lparr>pvn_port := p\<rparr>))"
proof -
  have less: "pvn_next_identity P < next" and i: "ud_identity r = pvn_next_identity P"
    using assms(1) by (auto simp: reserves_def dest: checked_add_u64_less)
  have old: "ud_identity r' < pvn_next_identity P" if "bm_get (pvn_records P) k = Some r'" for k r'
    using freshD [OF assms(2) that] .
  show ?thesis
    unfolding ud_fresh_def
  proof (intro conjI allI impI)
    fix k r' assume "bm_get (pvn_records (reserved r next b s (P\<lparr>pvn_port := p\<rparr>))) k = Some r'"
    with old [of k r'] less i show "ud_identity r' < pvn_next_identity (reserved r next b s (P\<lparr>pvn_port := p\<rparr>))"
      by (auto simp: reserved_def split: if_splits)
  next
    fix k r1 k' r2
    assume "bm_get (pvn_records (reserved r next b s (P\<lparr>pvn_port := p\<rparr>))) k = Some r1"
      and "bm_get (pvn_records (reserved r next b s (P\<lparr>pvn_port := p\<rparr>))) k' = Some r2"
      and "ud_identity r1 = ud_identity r2"
    with old [of k r1] old [of k' r2] i fresh_unique [OF assms(2), of k r1 k' r2] show "k = k'"
      by (auto simp: reserved_def split: if_splits)
  qed
qed

lemma ud_move_keeps:
  assumes "ud_move E P R" and "ud_mirrored content good P" and "ud_fresh P"
  shows "ud_mirrored content good R \<and> ud_fresh R"
proof -
  note good = mirrored_good [OF assms(2)]
  from assms(1) show ?thesis
  proof cases
    case (skip n b)
    with assms(2,3) show ?thesis by (auto simp: ud_mirrored_def ud_fresh_def intro: less_le_trans)
  next
    case (refuse_insert n r e s b)
    with insert_err [OF good, of r e s] assms(2,3) show ?thesis
      by (auto simp: ud_mirrored_def ud_fresh_def store_is intro: less_le_trans)
  next
    case (refuse_update r e s)
    with update_err [OF good, of r e s] assms(2,3) show ?thesis
      by (auto simp: ud_mirrored_def ud_fresh_def store_is)
  next
    case (inspect i x p)
    with assms(2,3) show ?thesis by (simp add: ud_mirrored_def ud_fresh_def)
  next
    case (reserve r n s x p b)
    with reserved_mirrored [OF _ assms(2)] reserved_fresh [OF _ assms(3)] show ?thesis by simp
  next
    case (allocate r n s p q y p' b)
    with reserved_mirrored [OF _ assms(2)] reserved_fresh [OF _ assms(3)] show ?thesis by simp
  next
    case (save k r r' s)
    have k: "ud_key r = k" using mirrored_key [OF assms(2) save(2)] .
    have r': "ud_key r' = k" "ud_identity r' = ud_identity r" using save(3) k by (simp_all add: same_allocation_def)
    have "ud_mirrored content good R"
      using update_ok [OF good, of r' "()" s] save(1,4) assms(2) r'(1) by (auto simp: ud_mirrored_def store_is fun_eq_iff)
    moreover have old: "bm_get (pvn_records P) j = Some (if j = k then r else v) \<and> ud_identity (if j = k then r else v) = ud_identity v"
      if "bm_get (pvn_records R) j = Some v" for j v
      using that save(1,2) r'(2) by (auto split: if_splits)
    have "ud_identity v < pvn_next_identity R" if "bm_get (pvn_records R) j = Some v" for j v
      using freshD [OF assms(3) conjunct1 [OF old [OF that]]] conjunct2 [OF old [OF that]] save(1) by simp
    moreover have "j = j'" if "bm_get (pvn_records R) j = Some v" "bm_get (pvn_records R) j' = Some v'" "ud_identity v = ud_identity v'" for j v j' v'
      using old [OF that(1)] old [OF that(2)] that(3) fresh_unique [OF assms(3)] by metis
    ultimately show ?thesis unfolding ud_fresh_def by blast
  next
    case (restart s capacity b t)
    have s: "good s" using failed_starts_keep [OF restart(1) good] by simp
    with restored [OF s restart(2)] show ?thesis by simp
  qed
qed

lemma ud_recording_service: "ud_service st content good (ud_recording E)"
  by unfold_locales (simp add: store_is)

text \<open>An identity that has a record keeps one.\<close>

definition ud_allocated :: "'s \<Rightarrow> user_data_identity set" where
  "ud_allocated s = ud_identity ` ran (content s)"

lemma allocated_update:
  assumes "content t = (content s)(k \<mapsto> r')" and "content s k = Some r" and "ud_identity r' = ud_identity r"
  shows "ud_allocated s \<subseteq> ud_allocated t"
proof
  fix i assume "i \<in> ud_allocated s"
  then obtain j v where v: "content s j = Some v" "i = ud_identity v" by (auto simp: ud_allocated_def ran_def)
  then have "content t j = Some (if j = k then r' else v)" "ud_identity (if j = k then r' else v) = i"
    using assms by auto
  then show "i \<in> ud_allocated t" unfolding ud_allocated_def by (metis imageI ranI)
qed

lemma allocated_insert:
  assumes "content t = (content s)(k \<mapsto> r)" and "content s k = None"
  shows "ud_allocated t = insert (ud_identity r) (ud_allocated s)"
  using assms by (simp add: ud_allocated_def ran_map_upd)

lemma move_allocated:
  assumes "ud_move E P R" and "ud_mirrored content good P"
  shows "ud_allocated (pvn_store P) \<subseteq> ud_allocated (pvn_store R)"
proof -
  note good = mirrored_good [OF assms(2)]
  from assms(1) show ?thesis
  proof cases
    case (refuse_insert n r e s b)
    with insert_err [OF good, of r e s] show ?thesis by (simp add: ud_allocated_def store_is)
  next
    case (refuse_update r e s)
    with update_err [OF good, of r e s] show ?thesis by (simp add: ud_allocated_def store_is)
  next
    case (reserve r n s x p b)
    with allocated_insert [OF reserves_state(3,2) [OF reserve(2) assms(2)]] show ?thesis by (auto simp: reserved_def)
  next
    case (allocate r n s p q y p' b)
    with allocated_insert [OF reserves_state(3,2) [OF allocate(2) assms(2)]] show ?thesis by (auto simp: reserved_def)
  next
    case (save k r r' s)
    have k: "ud_key r = k" using mirrored_key [OF assms(2) save(2)] .
    have r': "ud_key r' = k" "ud_identity r' = ud_identity r" using save(3) k by (simp_all add: same_allocation_def)
    have "content s = (content (pvn_store P))(k \<mapsto> r')"
      using update_ok [OF good, of r' "()" s] save(4) r'(1) by (simp add: store_is)
    from allocated_update [OF this _ r'(2)] save(1,2) assms(2) show ?thesis by (simp add: ud_mirrored_def)
  next
    case (restart s capacity b t)
    have s: "good s" "content s = content (pvn_store P)" using failed_starts_keep [OF restart(1) good] by simp_all
    with restored(2) [OF s(1) restart(2)] show ?thesis by (simp add: ud_allocated_def)
  qed simp_all
qed

lemma recorded_creations:
  assumes "ud_move (ud_recording E) P R" and "ud_mirrored content good P" and "ud_fresh P"
  shows "creations (ud_events R) = creations (ud_events P) \<or> (\<exists>i. creations (ud_events R) = creations (ud_events P) @ [i]
    \<and> i \<notin> ud_allocated (pvn_store P) \<and> i \<in> ud_allocated (pvn_store R))"
  using assms(1)
proof cases
  case (inspect i x p)
  then show ?thesis by (simp add: recorded_inspect)
next
  case (reserve r n s x p b)
  with recorded_inspect [OF reserve(3)] show ?thesis by (simp add: reserved_def)
next
  case (allocate r n s p q y p' b)
  let ?i = "ud_identity r"
  have i: "?i = pvn_next_identity P" using allocate(2) by (simp add: reserves_def)
  note state = ud_service.reserves_state [OF ud_recording_service allocate(2) assms(2)]
  have "?i \<notin> ud_allocated (pvn_store P)"
  proof
    assume "?i \<in> ud_allocated (pvn_store P)"
    then obtain k v where "content (pvn_store P) k = Some v" "?i = ud_identity v" by (auto simp: ud_allocated_def ran_def)
    with freshD [OF assms(3), of k v] i assms(2) show False by (simp add: ud_mirrored_def)
  qed
  moreover have "?i \<in> ud_allocated (pvn_store R)"
    using allocated_insert [OF state(3,2)] by (simp add: allocate(1) reserved_def)
  moreover have "creations (ud_events R) = creations (ud_events P) @ [?i]"
    using recorded_inspect [OF allocate(3)] recorded_create [OF allocate(5)] allocate(4) by (simp add: allocate(1) reserved_def)
  ultimately show ?thesis by blast
next
  case (restart s capacity b t)
  then show ?thesis by (auto elim: ud_start_cases)
qed simp_all

end

sublocale ud_service \<subseteq> allocating: step_invariant "ud_move E" "\<lambda>P. ud_mirrored content good P \<and> ud_fresh P"
  by unfold_locales (use ud_move_keeps in blast)

sublocale ud_service \<subseteq> once: at_most_once "ud_move (ud_recording E)" "\<lambda>P. ud_mirrored content good P \<and> ud_fresh P"
  "\<lambda>P. creations (ud_events P)" "\<lambda>P. ud_allocated (pvn_store P)"
proof unfold_locales
  fix P R
  assume P: "ud_mirrored content good P \<and> ud_fresh P" and move: "ud_move (ud_recording E) P R"
  show "ud_mirrored content good R \<and> ud_fresh R"
    using ud_service.ud_move_keeps [OF ud_recording_service move] P by blast
  show "ud_allocated (pvn_store P) \<subseteq> ud_allocated (pvn_store R)"
    using ud_service.move_allocated [OF ud_recording_service move] P by blast
  show "creations (ud_events R) = creations (ud_events P) \<or> (\<exists>i. creations (ud_events R) = creations (ud_events P) @ [i]
      \<and> i \<notin> ud_allocated (pvn_store P) \<and> i \<in> ud_allocated (pvn_store R))"
    using move P recorded_creations by blast
qed

end
