(* ===== verification/User_Data_Journal.thy ===== *)
theory User_Data_Journal
  imports User_Data_Safety Sql_Journal
begin

text \<open>
  The durable store of the provisioner: the bytes of a record (\<open>provisioning_record.rs\<close>) and the
  transactions of \<open>durable_store.rs\<close> and \<open>durable_store_query.rs\<close> over a SQL connection. The path, the
  lock and the settings of the connection are outside the model, and so is the shape of the schema,
  which \<open>sql_verify\<close> stands for. Over every connection and codec that keep their contracts the store
  is a \<open>keyed_store\<close>, the contract the provisioner relies on.
\<close>

section \<open>Stored records (provisioning_record.rs)\<close>

definition UD_MAX_RECORD_BYTES :: int where "UD_MAX_RECORD_BYTES = 8192"

definition ud_encode :: "(user_data_record, 'b) codec \<Rightarrow> user_data_record \<Rightarrow> user_data_error + 'b" where
  "ud_encode K r =
     and_then (ud_record_validate r) (\<lambda>_.
     and_then (ok_or (to_json K r) UdPersistenceFailed) (\<lambda>bytes.
       if UD_MAX_RECORD_BYTES < json_length K bytes then Inl UdCapacityExceeded else Inr bytes))"

definition ud_decode :: "(user_data_record, 'b) codec \<Rightarrow> 'b \<Rightarrow> user_data_error + user_data_record" where
  "ud_decode K bytes =
     (if UD_MAX_RECORD_BYTES < json_length K bytes then Inl UdPersistenceFailed
      else and_then (ok_or (from_json K bytes) UdPersistenceFailed) (\<lambda>r.
        and_then (map_err (\<lambda>_. UdPersistenceFailed) (ud_encode K r)) (\<lambda>again.
          if again \<noteq> bytes then Inl UdPersistenceFailed else Inr r)))"

definition ud_validate_update :: "user_data_record \<Rightarrow> user_data_record \<Rightarrow> user_data_error + unit" where
  "ud_validate_update previous next =
     and_then (ud_record_validate next) (\<lambda>_.
       if udr_context previous \<noteq> udr_context next
          \<or> udr_operation_id previous \<noteq> udr_operation_id next
          \<or> udr_launch_profile previous \<noteq> udr_launch_profile next
          \<or> ud_identity previous \<noteq> ud_identity next
          \<or> dsc_provenance (udr_descriptor previous) \<noteq> dsc_provenance (udr_descriptor next)
          \<or> (dsc_baseline (udr_descriptor previous) \<noteq> None
               \<and> dsc_baseline (udr_descriptor previous) \<noteq> dsc_baseline (udr_descriptor next))
          \<or> (udr_status next = AllocPending \<and> previous \<noteq> next)
          \<or> (udr_status previous = AllocBlocked \<and> previous \<noteq> next)
       then Inl UdOperationConflict else Inr ())"

section \<open>The queries (durable_store_query.rs)\<close>

abbreviation udb :: "('c \<Rightarrow> 'a option \<times> 'c) \<Rightarrow> ('c, 'u) journal \<Rightarrow> (user_data_error + 'a) \<times> ('c, 'u) journal" where
  "udb \<equiv> sql_step UdPersistenceFailed"

definition ud_validate_owner_row :: "('b, 'c) sql \<Rightarrow> ('c, 'u) journal \<Rightarrow> (user_data_error + unit) \<times> ('c, 'u) journal" where
  "ud_validate_owner_row Q =
     and_try (udb (sql_owners Q)) (\<lambda>stored.
       pure (ensure (length stored \<le> 1 \<and> list_all (\<lambda>tok. length tok = 16) stored) UdPersistenceFailed))"

primrec ud_decode_rows :: "(user_data_record, 'b) codec \<Rightarrow> 'b row list \<Rightarrow> user_data_error + user_data_record list" where
  "ud_decode_rows K [] = Inr []"
| "ud_decode_rows K (row # rows) =
     (case row of (instance_id, operation_id, body) \<Rightarrow>
       if json_length K body \<notin> {1..UD_MAX_RECORD_BYTES}
          \<or> length instance_id \<notin> {1..128} \<or> length operation_id \<notin> {1..128} then Inl UdPersistenceFailed
       else and_then (ud_decode K body) (\<lambda>r.
         if instance_id \<noteq> ctx_instance_id (udr_context r) \<or> operation_id \<noteq> udr_operation_id r
         then Inl UdPersistenceFailed
         else and_then (ud_decode_rows K rows) (\<lambda>rs. Inr (r # rs))))"

definition ud_read_records :: "('b, 'c) sql \<Rightarrow> (user_data_record, 'b) codec \<Rightarrow> ('c, 'u) journal
    \<Rightarrow> (user_data_error + user_data_record list) \<times> ('c, 'u) journal" where
  "ud_read_records Q K =
     and_try (udb (sql_count Q)) (\<lambda>count.
       if MAX_ALLOCATIONS < count then pure (Inl UdCapacityExceeded)
       else and_try (udb (sql_by_key Q)) (\<lambda>rows.
         pure (and_then (ud_decode_rows K rows) (\<lambda>records.
           and_then (ud_validate_set records MAX_ALLOCATIONS) (\<lambda>_. Inr records)))))"

definition ud_verify_write :: "('b, 'c) sql \<Rightarrow> user_data_record \<Rightarrow> 'b \<Rightarrow> ('c, 'u) journal
    \<Rightarrow> (user_data_error + unit) \<times> ('c, 'u) journal" where
  "ud_verify_write Q r bytes =
     and_try (udb (sql_body Q (ud_key r))) (\<lambda>actual. pure (ensure (actual = bytes) UdPersistenceFailed))"

section \<open>The store (durable_store.rs)\<close>

definition ud_ensure_token :: "('b, 'c) sql \<Rightarrow> token \<Rightarrow> ('c, 'u) journal \<Rightarrow> (user_data_error + unit) \<times> ('c, 'u) journal" where
  "ud_ensure_token Q tok =
     and_try (udb (sql_verify Q)) (\<lambda>_.
     and_try (udb (sql_owners Q)) (\<lambda>counted.
       if length counted \<noteq> 1 then pure (Inl UdPersistenceFailed)
       else and_try (udb (sql_owners Q)) (\<lambda>stored.
         pure (case filter (\<lambda>tok. length tok = 16) stored of
                 [] \<Rightarrow> Inl UdPersistenceFailed
               | owner # _ \<Rightarrow> ensure (owner = tok) UdOperationConflict))))"

definition ud_row :: "user_data_record \<Rightarrow> 'b \<Rightarrow> 'b row" where
  "ud_row r bytes = (ctx_instance_id (udr_context r), udr_operation_id r, bytes)"

definition ud_journal_list :: "('b, 'c) sql \<Rightarrow> (user_data_record, 'b) codec \<Rightarrow> ('c, 'u) journal
    \<Rightarrow> (user_data_error + user_data_record list) \<times> ('c, 'u) journal" where
  "ud_journal_list Q K s = transact Q UdPersistenceFailed
     (and_try (ud_ensure_token Q (jn_token s)) (\<lambda>_. ud_read_records Q K)) s"

definition ud_insert_row :: "('b, 'c) sql \<Rightarrow> user_data_record \<Rightarrow> 'b \<Rightarrow> user_data_record list \<Rightarrow> ('c, 'u) journal
    \<Rightarrow> (user_data_error + unit) \<times> ('c, 'u) journal" where
  "ud_insert_row Q r bytes records =
     (if list_ex (\<lambda>old. ud_identity old = ud_identity r
           \<or> (ctx_instance_id (udr_context old) = ctx_instance_id (udr_context r)
              \<and> udr_operation_id old = udr_operation_id r)) records then pure (Inl UdOperationConflict)
      else if MAX_ALLOCATIONS \<le> length records then pure (Inl UdCapacityExceeded)
      else and_try (udb (sql_insert Q (ud_row r bytes))) (\<lambda>changed.
        if changed = 0 then pure (Inl UdOperationConflict) else ud_verify_write Q r bytes))"

definition ud_journal_insert :: "('b, 'c) sql \<Rightarrow> (user_data_record, 'b) codec \<Rightarrow> user_data_record \<Rightarrow> ('c, 'u) journal
    \<Rightarrow> (user_data_error + unit) \<times> ('c, 'u) journal" where
  "ud_journal_insert Q K r s =
     (case ud_encode K r of
        Inl e \<Rightarrow> (Inl e, s)
      | Inr bytes \<Rightarrow>
          if udr_status r \<noteq> AllocPending then (Inl UdInvalidRequest, s)
          else transact Q UdPersistenceFailed
            (and_try (ud_ensure_token Q (jn_token s)) (\<lambda>_. and_try (ud_read_records Q K) (ud_insert_row Q r bytes))) s)"

definition ud_update_row :: "('b, 'c) sql \<Rightarrow> user_data_record \<Rightarrow> 'b \<Rightarrow> user_data_record list \<Rightarrow> ('c, 'u) journal
    \<Rightarrow> (user_data_error + unit) \<times> ('c, 'u) journal" where
  "ud_update_row Q r bytes records =
     (case find (\<lambda>old. ctx_instance_id (udr_context old) = ctx_instance_id (udr_context r)
             \<and> udr_operation_id old = udr_operation_id r) records of
        None \<Rightarrow> pure (Inl UdOperationNotFound)
      | Some previous \<Rightarrow>
          and_try (pure (ud_validate_update previous r)) (\<lambda>_.
          and_try (udb (sql_update Q (ud_row r bytes))) (\<lambda>changed.
            if changed = 0 then pure (Inl UdOperationNotFound) else ud_verify_write Q r bytes)))"

definition ud_journal_update :: "('b, 'c) sql \<Rightarrow> (user_data_record, 'b) codec \<Rightarrow> user_data_record \<Rightarrow> ('c, 'u) journal
    \<Rightarrow> (user_data_error + unit) \<times> ('c, 'u) journal" where
  "ud_journal_update Q K r s =
     (case ud_encode K r of
        Inl e \<Rightarrow> (Inl e, s)
      | Inr bytes \<Rightarrow>
          transact Q UdPersistenceFailed
            (and_try (ud_ensure_token Q (jn_token s)) (\<lambda>_. and_try (ud_read_records Q K) (ud_update_row Q r bytes))) s)"

definition ud_journal_open :: "('b, 'c) sql \<Rightarrow> (user_data_record, 'b) codec \<Rightarrow> ('u \<Rightarrow> token \<times> 'u) \<Rightarrow> ('c, 'u) journal
    \<Rightarrow> (user_data_error + unit) \<times> ('c, 'u) journal" where
  "ud_journal_open Q K new_uuid s =
     (case new_uuid (jn_uuids s) of (tok, u) \<Rightarrow>
        and_try (udb (sql_configure Q)) (\<lambda>_.
          transact Q UdPersistenceFailed
            (and_try (udb (sql_initialize Q)) (\<lambda>_.
             and_try (udb (sql_verify Q)) (\<lambda>_.
             and_try (ud_validate_owner_row Q) (\<lambda>_.
             and_try (ud_read_records Q K) (\<lambda>_.
             and_try (udb (sql_own Q tok)) (\<lambda>_. ud_ensure_token Q tok)))))))
          (s\<lparr>jn_token := tok, jn_uuids := u\<rparr>))"

definition user_data_store :: "('b, 'c) sql \<Rightarrow> (user_data_record, 'b) codec \<Rightarrow> ('u \<Rightarrow> token \<times> 'u) \<Rightarrow> ('c, 'u) journal ud_store" where
  "user_data_store Q K new_uuid = \<lparr>rs_open = ud_journal_open Q K new_uuid, rs_list = ud_journal_list Q K,
     rs_insert = ud_journal_insert Q K, rs_update = ud_journal_update Q K\<rparr>"

section \<open>Rows and the records they hold\<close>

definition ud_row_holds :: "(user_data_record, 'b) codec \<Rightarrow> 'b row \<Rightarrow> user_data_record \<Rightarrow> bool" where
  "ud_row_holds K row r \<longleftrightarrow> json_length K (row_body row) \<in> {1..UD_MAX_RECORD_BYTES}
     \<and> length (fst (row_key row)) \<in> {1..128} \<and> length (snd (row_key row)) \<in> {1..128}
     \<and> ud_decode K (row_body row) = Inr r \<and> ud_key r = row_key row"

lemma ud_row_holds_key: "ud_row_holds K row r \<Longrightarrow> ud_key r = row_key row"
  by (simp add: ud_row_holds_def)

lemma ud_row_holds_unique: "ud_row_holds K row r \<Longrightarrow> ud_row_holds K row r' \<Longrightarrow> r = r'"
  by (simp add: ud_row_holds_def)

lemma ud_decode_rows_Inr: "ud_decode_rows K rows = Inr rs \<longleftrightarrow> list_all2 (ud_row_holds K) rows rs"
proof (induction rows arbitrary: rs)
  case (Cons row rows)
  obtain i p b where row: "row = (i, p, b)" by (cases row) auto
  have "ud_decode_rows K (row # rows) = Inr rs \<longleftrightarrow>
      (\<exists>r ts. ud_row_holds K row r \<and> ud_decode_rows K rows = Inr ts \<and> rs = r # ts)"
    by (cases "ud_decode K b") (auto simp: row ud_row_holds_def ud_key_def and_then_eq_Inr)
  with Cons.IH show ?case by (auto simp: list_all2_Cons1)
qed auto

declare ud_decode_rows.simps [simp del]

definition ud_good :: "(user_data_record, 'b) codec \<Rightarrow> 'b row list \<Rightarrow> bool" where
  "ud_good K rows \<longleftrightarrow> list_all (\<lambda>row. \<not> is_err (ud_decode_rows K [row])) rows \<and> distinct (map row_key rows)"

definition ud_content :: "(user_data_record, 'b) codec \<Rightarrow> 'b row list \<Rightarrow> sp_key \<Rightarrow> user_data_record option" where
  "ud_content K rows k = (case map_of (map (\<lambda>row. (row_key row, row_body row)) rows) k of
     None \<Rightarrow> None
   | Some b \<Rightarrow> (case ud_decode K b of Inl _ \<Rightarrow> None | Inr r \<Rightarrow> Some r))"

lemma ud_good_row: "\<not> is_err (ud_decode_rows K [row]) \<longleftrightarrow> (\<exists>r. ud_row_holds K row r)"
proof
  assume "\<not> is_err (ud_decode_rows K [row])"
  then obtain rs where "ud_decode_rows K [row] = Inr rs" by (cases "ud_decode_rows K [row]") simp_all
  then show "\<exists>r. ud_row_holds K row r" by (auto simp: ud_decode_rows_Inr list_all2_Cons1)
next
  assume "\<exists>r. ud_row_holds K row r"
  then obtain r where "ud_decode_rows K [row] = Inr [r]" by (auto simp: ud_decode_rows_Inr)
  then show "\<not> is_err (ud_decode_rows K [row])" by simp
qed

lemma ud_goodI: "(\<And>row. row \<in> set rows \<Longrightarrow> \<exists>r. ud_row_holds K row r) \<Longrightarrow> distinct (map row_key rows) \<Longrightarrow> ud_good K rows"
  by (simp add: ud_good_def list_all_iff ud_good_row)

lemma ud_goodD: "ud_good K rows \<Longrightarrow> row \<in> set rows \<Longrightarrow> \<exists>r. ud_row_holds K row r"
  by (simp add: ud_good_def list_all_iff ud_good_row)

lemma ud_content_Some:
  assumes "ud_good K rows"
  shows "ud_content K rows k = Some r \<longleftrightarrow> (\<exists>row \<in> set rows. row_key row = k \<and> ud_row_holds K row r)"
proof -
  have dist: "distinct (map fst (map (\<lambda>row. (row_key row, row_body row)) rows))"
    using assms by (simp add: ud_good_def comp_def)
  show ?thesis
  proof
    assume "ud_content K rows k = Some r"
    then obtain b where b: "map_of (map (\<lambda>row. (row_key row, row_body row)) rows) k = Some b" "ud_decode K b = Inr r"
      by (auto simp: ud_content_def split: option.splits sum.splits)
    from map_of_SomeD [OF b(1)] obtain row where row: "row \<in> set rows" "row_key row = k" "row_body row = b" by auto
    from ud_goodD [OF assms row(1)] obtain r' where "ud_row_holds K row r'" by blast
    with b(2) row show "\<exists>row \<in> set rows. row_key row = k \<and> ud_row_holds K row r" by (auto simp: ud_row_holds_def)
  next
    assume "\<exists>row \<in> set rows. row_key row = k \<and> ud_row_holds K row r"
    then obtain row where row: "row \<in> set rows" "row_key row = k" "ud_row_holds K row r" by blast
    have "map_of (map (\<lambda>row. (row_key row, row_body row)) rows) k = Some (row_body row)"
      using row(1,2) by (intro map_of_is_SomeI [OF dist]) auto
    with row(3) show "ud_content K rows k = Some r" by (simp add: ud_content_def ud_row_holds_def)
  qed
qed

lemma ud_content_None:
  assumes "ud_good K rows"
  shows "ud_content K rows k = None \<longleftrightarrow> k \<notin> set (map row_key rows)"
proof
  assume none: "ud_content K rows k = None"
  show "k \<notin> set (map row_key rows)"
  proof
    assume "k \<in> set (map row_key rows)"
    then obtain row where "row \<in> set rows" "row_key row = k" by auto
    with ud_goodD [OF assms] have "\<exists>r. ud_content K rows k = Some r" unfolding ud_content_Some [OF assms] by blast
    with none show False by simp
  qed
next
  assume "k \<notin> set (map row_key rows)"
  then have "\<nexists>r. ud_content K rows k = Some r" unfolding ud_content_Some [OF assms] by auto
  then show "ud_content K rows k = None" by simp
qed

lemma ud_content_decoded:
  assumes "ud_good K rows" and "list_all2 (ud_row_holds K) rows' rs" and "length rows' = length rows" and "set rows' = set rows"
  shows "distinct (map ud_key rs)" and "ud_content K rows = by_key ud_key rs"
proof -
  have "map ud_key rs = map row_key rows'"
    using assms(2) by (induction rule: list_all2_induct) (simp_all add: ud_row_holds_def)
  moreover have "distinct (map row_key rows')"
  proof -
    have rows: "distinct rows" "inj_on row_key (set rows)" using assms(1) by (simp_all add: ud_good_def distinct_map)
    have "distinct rows'" using assms(3,4) rows(1) by (metis card_distinct distinct_card)
    with rows(2) assms(4) show ?thesis by (simp add: distinct_map)
  qed
  ultimately show dist: "distinct (map ud_key rs)" by simp
  have mem: "r \<in> set rs \<longleftrightarrow> (\<exists>row \<in> set rows. ud_row_holds K row r)" for r
  proof
    assume "r \<in> set rs"
    with assms(2) show "\<exists>row \<in> set rows. ud_row_holds K row r"
      unfolding assms(4) [symmetric] by (metis (no_types, lifting) in_set_conv_nth list_all2_conv_all_nth)
  next
    assume "\<exists>row \<in> set rows. ud_row_holds K row r"
    then obtain row where row: "row \<in> set rows'" "ud_row_holds K row r" unfolding assms(4) by blast
    then obtain r' where "r' \<in> set rs" "ud_row_holds K row r'"
      using assms(2) by (metis (no_types, lifting) in_set_conv_nth list_all2_conv_all_nth)
    with row(2) ud_row_holds_unique show "r \<in> set rs" by metis
  qed
  show "ud_content K rows = by_key ud_key rs"
  proof
    fix k
    have "by_key ud_key rs k = Some r \<longleftrightarrow> r \<in> set rs \<and> ud_key r = k" for r
      using by_key_Some [of ud_key rs k r] by_key_mem [OF dist, of r] by auto
    moreover have "ud_content K rows k = Some r \<longleftrightarrow> r \<in> set rs \<and> ud_key r = k" for r
      unfolding ud_content_Some [OF assms(1)] mem by (metis ud_row_holds_key)
    ultimately show "ud_content K rows k = by_key ud_key rs k" by (metis not_Some_eq)
  qed
qed

lemma ud_insert_content:
  assumes "ud_good K rows" and "ud_row_holds K row r" and "ud_content K rows (ud_key r) = None"
  shows "ud_good K (row # rows)" and "ud_content K (row # rows) = (ud_content K rows)(ud_key r \<mapsto> r)"
proof -
  have key: "row_key row = ud_key r" using assms(2) by (simp add: ud_row_holds_def)
  with ud_content_None [OF assms(1)] assms(3) have new: "row_key row \<notin> set (map row_key rows)" by simp
  show good: "ud_good K (row # rows)"
  proof (rule ud_goodI)
    show "\<exists>r. ud_row_holds K x r" if "x \<in> set (row # rows)" for x
      using that assms(2) ud_goodD [OF assms(1), of x] by (metis set_ConsD)
    show "distinct (map row_key (row # rows))" using new assms(1) by (simp add: ud_good_def)
  qed
  show "ud_content K (row # rows) = (ud_content K rows)(ud_key r \<mapsto> r)"
    using assms(2) key by (auto simp: ud_content_def ud_row_holds_def fun_eq_iff)
qed

lemma ud_update_content:
  assumes "ud_good K rows" and "ud_row_holds K row r" and "ud_content K rows (ud_key r) \<noteq> None"
  shows "ud_good K (set_body row rows)" and "ud_content K (set_body row rows) = (ud_content K rows)(ud_key r \<mapsto> r)"
proof -
  have key: "row_key row = ud_key r" using assms(2) by (simp add: ud_row_holds_def)
  have keys: "map row_key (set_body row rows) = map row_key rows" by (simp add: set_body_def)
  have mem: "x \<in> set (set_body row rows) \<longleftrightarrow> (x = row \<and> row_key row \<in> set (map row_key rows)) \<or> (x \<in> set rows \<and> row_key x \<noteq> row_key row)" for x
  proof -
    have "x \<in> set (set_body row rows) \<longleftrightarrow> (\<exists>old \<in> set rows. x = (if row_key old = row_key row then row else old))"
      unfolding set_body_def set_map image_iff ..
    moreover have "row_key row \<in> set (map row_key rows) \<longleftrightarrow> (\<exists>old \<in> set rows. row_key old = row_key row)"
      unfolding set_map image_iff by metis
    ultimately show ?thesis by metis
  qed
  show good: "ud_good K (set_body row rows)"
  proof (rule ud_goodI)
    show "\<exists>r. ud_row_holds K x r" if "x \<in> set (set_body row rows)" for x
      using that assms(2) ud_goodD [OF assms(1)] unfolding mem by blast
    show "distinct (map row_key (set_body row rows))" unfolding keys using assms(1) by (simp add: ud_good_def)
  qed
  have held: "row_key row \<in> set (map row_key rows)" using assms(3) ud_content_None [OF assms(1)] key by simp
  show "ud_content K (set_body row rows) = (ud_content K rows)(ud_key r \<mapsto> r)"
  proof
    fix k
    have "ud_content K (set_body row rows) k = Some v \<longleftrightarrow> ((ud_content K rows)(ud_key r \<mapsto> r)) k = Some v" for v
    proof (cases "k = ud_key r")
      case True
      have "ud_content K (set_body row rows) k = Some v \<longleftrightarrow> ud_row_holds K row v"
        unfolding ud_content_Some [OF good] Bex_def mem using True key held by metis
      also have "\<dots> \<longleftrightarrow> v = r" using assms(2) ud_row_holds_unique by metis
      finally show ?thesis using True by auto
    next
      case False
      have "ud_content K (set_body row rows) k = Some v \<longleftrightarrow> ud_content K rows k = Some v"
        unfolding ud_content_Some [OF good] ud_content_Some [OF assms(1)] Bex_def mem using False key by auto
      with False show ?thesis by simp
    qed
    then show "ud_content K (set_body row rows) k = ((ud_content K rows)(ud_key r \<mapsto> r)) k" by (metis not_Some_eq)
  qed
qed

section \<open>The store over a connection\<close>

locale user_data_journal = sql_connection Q table saved + json_codec K
  for Q :: "('b, 'c) sql" and table saved :: "'c \<Rightarrow> 'b row list" and K :: "(user_data_record, 'b) codec" +
  assumes something_written: "to_json K r = Some b \<Longrightarrow> 1 \<le> json_length K b"
begin

lemma ud_decode_encode:
  assumes "ud_encode K r = Inr b"
  shows "ud_decode K b = Inr r"
proof -
  have b: "to_json K r = Some b" "\<not> UD_MAX_RECORD_BYTES < json_length K b"
    using assms by (auto simp: ud_encode_def and_then_eq_Inr split: if_splits)
  with reads_back assms show ?thesis by (simp add: ud_decode_def)
qed

lemma ud_row_written:
  assumes "ud_encode K r = Inr b"
  shows "ud_row_holds K (ud_row r b) r"
proof -
  have b: "to_json K r = Some b" "json_length K b \<le> UD_MAX_RECORD_BYTES" and valid: "ud_record_validate r = Inr ()"
    using assms by (auto simp: ud_encode_def and_then_eq_Inr not_less split: if_splits)
  from valid have c: "context_validate (udr_context r) = Inr ()" "ud_validate_operation_id (udr_operation_id r) = Inr ()"
    by (auto simp: ud_record_validate_def ud_validate_request_def and_then_eq_Inr)
  from c(1) have "length (ctx_instance_id (udr_context r)) \<in> {1..128}"
    by (auto simp: context_validate_def SAVE_PROFILE_MAX_IDENTITY_BYTES_def dest: valid_identity_length split: if_splits)
  moreover have "length (udr_operation_id r) \<in> {1..128}"
    using c(2) by (cases "udr_operation_id r") (auto simp: ud_validate_operation_id_def SAVE_PROFILE_MAX_OPERATION_BYTES_def ensure_def split: if_splits)
  ultimately show ?thesis
    using b something_written [OF b(1)] ud_decode_encode [OF assms] by (simp add: ud_row_holds_def ud_row_def ud_key_def)
qed

lemma within_ensure_token: "within (ud_ensure_token Q tok) (\<lambda>_ u v. v = u)"
  unfolding ud_ensure_token_def
proof (intro within_try)
  show "within (udb (sql_verify Q)) (\<lambda>_ u v. v = u)"
    by (rule within_unchanged_step) (rule verifies)
  show "within (udb (sql_owners Q)) (\<lambda>_ u v. v = u)"
    by (rule within_unchanged_step) (rule owners)
  show "within (if length counted \<noteq> 1 then pure (Inl UdPersistenceFailed)
      else and_try (udb (sql_owners Q)) (\<lambda>stored. pure (case filter (\<lambda>tok. length tok = 16) stored of
        [] \<Rightarrow> Inl UdPersistenceFailed | owner # _ \<Rightarrow> ensure (owner = tok) UdOperationConflict))) (\<lambda>_ u v. v = u)"
    for counted :: "token list"
    by (intro within_if within_fail within_try [OF within_unchanged_step [OF owners] within_pure [where R = "\<lambda>_ u v. v = u"]]) auto
qed auto

lemma ud_within_read:
  "within (ud_read_records Q K) (\<lambda>rs u v. v = u \<and> (\<exists>rows. length rows = length u \<and> set rows = set u \<and> list_all2 (ud_row_holds K) rows rs))"
  unfolding ud_read_records_def
proof (rule within_try)
  let ?R = "\<lambda>rs u v. v = u \<and> (\<exists>rows. length rows = length u \<and> set rows = set u \<and> list_all2 (ud_row_holds K) rows rs)"
  show "within (udb (sql_count Q)) (\<lambda>_ u v. v = u)"
    by (rule within_unchanged_step) (rule counts)
  show "within (if MAX_ALLOCATIONS < n then pure (Inl UdCapacityExceeded)
      else and_try (udb (sql_by_key Q)) (\<lambda>rows. pure (and_then (ud_decode_rows K rows) (\<lambda>records.
        and_then (ud_validate_set records MAX_ALLOCATIONS) (\<lambda>_. Inr records))))) ?R" for n
  proof (intro within_if within_fail within_try)
    show "within (udb (sql_by_key Q)) (\<lambda>rows u v. v = u \<and> length rows = length u \<and> set rows = set u)"
      by (rule within_step) (blast dest: reads_by_key by_key_order)+
    show "within (pure (and_then (ud_decode_rows K rows) (\<lambda>records. and_then (ud_validate_set records MAX_ALLOCATIONS) (\<lambda>_. Inr records))))
        (\<lambda>rs u v. v = u \<and> list_all2 (ud_row_holds K) rows rs)" for rows
      by (rule within_pure) (auto simp: and_then_eq_Inr ud_decode_rows_Inr)
  qed blast
qed blast

lemma ud_within_transaction:
  assumes "\<And>rs. within (f rs) (R rs)"
  shows "within (and_try (ud_ensure_token Q tok) (\<lambda>_. and_try (ud_read_records Q K) f))
     (\<lambda>a u v. \<exists>rs rows. length rows = length u \<and> set rows = set u \<and> list_all2 (ud_row_holds K) rows rs \<and> R rs a u v)"
    (is "within _ ?T")
  by (rule within_try [OF within_ensure_token within_try [OF ud_within_read assms, where T = ?T]]) blast+

lemma ud_within_written:
  fixes f :: "'c \<Rightarrow> nat option \<times> 'c"
  assumes "within (udb f :: ('c, 'u) journal \<Rightarrow> _) (\<lambda>changed u v. changed \<noteq> 0 \<longrightarrow> R u v)"
  shows "within (and_try (udb f :: ('c, 'u) journal \<Rightarrow> _) (\<lambda>changed. if changed = 0 then pure (Inl e) else ud_verify_write Q r b)) (\<lambda>_. R)"
proof (rule within_try [OF assms])
  have verify: "within (ud_verify_write Q r b :: ('c, 'u) journal \<Rightarrow> _) (\<lambda>_ u v. v = u)"
    unfolding ud_verify_write_def
    by (rule within_try [OF within_unchanged_step [OF reads_body] within_pure [where R = "\<lambda>_ u v. v = u"]]) auto
  show "within (if changed = 0 then pure (Inl e) else ud_verify_write Q r b :: ('c, 'u) journal \<Rightarrow> _) (\<lambda>_ u v. changed \<noteq> 0 \<and> v = u)"
    for changed :: nat
    by (intro within_if within_fail) (use verify in \<open>simp add: within_def\<close>)
qed simp

lemma within_insert:
  "within (ud_insert_row Q r b rs) (\<lambda>_ u v. v = ud_row r b # u \<and> ud_key r \<notin> ud_key ` set rs)"
proof -
  have "within (udb (sql_insert Q (ud_row r b))) (\<lambda>changed u v. changed \<noteq> 0 \<longrightarrow> v = ud_row r b # u)"
    by (rule within_step) (auto dest: inserts)
  note written = ud_within_written [OF this, of UdOperationConflict r b]
  show ?thesis
    unfolding ud_insert_row_def
    by (intro within_if within_fail; rule within_weaken [OF written]) (auto simp: list_ex_iff ud_key_def)
qed

lemma within_update:
  "within (ud_update_row Q r b rs) (\<lambda>_ u v. v = set_body (ud_row r b) u \<and> ud_key r \<in> ud_key ` set rs)"
proof (cases "find (\<lambda>old. ctx_instance_id (udr_context old) = ctx_instance_id (udr_context r) \<and> udr_operation_id old = udr_operation_id r) rs")
  case None
  then show ?thesis by (simp add: ud_update_row_def within_fail)
next
  case (Some previous)
  then have key: "ud_key r \<in> ud_key ` set rs"
    by (auto simp: ud_key_def find_Some_iff intro!: image_eqI [of _ _ previous])
  have "within (udb (sql_update Q (ud_row r b))) (\<lambda>changed u v. changed \<noteq> 0 \<longrightarrow> v = set_body (ud_row r b) u)"
    by (rule within_step) (auto dest: updates)
  note written = ud_within_written [OF this, of UdOperationNotFound r b]
  have "within (pure (ud_validate_update previous r)) (\<lambda>_ u v. v = u)"
    by (rule within_pure) simp
  from within_try [OF this written, where T = "\<lambda>_ u v. v = set_body (ud_row r b) u"] key show ?thesis
    by (auto simp: ud_update_row_def Some intro: within_weaken)
qed

text \<open>What a computation did to the saved rows, by its result.\<close>

lemma transaction_cases:
  assumes "within body R" and "transact Q e body s = (x, t)"
  obtains y where "x = Inl y" "saved_rows t = saved_rows s" | a where "x = Inr a" "R a (saved_rows s) (saved_rows t)"
proof (cases x)
  case (Inl y)
  with assms transact_keeps [OF assms(1)] that(1) show ?thesis by simp
next
  case (Inr a)
  with assms transact_commits [OF assms(1)] that(2) show ?thesis by simp
qed

lemma ud_open_rows:
  fixes s :: "('c, 'u) journal"
  assumes "ud_journal_open Q K new_uuid s = (x, t)"
  shows "saved_rows t = saved_rows s"
proof -
  obtain tok u where uuid: "new_uuid (jn_uuids s) = (tok, u)" by (cases "new_uuid (jn_uuids s)")
  let ?body = "and_try (udb (sql_initialize Q)) (\<lambda>_. and_try (udb (sql_verify Q)) (\<lambda>_. and_try (ud_validate_owner_row Q) (\<lambda>_.
    and_try (ud_read_records Q K) (\<lambda>_. and_try (udb (sql_own Q tok)) (\<lambda>_. ud_ensure_token Q tok))))) :: ('c, 'u) journal \<Rightarrow> _"
  note same = within_try [where T = "\<lambda>_ u v. v = u" and R = "\<lambda>_ u v. v = u" and S = "\<lambda>_ _ u v. v = u"]
  have row: "within (ud_validate_owner_row Q) (\<lambda>_ u v. v = u)"
    unfolding ud_validate_owner_row_def by (intro same within_unchanged_step [OF owners] within_pure) auto
  have read: "within (ud_read_records Q K) (\<lambda>_ u v. v = u)"
    by (rule within_weaken [OF ud_within_read]) blast
  have body: "within ?body (\<lambda>_ u v. v = u)"
    by (intro same within_unchanged_step [OF initializes] within_unchanged_step [OF verifies] row read
        within_unchanged_step [OF owns] within_ensure_token) auto
  have "and_try (udb (sql_configure Q)) (\<lambda>_. transact Q UdPersistenceFailed ?body) (s\<lparr>jn_token := tok, jn_uuids := u\<rparr>) = (x, t)"
    using assms uuid by (simp add: ud_journal_open_def)
  then show ?thesis
  proof (cases rule: and_try_cases)
    case (1 e)
    then show ?thesis by (auto elim!: sql_step_cases dest: configure)
  next
    case (2 a v)
    have v: "saved_rows v = saved_rows s" using 2(1) by (auto elim!: sql_step_cases dest: configure)
    from body 2(2) show ?thesis by (rule transaction_cases) (simp_all add: v)
  qed
qed

lemma ud_list_rows:
  assumes "ud_journal_list Q K s = (x, t)"
  obtains e where "x = Inl e" "saved_rows t = saved_rows s"
  | rs rows where "x = Inr rs" "saved_rows t = saved_rows s" "length rows = length (saved_rows s)"
      "set rows = set (saved_rows s)" "list_all2 (ud_row_holds K) rows rs"
proof -
  have "within (and_try (ud_ensure_token Q (jn_token s)) (\<lambda>_. ud_read_records Q K))
      (\<lambda>rs u v. v = u \<and> (\<exists>rows. length rows = length u \<and> set rows = set u \<and> list_all2 (ud_row_holds K) rows rs))"
    by (rule within_try [OF within_ensure_token ud_within_read]) simp
  from this assms [unfolded ud_journal_list_def] show ?thesis
    by (rule transaction_cases) (use that in blast)+
qed

lemma ud_insert_law:
  assumes "ud_good K (saved_rows s)" and "ud_journal_insert Q K r s = (x, t)"
  obtains e where "x = Inl e" "saved_rows t = saved_rows s"
  | "x = Inr ()" "ud_good K (saved_rows t)" "ud_content K (saved_rows s) (ud_key r) = None"
      "ud_content K (saved_rows t) = (ud_content K (saved_rows s))(ud_key r \<mapsto> r)"
proof (cases "ud_encode K r")
  case (Inl e)
  with assms(2) that(1) show ?thesis by (auto simp: ud_journal_insert_def)
next
  case (Inr b)
  show ?thesis
  proof (cases "udr_status r = AllocPending")
    case True
    with assms(2) Inr have "transact Q UdPersistenceFailed (and_try (ud_ensure_token Q (jn_token s))
        (\<lambda>_. and_try (ud_read_records Q K) (ud_insert_row Q r b))) s = (x, t)"
      by (simp add: ud_journal_insert_def)
    with ud_within_transaction [where f = "ud_insert_row Q r b", OF within_insert] show ?thesis
    proof (rule transaction_cases)
      fix a assume x: "x = Inr a" and "\<exists>rs rows. length rows = length (saved_rows s) \<and> set rows = set (saved_rows s)
          \<and> list_all2 (ud_row_holds K) rows rs \<and> saved_rows t = ud_row r b # saved_rows s \<and> ud_key r \<notin> ud_key ` set rs"
      then obtain rs rows where rs: "length rows = length (saved_rows s)" "set rows = set (saved_rows s)"
          "list_all2 (ud_row_holds K) rows rs" and t: "saved_rows t = ud_row r b # saved_rows s" and new: "ud_key r \<notin> ud_key ` set rs"
        by blast
      have none: "ud_content K (saved_rows s) (ud_key r) = None"
        using new unfolding ud_content_decoded(2) [OF assms(1) rs(3,1,2)] by_key_None .
      show ?thesis
        using that(2) x none ud_insert_content [OF assms(1) ud_row_written [OF Inr] none] by (simp add: t)
    qed (use that(1) in blast)
  qed (use assms(2) Inr that(1) in \<open>auto simp: ud_journal_insert_def\<close>)
qed

lemma ud_update_law:
  assumes "ud_good K (saved_rows s)" and "ud_journal_update Q K r s = (x, t)"
  obtains e where "x = Inl e" "saved_rows t = saved_rows s"
  | "x = Inr ()" "ud_good K (saved_rows t)" "ud_content K (saved_rows s) (ud_key r) \<noteq> None"
      "ud_content K (saved_rows t) = (ud_content K (saved_rows s))(ud_key r \<mapsto> r)"
proof (cases "ud_encode K r")
  case (Inl e)
  with assms(2) that(1) show ?thesis by (auto simp: ud_journal_update_def)
next
  case (Inr b)
  with assms(2) have "transact Q UdPersistenceFailed (and_try (ud_ensure_token Q (jn_token s))
      (\<lambda>_. and_try (ud_read_records Q K) (ud_update_row Q r b))) s = (x, t)"
    by (simp add: ud_journal_update_def)
  with ud_within_transaction [where f = "ud_update_row Q r b", OF within_update] show ?thesis
  proof (rule transaction_cases)
    fix a assume x: "x = Inr a" and "\<exists>rs rows. length rows = length (saved_rows s) \<and> set rows = set (saved_rows s)
        \<and> list_all2 (ud_row_holds K) rows rs \<and> saved_rows t = set_body (ud_row r b) (saved_rows s) \<and> ud_key r \<in> ud_key ` set rs"
    then obtain rs rows where rs: "length rows = length (saved_rows s)" "set rows = set (saved_rows s)"
        "list_all2 (ud_row_holds K) rows rs" and t: "saved_rows t = set_body (ud_row r b) (saved_rows s)" and held: "ud_key r \<in> ud_key ` set rs"
      by blast
    have some: "ud_content K (saved_rows s) (ud_key r) \<noteq> None"
      using held unfolding ud_content_decoded(2) [OF assms(1) rs(3,1,2)] by_key_None by simp
    show ?thesis
      using that(2) x some ud_update_content [OF assms(1) ud_row_written [OF Inr] some] by (simp add: t)
  qed (use that(1) in blast)
qed

end

text \<open>The store keeps the contract the provisioner relies on.\<close>

sublocale user_data_journal \<subseteq> store: keyed_store "user_data_store Q K new_uuid" ud_key
    "\<lambda>s. ud_content K (saved (jn_connection s))" "\<lambda>s. ud_good K (saved (jn_connection s))"
  for new_uuid :: "'u \<Rightarrow> token \<times> 'u"
proof (unfold_locales, goal_cases)
  case (1 s y t)
  then show ?case using ud_open_rows [of new_uuid s y t] by (simp add: user_data_store_def)
next
  case (2 s rs t)
  from 2(2) have "ud_journal_list Q K s = (Inr rs, t)" by (simp add: user_data_store_def)
  then show ?case
    by (rule ud_list_rows) (use 2(1) ud_content_decoded [OF 2(1)] in auto)
next
  case (3 s e t)
  from 3(2) have "ud_journal_list Q K s = (Inl e, t)" by (simp add: user_data_store_def)
  then show ?case by (rule ud_list_rows) (use 3(1) in auto)
next
  case (4 s r u t)
  from 4(2) have "ud_journal_insert Q K r s = (Inr u, t)" by (simp add: user_data_store_def)
  with 4(1) show ?case by (rule ud_insert_law) simp_all
next
  case (5 s r e t)
  from 5(2) have "ud_journal_insert Q K r s = (Inl e, t)" by (simp add: user_data_store_def)
  with 5(1) show ?case by (rule ud_insert_law) (use 5(1) in simp_all)
next
  case (6 s r u t)
  from 6(2) have "ud_journal_update Q K r s = (Inr u, t)" by (simp add: user_data_store_def)
  with 6(1) show ?case by (rule ud_update_law) simp_all
next
  case (7 s r e t)
  from 7(2) have "ud_journal_update Q K r s = (Inl e, t)" by (simp add: user_data_store_def)
  with 7(1) show ?case by (rule ud_update_law) (use 7(1) in simp_all)
qed

end
