(* ===== verification/User_Data_Properties.thy ===== *)
theory User_Data_Properties
  imports User_Data_Journal
begin

text \<open>
  The properties of the user-data provisioner, over every allocation port and every record store that
  keeps its contract, and its instance over the stores and adapters in memory.
\<close>

definition ud_in_memory :: "(user_data_memory, ud_memory_store, binding_memory) ud_env" where
  "ud_in_memory = \<lparr>ude_inspect = udm_inspect, ude_create = udm_create, ude_store = ud_memory, ude_bind = bnm_bind_disposable\<rparr>"

interpretation ud_memory_service: ud_service ud_memory bm_get "keyed_map ud_key" ud_in_memory
  unfolding ud_memory_def by unfold_locales (simp add: ud_in_memory_def ud_memory_def)

text \<open>The provisioner on its durable store, over tables in memory.\<close>

interpretation ud_table_journal: user_data_journal table_sql tb_rows saved_table "plain_codec (\<lambda>_. 1)"
  by unfold_locales (simp add: plain_codec_def)

definition ud_on_tables :: "('u \<Rightarrow> token \<times> 'u)
    \<Rightarrow> (user_data_memory, (user_data_record tables, 'u) journal, binding_memory) ud_env" where
  "ud_on_tables new_uuid = \<lparr>ude_inspect = udm_inspect, ude_create = udm_create,
     ude_store = user_data_store table_sql (plain_codec (\<lambda>_. 1)) new_uuid, ude_bind = bnm_bind_disposable\<rparr>"

interpretation ud_table_service: ud_service "user_data_store table_sql (plain_codec (\<lambda>_. 1)) new_uuid"
    "\<lambda>s. ud_content (plain_codec (\<lambda>_. 1)) (saved_table (jn_connection s))"
    "\<lambda>s. ud_good (plain_codec (\<lambda>_. 1)) (saved_table (jn_connection s))" "ud_on_tables new_uuid"
  for new_uuid :: "'u \<Rightarrow> token \<times> 'u"
  by unfold_locales (simp add: ud_on_tables_def)

context ud_service
begin

lemmas created_once = once.run_distinct
lemmas allocations_kept = allocating.run_keeps

end

lemma ud_serviceI: "keyed_store (ude_store E) ud_key content good \<Longrightarrow> ud_service (ude_store E) content good E"
  by (simp add: ud_service_def ud_service_axioms_def)

section \<open>An allocation\<close>

definition ud_demo_context :: save_profile_context where
  "ud_demo_context = \<lparr>ctx_instance_id = ''i'', ctx_caller_id = ''c'', ctx_session_id = ''s'', ctx_lease_id = ''l'',
     ctx_lease_epoch = 1, ctx_correlation_id = ''x''\<rparr>"

definition ud_demo_env :: "(user_data_memory \<times> ud_event list, ud_memory_store, binding_memory) ud_env" where
  "ud_demo_env = ud_recording ud_in_memory"

definition ud_demo_started :: "(user_data_memory \<times> ud_event list, ud_memory_store, binding_memory) provisioner" where
  "ud_demo_started = projr (fst (ud_start ud_demo_env 2 (user_data_memory_new, []) \<lparr>bnm_refusals = [], bnm_calls = []\<rparr> bm_empty))"

text \<open>Two operations allocate, and the first is asked for again.\<close>

definition ud_demo_allocate :: "string \<Rightarrow> (user_data_memory \<times> ud_event list, ud_memory_store, binding_memory) provisioner
    \<Rightarrow> (user_data_memory \<times> ud_event list, ud_memory_store, binding_memory) provisioner" where
  "ud_demo_allocate operation_id P = snd (ud_create_disposable ud_demo_env ud_demo_context operation_id LAUNCH_PROFILE_ID P)"

definition ud_demo_allocated :: "(user_data_memory \<times> ud_event list, ud_memory_store, binding_memory) provisioner" where
  "ud_demo_allocated = ud_demo_allocate ''a'' (ud_demo_allocate ''b'' (ud_demo_allocate ''a'' ud_demo_started))"

lemma ud_demo_start:
  "ud_start (ud_recording ud_in_memory) 2 (user_data_memory_new, []) \<lparr>bnm_refusals = [], bnm_calls = []\<rparr> bm_empty
     = (Inr ud_demo_started, snd (ud_start ud_demo_env 2 (user_data_memory_new, []) \<lparr>bnm_refusals = [], bnm_calls = []\<rparr> bm_empty))"
proof -
  have "\<not> isl (fst (ud_start ud_demo_env 2 (user_data_memory_new, []) \<lparr>bnm_refusals = [], bnm_calls = []\<rparr> bm_empty))"
    by code_simp
  then show ?thesis by (simp add: ud_demo_started_def prod_eq_iff flip: ud_demo_env_def)
qed

lemma ud_demo_run: "(ud_step (ud_recording ud_in_memory))\<^sup>*\<^sup>* ud_demo_started ud_demo_allocated"
proof -
  have step: "ud_step ud_demo_env P (ud_demo_allocate operation_id P)" for operation_id P
    unfolding ud_demo_allocate_def by (rule ud_step.create, rule prod.collapse [symmetric])
  show ?thesis
    unfolding ud_demo_allocated_def ud_demo_env_def [symmetric]
    by (rule rtranclp.rtrancl_into_rtrancl [OF rtranclp.rtrancl_into_rtrancl [OF r_into_rtranclp]]) (rule step)+
qed

lemma ud_demo_contract: "keyed_store (ude_store ud_in_memory) ud_key bm_get (keyed_map ud_key)"
  using ud_memory_service.keyed_store_axioms by (simp add: ud_in_memory_def)

lemma ud_demo_creations: "creations (ud_events ud_demo_allocated) = [1, 2]"
  by code_simp

section \<open>Properties\<close>

text \<open>
  C24. User data is created at most once per identity. Over every allocation port, every launch-profile
  binding and every record store that holds what it acknowledges, along any sequence of creations,
  reconciliations and restarts on the same store, no identity is handed to the port's \<open>create\<close> twice.
\<close>

theorem user_data_created_once:
  assumes "keyed_store (ude_store E) ud_key content good" and "good s"
    and "ud_start (ud_recording E) capacity (p, []) b s = (Inr P, t)" and "(ud_step (ud_recording E))\<^sup>*\<^sup>* P R"
  shows "distinct (creations (ud_events R))"
proof -
  from assms(1) have service: "ud_service (ude_store E) content good E" by (rule ud_serviceI)
  have "ud_mirrored content good P \<and> ud_fresh P"
    using ud_service.restored [OF ud_service.ud_recording_service [OF service] assms(2,3)] by simp
  moreover have "ud_events P = []" using assms(3) by (auto elim: ud_start_cases)
  ultimately show ?thesis
    using ud_service.created_once [OF service ud_run_moves [OF assms(4)]] by simp
qed

theorem user_data_created_once_witness: "distinct (creations (ud_events ud_demo_allocated))"
  using user_data_created_once [OF ud_demo_contract _ ud_demo_start ud_demo_run] by (simp add: keyed_map_def)

text \<open>
  C16. Nothing existing is adopted or overwritten. Along every such run each call of the port's \<open>create\<close>
  comes immediately after an inspection of the same identity that found it absent.
\<close>

theorem user_data_only_into_absent:
  assumes "ud_start (ud_recording E) capacity (p, []) b s = (Inr P, t)" and "(ud_step (ud_recording E))\<^sup>*\<^sup>* P R"
  shows "into_absent None (ud_events R)"
proof -
  have "into_absent None (ud_events P)" using assms(1) by (auto elim: ud_start_cases)
  moreover have "into_absent None (ud_events R)" if "(ud_move (ud_recording E))\<^sup>*\<^sup>* P R" "into_absent None (ud_events P)" for P R
    using that by (induction rule: rtranclp_induct) (auto intro: recorded_into_absent)
  ultimately show ?thesis using ud_run_moves [OF assms(2)] by blast
qed

theorem user_data_only_into_absent_witness:
  "into_absent None (ud_events ud_demo_allocated)"
  by (rule user_data_only_into_absent [OF ud_demo_start ud_demo_run])

text \<open>
  The records of a provisioner have pairwise different identities: no two operations share user data.
\<close>

theorem user_data_identities_exclusive:
  assumes "keyed_store (ude_store E) ud_key content good" and "good s"
    and "ud_start E capacity p b s = (Inr P, t)" and "(ud_step E)\<^sup>*\<^sup>* P R"
    and "ud_operation R i q = Some r" and "ud_operation R j q' = Some r'" and "ud_identity r = ud_identity r'"
  shows "(i, q) = (j, q')"
proof -
  from assms(1) have service: "ud_service (ude_store E) content good E" by (rule ud_serviceI)
  have "ud_mirrored content good P \<and> ud_fresh P" using ud_service.restored [OF service assms(2,3)] by simp
  with ud_service.allocations_kept [OF service ud_run_moves [OF assms(4)]] have "ud_fresh R" by blast
  from fresh_unique [OF this assms(5,6) [unfolded ud_operation_def] assms(7)] show ?thesis .
qed

end
