(* ===== verification/Spec2Isabelle.thy ===== *)
theory Spec2Isabelle
  imports Control_Plane_Properties Coop_Session Runtime_V2_Properties Seeded_Run_Properties
    Process_Lifecycle_Properties Process_Supervisor_Properties Save_Profile_Properties User_Data_Properties
begin

text \<open>
  Verification of the sts2 gateway (\<open>src/crates/gateway\<close>): a control plane in front of game hosts. It
  allocates host instances and fences them with leases, forwards fixed routes, keeps ledgers of
  operations whose effect must happen at most once, and coordinates the processes of the instances.

  \<^bold>\<open>The parts and how they interact.\<close> A client allocates an instance from the control plane and gets
  a lease; every later call carries a proof that the lease fence checks. Calls that change the game
  go through a ledger (runtime-v2 actions, seeded-run starts), which retains the request before it
  forwards it and checkpoints itself so that a restart neither repeats nor forgets an effect.
  Processes are started, attached, stopped and restarted by the lifecycle coordinator, which records
  every operation in a store before it touches the process port and which rotates an authority epoch
  at every restart of a process. Ports (clock, process, readiness, transport, lease decision, host
  forwarding, checkpoint, record store) are injected: they are records of functions on a state of
  their own, and every theorem holds for all of them unless it names what it needs.

  \<^bold>\<open>Shared theories.\<close>
  \<^item> \<open>Gateway_Prelude\<close>: machine integers and results; \<open>bmap\<close>, the ordered map behind every \<open>BTreeMap\<close>
    (locale \<open>ordered_map\<close>); the contracts \<open>step_invariant\<close>, \<open>step_monotone\<close> and \<open>at_most_once\<close>, which every
    component interprets on its own step relation.
  \<^item> \<open>Gateway_Effects\<close>: state-passing effects with the source's \<open>?\<close> (\<open>and_try\<close>), calls whose result is
    inspected (\<open>and_use\<close>), and their triples.
  \<^item> \<open>Gateway_Identity\<close> (\<open>identity.rs\<close>): identifiers, leases, proofs and the fence (locale
    \<open>lease_fence\<close>, implemented by \<open>evaluate_fence\<close>).

  \<^bold>\<open>Control plane\<close> (\<open>lib.rs\<close>, \<open>control.rs\<close>, \<open>forwarding.rs\<close>, \<open>maintenance.rs\<close>, \<open>fencing.rs\<close>,
  \<open>lifecycle.rs\<close>, \<open>config.rs\<close>, \<open>ports.rs\<close>): \<open>Control_Plane\<close> has \<open>Gateway\<close> as the record \<open>gateway\<close> and one
  definition per operation; \<open>Control_Plane_Frame\<close> and \<open>Control_Plane_Safety\<close> hold what each operation
  may change and the step relation; \<open>Control_Plane_Properties\<close> shows that leases are unique and never
  reused, that forwarding reaches only the fenced instance, and what each operation does on every
  branch (C1 and following).

  \<^bold>\<open>Co-op sessions\<close> (\<open>coop_session.rs\<close>): \<open>Coop_Session\<close> has the peer ledger, the convergence of its
  generation and the gate for mutations.

  \<^bold>\<open>Runtime-v2\<close> (\<open>runtime_v2/\<close>): \<open>Runtime_V2_Contract\<close> (messages, validation, digests),
  \<open>Runtime_V2_Binding\<close> (authority, recovery contract, identity fence), \<open>Runtime_V2_Ledger\<close> (the ledger),
  \<open>Runtime_V2_Safety\<close>, \<open>Runtime_V2_Steps\<close>, \<open>Runtime_V2_Recovery\<close> (invariants, steps and restarts) and
  \<open>Runtime_V2_Properties\<close>: at-most-once dispatch across restarts, exact dispatch conditions, valid
  replies, replay and conflict, round trip of the persisted state, final results, and the evidence
  of settled results, which also holds after the restore of any persisted state (\<open>v2_open_step\<close>).

  \<^bold>\<open>Seeded runs\<close> (\<open>seeded_run/\<close>): \<open>Seeded_Run_Contract\<close>, \<open>Seeded_Run_Ledger\<close>, \<open>Seeded_Run_Safety\<close>,
  \<open>Seeded_Run_Recovery\<close>, \<open>Seeded_Run_Properties\<close>, with the same plan as runtime-v2 and two findings
  about answers the ledger accepts but cannot restore or settle.

  \<^bold>\<open>Process lifecycle\<close> (\<open>process_profile.rs\<close>, \<open>process_identity.rs\<close>, \<open>process_store.rs\<close>,
  \<open>process_ownership.rs\<close>, \<open>process_store_memory.rs\<close>, \<open>process_operation_generation.rs\<close>,
  \<open>process_lifecycle.rs\<close> and its submodules):
  \<^item> \<open>Process_Profile\<close>: launch profiles, their catalog (locale \<open>profile_catalog\<close>), process identities.
  \<^item> \<open>Process_Store\<close>: operations, ownership rows, generation keys, the store interface (locale
    \<open>mirrored_store\<close>: a write that was acknowledged is held, one that failed changed nothing) and the
    in-memory store, which implements it.
  \<^item> \<open>Process_Lifecycle\<close>, \<open>Process_Lifecycle_Actions\<close>: the coordinator, every method with its store
    writes and port calls in order; \<open>lifecycle_new\<close> also returns the store a failed start leaves.
  \<^item> \<open>Process_Lifecycle_Logic\<close>: a program logic for these methods. Locale \<open>lifecycle_logic\<close> takes an
    invariant \<open>I\<close> and a predicate \<open>C p\<close> that holds while operation \<open>p\<close> is worked on, and shows once that
    every method ends in \<open>I\<close>; \<open>lifecycle_replay\<close> and \<open>lifecycle_service\<close>
    (\<open>Process_Lifecycle_Service\<close>) extend it to retained operations and to the entry points.
  \<^item> Its instances: launches (\<open>Process_Lifecycle_Safety\<close>, \<open>Process_Lifecycle_Steps\<close>, which also has
    start-up and the step relation \<open>lc_step\<close>), authority epochs (\<open>Process_Lifecycle_Service\<close>,
    \<open>Process_Lifecycle_Authority\<close>), terminal records, confirmed stops and the record bound
    (\<open>Process_Lifecycle_Invariants\<close>), sequence numbers and process slots (\<open>Process_Lifecycle_Capacity\<close>).
  \<^item> \<open>Process_Lifecycle_Properties\<close>: at most one launch per operation, dead epochs stay dead, terminal
    records are final, no blind stops, capacity, the current operation is the newest one that was not
    rejected, the coordinator refines its store, stops complete, and a finding about foreign
    identities.

  \<^bold>\<open>Process port, supervisor and adapter\<close> (\<open>ports.rs\<close>, \<open>process_supervisor*.rs\<close>,
  \<open>process_adapter.rs\<close>): \<open>Process_Port\<close> has the trait \<open>ProcessPort\<close> with its default methods, the
  contracts \<open>process_ledger\<close>, \<open>lookup_ledger\<close> and \<open>faithful_port\<close>, and \<open>traced_port\<close>, which observes any
  port without changing it. \<open>Process_Supervisor\<close> has the supervisor, with the invariants it keeps over a
  port that meets these contracts; \<open>Process_Adapter\<close> has the approved launch profile adapter, itself a
  port, and the proof that it meets them. \<open>Process_Supervisor_Properties\<close> puts the two together: no
  orphaned process, only approved starts, exclusive namespaces.

  \<^bold>\<open>Save profiles\<close> (\<open>save_profile/\<close>):
  \<^item> \<open>Record_Store\<close>: the record store of ledger and provisioner and its contracts (locale
    \<open>keyed_store\<close>: an acknowledged write is held, a refused one changes nothing; \<open>newest_first_store\<close>: the
    records are listed newest first), implemented by the \<open>BTreeMap\<close> stores in memory.
  \<^item> \<open>Sql_Journal\<close>: SQL connections and JSON codecs as parameters with their contracts (locales
    \<open>sql_connection\<close>, \<open>json_codec\<close>), transactions over them, and a table in memory that meets them.
  \<^item> \<open>Save_Profile_Contract\<close>, \<open>Save_Profile_Ledger\<close>: the wire contract and the operation ledger;
    \<open>Save_Profile_Safety\<close> (its moves over a store that keeps the contract, at-most-once forwarding, one
    open selection) and \<open>Save_Profile_Restart\<close> (what a restart reads from a journal);
    \<open>Save_Profile_Journal\<close>: the durable store, a \<open>newest_first_store\<close> over every connection;
    \<open>Save_Profile_Properties\<close>: the three properties over all ports and stores.
  \<^item> \<open>User_Data_Provisioning\<close>: the allocation of isolated user data; \<open>User_Data_Safety\<close>: identities are
    never shared and each is created at most once; \<open>User_Data_Journal\<close>: its durable store, a
    \<open>keyed_store\<close> over every connection; \<open>User_Data_Properties\<close>: created once, and only where nothing is.
  A crash inside an operation is a run in which the port answered and the store refused the write that
  follows, followed by a restart: the step relations quantify over all ports and stores, so the
  properties hold for it.

  \<^bold>\<open>Bounds and termination.\<close> No definition uses fuel: loops are structural recursions over finite
  lists or maps, so every operation returns a result. Rust's \<open>u64\<close> is \<open>64 word\<close> with the checked and
  saturating additions of the source; \<open>usize\<close> counters of collections are \<open>nat\<close>.

  \<^bold>\<open>Not modelled.\<close> The HTTP binary (\<open>bin/runtime_support\<close>), which is glue over sockets, JSON and the
  operating system around the ledgers; the SQLite and native implementations of the ports
  (\<open>process_store_sqlite*\<close>, \<open>process_native*\<close>, \<open>recovery_store*\<close>), whose behaviour lies in rusqlite,
  systemd and the file system; the schema checks, lock files and directories of the save profiles
  (\<open>operation_schema.rs\<close>, \<open>durable_store_schema.rs\<close>, \<open>user_data_files*.rs\<close>, \<open>coordinator_lock.rs\<close>); the artifact verifiers (\<open>protocol_artifact.rs\<close>,
  \<open>runtime_v2_artifact*.rs\<close>), which compare files by digest; and the repository policy tool. JSON
  encoding and SHA-256 are parameters of the wire contracts.
\<close>

end
